(* ===== verification/Prelude.thy ===== *)
theory Prelude
  imports Main "HOL-Library.AList"
begin

text \<open>
  Shared vocabulary of the development.

  A thrown exception is a value of type \<open>err\<close>; a fallible computation returns
  \<open>'a res\<close>, a sum whose left side is the exception. Code that also reads and
  writes shared state is an \<open>('s, 'a) act\<close>: a function from the state to a result and
  the state left behind, where the state survives an exception exactly as the writes
  made before a JavaScript \<open>throw\<close> do.

  The collections \<open>act_simps\<close> (equations that run an action) and
  \<open>row_simps\<close> (reads after writes on a row) carry most of the component proofs.
\<close>

named_theorems act_simps "unfolding equations for actions"
named_theorems row_simps "field reads after field writes"

section \<open>Errors and results\<close>

datatype err =
    Throw string             \<comment> \<open>\<open>throw new Error(message)\<close>, \<open>CinaAuthError\<close>\<close>
  | TypeError                \<comment> \<open>raised by the language (property of undefined, not a function)\<close>
  | APIError string string   \<comment> \<open>\<open>APIError.from(status, code)\<close>\<close>
  | OutOfFuel                \<comment> \<open>the bound on retries is used up: the code would still be running\<close>

type_synonym 'a res = "err + 'a"

definition bindR :: "'a res \<Rightarrow> ('a \<Rightarrow> 'b res) \<Rightarrow> 'b res" where
  "bindR m f = (case m of Inl e \<Rightarrow> Inl e | Inr x \<Rightarrow> f x)"

lemma bindR_simps [simp, act_simps]:
  "bindR (Inl e) f = Inl e"
  "bindR (Inr x) f = f x"
  by (simp_all add: bindR_def)

lemma bindR_Inr_iff: "bindR m f = Inr y \<longleftrightarrow> (\<exists>x. m = Inr x \<and> f x = Inr y)"
  by (cases m) auto

text \<open>Running a fallible function over a list, stopping at the first exception.\<close>

fun mapR :: "('a \<Rightarrow> 'b res) \<Rightarrow> 'a list \<Rightarrow> 'b list res" where
  "mapR f [] = Inr []"
| "mapR f (x # xs) = bindR (f x) (\<lambda>y. bindR (mapR f xs) (\<lambda>ys. Inr (y # ys)))"

fun filterR :: "('a \<Rightarrow> bool res) \<Rightarrow> 'a list \<Rightarrow> 'a list res" where
  "filterR f [] = Inr []"
| "filterR f (x # xs) =
     bindR (f x) (\<lambda>b. bindR (filterR f xs) (\<lambda>ys. Inr (if b then x # ys else ys)))"

lemma filterR_total:
  "(\<And>x. x \<in> set xs \<Longrightarrow> f x = Inr (p x)) \<Longrightarrow> filterR f xs = Inr (filter p xs)"
  by (induction xs) auto

lemma filterR_Inr_iff:
  "filterR f xs = Inr ys \<longleftrightarrow>
     (\<forall>x \<in> set xs. isl (f x) = False) \<and> ys = filter (\<lambda>x. f x = Inr True) xs"
proof (induction xs arbitrary: ys)
  case Nil
  then show ?case by auto
next
  case (Cons x xs)
  then show ?case by (cases "f x") (auto simp: bindR_Inr_iff)
qed

lemma filterR_cong:
  "(\<And>x. x \<in> set xs \<Longrightarrow> f x = g x) \<Longrightarrow> filterR f xs = filterR g xs"
  by (induction xs) auto

section \<open>Actions on a shared state\<close>

type_synonym ('s, 'a) act = "'s \<Rightarrow> 'a res \<times> 's"

definition returnA :: "'a \<Rightarrow> ('s, 'a) act" where
  "returnA x s = (Inr x, s)"

definition throwA :: "err \<Rightarrow> ('s, 'a) act" where
  "throwA e s = (Inl e, s)"

definition bindA :: "('s, 'a) act \<Rightarrow> ('a \<Rightarrow> ('s, 'b) act) \<Rightarrow> ('s, 'b) act" where
  "bindA m f s = (case m s of (Inl e, t) \<Rightarrow> (Inl e, t) | (Inr x, t) \<Rightarrow> f x t)"

text \<open>\<open>catchA m h\<close> is \<open>try { m } catch (e) { h(e) }\<close>: the writes of \<open>m\<close> stay.\<close>

definition catchA :: "('s, 'a) act \<Rightarrow> (err \<Rightarrow> ('s, 'a) act) \<Rightarrow> ('s, 'a) act" where
  "catchA m h s = (case m s of (Inl e, t) \<Rightarrow> h e t | (Inr x, t) \<Rightarrow> (Inr x, t))"

definition liftR :: "'a res \<Rightarrow> ('s, 'a) act" where
  "liftR r s = (r, s)"

lemmas act_defs = returnA_def throwA_def bindA_def catchA_def liftR_def

lemma returnA_app [simp, act_simps]: "returnA x s = (Inr x, s)"
  by (simp add: returnA_def)

lemma throwA_app [simp, act_simps]: "throwA e s = (Inl e, s)"
  by (simp add: throwA_def)

lemma liftR_app [simp, act_simps]: "liftR r s = (r, s)"
  by (simp add: liftR_def)

lemma bindA_return [simp, act_simps]: "bindA (returnA x) f s = f x s"
  by (simp add: bindA_def)

lemma bindA_throw [simp, act_simps]: "bindA (throwA e) f s = (Inl e, s)"
  by (simp add: bindA_def)

lemma bindA_lift [simp, act_simps]:
  "bindA (liftR (Inr x)) f s = f x s"
  "bindA (liftR (Inl e)) f s = (Inl e, s)"
  by (simp_all add: bindA_def)

lemma bindA_ok [act_simps]: "m s = (Inr x, t) \<Longrightarrow> bindA m f s = f x t"
  by (simp add: bindA_def)

lemma bindA_err [act_simps]: "m s = (Inl e, t) \<Longrightarrow> bindA m f s = (Inl e, t)"
  by (simp add: bindA_def)

lemma bindA_cases:
  assumes "bindA m f s = (r, t)"
  obtains (err) e where "m s = (Inl e, t)" "r = Inl e"
        | (ok) x u where "m s = (Inr x, u)" "f x u = (r, t)"
proof (cases "m s")
  case (Pair a b)
  show ?thesis
  proof (cases a)
    case (Inl e)
    with Pair assms err[of e] show ?thesis by (simp add: bindA_def)
  next
    case (Inr x)
    with Pair assms ok[of x b] show ?thesis by (simp add: bindA_def)
  qed
qed

lemma bindA_Inr_iff:
  "bindA m f s = (Inr y, t) \<longleftrightarrow> (\<exists>x u. m s = (Inr x, u) \<and> f x u = (Inr y, t))"
  by (auto simp: bindA_def split: prod.splits sum.splits)

lemma bindA_assoc: "bindA (bindA m f) g = bindA m (\<lambda>x. bindA (f x) g)"
  by (rule ext) (auto simp: bindA_def split: prod.splits sum.splits)

text \<open>Running an action on each element in turn.\<close>

fun mapA :: "('a \<Rightarrow> ('s, 'b) act) \<Rightarrow> 'a list \<Rightarrow> ('s, 'b list) act" where
  "mapA f [] = returnA []"
| "mapA f (x # xs) = bindA (f x) (\<lambda>y. bindA (mapA f xs) (\<lambda>ys. returnA (y # ys)))"

text \<open>
  \<open>Promise.all\<close>: every action runs, one after the other here; the result is the first error.
\<close>

definition bothA :: "('s, unit) act \<Rightarrow> ('s, unit) act \<Rightarrow> ('s, unit) act" where
  "bothA m n s = (case m s of (r, t) \<Rightarrow> case n t of (r', u) \<Rightarrow> ((case r of Inl e \<Rightarrow> Inl e | Inr _ \<Rightarrow> r'), u))"

fun promise_all :: "('a \<Rightarrow> ('s, unit) act) \<Rightarrow> 'a list \<Rightarrow> ('s, unit) act" where
  "promise_all f [] = returnA ()"
| "promise_all f (x # xs) = bothA (f x) (promise_all f xs)"

lemma bothA_ok [act_simps]: "m s = (Inr (), t) \<Longrightarrow> bothA m n s = n t"
  by (cases "n t") (simp add: bothA_def)

text \<open>A state predicate kept by both parts of a sequence is kept by the sequence.\<close>

definition keeps :: "('s \<Rightarrow> bool) \<Rightarrow> ('s, 'a) act \<Rightarrow> bool" where
  "keeps P m \<longleftrightarrow> (\<forall>s. P s \<longrightarrow> P (snd (m s)))"

lemma keepsI [intro?]: "(\<And>s. P s \<Longrightarrow> P (snd (m s))) \<Longrightarrow> keeps P m"
  by (simp add: keeps_def)

lemma keepsD: "keeps P m \<Longrightarrow> P s \<Longrightarrow> m s = (r, t) \<Longrightarrow> P t"
  by (metis keeps_def snd_conv)

lemma keeps_return [simp, intro]: "keeps P (returnA x)"
  by (simp add: keeps_def)

lemma keeps_throw [simp, intro]: "keeps P (throwA e)"
  by (simp add: keeps_def)

lemma keeps_lift [simp, intro]: "keeps P (liftR r)"
  by (simp add: keeps_def)

lemma keeps_bind [intro]: "keeps P m \<Longrightarrow> (\<And>x. keeps P (f x)) \<Longrightarrow> keeps P (bindA m f)"
  by (auto simp: keeps_def bindA_def split: prod.split sum.split dest: spec)

lemma keeps_catch [intro]: "keeps P m \<Longrightarrow> (\<And>e. keeps P (h e)) \<Longrightarrow> keeps P (catchA m h)"
  by (auto simp: keeps_def catchA_def split: prod.split sum.split dest: spec)

text \<open>Through the control structures.\<close>

lemma keeps_if: "(b \<Longrightarrow> keeps P m) \<Longrightarrow> (\<not> b \<Longrightarrow> keeps P n) \<Longrightarrow> keeps P (if b then m else n)"
  by simp

lemma keeps_option:
  "(c = None \<Longrightarrow> keeps P m) \<Longrightarrow> (\<And>x. c = Some x \<Longrightarrow> keeps P (f x)) \<Longrightarrow> keeps P (case c of None \<Rightarrow> m | Some x \<Rightarrow> f x)"
  by (cases c) simp_all

lemma keeps_prod: "(\<And>a b. c = (a, b) \<Longrightarrow> keeps P (f a b)) \<Longrightarrow> keeps P (case c of (a, b) \<Rightarrow> f a b)"
  by (cases c) simp

lemmas keeps_intros = keeps_bind keeps_catch keeps_if keeps_option keeps_prod keeps_return keeps_throw keeps_lift

section \<open>Lists\<close>

lemma filter_map_same:
  "(\<And>x. x \<in> set xs \<Longrightarrow> p (f x) = q x) \<Longrightarrow> filter p (map f xs) = map f (filter q xs)"
  by (induction xs) auto

lemma length_filter_split:
  "length xs = length (filter p xs) + length (filter (\<lambda>x. \<not> p x) xs)"
  by (induction xs) auto

end
