(* ===== verification/JsBase.thy ===== *)
theory JsBase
  imports Prelude
begin

text \<open>
  The part of the JavaScript standard library the modelled code uses: string methods,
  property bags in insertion order, strict equality, relational comparison,
  \<open>JSON.stringify\<close> of a row, stable \<open>Array.prototype.sort\<close>.

  Strings are lists of characters and hold ASCII text (code units below 128), so a
  character is one UTF-16 code unit and \<open>toLowerCase\<close> changes the letters A to Z only.
  Numbers are the integers the code computes with (counters, millisecond timestamps,
  window lengths); no theorem uses a number above 2^53 in a way that depends on
  rounding. What the host decides (\<open>localeCompare\<close>, the text of a \<open>Date\<close>) is a field
  of the record \<open>host\<close>.
\<close>

section \<open>Strings\<close>

definition startsWith :: "string \<Rightarrow> string \<Rightarrow> bool" where
  "startsWith s p \<longleftrightarrow> take (length p) s = p"

definition endsWith :: "string \<Rightarrow> string \<Rightarrow> bool" where
  "endsWith s p \<longleftrightarrow> startsWith (rev s) (rev p)"

fun str_includes :: "string \<Rightarrow> string \<Rightarrow> bool" where
  "str_includes [] p = (p = [])"
| "str_includes (c # s) p = (startsWith (c # s) p \<or> str_includes s p)"

fun indexOf :: "string \<Rightarrow> char \<Rightarrow> nat option" where
  "indexOf [] c = None"
| "indexOf (x # s) c = (if x = c then Some 0 else map_option Suc (indexOf s c))"

definition lower_char :: "char \<Rightarrow> char" where
  "lower_char c = (let n = of_char c :: nat in if 65 \<le> n \<and> n \<le> 90 then char_of (n + 32) else c)"

definition toLowerCase :: "string \<Rightarrow> string" where
  "toLowerCase s = map lower_char s"

definition upper_char :: "char \<Rightarrow> char" where
  "upper_char c = (let n = of_char c :: nat in if 97 \<le> n \<and> n \<le> 122 then char_of (n - 32) else c)"

definition toUpperCase :: "string \<Rightarrow> string" where
  "toUpperCase s = map upper_char s"

definition is_space :: "char \<Rightarrow> bool" where
  "is_space c \<longleftrightarrow> (let n = of_char c :: nat in n = 32 \<or> (9 \<le> n \<and> n \<le> 13))"

definition trim :: "string \<Rightarrow> string" where
  "trim s = rev (dropWhile is_space (rev (dropWhile is_space s)))"

text \<open>\<open>split_on c s\<close> is \<open>s.split(c)\<close> for a one-character separator.\<close>

fun split_on :: "char \<Rightarrow> string \<Rightarrow> string list" where
  "split_on c [] = [[]]"
| "split_on c (x # s) =
     (if x = c then [] # split_on c s
      else (case split_on c s of [] \<Rightarrow> [[x]] | w # ws \<Rightarrow> (x # w) # ws))"

fun join_with :: "string \<Rightarrow> string list \<Rightarrow> string" where
  "join_with sep [] = []"
| "join_with sep [w] = w"
| "join_with sep (w # v # ws) = w @ sep @ join_with sep (v # ws)"

definition padStart :: "nat \<Rightarrow> char \<Rightarrow> string \<Rightarrow> string" where
  "padStart n c s = replicate (n - length s) c @ s"

definition digit_char :: "nat \<Rightarrow> char" where
  "digit_char d = char_of (if d < 10 then 48 + d else 87 + d)"

text \<open>\<open>n.toString(b)\<close> for a base between 2 and 16.\<close>

fun digits_of :: "nat \<Rightarrow> nat \<Rightarrow> string" where
  "digits_of b n =
     (if b \<le> 1 \<or> n < b then [digit_char n] else digits_of b (n div b) @ [digit_char (n mod b)])"

declare digits_of.simps [simp del]

definition int_to_str :: "int \<Rightarrow> string" where
  "int_to_str n = (if n < 0 then ''-'' @ digits_of 10 (nat (- n)) else digits_of 10 (nat n))"

definition is_digit :: "char \<Rightarrow> bool" where
  "is_digit c \<longleftrightarrow> (let n = of_char c :: nat in 48 \<le> n \<and> n \<le> 57)"

definition digit_val :: "char \<Rightarrow> nat" where
  "digit_val c = (of_char c :: nat) - 48"

definition dec_value :: "string \<Rightarrow> nat" where
  "dec_value s = foldl (\<lambda>n c. 10 * n + digit_val c) 0 s"

text \<open>
  \<open>Number(s)\<close>: surrounding white space ignored, the empty string is 0, an optionally
  signed decimal integer its value, anything else \<open>NaN\<close> (\<open>None\<close>).
\<close>

definition str_to_number :: "string \<Rightarrow> int option" where
  "str_to_number s =
     (let t = trim s in
      if t = [] then Some 0
      else if list_all is_digit t then Some (int (dec_value t))
      else if hd t = CHR ''-'' \<and> tl t \<noteq> [] \<and> list_all is_digit (tl t)
        then Some (- int (dec_value (tl t)))
      else if hd t = CHR ''+'' \<and> tl t \<noteq> [] \<and> list_all is_digit (tl t)
        then Some (int (dec_value (tl t)))
      else None)"

text \<open>
  \<open>parseInt(s, 10)\<close>: the value of the longest decimal prefix after white space and a sign;
  \<open>None\<close> is \<open>NaN\<close>.
\<close>

definition js_parseInt :: "string \<Rightarrow> int option" where
  "js_parseInt s =
     (let t = dropWhile is_space s;
          neg = (t \<noteq> [] \<and> hd t = CHR ''-'');
          u = (if t \<noteq> [] \<and> hd t \<in> {CHR ''-'', CHR ''+''} then tl t else t);
          ds = takeWhile is_digit u
      in if ds = [] then None else Some (if neg then - int (dec_value ds) else int (dec_value ds)))"

text \<open>The order of \<open><\<close> on strings: lexicographic by code unit.\<close>

fun str_less :: "string \<Rightarrow> string \<Rightarrow> bool" where
  "str_less _ [] = False"
| "str_less [] (_ # _) = True"
| "str_less (x # s) (y # t) =
     ((of_char x :: nat) < of_char y \<or> (x = y \<and> str_less s t))"

lemma startsWith_Nil [simp]: "startsWith s []"
  by (simp add: startsWith_def)

lemma startsWith_Cons [simp]:
  "startsWith (c # s) (d # p) \<longleftrightarrow> c = d \<and> startsWith s p"
  "\<not> startsWith [] (d # p)"
  by (auto simp: startsWith_def)

lemma startsWith_append [simp]: "startsWith (p @ s) p"
  by (simp add: startsWith_def)

lemma startsWith_iff: "startsWith s p \<longleftrightarrow> (\<exists>r. s = p @ r)"
  by (metis append_take_drop_id startsWith_append startsWith_def)

lemma endsWith_iff: "endsWith s p \<longleftrightarrow> (\<exists>r. s = r @ p)"
  by (auto simp: endsWith_def startsWith_iff) (metis rev_append rev_rev_ident)

lemma split_on_not_Nil [simp]: "split_on c s \<noteq> []"
  by (cases s) (auto split: list.splits)

lemma indexOf_None_iff: "indexOf s c = None \<longleftrightarrow> c \<notin> set s"
  by (induction s) auto

lemma join_split: "join_with [c] (split_on c s) = s"
proof (induction s)
  case Nil
  then show ?case by simp
next
  case (Cons x s)
  obtain w ws where w: "split_on c s = w # ws"
    by (cases "split_on c s") auto
  with Cons show ?case by (cases ws) auto
qed

lemma split_on_no_sep: "c \<notin> set s \<Longrightarrow> split_on c s = [s]"
  by (induction s) auto

lemma split_on_append:
  "c \<notin> set s \<Longrightarrow> split_on c (s @ c # t) = s # split_on c t"
  by (induction s) auto

lemma split_on_parts: "w \<in> set (split_on c s) \<Longrightarrow> c \<notin> set w"
  by (induction s arbitrary: w) (auto split: if_splits list.splits)

lemma toLowerCase_length [simp]: "length (toLowerCase s) = length s"
  by (simp add: toLowerCase_def)

lemma length_padStart: "length (padStart n c s) = max n (length s)"
  by (simp add: padStart_def)

text \<open>A number is printed in digits and read back.\<close>

lemma digits_not_Nil: "digits_of b n \<noteq> []"
  by (subst digits_of.simps) simp

lemma is_digit_char: "d < 10 \<Longrightarrow> is_digit (digit_char d)"
  by (simp add: is_digit_def digit_char_def Let_def)

lemma digit_val_char: "d < 10 \<Longrightarrow> digit_val (digit_char d) = d"
  by (simp add: digit_val_def digit_char_def)

lemma dec_value_snoc: "dec_value (s @ [c]) = 10 * dec_value s + digit_val c"
  by (simp add: dec_value_def)

lemma digits_dec: "list_all is_digit (digits_of 10 n) \<and> dec_value (digits_of 10 n) = n"
proof (induction n rule: less_induct)
  case (less n)
  show ?case
  proof (cases "n < 10")
    case True
    then have "digits_of 10 n = [digit_char n]" by (subst digits_of.simps) simp
    with True show ?thesis by (simp add: is_digit_char dec_value_def digit_val_char)
  next
    case False
    then have "digits_of 10 n = digits_of 10 (n div 10) @ [digit_char (n mod 10)]"
      by (subst digits_of.simps) simp
    with less[of "n div 10"] False show ?thesis
      by (simp add: is_digit_char digit_val_char dec_value_snoc)
  qed
qed

lemma int_to_str_digits: "0 \<le> n \<Longrightarrow> list_all is_digit (int_to_str n) \<and> int_to_str n \<noteq> []"
  using digits_dec[of "nat n"] digits_not_Nil[of 10 "nat n"] by (simp add: int_to_str_def)

lemma dec_value_int_to_str: "0 \<le> n \<Longrightarrow> int (dec_value (int_to_str n)) = n"
  using digits_dec[of "nat n"] by (simp add: int_to_str_def)

lemma digit_not_space: "is_digit c \<Longrightarrow> \<not> is_space c"
  by (auto simp: is_digit_def is_space_def Let_def)

lemma trim_digits: "list_all is_digit s \<Longrightarrow> trim s = s"
proof -
  have "dropWhile is_space s = s" if "list_all is_digit s" for s
    using that by (cases s) (auto dest: digit_not_space)
  moreover assume "list_all is_digit s"
  moreover from this have "list_all is_digit (rev s)" by simp
  ultimately show ?thesis by (simp add: trim_def)
qed

lemma str_to_number_int_to_str: "0 \<le> n \<Longrightarrow> str_to_number (int_to_str n) = Some n"
  using int_to_str_digits[of n] by (simp add: str_to_number_def trim_digits dec_value_int_to_str Let_def)

lemma js_parseInt_int_to_str: "0 \<le> n \<Longrightarrow> js_parseInt (int_to_str n) = Some n"
proof -
  assume n: "0 \<le> n"
  then obtain c s where c: "int_to_str n = c # s" and d: "list_all is_digit (c # s)"
    using int_to_str_digits[of n] by (cases "int_to_str n") auto
  have "takeWhile is_digit s = s" "is_digit c" using d by (auto simp: list_all_iff takeWhile_eq_all_conv)
  moreover from this have "c \<noteq> CHR ''-''" "c \<noteq> CHR ''+''" "\<not> is_space c"
    by (auto simp: is_digit_def is_space_def Let_def)
  ultimately show ?thesis
    using dec_value_int_to_str[OF n] by (simp add: js_parseInt_def c del: takeWhile_eq_all_conv)
qed

section \<open>Values\<close>

text \<open>
  A column value. A \<open>Date\<close> is an object: \<open>DateV r t\<close> is the object with identity \<open>r\<close>
  and time value \<open>t\<close>, because \<open>===\<close> and \<open>includes\<close> compare objects by identity while
  \<open><\<close> and JSON compare times.
\<close>

datatype val =
    Undef
  | Null
  | Str string
  | Num int
  | BoolV bool
  | DateV nat int
  | Arr "val list"

abbreviation nullish :: "val \<Rightarrow> bool" where
  "nullish v \<equiv> v = Undef \<or> v = Null"

text \<open>Truthiness of a value (\<open>Boolean(v)\<close>).\<close>

fun truthy :: "val \<Rightarrow> bool" where
  "truthy Undef = False"
| "truthy Null = False"
| "truthy (Str s) = (s \<noteq> [])"
| "truthy (Num n) = (n \<noteq> 0)"
| "truthy (BoolV b) = b"
| "truthy (DateV _ _) = True"
| "truthy (Arr _) = True"

record host =
  localeCompare :: "string \<Rightarrow> string \<Rightarrow> int"
  dateToString :: "int \<Rightarrow> string"

text \<open>\<open>String(v)\<close>; inside an array null and undefined print as the empty string.\<close>

fun js_String :: "host \<Rightarrow> val \<Rightarrow> string" where
  "js_String h Undef = ''undefined''"
| "js_String h Null = ''null''"
| "js_String h (Str s) = s"
| "js_String h (Num n) = int_to_str n"
| "js_String h (BoolV b) = (if b then ''true'' else ''false'')"
| "js_String h (DateV _ t) = dateToString h t"
| "js_String h (Arr vs) =
     join_with '','' (map (\<lambda>v. if nullish v then [] else js_String h v) vs)"

text \<open>
  \<open>a === b\<close> and the comparison of \<open>includes\<close>. Two array values are two objects here:
  no array is stored under two names.
\<close>

fun strict_eq :: "val \<Rightarrow> val \<Rightarrow> bool" where
  "strict_eq (DateV r _) (DateV r' _) = (r = r')"
| "strict_eq (Arr _) (Arr _) = False"
| "strict_eq a b = (a = b)"

text \<open>
  Relational comparison: two strings by code unit, everything else as numbers, where a
  missing number (\<open>NaN\<close>) makes every comparison false.
\<close>

fun to_number :: "host \<Rightarrow> val \<Rightarrow> int option" where
  "to_number h Undef = None"
| "to_number h Null = Some 0"
| "to_number h (Str s) = str_to_number s"
| "to_number h (Num n) = Some n"
| "to_number h (BoolV b) = Some (if b then 1 else 0)"
| "to_number h (DateV _ t) = Some t"
| "to_number h (Arr vs) = str_to_number (js_String h (Arr vs))"

fun is_textual :: "val \<Rightarrow> bool" where
  "is_textual (Str _) = True"
| "is_textual (Arr _) = True"
| "is_textual _ = False"

definition js_less :: "host \<Rightarrow> val \<Rightarrow> val \<Rightarrow> bool" where
  "js_less h a b =
     (if is_textual a \<and> is_textual b then str_less (js_String h a) (js_String h b)
      else (case (to_number h a, to_number h b) of
              (Some x, Some y) \<Rightarrow> x < y
            | _ \<Rightarrow> False))"

definition js_less_eq :: "host \<Rightarrow> val \<Rightarrow> val \<Rightarrow> bool" where
  "js_less_eq h a b =
     (if is_textual a \<and> is_textual b then \<not> str_less (js_String h b) (js_String h a)
      else (case (to_number h a, to_number h b) of
              (Some x, Some y) \<Rightarrow> x \<le> y
            | _ \<Rightarrow> False))"

lemma strict_eq_refl: "(\<forall>vs. v \<noteq> Arr vs) \<Longrightarrow> strict_eq v v"
  by (cases v) auto

lemma strict_eq_Str [simp]:
  "strict_eq v (Str s) \<longleftrightarrow> v = Str s" "strict_eq (Str s) v \<longleftrightarrow> Str s = v"
  by (cases v; simp)+

lemma strict_eq_Num [simp]:
  "strict_eq v (Num n) \<longleftrightarrow> v = Num n" "strict_eq (Num n) v \<longleftrightarrow> Num n = v"
  by (cases v; simp)+

lemma js_less_Num [simp]: "js_less h (Num a) (Num b) \<longleftrightarrow> a < b"
  by (simp add: js_less_def)

lemma js_less_eq_Num [simp]: "js_less_eq h (Num a) (Num b) \<longleftrightarrow> a \<le> b"
  by (simp add: js_less_eq_def)

lemma js_less_Date [simp]: "js_less h (DateV r a) (DateV q b) \<longleftrightarrow> a < b"
  by (simp add: js_less_def)

lemma js_less_eq_Date [simp]: "js_less_eq h (DateV r a) (DateV q b) \<longleftrightarrow> a \<le> b"
  by (simp add: js_less_eq_def)

lemma js_less_Undef [simp]: "\<not> js_less h Undef v" "\<not> js_less_eq h Undef v"
  by (simp_all add: js_less_def js_less_eq_def)

section \<open>Rows\<close>

text \<open>A row is an object with its own properties in insertion order.\<close>

type_synonym row = "(string \<times> val) list"

definition get_field :: "row \<Rightarrow> string \<Rightarrow> val" where
  "get_field r f = (case map_of r f of None \<Rightarrow> Undef | Some v \<Rightarrow> v)"

definition set_field :: "row \<Rightarrow> string \<Rightarrow> val \<Rightarrow> row" where
  "set_field r f v = AList.update f v r"

text \<open>\<open>Object.assign(r, u)\<close> and the spread \<open>{...r, ...u}\<close>.\<close>

definition object_assign :: "row \<Rightarrow> row \<Rightarrow> row" where
  "object_assign r u = foldl (\<lambda>r' (f, v). set_field r' f v) r u"

lemma get_set_field [simp, row_simps]:
  "get_field (set_field r f v) g = (if g = f then v else get_field r g)"
  by (simp add: get_field_def set_field_def update_conv')

lemma map_of_object_assign:
  "distinct (map fst u) \<Longrightarrow> map_of (object_assign r u) = map_of r ++ map_of u"
proof (induction u arbitrary: r)
  case Nil
  then show ?case by (simp add: object_assign_def)
next
  case (Cons p u)
  obtain f v where p: "p = (f, v)" by force
  from Cons have "map_of (object_assign (set_field r f v) u) = map_of (set_field r f v) ++ map_of u"
    by simp
  with Cons.prems p show ?case
    by (auto simp: object_assign_def set_field_def update_conv' fun_eq_iff map_add_def
      map_of_eq_None_iff split: option.splits intro: rev_image_eqI)
qed

lemma get_object_assign [row_simps]:
  "distinct (map fst u) \<Longrightarrow>
    get_field (object_assign r u) f = (if f \<in> fst ` set u then get_field u f else get_field r f)"
  by (auto simp: get_field_def map_of_object_assign map_add_def split: option.splits
      dest: map_of_SomeD intro: rev_image_eqI)

lemma distinct_set_field: "distinct (map fst r) \<Longrightarrow> distinct (map fst (set_field r f v))"
  by (simp add: set_field_def distinct_update)

lemma distinct_object_assign:
  "distinct (map fst r) \<Longrightarrow> distinct (map fst (object_assign r u))"
  by (induction u arbitrary: r)
     (auto simp: object_assign_def set_field_def intro: distinct_update split: prod.splits)

lemma get_field_notin: "f \<notin> fst ` set r \<Longrightarrow> get_field r f = Undef"
  by (simp add: get_field_def map_of_eq_None_iff[THEN iffD2])

lemma get_field_Nil [simp, row_simps]: "get_field [] f = Undef"
  by (simp add: get_field_def)

lemma get_field_Cons [simp, row_simps]:
  "get_field ((g, v) # r) f = (if f = g then v else get_field r f)"
  by (simp add: get_field_def)

lemma object_assign_Nil [simp, row_simps]: "object_assign r [] = r"
  by (simp add: object_assign_def)

lemma object_assign_Cons [row_simps]:
  "object_assign r ((f, v) # u) = object_assign (set_field r f v) u"
  by (simp add: object_assign_def)

end
