(* ===== verification/Access.thy ===== *)
theory Access
  imports JsBase
begin

text \<open>
  The access-control plugin, \<open>packages/cinaauth/src/plugins/access/access.ts\<close>: a role is
  a set of statements (resource to allowed actions) and \<open>role(...).authorize\<close> decides a
  request, an object from resources to requested actions.

  A request entry arrives as an \<open>unknown\<close>: an array of unknown values, an object with
  \<open>actions\<close> and \<open>connector\<close> fields, or something else, on which the code throws. The
  entries of the request keep the order of \<open>Object.entries\<close>. Statements are maps from
  own properties; the properties every object inherits are not resources.
\<close>

datatype connector = OR | AND

datatype request_value =
    ReqVal val                          \<comment> \<open>a primitive, a date or an array\<close>
  | ReqObj "(string \<times> val) list"       \<comment> \<open>a plain object\<close>

datatype authorize_response = Failure string | Success

record normalized_request =
  nr_actions :: "val list"
  nr_connector :: connector

type_synonym statements = "string \<rightharpoonup> string list"

definition unknownResourceResponse :: "string \<Rightarrow> authorize_response" where
  "unknownResourceResponse r = Failure (''You are not allowed to access resource: '' @ r)"

definition unauthorizedResourceResponse :: "string \<Rightarrow> authorize_response" where
  "unauthorizedResourceResponse r =
     Failure (''unauthorized to access resource \"'' @ r @ ''\"'')"

definition normalizeConnector :: "val \<Rightarrow> connector" where
  "normalizeConnector c = (if strict_eq c (Str ''OR'') then OR else AND)"

fun isActionList :: "val \<Rightarrow> bool" where
  "isActionList (Arr _) = True"
| "isActionList _ = False"

definition normalizeFields :: "val \<Rightarrow> val \<Rightarrow> normalized_request" where
  "normalizeFields acts c =
     (case acts of
        Arr vs \<Rightarrow> \<lparr>nr_actions = vs, nr_connector = normalizeConnector c\<rparr>
      | _ \<Rightarrow> \<lparr>nr_actions = [], nr_connector = normalizeConnector c\<rparr>)"

fun normalizeActionRequest :: "request_value \<Rightarrow> normalized_request res" where
  "normalizeActionRequest (ReqVal (Arr vs)) = Inr \<lparr>nr_actions = vs, nr_connector = AND\<rparr>"
| "normalizeActionRequest (ReqVal (DateV _ _)) = Inr (normalizeFields Undef Undef)"
| "normalizeActionRequest (ReqVal _) = Inl (Throw ''Invalid access control request'')"
| "normalizeActionRequest (ReqObj o') =
     Inr (normalizeFields (get_field o' ''actions'') (get_field o' ''connector''))"

fun hasAllowedAction :: "string list \<Rightarrow> val \<Rightarrow> bool" where
  "hasAllowedAction allowed (Str a) = (a \<in> set allowed)"
| "hasAllowedAction allowed _ = False"

definition isResourceAuthorized :: "string list \<Rightarrow> normalized_request \<Rightarrow> bool" where
  "isResourceAuthorized allowed nr =
     (if nr_actions nr = [] then False
      else if nr_connector nr = OR then list_ex (hasAllowedAction allowed) (nr_actions nr)
      else list_all (hasAllowedAction allowed) (nr_actions nr))"

text \<open>The loop of \<open>authorize\<close>; the flag is \<open>hasAuthorizedResource\<close>.\<close>

fun authorize_loop ::
  "statements \<Rightarrow> connector \<Rightarrow> bool \<Rightarrow> (string \<times> request_value) list \<Rightarrow> authorize_response res"
where
  "authorize_loop st c found [] = Inr (if found then Success else Failure ''Not authorized'')"
| "authorize_loop st c found ((resource, requested) # rest) =
     (case st resource of
        None \<Rightarrow>
          if c = AND then Inr (unknownResourceResponse resource)
          else authorize_loop st c found rest
      | Some allowed \<Rightarrow>
          bindR (normalizeActionRequest requested) (\<lambda>nr.
            let ok = isResourceAuthorized allowed nr in
            if ok \<and> c = OR then Inr Success
            else if \<not> ok \<and> c = AND then Inr (unauthorizedResourceResponse resource)
            else authorize_loop st c (found \<or> ok) rest))"

definition role_authorize ::
  "statements \<Rightarrow> (string \<times> request_value) list \<Rightarrow> connector \<Rightarrow> authorize_response res"
where
  "role_authorize st request c = authorize_loop st c False request"

section \<open>What a grant means\<close>

text \<open>An entry that its resource's statements grant.\<close>

definition entry_granted :: "statements \<Rightarrow> string \<times> request_value \<Rightarrow> bool" where
  "entry_granted st e =
     (case st (fst e) of
        None \<Rightarrow> False
      | Some allowed \<Rightarrow>
          (case normalizeActionRequest (snd e) of
             Inl _ \<Rightarrow> False
           | Inr nr \<Rightarrow> isResourceAuthorized allowed nr))"

text \<open>An entry on which the loop throws: a known resource with an invalid request.\<close>

definition entry_invalid :: "statements \<Rightarrow> string \<times> request_value \<Rightarrow> bool" where
  "entry_invalid st e \<longleftrightarrow> st (fst e) \<noteq> None \<and> isl (normalizeActionRequest (snd e))"

lemma response_not_success [simp]:
  "unknownResourceResponse r \<noteq> Success" "unauthorizedResourceResponse r \<noteq> Success"
  by (simp_all add: unknownResourceResponse_def unauthorizedResourceResponse_def)

lemma authorize_loop_AND:
  "authorize_loop st AND found req = Inr Success \<longleftrightarrow>
     (found \<or> req \<noteq> []) \<and> (\<forall>e \<in> set req. entry_granted st e)"
proof (induction req arbitrary: found)
  case Nil
  then show ?case by simp
next
  case (Cons e req)
  then show ?case
    by (cases e) (auto simp: entry_granted_def bindR_def Let_def split: option.splits sum.splits)
qed

lemma entry_granted_valid: "entry_granted st e \<Longrightarrow> \<not> entry_invalid st e"
  by (auto simp: entry_granted_def entry_invalid_def isl_def split: option.splits sum.splits)

lemma authorize_loop_OR:
  "authorize_loop st OR False req = Inr Success \<longleftrightarrow>
     (\<exists>e \<in> set (takeWhile (\<lambda>p. \<not> entry_invalid st p) req). entry_granted st e)"
proof (induction req)
  case Nil
  then show ?case by simp
next
  case (Cons e req)
  consider "entry_granted st e" | "entry_invalid st e"
    | "\<not> entry_granted st e" "\<not> entry_invalid st e" by blast
  then show ?case
  proof cases
    case 1
    then have "authorize_loop st OR False (e # req) = Inr Success"
      by (cases e) (auto simp: entry_granted_def split: option.splits sum.splits)
    with 1 show ?thesis by (auto simp: entry_granted_valid)
  next
    case 2
    then have "authorize_loop st OR False (e # req) \<noteq> Inr Success"
      by (cases e) (auto simp: entry_invalid_def isl_def)
    with 2 show ?thesis by simp
  next
    case 3
    then have "authorize_loop st OR False (e # req) = authorize_loop st OR False req"
      by (cases e) (auto simp: entry_invalid_def entry_granted_def isl_def Let_def
          split: option.splits sum.splits)
    with Cons.IH 3 show ?thesis by simp
  qed
qed

lemma hasAllowedAction_iff: "hasAllowedAction al v \<longleftrightarrow> (\<exists>a \<in> set al. v = Str a)"
  by (cases v) auto

lemma hasAllowedAction_mono: "set al \<subseteq> set bl \<Longrightarrow> hasAllowedAction al v \<Longrightarrow> hasAllowedAction bl v"
  by (auto simp: hasAllowedAction_iff)

lemma isResourceAuthorized_mono:
  "set al \<subseteq> set bl \<Longrightarrow> isResourceAuthorized al nr \<Longrightarrow> isResourceAuthorized bl nr"
  by (auto simp: isResourceAuthorized_def list_ex_iff list_all_iff
      dest: hasAllowedAction_mono split: if_splits)

lemma entry_granted_mono:
  assumes le: "\<And>r al. st r = Some al \<Longrightarrow> \<exists>bl. st' r = Some bl \<and> set al \<subseteq> set bl"
    and "entry_granted st e"
  shows "entry_granted st' e"
proof -
  from assms(2) obtain al nr where al: "st (fst e) = Some al"
    and nr: "normalizeActionRequest (snd e) = Inr nr" "isResourceAuthorized al nr"
    by (auto simp: entry_granted_def split: option.splits sum.splits)
  from le[OF al] nr show ?thesis
    by (auto simp: entry_granted_def dest: isResourceAuthorized_mono)
qed

section \<open>Properties\<close>



text \<open>
  Under the connector \<open>OR\<close>, \<open>authorize\<close> answers success exactly when some entry is
  granted that comes before the first malformed entry of a known resource (where the code
  throws).
\<close>

theorem authorize_or_success:
  "role_authorize st req OR = Inr Success \<longleftrightarrow>
     (\<exists>e \<in> set (takeWhile (\<lambda>p. \<not> entry_invalid st p) req). entry_granted st e)"
  by (simp add: role_authorize_def authorize_loop_OR)

text \<open>
  A role whose statements allow at least what another role's allow is granted, under
  \<open>AND\<close>, every request the other one is granted.
\<close>

theorem authorize_monotone:
  assumes "\<And>r al. st r = Some al \<Longrightarrow> \<exists>bl. st' r = Some bl \<and> set al \<subseteq> set bl"
    and "role_authorize st req AND = Inr Success"
  shows "role_authorize st' req AND = Inr Success"
  using assms(2) entry_granted_mono[OF assms(1)]
  by (auto simp: role_authorize_def authorize_loop_AND)

theorem authorize_monotone_witness:
  "role_authorize [''doc'' \<mapsto> [''read'', ''edit'']] [(''doc'', ReqVal (Arr [Str ''read'']))] AND
     = Inr Success"
proof (rule authorize_monotone)
  show "role_authorize [''doc'' \<mapsto> [''read'']] [(''doc'', ReqVal (Arr [Str ''read'']))] AND
     = Inr Success"
    by (simp add: role_authorize_def isResourceAuthorized_def)
next
  fix r al assume "[''doc'' \<mapsto> [''read'']] r = Some al"
  then show "\<exists>bl. [''doc'' \<mapsto> [''read'', ''edit'']] r = Some bl \<and> set al \<subseteq> set bl"
    by (auto split: if_splits)
qed

end
