(* ===== verification/Adapter.thy ===== *)
theory Adapter
  imports JsBase
begin

text \<open>
  The database interface, \<open>packages/core/src/db/adapter/index.ts\<close>: where clauses after
  cleaning (\<open>CleanedWhere\<close>) and the operations of a \<open>CustomAdapter\<close> as a record of actions
  on the store's state. Components call the record's fields; a store (the memory
  adapter) provides them.

  The locale \<open>store\<close> states what the components may rely on, over an abstraction
  \<open>rows\<close> (the rows of a table) and a predicate \<open>sat\<close> (a row meets a where clause): the
  guarded single-row operations \<open>consumeOne\<close> and \<open>incrementOne\<close> either find no matching
  row and change nothing, or change exactly one matching row in one step.
\<close>

section \<open>Where clauses\<close>

datatype whereOperator =
    Op_eq | Op_ne | Op_lt | Op_lte | Op_gt | Op_gte
  | Op_in | Op_not_in | Op_contains | Op_starts_with | Op_ends_with

datatype where_connector = C_AND | C_OR

datatype where_mode = M_sensitive | M_insensitive

record CleanedWhere =
  w_field :: string
  w_value :: val
  w_operator :: whereOperator
  w_connector :: where_connector
  w_mode :: where_mode

text \<open>A clause as callers write it, with the defaults of \<open>transformWhereClause\<close> filled in.\<close>

definition wh :: "string \<Rightarrow> whereOperator \<Rightarrow> val \<Rightarrow> CleanedWhere" where
  "wh f opr v =
     \<lparr>w_field = f, w_value = v, w_operator = opr, w_connector = C_AND, w_mode = M_sensitive\<rparr>"

definition wh_eq :: "string \<Rightarrow> val \<Rightarrow> CleanedWhere" where
  "wh_eq f v = wh f Op_eq v"

datatype direction = Asc | Desc

section \<open>The adapter as a record of actions\<close>

record 's adapter =
  a_create :: "string \<Rightarrow> row \<Rightarrow> ('s, row) act"
  a_findOne :: "string \<Rightarrow> CleanedWhere list \<Rightarrow> ('s, row option) act"
  a_findMany :: "string \<Rightarrow> CleanedWhere list \<Rightarrow> (string \<times> direction) option \<Rightarrow>
     int option \<Rightarrow> int option \<Rightarrow> ('s, row list) act"
  a_count :: "string \<Rightarrow> CleanedWhere list option \<Rightarrow> ('s, nat) act"
  a_update :: "string \<Rightarrow> CleanedWhere list \<Rightarrow> row \<Rightarrow> ('s, row option) act"
  a_updateMany :: "string \<Rightarrow> CleanedWhere list \<Rightarrow> row \<Rightarrow> ('s, nat) act"
  a_delete :: "string \<Rightarrow> CleanedWhere list \<Rightarrow> ('s, unit) act"
  a_deleteMany :: "string \<Rightarrow> CleanedWhere list \<Rightarrow> ('s, nat) act"
  a_consumeOne :: "string \<Rightarrow> CleanedWhere list \<Rightarrow> ('s, row option) act"
  a_incrementOne :: "string \<Rightarrow> CleanedWhere list \<Rightarrow> (string \<times> int) list \<Rightarrow> row option \<Rightarrow>
     ('s, row option) act"

text \<open>
  The row that \<open>incrementOne\<close> leaves: each counter plus its delta (a counter that is not a
  number counts as 0), then the absolute assignments.
\<close>

definition counter_value :: "val \<Rightarrow> int" where
  "counter_value v = (case v of Num n \<Rightarrow> n | _ \<Rightarrow> 0)"

definition apply_increment :: "(string \<times> int) list \<Rightarrow> row \<Rightarrow> row" where
  "apply_increment inc r =
     foldl (\<lambda>r (f, d). set_field r f (Num (counter_value (get_field r f) + d))) r inc"

definition apply_set :: "row option \<Rightarrow> row \<Rightarrow> row" where
  "apply_set u r = (case u of None \<Rightarrow> r | Some s \<Rightarrow> object_assign r s)"

lemma counter_value_Num [simp]: "counter_value (Num n) = n"
  by (simp add: counter_value_def)

lemma apply_increment_simps [simp, row_simps]:
  "apply_increment [] r = r"
  "apply_increment ((f, d) # inc) r =
     apply_increment inc (set_field r f (Num (counter_value (get_field r f) + d)))"
  by (simp_all add: apply_increment_def)

lemma apply_set_simps [simp, row_simps]:
  "apply_set None r = r"
  "apply_set (Some s) r = object_assign r s"
  by (simp_all add: apply_set_def)

section \<open>What a store promises\<close>

text \<open>
  \<open>rows s m\<close> lists the rows of model \<open>m\<close>; \<open>sat ws r = Inr True\<close> says row \<open>r\<close> meets the
  clauses \<open>ws\<close>; \<open>ok s\<close> is the store's own well-formedness. A clause list is usable on a
  table when it evaluates on every row (no exception).
\<close>

locale store =
  fixes A :: "'s adapter"
    and rows :: "'s \<Rightarrow> string \<Rightarrow> row list"
    and has_table :: "'s \<Rightarrow> string \<Rightarrow> bool"
    and sat :: "CleanedWhere list \<Rightarrow> row \<Rightarrow> bool res"
    and ok :: "'s \<Rightarrow> bool"
  assumes consume_none:
      "ok s \<Longrightarrow> a_consumeOne A m ws s = (Inr None, t) \<Longrightarrow>
         t = s \<and> (\<forall>r \<in> set (rows s m). sat ws r = Inr False)"
    and consume_some:
      "ok s \<Longrightarrow> a_consumeOne A m ws s = (Inr (Some r), t) \<Longrightarrow>
         (\<exists>pre post. rows s m = pre @ r # post \<and> rows t m = pre @ post \<and> sat ws r = Inr True)"
    and consume_frame:
      "ok s \<Longrightarrow> a_consumeOne A m ws s = (x, t) \<Longrightarrow>
         ok t \<and> (\<forall>m'. m' \<noteq> m \<longrightarrow> rows t m' = rows s m') \<and> (\<forall>m'. has_table t m' = has_table s m')"
    and consume_error:
      "ok s \<Longrightarrow> a_consumeOne A m ws s = (Inl e, t) \<Longrightarrow> t = s"
    and increment_none:
      "ok s \<Longrightarrow> a_incrementOne A m ws inc u s = (Inr None, t) \<Longrightarrow>
         t = s \<and> (\<forall>r \<in> set (rows s m). sat ws r = Inr False)"
    and increment_some:
      "ok s \<Longrightarrow> a_incrementOne A m ws inc u s = (Inr (Some r'), t) \<Longrightarrow>
         (\<exists>pre r post. rows s m = pre @ r # post \<and> sat ws r = Inr True \<and>
            (\<forall>q \<in> set pre. sat ws q = Inr False) \<and>
            r' = apply_set u (apply_increment inc r) \<and> rows t m = pre @ r' # post)"
    and increment_frame:
      "ok s \<Longrightarrow> a_incrementOne A m ws inc u s = (x, t) \<Longrightarrow>
         ok t \<and> (\<forall>m'. m' \<noteq> m \<longrightarrow> rows t m' = rows s m') \<and> (\<forall>m'. has_table t m' = has_table s m')"
    and increment_error:
      "ok s \<Longrightarrow> a_incrementOne A m ws inc u s = (Inl e, t) \<Longrightarrow> t = s"
    and findOne_pure:
      "ok s \<Longrightarrow> a_findOne A m ws s = (xf, t) \<Longrightarrow>
         t = s \<and> (\<forall>r. xf = Inr (Some r) \<longrightarrow> r \<in> set (rows s m) \<and> sat ws r = Inr True) \<and>
         (xf = Inr None \<longrightarrow> (\<forall>r \<in> set (rows s m). sat ws r = Inr False))"
    and findMany_pure:
      "ok s \<Longrightarrow> a_findMany A m ws sb lim off s = (xm, t) \<Longrightarrow>
         t = s \<and> (\<forall>rs. xm = Inr rs \<longrightarrow> (\<forall>r \<in> set rs. r \<in> set (rows s m) \<and> sat ws r = Inr True))"
    and create_row:
      "ok s \<Longrightarrow> a_create A m r s = (Inr r', t) \<Longrightarrow> rows t m = rows s m @ [r']"
    and create_frame:
      "ok s \<Longrightarrow> a_create A m r s = (xc, t) \<Longrightarrow>
         ok t \<and> (\<forall>m'. m' \<noteq> m \<longrightarrow> rows t m' = rows s m')"
    and create_error:
      "ok s \<Longrightarrow> a_create A m r s = (Inl e, t) \<Longrightarrow> t = s"
    and update_some:
      "ok s \<Longrightarrow> a_update A m ws up s = (Inr (Some r), t) \<Longrightarrow>
         rows t m = map (\<lambda>q. if sat ws q = Inr True then object_assign q up else q) (rows s m) \<and>
         r \<in> set (rows t m) \<and> ws \<noteq> []"
    and update_none:
      "ok s \<Longrightarrow> a_update A m ws up s = (Inr None, t) \<Longrightarrow>
         t = s \<and> (ws = [] \<or> (\<forall>r \<in> set (rows s m). sat ws r = Inr False))"
    and update_frame:
      "ok s \<Longrightarrow> a_update A m ws up s = (x, t) \<Longrightarrow>
         ok t \<and> (\<forall>m'. m' \<noteq> m \<longrightarrow> rows t m' = rows s m')"
    and update_error:
      "ok s \<Longrightarrow> a_update A m ws up s = (Inl e, t) \<Longrightarrow> t = s"
    and deleteMany_rows:
      "ok s \<Longrightarrow> a_deleteMany A m ws s = (Inr n, t) \<Longrightarrow>
         rows t m = filter (\<lambda>r. sat ws r = Inr False) (rows s m) \<and>
         n = length (rows s m) - length (rows t m) \<and>
         (\<forall>r \<in> set (rows s m). \<not> isl (sat ws r))"
    and deleteMany_frame:
      "ok s \<Longrightarrow> a_deleteMany A m ws s = (xd, t) \<Longrightarrow>
         ok t \<and> (\<forall>m'. m' \<noteq> m \<longrightarrow> rows t m' = rows s m')"
    and deleteMany_error:
      "ok s \<Longrightarrow> a_deleteMany A m ws s = (Inl e, t) \<Longrightarrow> t = s"
begin

text \<open>Consuming never adds a row and removes at most one.\<close>

lemma consume_length:
  assumes "ok s" and "a_consumeOne A m ws s = (Inr x, t)"
  shows "length (rows t m) + (if x = None then 0 else 1) = length (rows s m)"
proof (cases x)
  case None
  with consume_none[OF assms(1)] assms(2) show ?thesis by auto
next
  case (Some r)
  with consume_some[OF assms(1)] assms(2) show ?thesis by fastforce
qed

text \<open>A guarded increment without a row to report changed nothing.\<close>

lemma increment_missed:
  assumes "ok s" and "a_incrementOne A m ws inc u s = (x, t)" and "\<nexists>r. x = Inr (Some r)"
  shows "t = s"
proof (cases x)
  case (Inl e)
  with assms show ?thesis by (blast intro: increment_error)
next
  case (Inr y)
  with assms(3) have "y = None" by (cases y) auto
  with Inr assms show ?thesis by (blast dest: increment_none)
qed

lemma update_missed:
  assumes "ok s" and "a_update A m ws up s = (x, t)" and "\<nexists>r. x = Inr (Some r)"
  shows "t = s"
proof (cases x)
  case (Inl e)
  with assms show ?thesis by (blast intro: update_error)
next
  case (Inr y)
  with assms(3) have "y = None" by (cases y) auto
  with Inr assms show ?thesis by (blast dest: update_none)
qed

text \<open>A guarded increment keeps every table's length.\<close>

lemma increment_length:
  assumes "ok s" and "a_incrementOne A m ws inc u s = (x, t)"
  shows "length (rows t m) = length (rows s m)"
proof (cases x)
  case (Inl e)
  with assms have "t = s" by (blast intro: increment_error)
  then show ?thesis by simp
next
  case (Inr y)
  show ?thesis
  proof (cases y)
    case None
    with Inr assms have "t = s" by (blast dest: increment_none)
    then show ?thesis by simp
  next
    case (Some r)
    with Inr increment_some[OF assms(1)] assms(2) show ?thesis by fastforce
  qed
qed

text \<open>
  A row invariant kept by the guarded step on the rows it may touch is kept on the whole
  table: the one-row reasoning every client of \<open>incrementOne\<close> uses.
\<close>

lemma increment_rows_all:
  assumes ok: "ok s" and step: "a_incrementOne A m ws inc u s = (x, t)"
    and inv: "\<And>r. r \<in> set (rows s m) \<Longrightarrow> I r"
    and keep: "\<And>r. I r \<Longrightarrow> sat ws r = Inr True \<Longrightarrow> I (apply_set u (apply_increment inc r))"
    and r: "r \<in> set (rows t m)"
  shows "I r"
proof (cases x)
  case (Inl e)
  with ok step have "t = s" by (blast intro: increment_error)
  with inv r show ?thesis by simp
next
  case (Inr y)
  show ?thesis
  proof (cases y)
    case None
    with Inr step ok have "t = s" by (blast dest: increment_none)
    with inv r show ?thesis by simp
  next
    case (Some q)
    with Inr step obtain pre p post where s: "rows s m = pre @ p # post" and "sat ws p = Inr True"
      and q: "q = apply_set u (apply_increment inc p)" and t: "rows t m = pre @ q # post"
      using increment_some[OF ok] by metis
    then have "I q" using keep[of p] inv[of p] by simp
    with t r s inv show ?thesis by auto
  qed
qed

end

section \<open>Plain conjunctions of comparisons\<close>

text \<open>
  The guards the components build are conjunctions of case-sensitive comparisons. On
  those, a store must agree with the reading below, which never raises an exception.
\<close>

definition simple_clause :: "CleanedWhere \<Rightarrow> bool" where
  "simple_clause w \<longleftrightarrow> w_connector w = C_AND \<and> w_mode w = M_sensitive \<and>
     w_operator w \<in> {Op_eq, Op_ne, Op_gt, Op_gte, Op_lt, Op_lte}"

definition clause_holds :: "host \<Rightarrow> row \<Rightarrow> CleanedWhere \<Rightarrow> bool" where
  "clause_holds h r w =
     (let v = w_value w; x = get_field r (w_field w) in
      case w_operator w of
        Op_eq \<Rightarrow> if v = Null then nullish x else strict_eq x v
      | Op_ne \<Rightarrow> \<not> strict_eq x v
      | Op_gt \<Rightarrow> \<not> nullish v \<and> js_less h v x
      | Op_gte \<Rightarrow> \<not> nullish v \<and> js_less_eq h v x
      | Op_lt \<Rightarrow> \<not> nullish v \<and> js_less h x v
      | Op_lte \<Rightarrow> \<not> nullish v \<and> js_less_eq h x v
      | _ \<Rightarrow> False)"

lemma wh_simps [simp]:
  "w_field (wh f opr v) = f" "w_value (wh f opr v) = v" "w_operator (wh f opr v) = opr"
  "w_connector (wh f opr v) = C_AND" "w_mode (wh f opr v) = M_sensitive"
  by (simp_all add: wh_def)

lemma simple_wh [simp]:
  "simple_clause (wh f opr v) \<longleftrightarrow> opr \<in> {Op_eq, Op_ne, Op_gt, Op_gte, Op_lt, Op_lte}"
  "simple_clause (wh_eq f v)"
  by (simp_all add: simple_clause_def wh_eq_def)

lemma clause_holds_wh [simp]:
  "clause_holds h r (wh_eq f (Str s)) \<longleftrightarrow> get_field r f = Str s"
  "clause_holds h r (wh_eq f Null) \<longleftrightarrow> nullish (get_field r f)"
  "clause_holds h r (wh f Op_gt v) \<longleftrightarrow> \<not> nullish v \<and> js_less h v (get_field r f)"
  "clause_holds h r (wh f Op_gte v) \<longleftrightarrow> \<not> nullish v \<and> js_less_eq h v (get_field r f)"
  "clause_holds h r (wh f Op_lt v) \<longleftrightarrow> \<not> nullish v \<and> js_less h (get_field r f) v"
  "clause_holds h r (wh f Op_lte v) \<longleftrightarrow> \<not> nullish v \<and> js_less_eq h (get_field r f) v"
  by (auto simp: clause_holds_def wh_eq_def)

text \<open>The rows of an id.\<close>

definition rows_with_id :: "string \<Rightarrow> row list \<Rightarrow> row list" where
  "rows_with_id i rs = filter (\<lambda>r. get_field r ''id'' = Str i) rs"

lemma rows_with_id_replace:
  assumes "rows_with_id i (pre @ r # post) = [q]" and "get_field r' ''id'' = get_field r ''id''"
  shows "rows_with_id i (pre @ r' # post) = [if get_field r ''id'' = Str i then r' else q]"
    and "get_field r ''id'' = Str i \<Longrightarrow> q = r"
  using assms by (auto simp: rows_with_id_def filter_eq_Cons_iff append_eq_Cons_conv split: if_splits)

lemma rows_with_id_filter: "rows_with_id i (filter P rs) = filter P (rows_with_id i rs)"
  by (simp add: rows_with_id_def conj_commute)

lemma rows_with_id_append: "rows_with_id i (xs @ ys) = rows_with_id i xs @ rows_with_id i ys"
  by (simp add: rows_with_id_def)

lemma rows_with_id_map_keep:
  "(\<And>q. get_field (f q) ''id'' = get_field q ''id'') \<Longrightarrow> rows_with_id i (map f rs) = map f (rows_with_id i rs)"
  unfolding rows_with_id_def by (simp add: filter_map comp_def)

lemma id_val_Str: "clause_holds h r (wh_eq ''id'' v) \<Longrightarrow> v = Str i \<Longrightarrow> get_field r ''id'' = Str i"
  by simp

lemma id_val_other:
  "clause_holds h r (wh_eq ''id'' v) \<Longrightarrow> v \<noteq> Str i \<Longrightarrow> get_field r ''id'' \<noteq> Str i"
  by (cases v) (auto simp: clause_holds_def wh_eq_def split: if_splits)

locale where_store = store A rows has_table sat ok
  for A :: "'s adapter" and rows has_table sat ok +
  fixes h :: host
  assumes sat_simple:
    "list_all simple_clause ws \<Longrightarrow> sat ws r = Inr (list_all (clause_holds h r) ws)"
begin

lemma sat_wh_eq [simp]: "sat [wh_eq f (Str v)] r = Inr (get_field r f = Str v)"
  by (simp add: sat_simple)

text \<open>A guarded step on the row with a given id leaves the other rows alone.\<close>

lemma increment_by_id:
  assumes ok: "ok s" and step: "a_incrementOne A m (wh_eq ''id'' (Str i) # g) inc u s = (Inr (Some r'), t)"
    and g: "list_all simple_clause g"
  obtains pre r post where "rows s m = pre @ r # post" "get_field r ''id'' = Str i"
    "list_all (clause_holds h r) g" "r' = apply_set u (apply_increment inc r)"
    "rows t m = pre @ r' # post"
proof -
  from increment_some[OF ok step] obtain pre r post where
    "rows s m = pre @ r # post" "sat (wh_eq ''id'' (Str i) # g) r = Inr True"
    "r' = apply_set u (apply_increment inc r)" "rows t m = pre @ r' # post" by blast
  moreover from this(2) g have "get_field r ''id'' = Str i" "list_all (clause_holds h r) g"
    by (simp_all add: sat_simple)
  ultimately show thesis using that by blast
qed

text \<open>A won guarded write on the row of an id, seen at the watched row.\<close>

lemma guarded_row_write:
  assumes ok: "ok s"
    and step: "a_incrementOne A m (wh_eq ''id'' k # g) inc u s = (Inr (Some r'), t)"
    and g: "list_all simple_clause g"
    and keep: "\<And>r. get_field (apply_set u (apply_increment inc r)) ''id'' = get_field r ''id''"
    and q: "rows_with_id i (rows s m) = [q]"
  shows "rows_with_id i (rows t m) =
      [if k = Str i then apply_set u (apply_increment inc q) else q]"
    and "k = Str i \<Longrightarrow> list_all (clause_holds h q) g"
    and "k = Str i \<Longrightarrow> r' = apply_set u (apply_increment inc q)"
proof -
  from increment_some[OF ok step] obtain pre r post where
    s: "rows s m = pre @ r # post"
    and sat: "sat (wh_eq ''id'' k # g) r = Inr True"
    and r': "r' = apply_set u (apply_increment inc r)"
    and t: "rows t m = pre @ r' # post" by blast
  from sat g have cl: "clause_holds h r (wh_eq ''id'' k)" "list_all (clause_holds h r) g"
    by (simp_all add: sat_simple)
  have rid: "get_field r ''id'' = Str i \<longleftrightarrow> k = Str i"
    using id_val_Str[OF cl(1)] id_val_other[OF cl(1)] by blast
  note rep = rows_with_id_replace[of i pre r post q r', OF q[unfolded s]]
  have id': "get_field r' ''id'' = get_field r ''id''" unfolding r' by (rule keep)
  have qr: "q = r" if "k = Str i"
    using rep(2)[OF id'] rid that by blast
  show "rows_with_id i (rows t m) =
      [if k = Str i then apply_set u (apply_increment inc q) else q]"
    unfolding t using rep(1)[OF id'] qr rid r' by simp
  show "list_all (clause_holds h q) g" if "k = Str i"
    using qr[OF that] cl(2) by simp
  show "r' = apply_set u (apply_increment inc q)" if "k = Str i"
    using qr[OF that] r' by simp
qed

text \<open>A guarded write on the row of an id, at the rows of another or the same id.\<close>

lemma guarded_rows_write:
  assumes ok: "ok s"
    and step: "a_incrementOne A m (wh_eq ''id'' k # g) inc u s = (x, t)"
    and g: "list_all simple_clause g"
    and keep: "\<And>r. get_field (apply_set u (apply_increment inc r)) ''id'' = get_field r ''id''"
    and few: "rows_with_id i (rows s m) = [] \<or> rows_with_id i (rows s m) = [q]"
  obtains (miss) "rows_with_id i (rows t m) = rows_with_id i (rows s m)" "k \<noteq> Str i \<or> (\<forall>r. x \<noteq> Inr (Some r))"
  | (hit) "rows_with_id i (rows s m) = [q]" "rows_with_id i (rows t m) = [apply_set u (apply_increment inc q)]"
      "k = Str i" "list_all (clause_holds h q) g" "x = Inr (Some (apply_set u (apply_increment inc q)))"
proof (cases "\<exists>r. x = Inr (Some r)")
  case False
  with ok step have "t = s" by (rule increment_missed)
  with False show thesis by (intro miss) auto
next
  case True
  then obtain r' where x: "x = Inr (Some r')" by blast
  note step = step[unfolded x]
  from increment_some[OF ok step] obtain pre r post where
    s: "rows s m = pre @ r # post" and r': "r' = apply_set u (apply_increment inc r)"
    and sat: "sat (wh_eq ''id'' k # g) r = Inr True" and t: "rows t m = pre @ r' # post" by blast
  have id': "get_field r' ''id'' = get_field r ''id''" unfolding r' by (rule keep)
  from few show thesis
  proof
    assume none: "rows_with_id i (rows s m) = []"
    then have r: "get_field r ''id'' \<noteq> Str i" unfolding s by (auto simp: rows_with_id_def)
    from sat g have "clause_holds h r (wh_eq ''id'' k)" by (simp add: sat_simple)
    with r have "k \<noteq> Str i" by auto
    moreover have "rows_with_id i (rows t m) = []"
      using none r id' unfolding s t by (auto simp: rows_with_id_def)
    ultimately show thesis using none by (intro miss) auto
  next
    assume q: "rows_with_id i (rows s m) = [q]"
    note w = guarded_row_write[OF ok step g keep q]
    show thesis
      by (cases "k = Str i") (use w q x in \<open>auto intro: miss hit\<close>)
  qed
qed

text \<open>An update by id, at the rows of an id.\<close>

lemma update_by_id_rows:
  assumes ok: "ok s" and run: "a_update A m [wh_eq ''id'' k] up s = (x, t)"
    and keep: "\<And>q. get_field (object_assign q up) ''id'' = get_field q ''id''"
  shows "rows_with_id i (rows t m) =
    map (\<lambda>q. if k = Str i \<and> (\<exists>r. x = Inr (Some r)) then object_assign q up else q) (rows_with_id i (rows s m))"
proof (cases "\<exists>r. x = Inr (Some r)")
  case True
  then obtain r where x: "x = Inr (Some r)" by blast
  let ?f = "\<lambda>q. if sat [wh_eq ''id'' k] q = Inr True then object_assign q up else q"
  have "rows t m = map ?f (rows s m)" using update_some[OF ok run[unfolded x]] by simp
  then have "rows_with_id i (rows t m) = map ?f (rows_with_id i (rows s m))"
    by (simp add: rows_with_id_map_keep keep)
  moreover have "sat [wh_eq ''id'' k] q = Inr True \<longleftrightarrow> k = Str i" if "q \<in> set (rows_with_id i (rows s m))" for q
    using that id_val_other[of h q k i] by (auto simp: sat_simple rows_with_id_def)
  ultimately show ?thesis using x by simp
next
  case False
  with ok run have "t = s" by (rule update_missed)
  with False show ?thesis by (auto simp: map_idI)
qed

lemma rows_with_id_stamp:
  assumes ok: "ok s" and up: "a_update A m ws [(f, v)] s = (Inr (Some r), t)" and f: "f \<noteq> ''id''"
    and q: "rows_with_id i (rows s m) = [q]"
  shows "rows_with_id i (rows t m) = [if sat ws q = Inr True then object_assign q [(f, v)] else q]"
proof -
  from update_some[OF ok up] have
    "rows t m = map (\<lambda>q. if sat ws q = Inr True then object_assign q [(f, v)] else q) (rows s m)"
    by simp
  then have "rows_with_id i (rows t m) =
      map (\<lambda>q. if sat ws q = Inr True then object_assign q [(f, v)] else q) (rows_with_id i (rows s m))"
    unfolding rows_with_id_def using f by (simp add: filter_map_same row_simps)
  with q show ?thesis by simp
qed

end

text \<open>Deleting removes the rows that meet a condition, and nothing without one.\<close>

locale delete_store = where_store A rows has_table sat ok h
  for A :: "'s adapter" and rows has_table sat ok h +
  assumes delete_rows:
      "ok s \<Longrightarrow> a_delete A m ws s = (Inr y, t) \<Longrightarrow>
         rows t m = filter (\<lambda>r. ws = [] \<or> sat ws r \<noteq> Inr True) (rows s m)"
    and delete_frame:
      "ok s \<Longrightarrow> a_delete A m ws s = (x, t) \<Longrightarrow>
         ok t \<and> (\<forall>m'. m' \<noteq> m \<longrightarrow> rows t m' = rows s m')"
    and delete_error:
      "ok s \<Longrightarrow> a_delete A m ws s = (Inl e, t) \<Longrightarrow> t = s"

end
