(* ===== verification/JsDate.thy ===== *)
theory JsDate
  imports JsBase
begin

text \<open>
  Dates and JSON of the JavaScript standard library: \<open>Date.prototype.toISOString\<close> over
  the proleptic Gregorian calendar, \<open>JSON.stringify\<close> of a row, the time value of
  \<open>new Date(v)\<close>, and the clock a handler reads.
\<close>

section \<open>JSON.stringify of a row\<close>

datatype json = JNull | JStr string | JNum int | JBool bool | JArr "json list"

text \<open>The proleptic Gregorian date (year, month, day) of a day number since 1970-01-01.\<close>

definition civil_from_days :: "int \<Rightarrow> int \<times> int \<times> int" where
  "civil_from_days days =
     (let z = days + 719468;
          era = z div 146097;
          doe = z mod 146097;
          yoe = (doe - doe div 1460 + doe div 36524 - doe div 146096) div 365;
          doy = doe - (365 * yoe + yoe div 4 - yoe div 100);
          mp = (5 * doy + 2) div 153;
          d = doy - (153 * mp + 2) div 5 + 1;
          mo = (if mp < 10 then mp + 3 else mp - 9);
          y = yoe + era * 400
      in (if mo \<le> 2 then y + 1 else y, mo, d))"

definition pad_int :: "nat \<Rightarrow> int \<Rightarrow> string" where
  "pad_int k n = padStart k CHR ''0'' (int_to_str n)"

definition toISOString :: "int \<Rightarrow> string" where
  "toISOString t =
     (let ms = t mod 86400000; (y, mo, d) = civil_from_days (t div 86400000);
          year = (if 0 \<le> y \<and> y \<le> 9999 then pad_int 4 y
                  else if y < 0 then ''-'' @ pad_int 6 (- y) else ''+'' @ pad_int 6 y)
      in year @ ''-'' @ pad_int 2 mo @ ''-'' @ pad_int 2 d @ ''T'' @
         pad_int 2 (ms div 3600000) @ '':'' @ pad_int 2 (ms div 60000 mod 60) @ '':'' @
         pad_int 2 (ms div 1000 mod 60) @ ''.'' @ pad_int 3 (ms mod 1000) @ ''Z'')"

fun to_json :: "val \<Rightarrow> json" where
  "to_json Undef = JNull"
| "to_json Null = JNull"
| "to_json (Str s) = JStr s"
| "to_json (Num n) = JNum n"
| "to_json (BoolV b) = JBool b"
| "to_json (DateV _ t) = JStr (toISOString t)"
| "to_json (Arr vs) = JArr (map to_json vs)"

text \<open>
  The text of an object is determined by its printed members in order; an undefined
  member is not printed.
\<close>

definition json_row :: "row \<Rightarrow> (string \<times> json) list" where
  "json_row r = map (\<lambda>(k, v). (k, to_json v)) (filter (\<lambda>(_, v). v \<noteq> Undef) r)"

section \<open>Reading dates\<close>

text \<open>
  \<open>new Date(v).getTime()\<close> for the values a date column holds; \<open>None\<close> is an invalid date.
\<close>

fun time_of :: "val \<Rightarrow> int option" where
  "time_of (DateV _ t) = Some t"
| "time_of (Num n) = Some n"
| "time_of Null = Some 0"
| "time_of (BoolV b) = Some (if b then 1 else 0)"
| "time_of _ = None"

definition coalesce :: "val \<Rightarrow> val \<Rightarrow> val" where
  "coalesce a b = (if nullish a then b else a)"

text \<open>
  The successive \<open>new Date()\<close> objects of a handler: the \<open>i\<close>-th has an identity and a time.
\<close>

type_synonym clock = "nat \<Rightarrow> nat \<times> int"

definition date_at :: "clock \<Rightarrow> nat \<Rightarrow> val" where
  "date_at clk i = DateV (fst (clk i)) (snd (clk i))"

definition now_ms :: "clock \<Rightarrow> nat \<Rightarrow> int" where
  "now_ms clk i = snd (clk i)"

end
