(* ===== verification/ApiKeyStore.thy ===== *)
theory ApiKeyStore
  imports Adapter JsDate
begin

text \<open>
  Storage of API keys, \<open>packages/api-key/src/adapter.ts\<close>: the same key record kept in the
  database, in a secondary key-value storage, or in both (the storage as a cache in front
  of the database, \<open>fallbackToDatabase\<close>), and the list of key ids per owner.

  The secondary storage is an external service; its state is a map from storage keys to
  what was last set there with the TTL it was set with (expiry is the service's). A value
  is the JSON text of a key record, held as the record it denotes (\<open>SKey\<close>), or of a list of
  ids (\<open>SIds\<close>). Reading a record back gives its dates a new identity.
\<close>

section \<open>State and options\<close>

datatype stored = SKey row | SIds "string list"

record 's kstate =
  k_db :: 's
  k_sec :: "string \<rightharpoonup> stored \<times> int option"
  k_lastChecked :: "int option"  \<comment> \<open>the module variable of \<open>routes/index.ts\<close>\<close>

definition onDb :: "('s, 'a) act \<Rightarrow> ('s kstate, 'a) act" where
  "onDb m s = (case m (k_db s) of (r, d) \<Rightarrow> (r, s\<lparr>k_db := d\<rparr>))"

record apikey_opts =
  o_configId :: "string option"
  o_secondary :: bool            \<comment> \<open>\<open>storage === "secondary-storage"\<close>, otherwise \<open>"database"\<close>\<close>
  o_fallbackToDatabase :: bool
  o_deferUpdates :: bool
  o_disableKeyHashing :: bool
  o_rateLimitEnabled :: bool
  o_customAPIKeyValidator :: "(string \<Rightarrow> bool) option"
  o_authorizeReference :: "(row \<Rightarrow> bool) option"

text \<open>What a handler finds in its context.\<close>

record 's key_ctx =
  c_adapter :: "'s adapter"
  c_hasStorage :: bool           \<comment> \<open>a custom or configured secondary storage exists\<close>
  c_host :: host
  c_clock :: clock
  c_hash :: "string \<Rightarrow> string"       \<comment> \<open>\<open>defaultKeyHasher\<close> (SHA-256)\<close>

abbreviation API_KEY_TABLE_NAME :: string where
  "API_KEY_TABLE_NAME \<equiv> ''apikey''"

section \<open>Storage keys and serialization\<close>

definition getStorageKeyByHashedKey :: "string \<Rightarrow> string" where
  "getStorageKeyByHashedKey k = ''api-key:'' @ k"

definition getStorageKeyById :: "string \<Rightarrow> string" where
  "getStorageKeyById i = ''api-key:by-id:'' @ i"

definition getStorageKeyByReferenceId :: "string \<Rightarrow> string" where
  "getStorageKeyByReferenceId i = ''api-key:by-ref:'' @ i"

definition strField :: "host \<Rightarrow> row \<Rightarrow> string \<Rightarrow> string" where
  "strField h r f = js_String h (get_field r f)"

fun required_date :: "val \<Rightarrow> val res" where
  "required_date (DateV r t) = Inr (DateV r t)"
| "required_date _ = Inl TypeError"

definition optional_date :: "val \<Rightarrow> val res" where
  "optional_date v = (if nullish v then Inr Null else required_date v)"

text \<open>\<open>{...apiKey, createdAt: apiKey.createdAt.toISOString(), ...}\<close> as JSON.\<close>

definition serializeApiKey :: "row \<Rightarrow> row res" where
  "serializeApiKey k =
     bindR (required_date (get_field k ''createdAt'')) (\<lambda>cr.
     bindR (required_date (get_field k ''updatedAt'')) (\<lambda>up.
     bindR (optional_date (get_field k ''expiresAt'')) (\<lambda>ex.
     bindR (optional_date (get_field k ''lastRefillAt'')) (\<lambda>rf.
     bindR (optional_date (get_field k ''lastRequest'')) (\<lambda>rq.
       Inr (filter (\<lambda>(_, v). v \<noteq> Undef)
         (object_assign k [(''createdAt'', cr), (''updatedAt'', up), (''expiresAt'', ex),
           (''lastRefillAt'', rf), (''lastRequest'', rq)])))))))"

text \<open>\<open>new Date(text)\<close> of a stored date: the same time, the identity \<open>ref\<close>.\<close>

definition revive_required :: "nat \<Rightarrow> val \<Rightarrow> val" where
  "revive_required ref v = (case time_of v of Some t \<Rightarrow> DateV ref t | None \<Rightarrow> Undef)"

definition revive_optional :: "nat \<Rightarrow> val \<Rightarrow> val" where
  "revive_optional ref v = (if truthy v then revive_required ref v else Null)"

definition deserializeApiKey :: "nat \<Rightarrow> (stored \<times> int option) option \<Rightarrow> row option" where
  "deserializeApiKey ref data =
     (case data of
        Some (SKey k, _) \<Rightarrow> Some (object_assign k
          [(''createdAt'', revive_required ref (get_field k ''createdAt'')),
           (''updatedAt'', revive_required ref (get_field k ''updatedAt'')),
           (''expiresAt'', revive_optional ref (get_field k ''expiresAt'')),
           (''lastRefillAt'', revive_optional ref (get_field k ''lastRefillAt'')),
           (''lastRequest'', revive_optional ref (get_field k ''lastRequest''))])
      | _ \<Rightarrow> None)"

text \<open>\<open>Math.floor((expiresAt - now) / 1000)\<close>, when positive.\<close>

definition calculateTTL :: "int \<Rightarrow> row \<Rightarrow> int option" where
  "calculateTTL now k =
     (if truthy (get_field k ''expiresAt'')
      then (case time_of (get_field k ''expiresAt'') of
              None \<Rightarrow> None
            | Some t \<Rightarrow> (let ttl = (t - now) div 1000 in if ttl > 0 then Some ttl else None))
      else None)"

section \<open>The secondary storage\<close>

definition sec_set :: "string \<Rightarrow> stored \<Rightarrow> int option \<Rightarrow> ('s kstate, unit) act" where
  "sec_set k v ttl s = (Inr (), s\<lparr>k_sec := (k_sec s)(k \<mapsto> (v, ttl))\<rparr>)"

definition sec_delete :: "string \<Rightarrow> ('s kstate, unit) act" where
  "sec_delete k s = (Inr (), s\<lparr>k_sec := (k_sec s)(k := None)\<rparr>)"

definition sec_get :: "string \<Rightarrow> ('s kstate, (stored \<times> int option) option) act" where
  "sec_get k s = (Inr (k_sec s k), s)"

definition getApiKeyFromStorage :: "'s key_ctx \<Rightarrow> string \<Rightarrow> ('s kstate, row option) act" where
  "getApiKeyFromStorage ctx hashedKey =
     bindA (sec_get (getStorageKeyByHashedKey hashedKey)) (\<lambda>d.
       returnA (deserializeApiKey (fst (c_clock ctx 0)) d))"

definition getApiKeyByIdFromStorage :: "'s key_ctx \<Rightarrow> string \<Rightarrow> ('s kstate, row option) act" where
  "getApiKeyByIdFromStorage ctx i =
     bindA (sec_get (getStorageKeyById i)) (\<lambda>d.
       returnA (deserializeApiKey (fst (c_clock ctx 0)) d))"

definition modifyRefList :: "string \<Rightarrow> (string list \<Rightarrow> string list) \<Rightarrow> ('s kstate, unit) act" where
  "modifyRefList refKey modify =
     bindA (sec_get refKey) (\<lambda>d.
       let keyIds = (case d of Some (SIds ids, _) \<Rightarrow> ids | _ \<Rightarrow> []);
           next_ids = modify keyIds
       in if next_ids = [] then sec_delete refKey else sec_set refKey (SIds next_ids) None)"

definition setApiKeyInStorage ::
  "'s key_ctx \<Rightarrow> row \<Rightarrow> int option \<Rightarrow> apikey_opts \<Rightarrow> ('s kstate, unit) act"
where
  "setApiKeyInStorage ctx k ttl opts =
     bindA (liftR (serializeApiKey k)) (\<lambda>ser.
       let h = c_host ctx;
           refKey = getStorageKeyByReferenceId (strField h k ''referenceId'');
           kid = strField h k ''id'';
           put = bindA (sec_set (getStorageKeyByHashedKey (strField h k ''key'')) (SKey ser) ttl)
                   (\<lambda>_. sec_set (getStorageKeyById kid) (SKey ser) ttl)
       in if o_fallbackToDatabase opts then bindA put (\<lambda>_. sec_delete refKey)
          else bindA put (\<lambda>_. modifyRefList refKey
                 (\<lambda>ids. if kid \<in> set ids then ids else ids @ [kid])))"

definition deleteApiKeyFromStorage ::
  "'s key_ctx \<Rightarrow> row \<Rightarrow> apikey_opts \<Rightarrow> ('s kstate, unit) act"
where
  "deleteApiKeyFromStorage ctx k opts =
     (let h = c_host ctx;
          refKey = getStorageKeyByReferenceId (strField h k ''referenceId'');
          kid = strField h k ''id'';
          del = bindA (sec_delete (getStorageKeyByHashedKey (strField h k ''key'')))
                  (\<lambda>_. sec_delete (getStorageKeyById kid))
      in if o_fallbackToDatabase opts then bindA del (\<lambda>_. sec_delete refKey)
         else bindA del (\<lambda>_. modifyRefList refKey (filter (\<lambda>i. i \<noteq> kid))))"

section \<open>The unified getter, setter and deleter\<close>

text \<open>
  \<open>getApiKey\<close> and \<open>getApiKeyById\<close> differ in the column they look up and in the storage
  key they read.
\<close>

definition lookupApiKey ::
  "'s key_ctx \<Rightarrow> string \<Rightarrow> string \<Rightarrow> ('s kstate, row option) act \<Rightarrow> apikey_opts \<Rightarrow>
     ('s kstate, row option) act"
where
  "lookupApiKey ctx field v fromStorage opts =
     (let findDb = onDb (a_findOne (c_adapter ctx) API_KEY_TABLE_NAME [wh_eq field (Str v)]) in
      if \<not> o_secondary opts then findDb
      else if o_fallbackToDatabase opts then
        bindA (if c_hasStorage ctx then fromStorage else returnA None) (\<lambda>cached.
          case cached of
            Some k \<Rightarrow> returnA (Some k)
          | None \<Rightarrow> bindA findDb (\<lambda>dbKey.
              case dbKey of
                None \<Rightarrow> returnA None
              | Some k \<Rightarrow>
                  if c_hasStorage ctx then
                    bindA (setApiKeyInStorage ctx k (calculateTTL (now_ms (c_clock ctx) 0) k) opts)
                      (\<lambda>_. returnA (Some k))
                  else returnA (Some k)))
      else if \<not> c_hasStorage ctx then returnA None
      else fromStorage)"

definition getApiKey :: "'s key_ctx \<Rightarrow> string \<Rightarrow> apikey_opts \<Rightarrow> ('s kstate, row option) act" where
  "getApiKey ctx hashedKey opts =
     lookupApiKey ctx ''key'' hashedKey (getApiKeyFromStorage ctx hashedKey) opts"

definition getApiKeyById :: "'s key_ctx \<Rightarrow> string \<Rightarrow> apikey_opts \<Rightarrow> ('s kstate, row option) act" where
  "getApiKeyById ctx i opts =
     lookupApiKey ctx ''id'' i (getApiKeyByIdFromStorage ctx i) opts"

definition storage_missing :: err where
  "storage_missing =
     Throw (''Secondary storage is required when storage mode is '' @
       [CHR 0x27] @ ''secondary-storage'' @ [CHR 0x27])"

definition setApiKey :: "'s key_ctx \<Rightarrow> row \<Rightarrow> apikey_opts \<Rightarrow> ('s kstate, unit) act" where
  "setApiKey ctx k opts =
     (if \<not> o_secondary opts then returnA ()
      else if \<not> c_hasStorage ctx then throwA storage_missing
      else setApiKeyInStorage ctx k (calculateTTL (now_ms (c_clock ctx) 0) k) opts)"

definition deleteApiKey :: "'s key_ctx \<Rightarrow> row \<Rightarrow> apikey_opts \<Rightarrow> ('s kstate, unit) act" where
  "deleteApiKey ctx k opts =
     (if \<not> o_secondary opts then returnA ()
      else if \<not> c_hasStorage ctx then throwA storage_missing
      else deleteApiKeyFromStorage ctx k opts)"

end
