(* ===== verification/MemoryQuery.thy ===== *)
theory MemoryQuery
  imports Adapter
begin

text \<open>
  Queries of the in-memory store, \<open>packages/memory-adapter/src/memory-adapter.ts\<close> and
  \<open>query-builders.ts\<close>.

  A table is a list of row objects. The code compares row objects by identity
  (\<open>res.includes(record)\<close>, \<open>record !== target\<close>) and mutates them in place, so an object
  is an address with its current row, and the database counts the addresses it has used.
  \<open>structuredClone\<close> gives every object of the copy (rows and dates) a new identity.
  What the adapter factory passes in (\<open>getFieldName\<close>, \<open>getDefaultFieldName\<close>,
  \<open>getModelName\<close>, \<open>generateId === "serial"\<close>) is a field of the record \<open>mem_config\<close>.
\<close>

section \<open>The database\<close>

type_synonym obj = "nat \<times> row"

record memdb =
  tables :: "string \<rightharpoonup> obj list"
  next_ref :: nat

record mem_config =
  hostEnv :: host
  getFieldName :: "string \<Rightarrow> string \<Rightarrow> string"
  getDefaultFieldName :: "string \<Rightarrow> string \<Rightarrow> string"
  getModelName :: "string \<Rightarrow> string"
  useNumberId :: bool

abbreviation obj_row :: "obj \<Rightarrow> row" where "obj_row \<equiv> snd"
abbreviation obj_ref :: "obj \<Rightarrow> nat" where "obj_ref \<equiv> fst"

definition set_table :: "memdb \<Rightarrow> string \<Rightarrow> obj list \<Rightarrow> memdb" where
  "set_table db m os = db\<lparr>tables := (tables db)(m \<mapsto> os)\<rparr>"

definition table_of :: "memdb \<Rightarrow> string \<Rightarrow> obj list" where
  "table_of db m = (case tables db m of None \<Rightarrow> [] | Some os \<Rightarrow> os)"

lemma set_table_simps [simp]:
  "tables (set_table db m os) = (tables db)(m \<mapsto> os)"
  "next_ref (set_table db m os) = next_ref db"
  "table_of (set_table db m os) m' = (if m' = m then os else table_of db m')"
  by (auto simp: set_table_def table_of_def)

section \<open>Case-insensitive helpers\<close>

fun insensitiveCompare :: "val \<Rightarrow> val \<Rightarrow> bool" where
  "insensitiveCompare (Str a) (Str b) = (toLowerCase a = toLowerCase b)"
| "insensitiveCompare a b = strict_eq a b"

fun insensitiveIn :: "val \<Rightarrow> val list \<Rightarrow> bool" where
  "insensitiveIn (Str a) vs =
     list_ex (\<lambda>v. case v of Str b \<Rightarrow> toLowerCase a = toLowerCase b | _ \<Rightarrow> False) vs"
| "insensitiveIn a vs = list_ex (strict_eq a) vs"

definition insensitiveNotIn :: "val \<Rightarrow> val list \<Rightarrow> bool" where
  "insensitiveNotIn a vs = (\<not> insensitiveIn a vs)"

fun insensitiveContains :: "val \<Rightarrow> val \<Rightarrow> bool" where
  "insensitiveContains (Str a) (Str b) = str_includes (toLowerCase a) (toLowerCase b)"
| "insensitiveContains _ _ = False"

fun insensitiveStartsWith :: "val \<Rightarrow> val \<Rightarrow> bool" where
  "insensitiveStartsWith (Str a) (Str b) = startsWith (toLowerCase a) (toLowerCase b)"
| "insensitiveStartsWith _ _ = False"

fun insensitiveEndsWith :: "val \<Rightarrow> val \<Rightarrow> bool" where
  "insensitiveEndsWith (Str a) (Str b) = endsWith (toLowerCase a) (toLowerCase b)"
| "insensitiveEndsWith _ _ = False"

section \<open>Evaluating a where clause\<close>

text \<open>
  \<open>record[field]?.includes(value)\<close>, \<open>record[field].startsWith(value)\<close> and
  \<open>record[field].endsWith(value)\<close>: strings and arrays have \<open>includes\<close>, only strings have
  the other two, and the value is read as a string. Calling a method a value does not
  have, or reading a property of \<open>null\<close> or \<open>undefined\<close>, raises a \<open>TypeError\<close>.
\<close>

fun method_includes :: "host \<Rightarrow> val \<Rightarrow> val \<Rightarrow> bool res" where
  "method_includes h Undef v = Inr False"
| "method_includes h Null v = Inr False"
| "method_includes h (Str s) v = Inr (str_includes s (js_String h v))"
| "method_includes h (Arr vs) v = Inr (list_ex (\<lambda>x. strict_eq x v) vs)"
| "method_includes h _ v = Inl TypeError"

fun method_startsWith :: "host \<Rightarrow> val \<Rightarrow> val \<Rightarrow> bool res" where
  "method_startsWith h (Str s) v = Inr (startsWith s (js_String h v))"
| "method_startsWith h _ v = Inl TypeError"

fun method_endsWith :: "host \<Rightarrow> val \<Rightarrow> val \<Rightarrow> bool res" where
  "method_endsWith h (Str s) v = Inr (endsWith s (js_String h v))"
| "method_endsWith h _ v = Inl TypeError"

fun all_strings :: "val \<Rightarrow> bool" where
  "all_strings (Str _) = True"
| "all_strings (Arr vs) = list_all (\<lambda>v. case v of Str _ \<Rightarrow> True | _ \<Rightarrow> False) vs"
| "all_strings _ = False"

definition evalClause :: "host \<Rightarrow> row \<Rightarrow> CleanedWhere \<Rightarrow> bool res" where
  "evalClause h rec c =
     (let v = w_value c; x = get_field rec (w_field c);
          isInsensitive = (w_mode c = M_insensitive \<and> all_strings v) in
      case w_operator c of
        Op_in \<Rightarrow> (case v of
            Arr vs \<Rightarrow> Inr (if isInsensitive then insensitiveIn x vs
                          else list_ex (strict_eq x) vs)
          | _ \<Rightarrow> Inl (Throw ''Value must be an array''))
      | Op_not_in \<Rightarrow> (case v of
            Arr vs \<Rightarrow> Inr (if isInsensitive then insensitiveNotIn x vs
                          else \<not> list_ex (strict_eq x) vs)
          | _ \<Rightarrow> Inl (Throw ''Value must be an array''))
      | Op_contains \<Rightarrow>
          if isInsensitive then Inr (insensitiveContains x v) else method_includes h x v
      | Op_starts_with \<Rightarrow>
          if isInsensitive then Inr (insensitiveStartsWith x v) else method_startsWith h x v
      | Op_ends_with \<Rightarrow>
          if isInsensitive then Inr (insensitiveEndsWith x v) else method_endsWith h x v
      | Op_ne \<Rightarrow>
          Inr (if isInsensitive then \<not> insensitiveCompare x v else \<not> strict_eq x v)
      | Op_gt \<Rightarrow> Inr (\<not> nullish v \<and> js_less h v x)
      | Op_gte \<Rightarrow> Inr (\<not> nullish v \<and> js_less_eq h v x)
      | Op_lt \<Rightarrow> Inr (\<not> nullish v \<and> js_less h x v)
      | Op_lte \<Rightarrow> Inr (\<not> nullish v \<and> js_less_eq h x v)
      | Op_eq \<Rightarrow>
          Inr (if isInsensitive then insensitiveCompare x v
               else if v = Null then nullish x
               else strict_eq x v))"

text \<open>
  The fold over the clauses: the first clause gives the initial result and is then
  folded in again with its own connector; every clause is evaluated, so an exception in
  any of them escapes.
\<close>

fun fold_clauses :: "host \<Rightarrow> row \<Rightarrow> bool \<Rightarrow> CleanedWhere list \<Rightarrow> bool res" where
  "fold_clauses h rec b [] = Inr b"
| "fold_clauses h rec b (c # cs) =
     bindR (evalClause h rec c) (\<lambda>x.
       fold_clauses h rec (if w_connector c = C_OR then b \<or> x else b \<and> x) cs)"

definition matches_where :: "host \<Rightarrow> CleanedWhere list \<Rightarrow> row \<Rightarrow> bool res" where
  "matches_where h ws rec =
     (case ws of
        [] \<Rightarrow> Inr True
      | w # _ \<Rightarrow> bindR (evalClause h rec w) (\<lambda>b. fold_clauses h rec b ws))"

text \<open>\<open>convertWhereClause\<close> without \<open>select\<close> and \<open>join\<close>: the matching objects themselves.\<close>

definition matching_objs :: "mem_config \<Rightarrow> memdb \<Rightarrow> string \<Rightarrow> CleanedWhere list \<Rightarrow> obj list res" where
  "matching_objs cfg db m ws =
     (case tables db m of
        None \<Rightarrow> Inl (Throw (''Model '' @ m @ '' not found''))
      | Some os \<Rightarrow> filterR (\<lambda>ob. matches_where (hostEnv cfg) ws (obj_row ob)) os)"

definition select_row :: "mem_config \<Rightarrow> string \<Rightarrow> string list option \<Rightarrow> row \<Rightarrow> row" where
  "select_row cfg m sel rec =
     (case sel of
        None \<Rightarrow> rec
      | Some [] \<Rightarrow> rec
      | Some fs \<Rightarrow> filter (\<lambda>(k, _). getDefaultFieldName cfg m k \<in> set fs) rec)"

definition baseRecords ::
  "mem_config \<Rightarrow> memdb \<Rightarrow> string \<Rightarrow> CleanedWhere list \<Rightarrow> string list option \<Rightarrow> row list res"
where
  "baseRecords cfg db m ws sel =
     bindR (matching_objs cfg db m ws) (\<lambda>os. Inr (map (select_row cfg m sel \<circ> obj_row) os))"

section \<open>Sorting\<close>

text \<open>The comparator of \<open>applySortToRecords\<close>; \<open>comparison\<close> before the direction is applied.\<close>

definition compare_values :: "host \<Rightarrow> val \<Rightarrow> val \<Rightarrow> int" where
  "compare_values h a b =
     (if nullish a \<and> nullish b then 0
      else if nullish a then - 1
      else if nullish b then 1
      else (case (a, b) of
          (Str s, Str t) \<Rightarrow> localeCompare h s t
        | (DateV _ s, DateV _ t) \<Rightarrow> s - t
        | (Num s, Num t) \<Rightarrow> s - t
        | (BoolV s, BoolV t) \<Rightarrow> if s = t then 0 else if s then 1 else - 1
        | _ \<Rightarrow> localeCompare h (js_String h a) (js_String h b)))"

definition compare_records ::
  "mem_config \<Rightarrow> string \<Rightarrow> string \<times> direction \<Rightarrow> row \<Rightarrow> row \<Rightarrow> int"
where
  "compare_records cfg m sb a b =
     (let field = getFieldName cfg m (fst sb);
          comparison = compare_values (hostEnv cfg) (get_field a field) (get_field b field)
      in if snd sb = Asc then comparison else - comparison)"

text \<open>
  \<open>Array.prototype.sort\<close> is stable: equal elements keep their order. Insertion of each
  element behind the elements it is not smaller than computes the stable sorted list.
\<close>

fun insert_sorted :: "('a \<Rightarrow> 'a \<Rightarrow> int) \<Rightarrow> 'a \<Rightarrow> 'a list \<Rightarrow> 'a list" where
  "insert_sorted cmp x [] = [x]"
| "insert_sorted cmp x (y # ys) =
     (if cmp x y < 0 then x # y # ys else y # insert_sorted cmp x ys)"

definition stable_sort :: "('a \<Rightarrow> 'a \<Rightarrow> int) \<Rightarrow> 'a list \<Rightarrow> 'a list" where
  "stable_sort cmp xs = foldl (\<lambda>acc x. insert_sorted cmp x acc) [] xs"

definition applySortToRecords ::
  "mem_config \<Rightarrow> string \<Rightarrow> (string \<times> direction) option \<Rightarrow> row list \<Rightarrow> row list"
where
  "applySortToRecords cfg m sb rs =
     (case sb of None \<Rightarrow> rs | Some k \<Rightarrow> stable_sort (compare_records cfg m k) rs)"

text \<open>\<open>slice(k)\<close> and \<open>slice(0, k)\<close>, with JavaScript's reading of negative arguments.\<close>

definition slice_from :: "int \<Rightarrow> 'a list \<Rightarrow> 'a list" where
  "slice_from k xs = (if k < 0 then drop (length xs - nat (- k)) xs else drop (nat k) xs)"

definition slice_upto :: "int \<Rightarrow> 'a list \<Rightarrow> 'a list" where
  "slice_upto k xs = (if k < 0 then take (length xs - nat (- k)) xs else take (nat k) xs)"

definition paginate :: "int option \<Rightarrow> int option \<Rightarrow> 'a list \<Rightarrow> 'a list" where
  "paginate off lim xs =
     (let ys = (case off of None \<Rightarrow> xs | Some k \<Rightarrow> slice_from k xs)
      in (case lim of None \<Rightarrow> ys | Some k \<Rightarrow> slice_upto k ys))"

section \<open>Joins\<close>

record join_attr =
  on_from :: string
  on_to :: string
  one_to_one :: bool
  join_limit :: "int option"

datatype joined = JoinOne "row option" | JoinMany "row list"

record nested =
  n_row :: row
  n_joined :: "(string \<times> joined) list"

text \<open>
  Insertion-ordered \<open>Map\<close>s keyed by strings: \<open>grouped\<close> from base ids to nested entries,
  \<open>seenIds\<close> from \<open>`${baseId}-${joinModel}`\<close> to the joined ids already pushed.
\<close>

record join_state =
  js_grouped :: "(string \<times> nested) list"
  js_seen :: "(string \<times> val list) list"

definition seen_key :: "string \<Rightarrow> string \<Rightarrow> string" where
  "seen_key baseId joinModel = baseId @ ''-'' @ joinModel"

fun init_joins ::
  "mem_config \<Rightarrow> string \<Rightarrow> (string \<times> join_attr) list \<Rightarrow> nested \<times> (string \<times> val list) list \<Rightarrow>
     nested \<times> (string \<times> val list) list"
where
  "init_joins cfg baseId [] acc = acc"
| "init_joins cfg baseId ((jm, ja) # rest) (n, seen) =
     (let name = getModelName cfg jm in
      if one_to_one ja then
        init_joins cfg baseId rest
          (n\<lparr>n_joined := AList.update name (JoinOne None) (n_joined n)\<rparr>, seen)
      else
        init_joins cfg baseId rest
          (n\<lparr>n_joined := AList.update name (JoinMany []) (n_joined n)\<rparr>,
           AList.update (seen_key baseId jm) [] seen))"

text \<open>The inner loop over the matching records of a one-to-many join.\<close>

fun push_matching ::
  "int \<Rightarrow> int \<Rightarrow> row list \<Rightarrow> row list \<Rightarrow> val list \<Rightarrow> row list \<times> val list"
where
  "push_matching limit count [] out seen = (out, seen)"
| "push_matching limit count (r # rs) out seen =
     (if count \<ge> limit then (out, seen)
      else if list_ex (\<lambda>i. i = get_field r ''id'') seen
        then push_matching limit count rs out seen
      else push_matching limit (count + 1) rs (out @ [r]) (seen @ [get_field r ''id'']))"

definition joined_rows :: "nested \<Rightarrow> string \<Rightarrow> row list" where
  "joined_rows n name =
     (case map_of (n_joined n) name of Some (JoinMany rs) \<Rightarrow> rs | _ \<Rightarrow> [])"

fun add_joins ::
  "mem_config \<Rightarrow> memdb \<Rightarrow> row \<Rightarrow> string \<Rightarrow> (string \<times> join_attr) list \<Rightarrow>
     nested \<times> (string \<times> val list) list \<Rightarrow> (nested \<times> (string \<times> val list) list) res"
where
  "add_joins cfg db base baseId [] acc = Inr acc"
| "add_joins cfg db base baseId ((jm, ja) # rest) (n, seen) =
     (let name = getModelName cfg jm in
      case tables db name of
        None \<Rightarrow> Inl (Throw (''JoinOption model '' @ name @ '' not found''))
      | Some os \<Rightarrow>
          (let matching = filter (\<lambda>r. strict_eq (get_field r (on_to ja))
                                       (get_field base (on_from ja))) (map obj_row os) in
           if one_to_one ja then
             add_joins cfg db base baseId rest
               (n\<lparr>n_joined := AList.update name
                    (JoinOne (case matching of [] \<Rightarrow> None | r # _ \<Rightarrow> Some r)) (n_joined n)\<rparr>, seen)
           else
             (let key = seen_key baseId jm;
                  limit = (case join_limit ja of None \<Rightarrow> 100 | Some k \<Rightarrow> k);
                  seenSet = (case map_of seen key of None \<Rightarrow> [] | Some ids \<Rightarrow> ids);
                  (out, seen') = push_matching limit 0 matching (joined_rows n name) seenSet
              in add_joins cfg db base baseId rest
                   (n\<lparr>n_joined := AList.update name (JoinMany out) (n_joined n)\<rparr>,
                    AList.update key seen' seen))))"

fun group_rows ::
  "mem_config \<Rightarrow> memdb \<Rightarrow> (string \<times> join_attr) list \<Rightarrow> row list \<Rightarrow> join_state \<Rightarrow> join_state res"
where
  "group_rows cfg db join [] st = Inr st"
| "group_rows cfg db join (base # rest) st =
     (let baseId = js_String (hostEnv cfg) (get_field base ''id'');
          (n, seen) = (case map_of (js_grouped st) baseId of
              Some n \<Rightarrow> (n, js_seen st)
            | None \<Rightarrow> init_joins cfg baseId join (\<lparr>n_row = base, n_joined = []\<rparr>, js_seen st))
      in bindR (add_joins cfg db base baseId join (n, seen)) (\<lambda>(n', seen').
           group_rows cfg db join rest
             \<lparr>js_grouped = AList.update baseId n' (js_grouped st), js_seen = seen'\<rparr>))"

definition convertWhereClause ::
  "mem_config \<Rightarrow> memdb \<Rightarrow> string \<Rightarrow> CleanedWhere list \<Rightarrow> (string \<times> join_attr) list option \<Rightarrow>
     string list option \<Rightarrow> nested list res"
where
  "convertWhereClause cfg db m ws join sel =
     bindR (baseRecords cfg db m ws sel) (\<lambda>base.
       case join of
         None \<Rightarrow> Inr (map (\<lambda>r. \<lparr>n_row = r, n_joined = []\<rparr>) base)
       | Some j \<Rightarrow>
           bindR (group_rows cfg db j base \<lparr>js_grouped = [], js_seen = []\<rparr>) (\<lambda>st.
             Inr (map snd (js_grouped st))))"

end
