(* ===== verification/MemoryAdapter.thy ===== *)
theory MemoryAdapter
  imports MemoryQuery
begin

text \<open>
  The operations of the in-memory store, the \<open>adapter\<close> object of
  \<open>packages/memory-adapter/src/memory-adapter.ts\<close>, as actions on \<open>memdb\<close>, and the
  interpretation of the locale \<open>store\<close> that discharges the adapter laws for them.
  An exception is raised before the first write of an operation, so a failed operation
  leaves the database as it was.
\<close>

section \<open>Operations\<close>

text \<open>In-place mutation of the objects whose address is in the list.\<close>

definition update_objs :: "nat list \<Rightarrow> (row \<Rightarrow> row) \<Rightarrow> obj list \<Rightarrow> obj list" where
  "update_objs refs f os = map (\<lambda>(r, rec). (r, if r \<in> set refs then f rec else rec)) os"

definition mem_create :: "mem_config \<Rightarrow> string \<Rightarrow> row \<Rightarrow> (memdb, row) act" where
  "mem_create cfg m data db =
     (case (if useNumberId cfg
            then (case tables db (getModelName cfg m) of
                    None \<Rightarrow> Inl TypeError
                  | Some os \<Rightarrow> Inr (set_field data ''id'' (Num (int (length os) + 1))))
            else Inr data) of
        Inl e \<Rightarrow> (Inl e, db)
      | Inr d \<Rightarrow>
          (Inr d, (set_table db m (table_of db m @ [(next_ref db, d)]))
                    \<lparr>next_ref := Suc (next_ref db)\<rparr>))"

definition mem_findOne ::
  "mem_config \<Rightarrow> (string \<times> join_attr) list option \<Rightarrow> string list option \<Rightarrow> string \<Rightarrow>
     CleanedWhere list \<Rightarrow> (memdb, nested option) act"
where
  "mem_findOne cfg join sel m ws db =
     (bindR (convertWhereClause cfg db m ws join sel) (\<lambda>res.
        Inr (case res of [] \<Rightarrow> None | r # _ \<Rightarrow> Some r)), db)"

definition sort_nested ::
  "mem_config \<Rightarrow> string \<Rightarrow> (string \<times> direction) option \<Rightarrow> nested list \<Rightarrow> nested list"
where
  "sort_nested cfg m sb ns =
     (case sb of
        None \<Rightarrow> ns
      | Some k \<Rightarrow> stable_sort (\<lambda>a b. compare_records cfg m k (n_row a) (n_row b)) ns)"

definition mem_findMany ::
  "mem_config \<Rightarrow> (string \<times> join_attr) list option \<Rightarrow> string list option \<Rightarrow> string \<Rightarrow>
     CleanedWhere list \<Rightarrow> (string \<times> direction) option \<Rightarrow> int option \<Rightarrow> int option \<Rightarrow>
     (memdb, nested list) act"
where
  "mem_findMany cfg join sel m ws sb lim off db =
     (bindR (convertWhereClause cfg db m ws join sel) (\<lambda>res.
        Inr (paginate off lim (sort_nested cfg m sb res))), db)"

definition mem_count :: "mem_config \<Rightarrow> string \<Rightarrow> CleanedWhere list option \<Rightarrow> (memdb, nat) act" where
  "mem_count cfg m wso db =
     ((case wso of
         Some ws \<Rightarrow> bindR (matching_objs cfg db m ws) (\<lambda>os. Inr (length os))
       | None \<Rightarrow> (case tables db m of None \<Rightarrow> Inl TypeError | Some os \<Rightarrow> Inr (length os))), db)"

definition mem_update ::
  "mem_config \<Rightarrow> string \<Rightarrow> CleanedWhere list \<Rightarrow> row \<Rightarrow> (memdb, row option) act"
where
  "mem_update cfg m ws upd db =
     (if ws = [] then (Inr None, db)
      else (case matching_objs cfg db m ws of
          Inl e \<Rightarrow> (Inl e, db)
        | Inr res \<Rightarrow>
            (Inr (case res of [] \<Rightarrow> None | ob # _ \<Rightarrow> Some (object_assign (obj_row ob) upd)),
             if res = [] then db
             else set_table db m
               (update_objs (map obj_ref res) (\<lambda>r. object_assign r upd) (table_of db m)))))"

definition mem_updateMany ::
  "mem_config \<Rightarrow> string \<Rightarrow> CleanedWhere list \<Rightarrow> row \<Rightarrow> (memdb, nat) act"
where
  "mem_updateMany cfg m ws upd db =
     (case matching_objs cfg db m ws of
        Inl e \<Rightarrow> (Inl e, db)
      | Inr res \<Rightarrow>
          (Inr (length res),
           set_table db m
             (update_objs (map obj_ref res) (\<lambda>r. object_assign r upd) (table_of db m))))"

definition mem_delete :: "mem_config \<Rightarrow> string \<Rightarrow> CleanedWhere list \<Rightarrow> (memdb, unit) act" where
  "mem_delete cfg m ws db =
     (if ws = [] then (Inr (), db)
      else (case matching_objs cfg db m ws of
          Inl e \<Rightarrow> (Inl e, db)
        | Inr res \<Rightarrow>
            (Inr (), set_table db m
               (filter (\<lambda>ob. obj_ref ob \<notin> set (map obj_ref res)) (table_of db m)))))"

definition mem_deleteMany :: "mem_config \<Rightarrow> string \<Rightarrow> CleanedWhere list \<Rightarrow> (memdb, nat) act" where
  "mem_deleteMany cfg m ws db =
     (case matching_objs cfg db m ws of
        Inl e \<Rightarrow> (Inl e, db)
      | Inr res \<Rightarrow>
          (Inr (length (filter (\<lambda>ob. obj_ref ob \<in> set (map obj_ref res)) (table_of db m))),
           set_table db m
             (filter (\<lambda>ob. obj_ref ob \<notin> set (map obj_ref res)) (table_of db m))))"

definition mem_consumeOne ::
  "mem_config \<Rightarrow> string \<Rightarrow> CleanedWhere list \<Rightarrow> (memdb, row option) act"
where
  "mem_consumeOne cfg m ws db =
     (case matching_objs cfg db m ws of
        Inl e \<Rightarrow> (Inl e, db)
      | Inr [] \<Rightarrow> (Inr None, db)
      | Inr (target # _) \<Rightarrow>
          (Inr (Some (obj_row target)),
           set_table db m (filter (\<lambda>ob. obj_ref ob \<noteq> obj_ref target) (table_of db m))))"

definition mem_incrementOne ::
  "mem_config \<Rightarrow> string \<Rightarrow> CleanedWhere list \<Rightarrow> (string \<times> int) list \<Rightarrow> row option \<Rightarrow>
     (memdb, row option) act"
where
  "mem_incrementOne cfg m ws inc u db =
     (case matching_objs cfg db m ws of
        Inl e \<Rightarrow> (Inl e, db)
      | Inr [] \<Rightarrow> (Inr None, db)
      | Inr (target # _) \<Rightarrow>
          (let rec = apply_set u (apply_increment inc (obj_row target)) in
           (Inr (Some rec),
            set_table db m
              (update_objs [obj_ref target] (\<lambda>_. rec) (table_of db m)))))"

text \<open>The adapter object of a configuration, without \<open>select\<close> and \<open>join\<close>.\<close>

definition mem_adapter :: "mem_config \<Rightarrow> memdb adapter" where
  "mem_adapter cfg =
     \<lparr>a_create = mem_create cfg,
      a_findOne = (\<lambda>m ws. bindA (mem_findOne cfg None None m ws)
                             (\<lambda>n. returnA (map_option n_row n))),
      a_findMany = (\<lambda>m ws sb lim off. bindA (mem_findMany cfg None None m ws sb lim off)
                             (\<lambda>ns. returnA (map n_row ns))),
      a_count = mem_count cfg,
      a_update = mem_update cfg,
      a_updateMany = mem_updateMany cfg,
      a_delete = mem_delete cfg,
      a_deleteMany = mem_deleteMany cfg,
      a_consumeOne = mem_consumeOne cfg,
      a_incrementOne = mem_incrementOne cfg\<rparr>"

section \<open>Well-formed databases\<close>

text \<open>
  Addresses below the counter, no two objects of a table with the same address. Every
  operation keeps it, which is why comparing objects by identity selects positions.
\<close>

definition wf_db :: "memdb \<Rightarrow> bool" where
  "wf_db db \<longleftrightarrow>
     (\<forall>m. distinct (map obj_ref (table_of db m)) \<and>
          (\<forall>ob \<in> set (table_of db m). obj_ref ob < next_ref db))"

definition mem_rows :: "memdb \<Rightarrow> string \<Rightarrow> row list" where
  "mem_rows db m = map obj_row (table_of db m)"

definition mem_has_table :: "memdb \<Rightarrow> string \<Rightarrow> bool" where
  "mem_has_table db m \<longleftrightarrow> tables db m \<noteq> None"

definition mem_sat :: "mem_config \<Rightarrow> CleanedWhere list \<Rightarrow> row \<Rightarrow> bool res" where
  "mem_sat cfg ws r = matches_where (hostEnv cfg) ws r"

lemma wf_db_set_table:
  assumes "wf_db db" and "distinct (map obj_ref os)"
    and "set (map obj_ref os) \<subseteq> set (map obj_ref (table_of db m))"
  shows "wf_db (set_table db m os)"
  using assms by (fastforce simp: wf_db_def)

lemma wf_db_filter: "wf_db db \<Longrightarrow> wf_db (set_table db m (filter p (table_of db m)))"
  by (rule wf_db_set_table) (auto simp: wf_db_def distinct_map_filter)

lemma map_ref_update_objs [simp]: "map obj_ref (update_objs refs f os) = map obj_ref os"
  by (auto simp: update_objs_def)

lemma wf_db_update_objs:
  "wf_db db \<Longrightarrow> wf_db (set_table db m (update_objs refs f (table_of db m)))"
  by (rule wf_db_set_table) (auto simp: wf_db_def simp flip: set_map)

lemma matching_objs_Inr:
  assumes "matching_objs cfg db m ws = Inr res"
  shows "res = filter (\<lambda>ob. mem_sat cfg ws (obj_row ob) = Inr True) (table_of db m)"
    and "\<forall>ob \<in> set (table_of db m). \<not> isl (mem_sat cfg ws (obj_row ob))"
    and "tables db m = Some (table_of db m)"
  using assms
  by (auto simp: matching_objs_def table_of_def mem_sat_def filterR_Inr_iff split: option.splits)

lemma not_isl_bool: "\<not> isl (x :: bool res) \<Longrightarrow> x \<noteq> Inr True \<Longrightarrow> x = Inr False"
  by (cases x) auto

lemma matching_objs_Nil:
  assumes "matching_objs cfg db m ws = Inr []" and "r \<in> set (mem_rows db m)"
  shows "mem_sat cfg ws r = Inr False"
proof -
  from assms(2) obtain ob where ob: "ob \<in> set (table_of db m)" "r = obj_row ob"
    by (auto simp: mem_rows_def)
  from matching_objs_Inr[OF assms(1)] ob show ?thesis
    by (metis (mono_tags, lifting) filter_empty_conv not_isl_bool)
qed

text \<open>The first match and the objects before it.\<close>

lemma matching_objs_Cons:
  assumes "matching_objs cfg db m ws = Inr (ob # res)"
  obtains pre post where "table_of db m = pre @ ob # post"
    and "mem_sat cfg ws (obj_row ob) = Inr True"
    and "\<And>q. q \<in> set pre \<Longrightarrow> mem_sat cfg ws (obj_row q) = Inr False"
proof -
  from matching_objs_Inr(1)[OF assms]
  have "filter (\<lambda>ob. mem_sat cfg ws (obj_row ob) = Inr True) (table_of db m) = ob # res"
    by simp
  then obtain pre post where tab: "table_of db m = pre @ ob # post"
    and pre: "\<forall>q \<in> set pre. mem_sat cfg ws (obj_row q) \<noteq> Inr True"
    and "mem_sat cfg ws (obj_row ob) = Inr True"
    by (auto simp: filter_eq_Cons_iff)
  moreover have "mem_sat cfg ws (obj_row q) = Inr False" if "q \<in> set pre" for q
    using that pre tab matching_objs_Inr(2)[OF assms] not_isl_bool by auto
  ultimately show thesis by (blast intro: that)
qed

text \<open>Removing, or updating, the object at one position by its address.\<close>

lemma filter_other_refs:
  "r \<notin> set (map obj_ref os) \<Longrightarrow> filter (\<lambda>q. obj_ref q \<noteq> r) os = os"
  by (induction os) auto

lemma update_objs_other:
  "set refs \<inter> set (map obj_ref os) = {} \<Longrightarrow> update_objs refs f os = os"
  by (induction os) (auto simp: update_objs_def)

lemma update_objs_append [simp]:
  "update_objs refs f (os @ ps) = update_objs refs f os @ update_objs refs f ps"
  by (simp add: update_objs_def)

lemma update_objs_Cons [simp]:
  "update_objs refs f (ob # ps) =
     (obj_ref ob, if obj_ref ob \<in> set refs then f (obj_row ob) else obj_row ob) #
       update_objs refs f ps"
  by (simp add: update_objs_def split: prod.splits)

lemma filter_ref_split:
  assumes "distinct (map obj_ref (pre @ ob # post))"
  shows "filter (\<lambda>q. obj_ref q \<noteq> obj_ref ob) (pre @ ob # post) = pre @ post"
proof -
  from assms have "obj_ref ob \<notin> set (map obj_ref pre)" "obj_ref ob \<notin> set (map obj_ref post)"
    by auto
  then show ?thesis by (simp add: filter_other_refs del: set_map)
qed

lemma update_objs_split:
  assumes "distinct (map obj_ref (pre @ ob # post))"
  shows "update_objs [obj_ref ob] f (pre @ ob # post) = pre @ (obj_ref ob, f (obj_row ob)) # post"
proof -
  from assms have "obj_ref ob \<notin> set (map obj_ref pre)" "obj_ref ob \<notin> set (map obj_ref post)"
    by auto
  then show ?thesis by (simp add: update_objs_other del: set_map)
qed

text \<open>Selecting by the addresses of the matches selects exactly the matches.\<close>

lemma ref_in_filter_iff:
  assumes "distinct (map obj_ref os)" and "ob \<in> set os"
  shows "obj_ref ob \<in> set (map obj_ref (filter p os)) \<longleftrightarrow> p ob"
  using assms by (auto simp: distinct_map dest: inj_onD intro: rev_image_eqI)

lemma wf_db_table: "wf_db db \<Longrightarrow> distinct (map obj_ref (table_of db m))"
  by (simp add: wf_db_def)

lemma mem_rows_set_table [simp]:
  "mem_rows (set_table db m os) m' = (if m' = m then map obj_row os else mem_rows db m')"
  by (simp add: mem_rows_def)

lemma matched_ref_iff:
  assumes wf: "wf_db db" and res: "matching_objs cfg db m ws = Inr res"
    and ob: "ob \<in> set (table_of db m)"
  shows "obj_ref ob \<in> set (map obj_ref res) \<longleftrightarrow> mem_sat cfg ws (obj_row ob) = Inr True"
    and "obj_ref ob \<notin> set (map obj_ref res) \<longleftrightarrow> mem_sat cfg ws (obj_row ob) = Inr False"
proof -
  show iff: "obj_ref ob \<in> set (map obj_ref res) \<longleftrightarrow> mem_sat cfg ws (obj_row ob) = Inr True"
    unfolding matching_objs_Inr(1)[OF res] by (rule ref_in_filter_iff[OF wf_db_table[OF wf] ob])
  have "\<not> isl (mem_sat cfg ws (obj_row ob))"
    using matching_objs_Inr(2)[OF res] ob by blast
  then show "obj_ref ob \<notin> set (map obj_ref res) \<longleftrightarrow> mem_sat cfg ws (obj_row ob) = Inr False"
    unfolding iff using not_isl_bool by auto
qed

lemma rows_update_objs:
  "map obj_row (update_objs refs f os) =
     map (\<lambda>ob. if obj_ref ob \<in> set refs then f (obj_row ob) else obj_row ob) os"
  by (induction os) (auto simp: update_objs_def)

lemma mem_rows_update_all:
  assumes wf: "wf_db db" and res: "matching_objs cfg db m ws = Inr res"
  shows "map obj_row (update_objs (map obj_ref res) f (table_of db m)) =
    map (\<lambda>q. if mem_sat cfg ws q = Inr True then f q else q) (mem_rows db m)"
  unfolding rows_update_objs mem_rows_def map_map comp_def
  by (rule map_cong[OF refl]) (simp only: matched_ref_iff(1)[OF wf res])

lemma mem_rows_delete_all:
  assumes wf: "wf_db db" and res: "matching_objs cfg db m ws = Inr res"
  shows "map obj_row (filter (\<lambda>ob. obj_ref ob \<notin> set (map obj_ref res)) (table_of db m)) =
    filter (\<lambda>r. mem_sat cfg ws r = Inr False) (mem_rows db m)"
proof -
  have "filter (\<lambda>ob. obj_ref ob \<notin> set (map obj_ref res)) (table_of db m) =
      filter (\<lambda>ob. mem_sat cfg ws (obj_row ob) = Inr False) (table_of db m)"
    by (rule filter_cong[OF refl]) (simp only: matched_ref_iff(2)[OF wf res])
  then show ?thesis
    by (simp add: mem_rows_def filter_map comp_def)
qed

lemma convert_plain:
  "convertWhereClause cfg db m ws None None =
     bindR (matching_objs cfg db m ws)
       (\<lambda>os. Inr (map (\<lambda>ob. \<lparr>n_row = obj_row ob, n_joined = []\<rparr>) os))"
  by (cases "matching_objs cfg db m ws")
     (auto simp: convertWhereClause_def baseRecords_def select_row_def)

section \<open>The memory adapter is a store\<close>

lemma mem_adapter_sel [simp]:
  "a_create (mem_adapter cfg) = mem_create cfg"
  "a_update (mem_adapter cfg) = mem_update cfg"
  "a_updateMany (mem_adapter cfg) = mem_updateMany cfg"
  "a_delete (mem_adapter cfg) = mem_delete cfg"
  "a_deleteMany (mem_adapter cfg) = mem_deleteMany cfg"
  "a_consumeOne (mem_adapter cfg) = mem_consumeOne cfg"
  "a_incrementOne (mem_adapter cfg) = mem_incrementOne cfg"
  "a_count (mem_adapter cfg) = mem_count cfg"
  by (simp_all add: mem_adapter_def)

lemma mem_findOne_app:
  "a_findOne (mem_adapter cfg) m ws db =
     (bindR (matching_objs cfg db m ws)
        (\<lambda>os. Inr (case os of [] \<Rightarrow> None | ob # _ \<Rightarrow> Some (obj_row ob))), db)"
  by (cases "matching_objs cfg db m ws")
     (auto simp: mem_adapter_def mem_findOne_def bindA_def convert_plain split: list.splits)

lemma set_insert_sorted [simp]: "set (insert_sorted cmp x ys) = insert x (set ys)"
  by (induction ys) auto

lemma set_stable_sort_aux:
  "set (foldl (\<lambda>acc x. insert_sorted cmp x acc) acc xs) = set acc \<union> set xs"
  by (induction xs arbitrary: acc) auto

lemma set_stable_sort [simp]: "set (stable_sort cmp xs) = set xs"
  by (simp add: stable_sort_def set_stable_sort_aux)

lemma set_paginate: "set (paginate off lim xs) \<subseteq> set xs"
  by (auto simp: paginate_def slice_from_def slice_upto_def Let_def
      split: option.splits if_splits dest: in_set_takeD in_set_dropD)

lemma mem_findMany_app:
  "a_findMany (mem_adapter cfg) m ws sb lim off db =
     (bindR (matching_objs cfg db m ws) (\<lambda>os. Inr (map n_row (paginate off lim
        (sort_nested cfg m sb (map (\<lambda>ob. \<lparr>n_row = obj_row ob, n_joined = []\<rparr>) os))))), db)"
  by (cases "matching_objs cfg db m ws")
     (auto simp: mem_adapter_def mem_findMany_def bindA_def convert_plain)

text \<open>The operations on a well-formed database, one inversion rule each.\<close>

lemma mem_consumeOne_cases:
  assumes wf: "wf_db db" and run: "mem_consumeOne cfg m ws db = (x, t)"
  obtains (err) e where "x = Inl e" "t = db"
  | (none) "x = Inr None" "t = db" "\<And>r. r \<in> set (mem_rows db m) \<Longrightarrow> mem_sat cfg ws r = Inr False"
  | (some) ob pre post where "x = Inr (Some (obj_row ob))" "t = set_table db m (pre @ post)"
      "table_of db m = pre @ ob # post" "mem_sat cfg ws (obj_row ob) = Inr True"
proof (cases "matching_objs cfg db m ws")
  case (Inl e)
  with run have "x = Inl e" "t = db" by (simp_all add: mem_consumeOne_def)
  then show thesis by (rule err)
next
  case (Inr res)
  show thesis
  proof (cases res)
    case Nil
    with Inr run none matching_objs_Nil[of cfg db m ws] show thesis
      by (simp add: mem_consumeOne_def)
  next
    case (Cons ob rest)
    with Inr obtain pre post where tab: "table_of db m = pre @ ob # post"
      and sat: "mem_sat cfg ws (obj_row ob) = Inr True"
      by (metis matching_objs_Cons)
    with wf have "distinct (map obj_ref (pre @ ob # post))" by (metis wf_db_table)
    then have "filter (\<lambda>q. obj_ref q \<noteq> obj_ref ob) (table_of db m) = pre @ post"
      unfolding tab by (rule filter_ref_split)
    with Inr Cons run some[of ob pre post] tab sat show thesis
      by (simp add: mem_consumeOne_def)
  qed
qed

lemma mem_incrementOne_cases:
  assumes wf: "wf_db db" and run: "mem_incrementOne cfg m ws inc u db = (x, t)"
  obtains (err) e where "x = Inl e" "t = db"
  | (none) "x = Inr None" "t = db" "\<And>r. r \<in> set (mem_rows db m) \<Longrightarrow> mem_sat cfg ws r = Inr False"
  | (some) ob pre post r where "x = Inr (Some r)"
      "r = apply_set u (apply_increment inc (obj_row ob))"
      "t = set_table db m (pre @ (obj_ref ob, r) # post)"
      "table_of db m = pre @ ob # post" "mem_sat cfg ws (obj_row ob) = Inr True"
      "\<And>q. q \<in> set pre \<Longrightarrow> mem_sat cfg ws (obj_row q) = Inr False"
proof (cases "matching_objs cfg db m ws")
  case (Inl e)
  with run have "x = Inl e" "t = db" by (simp_all add: mem_incrementOne_def)
  then show thesis by (rule err)
next
  case (Inr res)
  show thesis
  proof (cases res)
    case Nil
    with Inr run none matching_objs_Nil[of cfg db m ws] show thesis
      by (simp add: mem_incrementOne_def)
  next
    case (Cons ob rest)
    with Inr obtain pre post where tab: "table_of db m = pre @ ob # post"
      and sat: "mem_sat cfg ws (obj_row ob) = Inr True"
      and pre: "\<And>q. q \<in> set pre \<Longrightarrow> mem_sat cfg ws (obj_row q) = Inr False"
      by (metis matching_objs_Cons)
    let ?r = "apply_set u (apply_increment inc (obj_row ob))"
    from wf tab have "distinct (map obj_ref (pre @ ob # post))" by (metis wf_db_table)
    then have "update_objs [obj_ref ob] (\<lambda>_. ?r) (table_of db m) = pre @ (obj_ref ob, ?r) # post"
      unfolding tab by (rule update_objs_split)
    with Inr Cons run have "x = Inr (Some ?r)" "t = set_table db m (pre @ (obj_ref ob, ?r) # post)"
      by (simp_all add: mem_incrementOne_def Let_def)
    then show thesis using some tab sat pre by blast
  qed
qed

lemma mem_has_table_set_table:
  "table_of db m \<noteq> [] \<Longrightarrow> mem_has_table (set_table db m os) m' = mem_has_table db m'"
  by (auto simp: mem_has_table_def table_of_def split: option.splits)

lemma wf_db_next: "wf_db db \<Longrightarrow> wf_db (db\<lparr>next_ref := Suc (next_ref db)\<rparr>)"
  by (auto simp: wf_db_def table_of_def less_Suc_eq)

lemma table_of_next [simp]: "table_of (db\<lparr>next_ref := n\<rparr>) m = table_of db m"
  by (simp add: table_of_def)

lemma mem_rows_next [simp]: "mem_rows (db\<lparr>next_ref := n\<rparr>) m = mem_rows db m"
  by (simp add: mem_rows_def)

lemma mem_create_cases:
  assumes wf: "wf_db db" and run: "mem_create cfg m r db = (x, t)"
  obtains (err) e where "x = Inl e" "t = db"
  | (ok) d where "x = Inr d" "d = r \<or> (\<exists>n. d = set_field r ''id'' (Num n))" "wf_db t"
      "\<And>m'. mem_rows t m' = (if m' = m then mem_rows db m @ [d] else mem_rows db m')"
proof -
  have wf': "wf_db ((set_table db m (table_of db m @ [(next_ref db, d)]))
                    \<lparr>next_ref := Suc (next_ref db)\<rparr>)" for d
    using wf by (fastforce simp: wf_db_def less_Suc_eq)
  show thesis
  proof (cases "useNumberId cfg \<and> tables db (getModelName cfg m) = None")
    case True
    with run have "x = Inl TypeError" "t = db" by (simp_all add: mem_create_def)
    then show thesis by (rule err)
  next
    case False
    then obtain d where "x = Inr d" and d: "d = r \<or> (\<exists>n. d = set_field r ''id'' (Num n))"
      and t: "t = (set_table db m (table_of db m @ [(next_ref db, d)]))\<lparr>next_ref := Suc (next_ref db)\<rparr>"
      using run by (auto simp: mem_create_def split: if_splits option.splits)
    with ok[of d] wf' show thesis by (simp add: mem_rows_def)
  qed
qed

text \<open>
  Every operation of the memory adapter meets the laws of \<open>store\<close>, on well-formed
  databases.
\<close>

lemma mem_update_cases:
  assumes wf: "wf_db db" and run: "mem_update cfg m ws up db = (x, t)"
  obtains (err) e where "x = Inl e" "t = db"
  | (none) "x = Inr None" "t = db"
      "ws = [] \<or> (\<forall>r \<in> set (mem_rows db m). mem_sat cfg ws r = Inr False)"
  | (some) r where "x = Inr (Some r)" "wf_db t" "ws \<noteq> []" "r \<in> set (mem_rows t m)"
      "\<And>m'. mem_rows t m' = (if m' = m
         then map (\<lambda>q. if mem_sat cfg ws q = Inr True then object_assign q up else q) (mem_rows db m)
         else mem_rows db m')"
proof (cases "ws = []")
  case True
  with run have "x = Inr None" "t = db" by (simp_all add: mem_update_def)
  with True none show thesis by blast
next
  case ws: False
  show thesis
  proof (cases "matching_objs cfg db m ws")
    case (Inl e)
    with run ws have "x = Inl e" "t = db" by (simp_all add: mem_update_def)
    then show thesis by (rule err)
  next
    case (Inr res)
    show thesis
    proof (cases res)
      case Nil
      with Inr run ws have "x = Inr None" "t = db" by (simp_all add: mem_update_def)
      with none matching_objs_Nil Inr Nil show thesis by blast
    next
      case (Cons ob rest)
      let ?os = "update_objs (map obj_ref res) (\<lambda>r. object_assign r up) (table_of db m)"
      from Inr Cons run ws have x: "x = Inr (Some (object_assign (obj_row ob) up))"
        and t: "t = set_table db m ?os"
        by (simp_all add: mem_update_def)
      have ob: "ob \<in> set (table_of db m)" "mem_sat cfg ws (obj_row ob) = Inr True"
        by (rule matching_objs_Cons[OF Inr[unfolded Cons]], simp)+
      have rows: "\<And>m'. mem_rows t m' = (if m' = m
         then map (\<lambda>q. if mem_sat cfg ws q = Inr True then object_assign q up else q) (mem_rows db m)
         else mem_rows db m')"
        unfolding t by (simp add: mem_rows_update_all[OF wf Inr])
      have "object_assign (obj_row ob) up \<in> set (mem_rows t m)"
        unfolding rows using ob by (force simp: mem_rows_def)
      moreover have "wf_db t" unfolding t by (rule wf_db_update_objs[OF wf])
      ultimately show thesis by (intro some[OF x _ ws _ rows])
    qed
  qed
qed

lemma mem_deleteMany_cases:
  assumes wf: "wf_db db" and run: "mem_deleteMany cfg m ws db = (x, t)"
  obtains (err) e where "x = Inl e" "t = db"
  | (ok) n where "x = Inr n" "wf_db t" "\<forall>r \<in> set (mem_rows db m). \<not> isl (mem_sat cfg ws r)"
      "n = length (mem_rows db m) - length (mem_rows t m)"
      "\<And>m'. mem_rows t m' = (if m' = m
         then filter (\<lambda>r. mem_sat cfg ws r = Inr False) (mem_rows db m) else mem_rows db m')"
proof (cases "matching_objs cfg db m ws")
  case (Inl e)
  with run have "x = Inl e" "t = db" by (simp_all add: mem_deleteMany_def)
  then show thesis by (rule err)
next
  case (Inr res)
  let ?keep = "\<lambda>ob. obj_ref ob \<notin> set (map obj_ref res)"
  from Inr run have t: "t = set_table db m (filter ?keep (table_of db m))"
    and x: "x = Inr (length (filter (\<lambda>ob. \<not> ?keep ob) (table_of db m)))"
    by (simp_all add: mem_deleteMany_def)
  have "length (filter (\<lambda>ob. \<not> ?keep ob) (table_of db m)) =
      length (mem_rows db m) - length (mem_rows t m)"
    unfolding t using length_filter_split[of "table_of db m" ?keep] by (simp add: mem_rows_def)
  moreover have "mem_rows t m' = (if m' = m
         then filter (\<lambda>r. mem_sat cfg ws r = Inr False) (mem_rows db m) else mem_rows db m')" for m'
    unfolding t by (simp only: mem_rows_set_table mem_rows_delete_all[OF wf Inr])
  moreover have "wf_db t" unfolding t by (rule wf_db_filter[OF wf])
  moreover have "\<forall>r \<in> set (mem_rows db m). \<not> isl (mem_sat cfg ws r)"
    using matching_objs_Inr(2)[OF Inr] by (auto simp: mem_rows_def)
  ultimately show thesis using ok[OF x] by blast
qed

lemma mem_findOne_cases:
  assumes run: "a_findOne (mem_adapter cfg) m ws db = (x, t)"
  shows "t = db"
    and "x = Inr (Some r) \<Longrightarrow> r \<in> set (mem_rows db m) \<and> mem_sat cfg ws r = Inr True"
    and "x = Inr None \<Longrightarrow> q \<in> set (mem_rows db m) \<Longrightarrow> mem_sat cfg ws q = Inr False"
proof -
  show "t = db" using run by (simp add: mem_findOne_app)
  show "r \<in> set (mem_rows db m) \<and> mem_sat cfg ws r = Inr True" if "x = Inr (Some r)"
    using run that
    by (cases "matching_objs cfg db m ws")
       (auto simp: mem_findOne_app mem_rows_def split: list.splits elim!: matching_objs_Cons)
  show "mem_sat cfg ws q = Inr False" if "x = Inr None" "q \<in> set (mem_rows db m)"
    using run that
    by (cases "matching_objs cfg db m ws")
       (auto simp: mem_findOne_app split: list.splits dest: matching_objs_Nil)
qed

lemma set_sort_nested [simp]: "set (sort_nested cfg m sb ns) = set ns"
  by (simp add: sort_nested_def split: option.splits)

lemma mem_findMany_cases:
  assumes run: "a_findMany (mem_adapter cfg) m ws sb lim off db = (x, t)"
  shows "t = db"
    and "x = Inr rs \<Longrightarrow> r \<in> set rs \<Longrightarrow> r \<in> set (mem_rows db m) \<and> mem_sat cfg ws r = Inr True"
proof -
  show "t = db" using run by (simp add: mem_findMany_app)
  assume x: "x = Inr rs" and r: "r \<in> set rs"
  then obtain res where res: "matching_objs cfg db m ws = Inr res"
    and "r \<in> n_row ` set (paginate off lim
        (sort_nested cfg m sb (map (\<lambda>ob. \<lparr>n_row = obj_row ob, n_joined = []\<rparr>) res)))"
    using run by (cases "matching_objs cfg db m ws") (auto simp: mem_findMany_app)
  then obtain ob where "ob \<in> set res" "r = obj_row ob"
    using set_paginate by fastforce
  with matching_objs_Inr(1)[OF res]
  show "r \<in> set (mem_rows db m) \<and> mem_sat cfg ws r = Inr True"
    by (auto simp: mem_rows_def)
qed

interpretation mem: store "mem_adapter cfg" mem_rows mem_has_table "mem_sat cfg" wf_db
proof (unfold_locales, unfold mem_adapter_sel, goal_cases)
  case (1 s m ws t)
  from 1(2) show ?case by (rule mem_consumeOne_cases[OF 1(1)]) auto
next
  case (2 s m ws r t)
  from 2(2) show ?case
  proof (rule mem_consumeOne_cases[OF 2(1)])
    fix ob pre post
    assume "Inr (Some r) = Inr (Some (obj_row ob))" "t = set_table s m (pre @ post)"
      "table_of s m = pre @ ob # post" "mem_sat cfg ws (obj_row ob) = Inr True"
    then have "mem_rows s m = map obj_row pre @ r # map obj_row post"
      "mem_rows t m = map obj_row pre @ map obj_row post" "mem_sat cfg ws r = Inr True"
      by (simp_all add: mem_rows_def)
    then show ?case by blast
  qed auto
next
  case (3 s m ws x t)
  from 3(2) show ?case
  proof (rule mem_consumeOne_cases[OF 3(1)])
    fix ob pre post
    assume t: "t = set_table s m (pre @ post)" and tab: "table_of s m = pre @ ob # post"
    have "wf_db t" unfolding t using 3(1) tab wf_db_table[OF 3(1), of m]
      by (intro wf_db_set_table) auto
    then show ?case using tab by (simp add: t mem_has_table_set_table)
  qed (use 3 in auto)
next
  case (4 s m ws e t)
  from 4(2) show ?case by (rule mem_consumeOne_cases[OF 4(1)]) auto
next
  case (5 s m ws inc u t)
  from 5(2) show ?case by (rule mem_incrementOne_cases[OF 5(1)]) auto
next
  case (6 s m ws inc u r' t)
  from 6(2) show ?case
  proof (rule mem_incrementOne_cases[OF 6(1)])
    fix ob pre post r
    assume "Inr (Some r') = Inr (Some r)" "r = apply_set u (apply_increment inc (obj_row ob))"
      "t = set_table s m (pre @ (obj_ref ob, r) # post)" "table_of s m = pre @ ob # post"
      "mem_sat cfg ws (obj_row ob) = Inr True"
      "\<And>q. q \<in> set pre \<Longrightarrow> mem_sat cfg ws (obj_row q) = Inr False"
    then show ?case
      by (intro exI[of _ "map obj_row pre"] exI[of _ "obj_row ob"] exI[of _ "map obj_row post"])
         (auto simp: mem_rows_def)
  qed auto
next
  case (7 s m ws inc u x t)
  from 7(2) show ?case
  proof (rule mem_incrementOne_cases[OF 7(1)])
    fix ob pre post r
    assume t: "t = set_table s m (pre @ (obj_ref ob, r) # post)"
      and tab: "table_of s m = pre @ ob # post"
    have "wf_db t" unfolding t using 7(1) tab wf_db_table[OF 7(1), of m]
      by (intro wf_db_set_table) auto
    then show ?case using tab by (simp add: t mem_has_table_set_table)
  qed (use 7 in auto)
next
  case (8 s m ws inc u e t)
  from 8(2) show ?case by (rule mem_incrementOne_cases[OF 8(1)]) auto
next
  case (9 s m ws xf t)
  from mem_findOne_cases[OF 9(2)] show ?case by simp
next
  case (10 s m ws sb lim off xm t)
  note found = mem_findMany_cases[OF 10(2)]
  show ?case
  proof (intro conjI allI impI ballI)
    show "t = s" by (rule found(1))
  next
    fix rs r assume "xm = Inr rs" "r \<in> set rs"
    from found(2)[OF this] show "r \<in> set (mem_rows s m)" "mem_sat cfg ws r = Inr True" by auto
  qed
next
  case (11 s m r r' t)
  from 11(2) show ?case by (rule mem_create_cases[OF 11(1)]) (use 11(1) in auto)
next
  case (12 s m r xc t)
  from 12(2) show ?case by (rule mem_create_cases[OF 12(1)]) (use 12(1) in auto)
next
  case (13 s m r e t)
  from 13(2) show ?case by (rule mem_create_cases[OF 13(1)]) (use 13(1) in auto)
next
  case (14 s m ws up r t)
  from 14(2) show ?case by (rule mem_update_cases[OF 14(1)]) auto
next
  case (15 s m ws up t)
  from 15(2) show ?case by (rule mem_update_cases[OF 15(1)]) auto
next
  case (16 s m ws up x t)
  from 16(2) show ?case by (rule mem_update_cases[OF 16(1)]) (use 16(1) in auto)
next
  case (17 s m ws up e t)
  from 17(2) show ?case by (rule mem_update_cases[OF 17(1)]) auto
next
  case (18 s m ws n t)
  from 18(2) show ?case by (rule mem_deleteMany_cases[OF 18(1)]) auto
next
  case (19 s m ws xd t)
  from 19(2) show ?case by (rule mem_deleteMany_cases[OF 19(1)]) (use 19(1) in auto)
next
  case (20 s m ws e t)
  from 20(2) show ?case by (rule mem_deleteMany_cases[OF 20(1)]) auto
qed

text \<open>On plain conjunctions \<open>evalClause\<close> is the comparison it names.\<close>

lemma evalClause_simple:
  "simple_clause w \<Longrightarrow> evalClause h r w = Inr (clause_holds h r w)"
  by (auto simp: simple_clause_def evalClause_def clause_holds_def Let_def)

lemma fold_clauses_simple:
  "list_all simple_clause ws \<Longrightarrow>
     fold_clauses h r b ws = Inr (b \<and> list_all (clause_holds h r) ws)"
  by (induction ws arbitrary: b) (auto simp: evalClause_simple simple_clause_def)

lemma mem_sat_simple:
  "list_all simple_clause ws \<Longrightarrow>
     mem_sat cfg ws r = Inr (list_all (clause_holds (hostEnv cfg) r) ws)"
  by (auto simp: mem_sat_def matches_where_def evalClause_simple fold_clauses_simple
      split: list.split)

interpretation memw: where_store "mem_adapter cfg" mem_rows mem_has_table "mem_sat cfg" wf_db
    "hostEnv cfg"
  by unfold_locales (rule mem_sat_simple)

lemma mem_delete_cases:
  assumes wf: "wf_db db" and run: "mem_delete cfg m ws db = (x, t)"
  obtains (err) e where "x = Inl e" "t = db"
  | (none) "ws = []" "x = Inr ()" "t = db"
  | (ok) "ws \<noteq> []" "x = Inr ()" "wf_db t" "\<forall>r \<in> set (mem_rows db m). \<not> isl (mem_sat cfg ws r)"
      "\<And>m'. mem_rows t m' = (if m' = m
         then filter (\<lambda>r. mem_sat cfg ws r = Inr False) (mem_rows db m) else mem_rows db m')"
proof (cases "ws = []")
  case True
  with run show thesis by (intro none) (simp_all add: mem_delete_def)
next
  case False
  obtain y t' where many: "mem_deleteMany cfg m ws db = (y, t')" by force
  with run False have "t' = t" and x: "x = (case y of Inl e \<Rightarrow> Inl e | Inr _ \<Rightarrow> Inr ())"
    by (auto simp: mem_delete_def mem_deleteMany_def split: sum.splits)
  with many have many: "mem_deleteMany cfg m ws db = (y, t)" by simp
  from mem_deleteMany_cases[OF wf many] show thesis
    by cases (use x False in \<open>auto intro: err ok\<close>)
qed

interpretation memd: delete_store "mem_adapter cfg" mem_rows mem_has_table "mem_sat cfg" wf_db
    "hostEnv cfg"
proof (unfold_locales, unfold mem_adapter_sel, goal_cases)
  case (1 s m ws y t)
  from 1(2) show ?case
    by (rule mem_delete_cases[OF 1(1)]) (auto intro!: filter_cong intro: not_isl_bool)
next
  case (2 s m ws x t)
  from 2(2) show ?case by (rule mem_delete_cases[OF 2(1)]) (use 2(1) in auto)
next
  case (3 s m ws e t)
  from 3(2) show ?case by (rule mem_delete_cases[OF 3(1)]) auto
qed

text \<open>On plain conjunctions the guarded operations are total.\<close>

lemma matching_objs_simple:
  assumes "tables db m = Some os" and "list_all simple_clause ws"
  shows "matching_objs cfg db m ws =
    Inr (filter (\<lambda>ob. list_all (clause_holds (hostEnv cfg) (obj_row ob)) ws) os)"
  using assms mem_sat_simple[OF assms(2)]
  by (auto simp: matching_objs_def mem_sat_def intro!: filterR_total)

lemma mem_increment_total:
  assumes "tables db m \<noteq> None" and "list_all simple_clause ws"
  shows "(\<exists>r t. mem_incrementOne cfg m ws inc u db = (Inr (Some r), t)) \<or>
    (mem_incrementOne cfg m ws inc u db = (Inr None, db) \<and>
     (\<forall>r \<in> set (mem_rows db m). \<not> list_all (clause_holds (hostEnv cfg) r) ws))"
proof -
  from assms(1) obtain os where t: "tables db m = Some os" by auto
  show ?thesis
    using matching_objs_simple[OF t assms(2), of cfg]
    by (cases "filter (\<lambda>ob. list_all (clause_holds (hostEnv cfg) (obj_row ob)) ws) os")
       (auto simp: mem_incrementOne_def Let_def mem_rows_def table_of_def t filter_empty_conv
          simp del: split_paired_All split_paired_Ex)
qed

lemma mem_deleteMany_simple:
  assumes wf: "wf_db db" and tab: "tables db m \<noteq> None" and ws: "list_all simple_clause ws"
  obtains n t where "mem_deleteMany cfg m ws db = (Inr n, t)" "wf_db t"
    "mem_rows t m = filter (\<lambda>r. \<not> list_all (clause_holds (hostEnv cfg) r) ws) (mem_rows db m)"
    "\<And>m'. m' \<noteq> m \<Longrightarrow> mem_rows t m' = mem_rows db m'" "\<And>m'. tables t m' = None \<longleftrightarrow> tables db m' = None"
proof -
  from tab obtain os where t: "tables db m = Some os" by auto
  note res = matching_objs_simple[OF t ws, of cfg]
  let ?t = "set_table db m (filter (\<lambda>ob. obj_ref ob \<notin> set (map obj_ref
      (filter (\<lambda>ob. list_all (clause_holds (hostEnv cfg) (obj_row ob)) ws) os))) (table_of db m))"
  show thesis
  proof (rule that)
    show "mem_deleteMany cfg m ws db = (Inr (length (filter (\<lambda>ob. obj_ref ob \<in> set (map obj_ref
        (filter (\<lambda>ob. list_all (clause_holds (hostEnv cfg) (obj_row ob)) ws) os))) (table_of db m))), ?t)"
      by (simp add: mem_deleteMany_def res)
    show "wf_db ?t" by (rule wf_db_filter[OF wf])
    show "mem_rows ?t m = filter (\<lambda>r. \<not> list_all (clause_holds (hostEnv cfg) r) ws) (mem_rows db m)"
      using mem_rows_delete_all[OF wf res] by (simp add: mem_sat_simple[OF ws])
  qed (use tab in \<open>simp_all add: set_table_def mem_rows_def table_of_def\<close>)
qed

lemma mem_delete_simple:
  assumes wf: "wf_db db" and tab: "tables db m \<noteq> None" and ws: "list_all simple_clause ws" "ws \<noteq> []"
  obtains t where "mem_delete cfg m ws db = (Inr (), t)" "wf_db t"
    "mem_rows t m = filter (\<lambda>r. \<not> list_all (clause_holds (hostEnv cfg) r) ws) (mem_rows db m)"
    "\<And>m'. m' \<noteq> m \<Longrightarrow> mem_rows t m' = mem_rows db m'" "\<And>m'. tables t m' = None \<longleftrightarrow> tables db m' = None"
proof -
  obtain n t where t: "mem_deleteMany cfg m ws db = (Inr n, t)" "wf_db t"
    "mem_rows t m = filter (\<lambda>r. \<not> list_all (clause_holds (hostEnv cfg) r) ws) (mem_rows db m)"
    "\<And>m'. m' \<noteq> m \<Longrightarrow> mem_rows t m' = mem_rows db m'" "\<And>m'. tables t m' = None \<longleftrightarrow> tables db m' = None"
    by (rule mem_deleteMany_simple[OF wf tab ws(1), of cfg]) (rule that)
  have "mem_delete cfg m ws db = (Inr (), t)"
    using t(1) ws(2) by (auto simp: mem_delete_def mem_deleteMany_def split: sum.splits)
  then show thesis using t(2-5) by (rule that)
qed

lemma mem_findOne_unique:
  assumes "tables db m \<noteq> None" and "list_all simple_clause ws"
    and "filter (\<lambda>r. list_all (clause_holds (hostEnv cfg) r) ws) (mem_rows db m) = [r]"
  shows "a_findOne (mem_adapter cfg) m ws db = (Inr (Some r), db)"
proof -
  from assms(1) obtain os where t: "tables db m = Some os" by auto
  from assms(3) have "map obj_row (filter (\<lambda>ob. list_all (clause_holds (hostEnv cfg) (obj_row ob)) ws) os) = [r]"
    by (simp add: mem_rows_def table_of_def t filter_map comp_def)
  with matching_objs_simple[OF t assms(2), of cfg] show ?thesis
    by (auto simp: mem_findOne_app split: list.splits)
qed

section \<open>One-row tables\<close>

text \<open>Running the operations on a table of one row, for evaluating components.\<close>

lemma single_increment:
  "tables db m = Some [(i, k)] \<Longrightarrow> list_all simple_clause ws \<Longrightarrow> mem_incrementOne cfg m ws inc u db =
     (if list_all (clause_holds (hostEnv cfg) k) ws
      then (Inr (Some (apply_set u (apply_increment inc k))), set_table db m [(i, apply_set u (apply_increment inc k))])
      else (Inr None, db))"
  by (simp add: mem_incrementOne_def matching_objs_simple Let_def table_of_def update_objs_def)

lemma single_update:
  "tables db m = Some [(i, k)] \<Longrightarrow> list_all simple_clause ws \<Longrightarrow> mem_update cfg m ws u db =
     (if ws \<noteq> [] \<and> list_all (clause_holds (hostEnv cfg) k) ws
      then (Inr (Some (object_assign k u)), set_table db m [(i, object_assign k u)])
      else (Inr None, db))"
  by (auto simp: mem_update_def matching_objs_simple Let_def table_of_def update_objs_def)

lemma single_findOne:
  "tables db m = Some [(i, k)] \<Longrightarrow> list_all simple_clause ws \<Longrightarrow> a_findOne (mem_adapter cfg) m ws db =
     (Inr (if list_all (clause_holds (hostEnv cfg) k) ws then Some k else None), db)"
  by (simp add: mem_findOne_app matching_objs_simple)

definition one_row :: "string \<Rightarrow> row \<Rightarrow> memdb" where
  "one_row m k = \<lparr>tables = [m \<mapsto> [(0, k)]], next_ref = 1\<rparr>"

lemma one_row_facts [simp]:
  "tables (one_row m k) m = Some [(0, k)]"
  "mem_rows (one_row m k) m = [k]"
  "wf_db (one_row m k)"
  "set_table (one_row m k) m [(0, k')] = one_row m k'"
  by (auto simp: one_row_def mem_rows_def table_of_def wf_db_def set_table_def)

lemmas one_row_simps [simp] = single_increment[OF one_row_facts(1), unfolded one_row_facts(4)]
  single_update[OF one_row_facts(1), unfolded one_row_facts(4)] single_findOne[OF one_row_facts(1)]

lemma one_row_findMany [simp]:
  "list_all simple_clause ws \<Longrightarrow> a_findMany (mem_adapter cfg) m ws None None None (one_row m k) =
     (Inr (if list_all (clause_holds (hostEnv cfg) k) ws then [k] else []), one_row m k)"
  by (simp add: mem_findMany_app matching_objs_simple[OF one_row_facts(1)] paginate_def sort_nested_def)

lemma one_row_count [simp]:
  "list_all simple_clause ws \<Longrightarrow> mem_count cfg m (Some ws) (one_row m k) =
     (Inr (if list_all (clause_holds (hostEnv cfg) k) ws then 1 else 0), one_row m k)"
  by (simp add: mem_count_def matching_objs_simple[OF one_row_facts(1)])

section \<open>Properties\<close>


definition demo_cfg :: mem_config where
  "demo_cfg = \<lparr>hostEnv = \<lparr>localeCompare = (\<lambda>a b. if a = b then 0 else if str_less a b then - 1 else 1),
       dateToString = int_to_str\<rparr>,
     getFieldName = (\<lambda>_ f. f), getDefaultFieldName = (\<lambda>_ f. f), getModelName = id,
     useNumberId = False\<rparr>"

lemmas mem_eval = matching_objs_def matches_where_def evalClause_def wh_eq_def wh_def
  mem_sat_def mem_rows_def table_of_def mem_consumeOne_def mem_incrementOne_def mem_update_def
  mem_deleteMany_def mem_delete_def mem_create_def set_table_def demo_cfg_def

definition demo_codes :: memdb where
  "demo_codes = \<lparr>tables = [''verification'' \<mapsto> [(0, [(''id'', Str ''a''), (''value'', Str ''x'')]),
                                           (1, [(''id'', Str ''b''), (''value'', Str ''y'')])]],
                 next_ref = 2\<rparr>"

lemma wf_demo_codes: "wf_db demo_codes"
  by (auto simp: wf_db_def demo_codes_def table_of_def)


text \<open>
  A singular \<open>update\<close> or \<open>delete\<close> with an empty predicate changes nothing, while
  \<open>deleteMany\<close> with an empty predicate removes every row and reports how many.
\<close>

theorem empty_predicate:
  "mem_update cfg m [] upd db = (Inr None, db) \<and>
   mem_delete cfg m [] db = (Inr (), db) \<and>
   mem_deleteMany cfg m [] db =
     (case tables db m of
        None \<Rightarrow> (Inl (Throw (''Model '' @ m @ '' not found'')), db)
      | Some os \<Rightarrow> (Inr (length os), set_table db m []))"
proof (intro conjI)
  show "mem_update cfg m [] upd db = (Inr None, db)" by (simp add: mem_update_def)
  show "mem_delete cfg m [] db = (Inr (), db)" by (simp add: mem_delete_def)
  have "filter (\<lambda>ob. obj_ref ob \<in> obj_ref ` set os) os = os"
    "filter (\<lambda>ob. obj_ref ob \<notin> obj_ref ` set os) os = []" for os :: "obj list"
    by (simp_all add: filter_id_conv filter_empty_conv)
  moreover have "filterR (\<lambda>ob. Inr True) os = Inr os" for os :: "obj list"
    by (subst filterR_total[where p = "\<lambda>_. True"]) simp_all
  ultimately show "mem_deleteMany cfg m [] db =
     (case tables db m of
        None \<Rightarrow> (Inl (Throw (''Model '' @ m @ '' not found'')), db)
      | Some os \<Rightarrow> (Inr (length os), set_table db m []))"
    by (simp add: mem_deleteMany_def matching_objs_def matches_where_def table_of_def
        split: option.splits)
qed

end
