(* ===== verification/ApiKeyVerify.thy ===== *)
theory ApiKeyVerify
  imports ApiKeyStore MemoryAdapter Access
begin

text \<open>
  Verification of an API key: \<open>packages/api-key/src/routes/verify-api-key.ts\<close> and
  \<open>packages/api-key/src/rate-limit.ts\<close>.

  \<open>consumeRateLimit\<close> calls itself until a guarded write wins; the model bounds the number
  of rounds and returns \<open>OutOfFuel\<close> when the bound is used up. A task handed to
  \<open>runInBackground\<close> is run at that point with its exceptions dropped. The values read from
  the clock are numbered: 0 in \<open>validateApiKey\<close>, 1 in \<open>consumeRemaining\<close>, 2 for the final
  stamp, and 3 plus the round in the rate limit; a snapshot's \<open>lastRefillAt\<close> is reading 4.
\<close>

section \<open>Rate-limit decision\<close>

datatype RateLimitDecision =
    Skip "val option"          \<comment> \<open>stamp \<open>lastRequest\<close>, or nothing\<close>
  | Start val
  | Reset val val              \<comment> \<open>now, windowStart\<close>
  | Increment val val val      \<comment> \<open>now, max, windowStart\<close>
  | Deny string int            \<comment> \<open>message, tryAgainIn\<close>

text \<open>\<open>new Date(now.getTime() - window)\<close>; a window that is not a number gives an invalid date.\<close>

definition window_start :: "host \<Rightarrow> nat \<times> int \<Rightarrow> val \<Rightarrow> val" where
  "window_start h now w =
     (case to_number h w of Some n \<Rightarrow> DateV (fst now) (snd now - n) | None \<Rightarrow> Undef)"

definition evaluateRateLimit ::
  "host \<Rightarrow> nat \<times> int \<Rightarrow> row \<Rightarrow> apikey_opts \<Rightarrow> RateLimitDecision"
where
  "evaluateRateLimit h clk k opts =
     (let now = DateV (fst clk) (snd clk);
          lastRequest = get_field k ''lastRequest'';
          window = get_field k ''rateLimitTimeWindow'';
          rmax = get_field k ''rateLimitMax'' in
      if \<not> o_rateLimitEnabled opts then Skip (Some now)
      else if get_field k ''rateLimitEnabled'' = BoolV False then Skip (Some now)
      else if window = Null \<or> rmax = Null then Skip None
      else if lastRequest = Null then Start now
      else
        (let since = map_option (\<lambda>t. snd clk - t) (time_of lastRequest);
             w = to_number h window in
         if (case (since, w) of (Some s, Some n) \<Rightarrow> s > n | _ \<Rightarrow> False)
           then Reset now (window_start h clk window)
         else if js_less_eq h rmax (get_field k ''requestCount'')
           then Deny ''Rate limit exceeded.''
             (case (since, w) of (Some s, Some n) \<Rightarrow> n - s | _ \<Rightarrow> 0)
         else Increment now rmax (window_start h clk window)))"

definition RATE_LIMITED :: err where
  "RATE_LIMITED = APIError ''TOO_MANY_REQUESTS'' ''RATE_LIMITED''"

definition INVALID_API_KEY :: err where
  "INVALID_API_KEY = APIError ''UNAUTHORIZED'' ''INVALID_API_KEY''"

definition KEY_NOT_FOUND :: err where
  "KEY_NOT_FOUND = APIError ''UNAUTHORIZED'' ''KEY_NOT_FOUND''"

definition USAGE_EXCEEDED :: err where
  "USAGE_EXCEEDED = APIError ''TOO_MANY_REQUESTS'' ''USAGE_EXCEEDED''"

section \<open>Guarded consumption against the database row\<close>

definition id_of :: "row \<Rightarrow> val" where
  "id_of k = get_field k ''id''"

text \<open>\<open>refillAmount - 1\<close> and \<open>remaining--\<close>; not a number is written \<open>Undef\<close>.\<close>

definition minus_one :: "host \<Rightarrow> val \<Rightarrow> val" where
  "minus_one h v = (case to_number h v of Some n \<Rightarrow> Num (n - 1) | None \<Rightarrow> Undef)"

definition refill_due :: "host \<Rightarrow> int \<Rightarrow> row \<Rightarrow> bool" where
  "refill_due h now k =
     (let interval = get_field k ''refillInterval''; amount = get_field k ''refillAmount'' in
      truthy interval \<and> truthy amount \<and>
      (case (time_of (coalesce (get_field k ''lastRefillAt'') (get_field k ''createdAt'')),
             to_number h interval) of
         (Some t, Some n) \<Rightarrow> now - t > n
       | _ \<Rightarrow> False))"

definition refill_op :: "'s adapter \<Rightarrow> host \<Rightarrow> val \<Rightarrow> row \<Rightarrow> ('s, row option) act" where
  "refill_op A h now k =
     a_incrementOne A API_KEY_TABLE_NAME
       [wh_eq ''id'' (id_of k), wh_eq ''lastRefillAt'' (get_field k ''lastRefillAt'')]
       [] (Some [(''remaining'', minus_one h (get_field k ''refillAmount'')), (''lastRefillAt'', now)])"

definition decrement_op :: "'s adapter \<Rightarrow> row \<Rightarrow> ('s, row option) act" where
  "decrement_op A k =
     a_incrementOne A API_KEY_TABLE_NAME
       [wh_eq ''id'' (id_of k), wh ''remaining'' Op_gt (Num 0)] [(''remaining'', - 1)] None"

definition decrement_remaining :: "'s adapter \<Rightarrow> row \<Rightarrow> ('s, row) act" where
  "decrement_remaining A k =
     bindA (decrement_op A k) (\<lambda>decremented.
       case decremented of None \<Rightarrow> throwA USAGE_EXCEEDED | Some r \<Rightarrow> returnA r)"

definition consumeRemaining :: "'s adapter \<Rightarrow> host \<Rightarrow> clock \<Rightarrow> row \<Rightarrow> ('s, row) act" where
  "consumeRemaining A h clk k =
     (if refill_due h (now_ms clk 1) k then
        bindA (refill_op A h (date_at clk 1) k) (\<lambda>refilled.
          case refilled of
            Some r \<Rightarrow> returnA r
          | None \<Rightarrow> decrement_remaining A k)
      else decrement_remaining A k)"

text \<open>The guarded writes of \<open>consumeRateLimit\<close>.\<close>

definition increment_op :: "'s adapter \<Rightarrow> row \<Rightarrow> val \<Rightarrow> val \<Rightarrow> val \<Rightarrow> ('s, row option) act" where
  "increment_op A k now rmax windowStart =
     a_incrementOne A API_KEY_TABLE_NAME
       [wh_eq ''id'' (id_of k), wh ''lastRequest'' Op_gt windowStart, wh ''requestCount'' Op_lt rmax]
       [(''requestCount'', 1)] (Some [(''lastRequest'', now)])"

definition open_window_op :: "'s adapter \<Rightarrow> row \<Rightarrow> val \<Rightarrow> CleanedWhere \<Rightarrow> ('s, row option) act" where
  "open_window_op A k now windowGuard =
     a_incrementOne A API_KEY_TABLE_NAME [wh_eq ''id'' (id_of k), windowGuard]
       [] (Some [(''requestCount'', Num 1), (''lastRequest'', now)])"

fun consumeRateLimit ::
  "nat \<Rightarrow> nat \<Rightarrow> 's adapter \<Rightarrow> host \<Rightarrow> clock \<Rightarrow> row \<Rightarrow> apikey_opts \<Rightarrow> ('s, row) act"
where
  "consumeRateLimit 0 i A h clk k opts = throwA OutOfFuel"
| "consumeRateLimit (Suc fuel) i A h clk k opts =
     (let retry =
        bindA (a_findOne A API_KEY_TABLE_NAME [wh_eq ''id'' (id_of k)]) (\<lambda>fresh.
          case fresh of
            None \<Rightarrow> throwA INVALID_API_KEY
          | Some r \<Rightarrow> consumeRateLimit fuel (Suc i) A h clk r opts) in
      case evaluateRateLimit h (clk i) k opts of
        Deny msg tryAgainIn \<Rightarrow> throwA RATE_LIMITED
      | Skip None \<Rightarrow> returnA k
      | Skip (Some now) \<Rightarrow>
          bindA (a_update A API_KEY_TABLE_NAME [wh_eq ''id'' (id_of k)] [(''lastRequest'', now)])
            (\<lambda>updated. returnA (case updated of None \<Rightarrow> k | Some r \<Rightarrow> r))
      | Increment now rmax windowStart \<Rightarrow>
          bindA (increment_op A k now rmax windowStart)
            (\<lambda>incremented. case incremented of Some r \<Rightarrow> returnA r | None \<Rightarrow> retry)
      | Reset now windowStart \<Rightarrow>
          bindA (open_window_op A k now (wh ''lastRequest'' Op_lte windowStart))
            (\<lambda>started. case started of Some r \<Rightarrow> returnA r | None \<Rightarrow> retry)
      | Start now \<Rightarrow>
          bindA (open_window_op A k now (wh_eq ''lastRequest'' Null))
            (\<lambda>started. case started of Some r \<Rightarrow> returnA r | None \<Rightarrow> retry))"

definition claimUsageInDatabase ::
  "nat \<Rightarrow> 's key_ctx \<Rightarrow> row \<Rightarrow> apikey_opts \<Rightarrow> ('s kstate, row) act"
where
  "claimUsageInDatabase fuel ctx k opts =
     (let A = c_adapter ctx; h = c_host ctx; clk = c_clock ctx in
      bindA (if get_field k ''remaining'' \<noteq> Null then onDb (consumeRemaining A h clk k)
             else returnA k) (\<lambda>r0.
      bindA (onDb (consumeRateLimit fuel 3 A h clk r0 opts)) (\<lambda>r1.
      bindA (onDb (a_update A API_KEY_TABLE_NAME [wh_eq ''id'' (id_of r1)]
                     [(''updatedAt'', date_at clk 2)])) (\<lambda>finalRow.
        case finalRow of
          None \<Rightarrow> throwA INVALID_API_KEY
        | Some f \<Rightarrow>
            if o_secondary opts \<and> o_fallbackToDatabase opts
            then bindA (setApiKey ctx f opts) (\<lambda>_. returnA f)
            else returnA f))))"

section \<open>Consumption in a secondary storage\<close>

definition applyRateLimitToSnapshot ::
  "host \<Rightarrow> nat \<times> int \<Rightarrow> row \<Rightarrow> apikey_opts \<Rightarrow> row res"
where
  "applyRateLimitToSnapshot h clk k opts =
     (case evaluateRateLimit h clk k opts of
        Deny msg t \<Rightarrow> Inl RATE_LIMITED
      | Skip None \<Rightarrow> Inr []
      | Skip (Some now) \<Rightarrow> Inr [(''lastRequest'', now)]
      | Start now \<Rightarrow> Inr [(''lastRequest'', now), (''requestCount'', Num 1)]
      | Reset now _ \<Rightarrow> Inr [(''lastRequest'', now), (''requestCount'', Num 1)]
      | Increment now _ _ \<Rightarrow> Inr [(''lastRequest'', now),
          (''requestCount'', Num (counter_value (get_field k ''requestCount'') + 1))])"

text \<open>The new \<open>remaining\<close> and \<open>lastRefillAt\<close> of a snapshot.\<close>

definition consume_snapshot :: "host \<Rightarrow> clock \<Rightarrow> row \<Rightarrow> (val \<times> val) res" where
  "consume_snapshot h clk k =
     (let remaining = get_field k ''remaining''; lastRefillAt = get_field k ''lastRefillAt'' in
      if remaining = Null then Inr (remaining, lastRefillAt)
      else
        (let (rem, refl) = (if refill_due h (now_ms clk 1) k
                            then (get_field k ''refillAmount'', date_at clk 4)
                            else (remaining, lastRefillAt))
         in if rem = Num 0 then Inl USAGE_EXCEEDED else Inr (minus_one h rem, refl)))"

definition claimUsageInSecondaryStorage ::
  "'s key_ctx \<Rightarrow> row \<Rightarrow> apikey_opts \<Rightarrow> string \<Rightarrow> ('s kstate, row) act"
where
  "claimUsageInSecondaryStorage ctx k opts hashedKey =
     bindA (liftR (consume_snapshot (c_host ctx) (c_clock ctx) k)) (\<lambda>(remaining, lastRefillAt).
     bindA (liftR (applyRateLimitToSnapshot (c_host ctx) (c_clock ctx 3) k opts)) (\<lambda>upd.
       let mutations = upd @ [(''remaining'', remaining), (''lastRefillAt'', lastRefillAt),
                              (''updatedAt'', date_at (c_clock ctx) 2)];
           performUpdate = bindA (getApiKey ctx hashedKey opts) (\<lambda>fresh.
             case fresh of
               None \<Rightarrow> returnA None
             | Some f \<Rightarrow> (let merged = object_assign f mutations in
                 bindA (setApiKey ctx merged opts) (\<lambda>_. returnA (Some merged))))
       in if o_deferUpdates opts then
            bindA (catchA performUpdate (\<lambda>_. returnA None))
              (\<lambda>_. returnA (object_assign k mutations))
          else bindA performUpdate (\<lambda>updated.
            case updated of
              None \<Rightarrow> throwA (APIError ''INTERNAL_SERVER_ERROR'' ''FAILED_TO_UPDATE_API_KEY'')
            | Some r \<Rightarrow> returnA r)))"

section \<open>Validation\<close>

definition isDefaultConfigId :: "val \<Rightarrow> bool" where
  "isDefaultConfigId c \<longleftrightarrow> \<not> truthy c \<or> c = Str ''default''"

definition configIdMatches :: "val \<Rightarrow> val \<Rightarrow> bool" where
  "configIdMatches keyConfigId expected =
     (if isDefaultConfigId keyConfigId \<and> isDefaultConfigId expected then True
      else strict_eq keyConfigId expected)"

definition getDefaultConfig :: "'o apikey_opts_scheme list \<Rightarrow> 'o apikey_opts_scheme res" where
  "getDefaultConfig confs =
     (case List.find (\<lambda>c. case o_configId c of None \<Rightarrow> True | Some i \<Rightarrow> i = [] \<or> i = ''default'') confs of
        None \<Rightarrow> Inl (APIError ''BAD_REQUEST'' ''NO_DEFAULT_API_KEY_CONFIGURATION_FOUND'')
      | Some c \<Rightarrow> Inr (c\<lparr>o_configId := Some ''default''\<rparr>))"

definition resolveConfiguration ::
  "'o apikey_opts_scheme list \<Rightarrow> val \<Rightarrow> 'o apikey_opts_scheme res"
where
  "resolveConfiguration confs configId =
     (if \<not> truthy configId then getDefaultConfig confs
      else (case List.find (\<lambda>c. case o_configId c of None \<Rightarrow> False | Some i \<Rightarrow> configId = Str i) confs of
              Some c \<Rightarrow> Inr c
            | None \<Rightarrow> getDefaultConfig confs))"

text \<open>The closures \<open>deleteExpiredKey\<close> and \<open>deleteExhaustedKey\<close> and how they are run.\<close>

definition deleteStaleKey :: "'s key_ctx \<Rightarrow> row \<Rightarrow> apikey_opts \<Rightarrow> ('s kstate, unit) act" where
  "deleteStaleKey ctx k opts =
     (let delDb = onDb (a_delete (c_adapter ctx) API_KEY_TABLE_NAME [wh_eq ''id'' (id_of k)]) in
      if o_secondary opts \<and> o_fallbackToDatabase opts
        then bindA (deleteApiKey ctx k opts) (\<lambda>_. delDb)
      else if o_secondary opts then deleteApiKey ctx k opts
      else delDb)"

definition deferOrAwait :: "apikey_opts \<Rightarrow> ('s, unit) act \<Rightarrow> ('s, unit) act" where
  "deferOrAwait opts task =
     (if o_deferUpdates opts then catchA task (\<lambda>_. returnA ()) else task)"

definition expired_at :: "int \<Rightarrow> row \<Rightarrow> bool" where
  "expired_at now k =
     (truthy (get_field k ''expiresAt'') \<and>
      (case time_of (get_field k ''expiresAt'') of Some t \<Rightarrow> now > t | None \<Rightarrow> False))"

text \<open>
  The permission check; \<open>parse\<close> is \<open>safeJSONParse\<close> of the key's permissions text.
\<close>

definition check_permissions ::
  "(string \<Rightarrow> statements option) \<Rightarrow> row \<Rightarrow> (string \<times> request_value) list option \<Rightarrow> unit res"
where
  "check_permissions parse k permissions =
     (case permissions of
        None \<Rightarrow> Inr ()
      | Some req \<Rightarrow>
          (case (case get_field k ''permissions'' of
                   Str t \<Rightarrow> if t = [] then None else parse t | _ \<Rightarrow> None) of
             None \<Rightarrow> Inl KEY_NOT_FOUND
           | Some st \<Rightarrow>
               bindR (role_authorize st req AND) (\<lambda>result.
                 if result = Success then Inr () else Inl KEY_NOT_FOUND)))"

definition validate_key ::
  "nat \<Rightarrow> 's key_ctx \<Rightarrow> (string \<Rightarrow> statements option) \<Rightarrow> string \<Rightarrow> string \<Rightarrow>
     (string \<times> request_value) list option \<Rightarrow> bool \<Rightarrow> row \<Rightarrow> apikey_opts \<Rightarrow>
     ('s kstate, row \<times> apikey_opts) act"
where
  "validate_key fuel ctx parse key hashedKey permissions runCustomValidator k opts =
     (if runCustomValidator \<and>
         (case o_customAPIKeyValidator opts of Some f \<Rightarrow> \<not> f key | None \<Rightarrow> False)
        then throwA KEY_NOT_FOUND
      else if get_field k ''enabled'' = BoolV False
        then throwA (APIError ''UNAUTHORIZED'' ''KEY_DISABLED'')
      else if expired_at (now_ms (c_clock ctx) 0) k
        then bindA (deferOrAwait opts (deleteStaleKey ctx k opts))
               (\<lambda>_. throwA (APIError ''UNAUTHORIZED'' ''KEY_EXPIRED''))
      else
        bindA (liftR (check_permissions parse k permissions)) (\<lambda>_.
          if (case o_authorizeReference opts of Some f \<Rightarrow> \<not> f k | None \<Rightarrow> False)
            then throwA INVALID_API_KEY
          else if get_field k ''remaining'' = Num 0 \<and> get_field k ''refillAmount'' = Null
            then bindA (deferOrAwait opts (deleteStaleKey ctx k opts)) (\<lambda>_. throwA USAGE_EXCEEDED)
          else
            bindA (if \<not> o_secondary opts \<or> o_fallbackToDatabase opts
                   then claimUsageInDatabase fuel ctx k opts
                   else claimUsageInSecondaryStorage ctx k opts hashedKey)
              (\<lambda>newApiKey. returnA (newApiKey, opts))))"

definition validateApiKey ::
  "nat \<Rightarrow> 's key_ctx \<Rightarrow> (string \<Rightarrow> statements option) \<Rightarrow> apikey_opts list \<Rightarrow> apikey_opts \<Rightarrow>
     string \<Rightarrow> (string \<times> request_value) list option \<Rightarrow> string option \<Rightarrow> bool \<Rightarrow>
     ('s kstate, row \<times> apikey_opts) act"
where
  "validateApiKey fuel ctx parse confs lookupOpts key permissions expectedConfigId runCustom =
     (let hashedKey = (if o_disableKeyHashing lookupOpts then key else c_hash ctx key) in
      bindA (getApiKey ctx hashedKey lookupOpts) (\<lambda>found.
        case found of
          None \<Rightarrow> throwA INVALID_API_KEY
        | Some k \<Rightarrow>
            if (case expectedConfigId of
                  Some e \<Rightarrow> \<not> configIdMatches (get_field k ''configId'') (Str e) | None \<Rightarrow> False)
              then throwA INVALID_API_KEY
            else bindA (liftR (resolveConfiguration confs (get_field k ''configId''))) (\<lambda>opts.
              validate_key fuel ctx parse key hashedKey permissions runCustom k opts)))"

end
