(* ===== verification/Ip.thy ===== *)
theory Ip
  imports JsBase "HOL-Library.Word"
begin

text \<open>
  Client addresses: \<open>packages/core/src/utils/ip.ts\<close>. Addresses are text; a CIDR network is
  compared on the bytes of the address (\<open>8 word\<close>), an IPv6 subnet masked on its groups
  (\<open>16 word\<close>). Whether a text is an IPv4 or IPv6 address is decided by the schema library;
  it is the parameter \<open>zod\<close>. \<open>parseInt(s, 16)\<close> reads the leading hexadecimal digits: the
  groups of an address carry no sign, space or \<open>0x\<close>.
\<close>

unbundle bit_operations_syntax

section \<open>Text\<close>

record zod =
  isIPv4 :: "string \<Rightarrow> bool"
  isIPv6 :: "string \<Rightarrow> bool"

definition isValidIP :: "zod \<Rightarrow> string \<Rightarrow> bool" where
  "isValidIP z ip \<longleftrightarrow> isIPv4 z ip \<or> isIPv6 z ip"

text \<open>\<open>s.split("::")\<close>.\<close>

fun split_dcolon :: "string \<Rightarrow> string list" where
  "split_dcolon [] = [[]]"
| "split_dcolon [c] = [[c]]"
| "split_dcolon (c # d # s) =
     (if c = CHR '':'' \<and> d = CHR '':'' then [] # split_dcolon s
      else (case split_dcolon (d # s) of [] \<Rightarrow> [[c]] | w # ws \<Rightarrow> (c # w) # ws))"

definition hex_val :: "char \<Rightarrow> nat option" where
  "hex_val c = (let n = of_char c :: nat in
     if 48 \<le> n \<and> n \<le> 57 then Some (n - 48)
     else if 97 \<le> n \<and> n \<le> 102 then Some (n - 87)
     else if 65 \<le> n \<and> n \<le> 70 then Some (n - 55)
     else None)"

definition hex_step :: "nat \<Rightarrow> char \<Rightarrow> nat" where
  "hex_step n c = 16 * n + the (hex_val c)"

definition parseInt16 :: "string \<Rightarrow> nat option" where
  "parseInt16 s =
     (case takeWhile (\<lambda>c. hex_val c \<noteq> None) s of
        [] \<Rightarrow> None
      | ds \<Rightarrow> Some (foldl hex_step 0 ds))"

text \<open>A number used by a bitwise operator: \<open>NaN\<close> is 0.\<close>

definition bits_of :: "nat option \<Rightarrow> nat" where
  "bits_of v = (case v of Some n \<Rightarrow> n | None \<Rightarrow> 0)"

text \<open>A number inside a template string.\<close>

definition num_text :: "nat option \<Rightarrow> string" where
  "num_text v = (case v of Some n \<Rightarrow> digits_of 10 n | None \<Rightarrow> ''NaN'')"

definition pad4 :: "string \<Rightarrow> string" where
  "pad4 g = padStart 4 CHR ''0'' g"

section \<open>Normalization\<close>

definition expandIPv6 :: "string \<Rightarrow> string list" where
  "expandIPv6 ip =
     (if str_includes ip ''::'' then
        (let sides = split_dcolon ip;
             side = (\<lambda>i. if i < length sides \<and> sides ! i \<noteq> [] then split_on CHR '':'' (sides ! i) else []);
             left = side 0; right = side 1
         in map pad4 left @ replicate (8 - length left - length right) ''0000'' @ map pad4 right)
      else map pad4 (split_on CHR '':'' ip))"

definition mapped_bytes :: "string \<Rightarrow> string \<Rightarrow> string" where
  "mapped_bytes g6 g7 =
     join_with ''.'' (map num_text
       [parseInt16 (take 2 g6), parseInt16 (take 2 (drop 2 g6)),
        parseInt16 (take 2 g7), parseInt16 (take 2 (drop 2 g7))])"

definition extractIPv4FromMapped :: "zod \<Rightarrow> string \<Rightarrow> string option" where
  "extractIPv4FromMapped z ip =
     (let lower = toLowerCase ip; parts = split_on CHR '':'' ip; groups = expandIPv6 ip in
      if startsWith lower ''::ffff:'' \<and> isIPv4 z (drop 7 lower) then Some (drop 7 lower)
      else if length parts = 7 \<and> toLowerCase (parts ! 5) = ''ffff'' \<and>
              parts ! 6 \<noteq> [] \<and> isIPv4 z (parts ! 6) then Some (parts ! 6)
      else if (str_includes lower ''::ffff:'' \<or> str_includes lower '':ffff:'') \<and>
              length groups = 8 \<and> take 5 groups = replicate 5 ''0000'' \<and> groups ! 5 = ''ffff'' \<and>
              groups ! 6 \<noteq> [] \<and> groups ! 7 \<noteq> []
        then Some (mapped_bytes (groups ! 6) (groups ! 7))
      else None)"

text \<open>Masking the groups of an address to its first bits; the last group cut in part.\<close>

definition mask_group :: "nat \<Rightarrow> string \<Rightarrow> string" where
  "mask_group bits g =
     (let m = push_bit (16 - bits) (0xffff :: 16 word)
      in pad4 (digits_of 16 (unat (of_nat (bits_of (parseInt16 g)) AND m))))"

fun mask_groups :: "nat \<Rightarrow> string list \<Rightarrow> string list" where
  "mask_groups bits [] = []"
| "mask_groups bits (g # gs) =
     (if bits = 0 then ''0000'' # mask_groups 0 gs
      else if bits \<ge> 16 then g # mask_groups (bits - 16) gs
      else mask_group bits g # mask_groups 0 gs)"

definition normalizeIPv6 :: "string \<Rightarrow> int option \<Rightarrow> string" where
  "normalizeIPv6 ip subnetPrefix =
     (let groups = expandIPv6 ip in
      toLowerCase (join_with '':''
        (case subnetPrefix of
           Some p \<Rightarrow> if p < 128 then mask_groups (nat (max 0 p)) groups else groups
         | None \<Rightarrow> groups)))"

definition normalizeIP :: "zod \<Rightarrow> string \<Rightarrow> int option \<Rightarrow> string" where
  "normalizeIP z ip ipv6Subnet =
     (if isIPv4 z ip then toLowerCase ip
      else if \<not> isIPv6 z ip then toLowerCase ip
      else (case extractIPv4FromMapped z ip of
              Some ipv4 \<Rightarrow> if ipv4 \<noteq> [] then toLowerCase ipv4
                else normalizeIPv6 ip (Some (case ipv6Subnet of Some p \<Rightarrow> p | None \<Rightarrow> 64))
            | None \<Rightarrow> normalizeIPv6 ip (Some (case ipv6Subnet of Some p \<Rightarrow> p | None \<Rightarrow> 64))))"

section \<open>Bytes and networks\<close>

definition octet_byte :: "string \<Rightarrow> 8 word" where
  "octet_byte s = (case str_to_number s of Some n \<Rightarrow> of_int n | None \<Rightarrow> 0)"

definition octets :: "string \<Rightarrow> 8 word list" where
  "octets ip = map octet_byte (split_on CHR ''.'' ip)"

definition group_bytes :: "string \<Rightarrow> 8 word list" where
  "group_bytes g =
     (let n = bits_of (parseInt16 g) in [of_nat (n div 256), of_nat n])"

definition ipToBytes :: "zod \<Rightarrow> string \<Rightarrow> 8 word list option" where
  "ipToBytes z ip =
     (if isIPv4 z ip then Some (octets ip)
      else if \<not> isIPv6 z ip then None
      else (case extractIPv4FromMapped z ip of
              Some mapped \<Rightarrow> if mapped \<noteq> [] then Some (octets mapped)
                else Some (concat (map group_bytes (take 8 (expandIPv6 ip @ replicate 8 ''0'')))) 
            | None \<Rightarrow> Some (concat (map group_bytes (take 8 (expandIPv6 ip @ replicate 8 ''0''))))))"

type_synonym network = "8 word list \<times> int"

definition lastIndexOf :: "string \<Rightarrow> char \<Rightarrow> nat option" where
  "lastIndexOf s c = map_option (\<lambda>i. length s - 1 - i) (indexOf (rev s) c)"

definition parseCIDR :: "zod \<Rightarrow> string \<Rightarrow> network option" where
  "parseCIDR z value =
     (case lastIndexOf value CHR ''/'' of
        None \<Rightarrow> map_option (\<lambda>bytes. (bytes, int (length bytes) * 8)) (ipToBytes z value)
      | Some slash \<Rightarrow>
          (case ipToBytes z (take slash value) of
             None \<Rightarrow> None
           | Some bytes \<Rightarrow>
               (let prefixPart = drop (Suc slash) value in
                if prefixPart = [] \<or> \<not> list_all is_digit prefixPart then None
                else (let prefix = int (dec_value prefixPart) in
                      if prefix \<le> int (length bytes) * 8 then Some (bytes, prefix) else None))))"

fun matches_bytes :: "8 word list \<Rightarrow> 8 word list \<Rightarrow> int \<Rightarrow> bool" where
  "matches_bytes (x # xs) (y # ys) bitsRemaining =
     (if bitsRemaining \<le> 0 then True
      else (let tk = (if bitsRemaining \<ge> 8 then 8 else nat bitsRemaining);
                m = (if tk = 8 then 0xff else push_bit (8 - tk) (0xff :: 8 word))
            in if x AND m \<noteq> y AND m then False
               else matches_bytes xs ys (bitsRemaining - 8)))"
| "matches_bytes _ _ _ = True"

definition matchesCIDR :: "8 word list \<Rightarrow> network \<Rightarrow> bool" where
  "matchesCIDR ipBytes net =
     (if length ipBytes \<noteq> length (fst net) then False
      else matches_bytes ipBytes (fst net) (snd net))"

definition findInvalidTrustedProxies :: "zod \<Rightarrow> string list \<Rightarrow> string list" where
  "findInvalidTrustedProxies z entries = filter (\<lambda>e. parseCIDR z e = None) entries"

section \<open>The client of a request\<close>

record ip_options =
  ip_ipv6Subnet :: "int option"
  ip_trustedProxies :: "string list"
  ip_disableIpTracking :: bool
  ip_headers :: "string list option"

definition header_tokens :: "string \<Rightarrow> string list" where
  "header_tokens value = filter (\<lambda>t. t \<noteq> []) (map trim (split_on CHR '','' value))"

definition trusted_networks :: "zod \<Rightarrow> string list \<Rightarrow> network list" where
  "trusted_networks z entries = List.map_filter (parseCIDR z) entries"

text \<open>The hops from the nearest to the farthest.\<close>

fun walk_chain :: "zod \<Rightarrow> int option \<Rightarrow> network list \<Rightarrow> string list \<Rightarrow> string option" where
  "walk_chain z subnet nets [] = None"
| "walk_chain z subnet nets (ip # hops) =
     (case ipToBytes z ip of
        None \<Rightarrow> None
      | Some bytes \<Rightarrow>
          if list_ex (matchesCIDR bytes) nets then walk_chain z subnet nets hops
          else Some (normalizeIP z ip subnet))"

definition getIPFromHeader :: "zod \<Rightarrow> string \<Rightarrow> ip_options \<Rightarrow> string option" where
  "getIPFromHeader z value options =
     (let forwardedIps = header_tokens value;
          nets = trusted_networks z (ip_trustedProxies options) in
      if forwardedIps = [] then None
      else if nets \<noteq> [] then walk_chain z (ip_ipv6Subnet options) nets (rev forwardedIps)
      else if length forwardedIps \<noteq> 1 then None
      else if \<not> isValidIP z (hd forwardedIps) then None
      else Some (normalizeIP z (hd forwardedIps) (ip_ipv6Subnet options)))"

text \<open>
  \<open>headers\<close> looks a header up; \<open>local\<close> is \<open>isTest() || isDevelopment()\<close>. An empty address
  is falsy and does not stop the search.
\<close>

fun first_header_ip :: "zod \<Rightarrow> (string \<Rightarrow> string option) \<Rightarrow> ip_options \<Rightarrow> string list \<Rightarrow> string option" where
  "first_header_ip z headers options [] = None"
| "first_header_ip z headers options (k # ks) =
     (case headers k of
        None \<Rightarrow> first_header_ip z headers options ks
      | Some value \<Rightarrow>
          (case getIPFromHeader z value options of
             Some ip \<Rightarrow> if ip \<noteq> [] then Some ip else first_header_ip z headers options ks
           | None \<Rightarrow> first_header_ip z headers options ks))"

definition getIP :: "zod \<Rightarrow> (string \<Rightarrow> string option) \<Rightarrow> ip_options \<Rightarrow> bool \<Rightarrow> string option" where
  "getIP z headers options local =
     (if ip_disableIpTracking options then None
      else (case first_header_ip z headers options
              (case ip_headers options of Some hs \<Rightarrow> hs | None \<Rightarrow> [''x-forwarded-for'']) of
              Some ip \<Rightarrow> Some ip
            | None \<Rightarrow> if local then Some ''127.0.0.1'' else None))"

definition createRateLimitKey :: "string \<Rightarrow> string \<Rightarrow> string" where
  "createRateLimitKey ip path = ip @ ''|'' @ path"

section \<open>Networks compare leading bits\<close>

definition byte_bits :: "8 word \<Rightarrow> bool list" where
  "byte_bits w = map (bit w) [7, 6, 5, 4, 3, 2, 1, 0]"

definition addr_bits :: "8 word list \<Rightarrow> bool list" where
  "addr_bits bs = concat (map byte_bits bs)"

lemma length_byte_bits [simp]: "length (byte_bits w) = 8"
  by (simp add: byte_bits_def)

lemma addr_bits_simps [simp]: "addr_bits [] = []" "addr_bits (b # bs) = byte_bits b @ addr_bits bs"
  by (simp_all add: addr_bits_def)

lemma byte_index: "n < 8 \<longleftrightarrow> n \<in> {7, 6, 5, 4, 3, 2, 1, 0 :: nat}"
  by simp presburger

lemma byte_masked_iff:
  "(x AND push_bit m (0xff :: 8 word)) = (y AND push_bit m 0xff) \<longleftrightarrow>
     (\<forall>n \<in> {7, 6, 5, 4, 3, 2, 1, 0}. m \<le> n \<longrightarrow> bit x n = bit y n)"
proof -
  have ff: "(0xff :: 8 word) = - 1" by simp
  have "(x AND push_bit m (- 1 :: 8 word)) = (y AND push_bit m (- 1)) \<longleftrightarrow>
      (\<forall>n < 8. m \<le> n \<longrightarrow> bit x n = bit y n)"
    by (auto simp: bit_eq_iff bit_simps)
  then show ?thesis unfolding ff byte_index[symmetric] Ball_def by blast
qed

lemma masked_byte:
  assumes "0 < k" "k < 8"
  shows "(x AND push_bit (8 - k) (0xff :: 8 word)) = (y AND push_bit (8 - k) 0xff) \<longleftrightarrow>
     take k (byte_bits x) = take k (byte_bits y)"
proof -
  have "k = 1 \<or> k = 2 \<or> k = 3 \<or> k = 4 \<or> k = 5 \<or> k = 6 \<or> k = 7" using assms by linarith
  then show ?thesis
    unfolding byte_masked_iff by (elim disjE) (simp_all add: byte_bits_def)
qed

lemma full_byte: "(x AND (0xff :: 8 word)) = (y AND 0xff) \<longleftrightarrow> byte_bits x = byte_bits y"
  using byte_masked_iff[of x 0 y] by (simp add: byte_bits_def)

lemma matches_bytes_iff:
  "length xs = length ys \<Longrightarrow>
     matches_bytes xs ys p \<longleftrightarrow> take (nat p) (addr_bits xs) = take (nat p) (addr_bits ys)"
proof (induction xs ys arbitrary: p rule: list_induct2')
  case (4 x xs y ys)
  then have len: "length xs = length ys" by simp
  show ?case
  proof (cases "p \<ge> 8")
    case True
    then have "nat (p - 8) = nat p - 8" "8 \<le> nat p" by linarith+
    with 4(1)[OF len, of "p - 8"] True show ?thesis
      by (auto simp: full_byte)
  next
    case False
    then have 1: "take (nat p) (addr_bits (b # bs)) = take (nat p) (byte_bits b)" for b bs
      by simp
    show ?thesis
    proof (cases "p \<le> 0")
      case True
      then show ?thesis by simp
    next
      case pos: False
      have "matches_bytes xs ys (p - 8)"
        using False by (cases xs; cases ys) auto
      with pos False masked_byte[of "nat p" x y] show ?thesis
        by (auto simp: 1 Let_def simp del: addr_bits_simps)
    qed
  qed
qed auto

section \<open>Masked groups compare leading bits\<close>

definition group_text :: "nat \<Rightarrow> string" where
  "group_text n = pad4 (digits_of 16 n)"

definition group_bits :: "nat \<Rightarrow> bool list" where
  "group_bits n = map (bit (of_nat n :: 16 word)) [15, 14, 13, 12, 11, 10, 9, 8, 7, 6, 5, 4, 3, 2, 1, 0]"

definition ipv6_bits :: "nat list \<Rightarrow> bool list" where
  "ipv6_bits ns = concat (map group_bits ns)"

lemma ipv6_bits_simps [simp]: "ipv6_bits [] = []" "ipv6_bits (n # ns) = group_bits n @ ipv6_bits ns"
  by (simp_all add: ipv6_bits_def)

lemma length_group_bits [simp]: "length (group_bits n) = 16"
  by (simp add: group_bits_def)

lemma hex_digit_char: "d < 16 \<Longrightarrow> hex_val (digit_char d) = Some d"
  by (auto simp: hex_val_def digit_char_def Let_def of_char_of)

lemma hex_step_digit: "d < 16 \<Longrightarrow> hex_step n (digit_char d) = 16 * n + d"
  by (simp add: hex_step_def hex_digit_char)

lemma digits_hex: "(\<forall>c \<in> set (digits_of 16 n). hex_val c \<noteq> None) \<and> foldl hex_step 0 (digits_of 16 n) = n"
proof (induction n rule: less_induct)
  case (less n)
  show ?case
  proof (cases "n < 16")
    case True
    then have "digits_of 16 n = [digit_char n]" by (subst digits_of.simps) simp
    with True show ?thesis by (simp add: hex_digit_char hex_step_digit)
  next
    case False
    then have "n div 16 < n" by simp
    moreover have "digits_of 16 n = digits_of 16 (n div 16) @ [digit_char (n mod 16)]"
      using False by (subst digits_of.simps) simp
    ultimately show ?thesis
      using less[of "n div 16"] by (simp add: hex_digit_char hex_step_digit)
  qed
qed

lemma foldl_zeros: "foldl hex_step 0 (replicate k CHR ''0'') = 0"
  by (induction k) (simp_all add: hex_step_def hex_val_def)

lemma parse_group: "parseInt16 (group_text n) = Some n"
proof -
  have z: "hex_val CHR ''0'' \<noteq> None" by (simp add: hex_val_def)
  define t where "t = group_text n"
  have t: "t = replicate (4 - length (digits_of 16 n)) CHR ''0'' @ digits_of 16 n"
    by (simp add: t_def group_text_def pad4_def padStart_def)
  have "\<forall>c \<in> set t. hex_val c \<noteq> None"
    using digits_hex[of n] z by (auto simp: t)
  then have "takeWhile (\<lambda>c. hex_val c \<noteq> None) t = t"
    by (simp only: takeWhile_eq_all_conv)
  moreover have "t \<noteq> []" using digits_not_Nil by (simp add: t)
  moreover have "foldl hex_step 0 t = n"
    using digits_hex[of n] by (simp add: t foldl_zeros)
  ultimately show ?thesis
    by (cases t) (simp_all add: parseInt16_def t_def[symmetric])
qed

lemma group_text_inj: "group_text n = group_text m \<longleftrightarrow> n = m"
  using parse_group[of n] parse_group[of m] by (metis option.inject)

definition masked :: "nat \<Rightarrow> nat \<Rightarrow> nat" where
  "masked bits n = unat ((of_nat n :: 16 word) AND push_bit (16 - bits) 0xffff)"

lemma mask_group_text: "mask_group bits (group_text n) = group_text (masked bits n)"
  unfolding mask_group_def parse_group by (simp add: bits_of_def masked_def group_text_def)

lemma group_index: "n < 16 \<longleftrightarrow> n \<in> {15, 14, 13, 12, 11, 10, 9, 8, 7, 6, 5, 4, 3, 2, 1, 0 :: nat}"
  by simp presburger

lemma masked_iff:
  assumes "0 < k" "k < 16"
  shows "masked k n = masked k m \<longleftrightarrow> take k (group_bits n) = take k (group_bits m)"
proof -
  have ff: "(0xffff :: 16 word) = - 1" by simp
  have "masked k n = masked k m \<longleftrightarrow>
      ((of_nat n :: 16 word) AND push_bit (16 - k) (- 1)) = (of_nat m AND push_bit (16 - k) (- 1))"
    unfolding masked_def ff by (simp add: word_unat_eq_iff)
  also have "\<dots> \<longleftrightarrow> (\<forall>i < 16. 16 - k \<le> i \<longrightarrow> bit (of_nat n :: 16 word) i = bit (of_nat m :: 16 word) i)"
    by (auto simp: bit_eq_iff bit_simps)
  also have "\<dots> \<longleftrightarrow> (\<forall>i \<in> {15, 14, 13, 12, 11, 10, 9, 8, 7, 6, 5, 4, 3, 2, 1, 0}. 16 - k \<le> i \<longrightarrow>
      bit (of_nat n :: 16 word) i = bit (of_nat m :: 16 word) i)"
    unfolding group_index[symmetric] Ball_def by blast
  finally have eq: "masked k n = masked k m \<longleftrightarrow>
     (\<forall>i \<in> {15, 14, 13, 12, 11, 10, 9, 8, 7, 6, 5, 4, 3, 2, 1, 0}. 16 - k \<le> i \<longrightarrow>
      bit (of_nat n :: 16 word) i = bit (of_nat m :: 16 word) i)" .
  have "k \<in> {1, 2, 3, 4, 5, 6, 7, 8, 9, 10, 11, 12, 13, 14, 15}" using assms by simp presburger
  then show ?thesis unfolding eq
    by (elim insertE emptyE) (simp_all add: group_bits_def)
qed

lemma group_bits_inj:
  assumes "n < 65536" "m < 65536"
  shows "group_bits n = group_bits m \<longleftrightarrow> n = m"
proof
  assume eq: "group_bits n = group_bits m"
  have "\<forall>i \<in> {15, 14, 13, 12, 11, 10, 9, 8, 7, 6, 5, 4, 3, 2, 1, 0}.
      bit (of_nat n :: 16 word) i = bit (of_nat m :: 16 word) i"
    using eq by (simp add: group_bits_def)
  then have "(of_nat n :: 16 word) = of_nat m"
    unfolding Ball_def group_index[symmetric] by (intro bit_word_eqI) simp
  then have "unat (of_nat n :: 16 word) = unat (of_nat m :: 16 word)" by simp
  with assms show "n = m" by (simp add: unat_of_nat)
qed simp

fun mask_nums :: "nat \<Rightarrow> nat list \<Rightarrow> nat list" where
  "mask_nums bits [] = []"
| "mask_nums bits (n # ns) =
     (if bits = 0 then 0 # mask_nums 0 ns
      else if bits \<ge> 16 then n # mask_nums (bits - 16) ns
      else masked bits n # mask_nums 0 ns)"

lemma digit_char_simps:
  "digit_char 0 = CHR ''0''"
  "digit_char 1 = CHR ''1''"
  "digit_char 2 = CHR ''2''"
  "digit_char 3 = CHR ''3''"
  "digit_char 4 = CHR ''4''"
  "digit_char 5 = CHR ''5''"
  "digit_char 6 = CHR ''6''"
  "digit_char 7 = CHR ''7''"
  "digit_char 8 = CHR ''8''"
  "digit_char 9 = CHR ''9''"
  "digit_char 10 = CHR ''a''"
  "digit_char 11 = CHR ''b''"
  "digit_char 12 = CHR ''c''"
  "digit_char 13 = CHR ''d''"
  "digit_char 14 = CHR ''e''"
  "digit_char 15 = CHR ''f''"
  by code_simp+

lemma digits_small: "n < 16 \<Longrightarrow> digits_of 16 n = [digit_char n]"
  by (subst digits_of.simps) simp

lemma digits_step: "\<not> n < 16 \<Longrightarrow> digits_of 16 n = digits_of 16 (n div 16) @ [digit_char (n mod 16)]"
  by (subst digits_of.simps) simp

lemma group_text_0: "group_text 0 = ''0000''"
proof -
  have "digits_of 16 0 = ''0''" by (simp add: digits_small digit_char_simps)
  then show ?thesis by (simp add: group_text_def pad4_def padStart_def eval_nat_numeral)
qed

lemma mask_groups_text: "mask_groups bits (map group_text ns) = map group_text (mask_nums bits ns)"
  by (induction bits ns rule: mask_nums.induct) (auto simp: group_text_0 mask_group_text)

lemma mask_nums_iff:
  "length ns = length ms \<Longrightarrow> \<forall>n \<in> set ns \<union> set ms. n < 65536 \<Longrightarrow>
     mask_nums p ns = mask_nums p ms \<longleftrightarrow> take p (ipv6_bits ns) = take p (ipv6_bits ms)"
proof (induction ns ms arbitrary: p rule: list_induct2')
  case (4 n ns m ms)
  then have IH: "mask_nums q ns = mask_nums q ms \<longleftrightarrow> take q (ipv6_bits ns) = take q (ipv6_bits ms)" for q
    by simp
  from 4 have inj: "group_bits n = group_bits m \<longleftrightarrow> n = m" by (intro group_bits_inj) auto
  show ?case
  proof (cases "p = 0")
    case True
    with IH[of 0] show ?thesis by simp
  next
    case pos: False
    show ?thesis
    proof (cases "p \<ge> 16")
      case True
      then show ?thesis using IH[of "p - 16"] inj by simp
    next
      case False
      with pos IH[of 0] masked_iff[of p n m] show ?thesis by simp
    qed
  qed
qed auto

lemma split_join:
  "ws \<noteq> [] \<Longrightarrow> \<forall>w \<in> set ws. c \<notin> set w \<Longrightarrow> split_on c (join_with [c] ws) = ws"
proof (induction ws rule: induct_list012)
  case (3 x y zs)
  then show ?case by (simp add: split_on_append)
qed (auto simp: split_on_no_sep)

lemma digits_digit_chars: "set (digits_of 16 n) \<subseteq> digit_char ` {..<16}"
proof (induction n rule: less_induct)
  case (less n)
  show ?case
  proof (cases "n < 16")
    case True
    then have "digits_of 16 n = [digit_char n]" by (subst digits_of.simps) simp
    with True show ?thesis by simp
  next
    case False
    then have "digits_of 16 n = digits_of 16 (n div 16) @ [digit_char (n mod 16)]"
      by (subst digits_of.simps) simp
    with less[of "n div 16"] False show ?thesis by simp
  qed
qed

lemma group_text_chars: "c \<in> set (group_text n) \<Longrightarrow> lower_char c = c \<and> c \<noteq> CHR '':''"
proof -
  assume "c \<in> set (group_text n)"
  moreover have "CHR ''0'' = digit_char 0" by (simp add: digit_char_simps)
  ultimately have "c \<in> digit_char ` {..<16}"
    using digits_digit_chars[of n] by (auto simp: group_text_def pad4_def padStart_def)
  then obtain d where "c = digit_char d" "d < 16" by auto
  then have "of_char c = (if d < 10 then 48 + d else 87 + d)" "d < 16"
    by (simp_all add: digit_char_def)
  then show ?thesis
    by (auto simp: lower_char_def Let_def split: if_splits)
qed

lemma lower_join: "(\<And>w c. w \<in> set ws \<Longrightarrow> c \<in> set w \<Longrightarrow> lower_char c = c) \<Longrightarrow>
  toLowerCase (join_with '':'' ws) = join_with '':'' ws"
proof (induction ws rule: induct_list012)
  case (3 x y zs)
  have "toLowerCase (join_with '':'' (y # zs)) = join_with '':'' (y # zs)" using 3(3) by (intro 3(2)) auto
  moreover have "map lower_char x = x" using 3(3) by (intro map_idI) auto
  moreover have "lower_char CHR '':'' = CHR '':''" by (simp add: lower_char_def Let_def)
  ultimately show ?case by (simp add: toLowerCase_def)
qed (auto simp: toLowerCase_def intro!: map_idI)

lemma normalizeIPv6_text:
  assumes "expandIPv6 a = map group_text ns" and "p < 128"
  shows "normalizeIPv6 a (Some p) = join_with '':'' (map group_text (mask_nums (nat (max 0 p)) ns))"
  unfolding normalizeIPv6_def Let_def assms(1) option.case if_P[OF assms(2)] mask_groups_text
  by (rule lower_join) (auto dest: group_text_chars)

lemma length_mask_nums [simp]: "length (mask_nums p ns) = length ns"
  by (induction p ns rule: mask_nums.induct) auto

section \<open>Properties\<close>

text \<open>
  A CIDR match compares the leading bits: an address lies in a network exactly when both
  have the same length and agree on the first \<open>prefix\<close> bits, so addresses of different
  families never match and \<open>/0\<close> matches every address of its family.
\<close>

theorem cidr_compares_leading_bits:
  "matchesCIDR ip (net, prefix) \<longleftrightarrow>
     length ip = length net \<and> take (nat prefix) (addr_bits ip) = take (nat prefix) (addr_bits net)"
  by (auto simp: matchesCIDR_def matches_bytes_iff)

text \<open>
  Two IPv6 addresses fall into the same subnet bucket exactly when they agree on the
  first \<open>p\<close> bits: normalization neither merges different subnets nor splits one.
\<close>

theorem subnet_bucket_iff_same_prefix:
  assumes "expandIPv6 a = map group_text ns" and "expandIPv6 b = map group_text ms"
    and "length ns = 8" and "length ms = 8" and "\<forall>n \<in> set ns \<union> set ms. n < 65536"
    and "0 \<le> p" and "p < 128"
  shows "normalizeIPv6 a (Some p) = normalizeIPv6 b (Some p) \<longleftrightarrow>
     take (nat p) (ipv6_bits ns) = take (nat p) (ipv6_bits ms)"
proof -
  let ?f = "\<lambda>ns. map group_text (mask_nums (nat p) ns)"
  have "normalizeIPv6 a (Some p) = normalizeIPv6 b (Some p) \<longleftrightarrow> join_with '':'' (?f ns) = join_with '':'' (?f ms)"
    using normalizeIPv6_text[OF assms(1,7)] normalizeIPv6_text[OF assms(2,7)] assms(6) by (simp add: max_def)
  also have "\<dots> \<longleftrightarrow> ?f ns = ?f ms"
  proof
    assume eq: "join_with '':'' (?f ns) = join_with '':'' (?f ms)"
    have ne: "?f ns \<noteq> []" "?f ms \<noteq> []" using assms(3,4) by (auto simp flip: length_0_conv)
    have "?f ns = split_on CHR '':'' (join_with '':'' (?f ns))"
      by (rule split_join[OF ne(1), symmetric]) (auto dest: group_text_chars)
    also have "\<dots> = ?f ms"
      unfolding eq by (rule split_join[OF ne(2)]) (auto dest: group_text_chars)
    finally show "?f ns = ?f ms" .
  qed simp
  also have "\<dots> \<longleftrightarrow> mask_nums (nat p) ns = mask_nums (nat p) ms"
    by (simp add: inj_map_eq_map inj_def group_text_inj)
  also have "\<dots> \<longleftrightarrow> take (nat p) (ipv6_bits ns) = take (nat p) (ipv6_bits ms)"
    using assms(3-5) by (intro mask_nums_iff) auto
  finally show ?thesis .
qed

lemma demo_expand:
  "expandIPv6 ''2001:db8::1'' = map group_text [0x2001, 0xdb8, 0, 0, 0, 0, 0, 1]"
  "expandIPv6 ''2001:db8::2'' = map group_text [0x2001, 0xdb8, 0, 0, 0, 0, 0, 2]"
proof -
  have d: "digits_of 16 0x2001 = ''2001''" "digits_of 16 0xdb8 = ''db8''"
    "digits_of 16 1 = ''1''" "digits_of 16 2 = ''2''"
    by (simp_all add: digits_step digits_small digit_char_simps del: One_nat_def)
  have g: "group_text 0x2001 = ''2001''" "group_text 0xdb8 = ''0db8''" "group_text 1 = ''0001''"
    "group_text 2 = ''0002''"
    unfolding group_text_def pad4_def padStart_def d by (simp_all add: eval_nat_numeral)
  show "expandIPv6 ''2001:db8::1'' = map group_text [0x2001, 0xdb8, 0, 0, 0, 0, 0, 1]"
    unfolding list.map g group_text_0 by code_simp
  show "expandIPv6 ''2001:db8::2'' = map group_text [0x2001, 0xdb8, 0, 0, 0, 0, 0, 2]"
    unfolding list.map g group_text_0 by code_simp
qed

theorem subnet_bucket_iff_same_prefix_witness:
  "normalizeIPv6 ''2001:db8::1'' (Some 64) = normalizeIPv6 ''2001:db8::2'' (Some 64)"
  by (subst subnet_bucket_iff_same_prefix[OF demo_expand]) simp_all

lemma header_tokens_prefix: "header_tokens (x @ '','' @ v) = header_tokens x @ header_tokens v"
proof -
  have "split_on CHR '','' (x @ CHR '','' # v) = split_on CHR '','' x @ split_on CHR '','' v"
  proof (induction x)
    case (Cons c x)
    then show ?case by (cases "split_on CHR '','' x") auto
  qed simp
  then show ?thesis by (simp add: header_tokens_def)
qed

lemma walk_chain_append:
  "\<exists>h \<in> set hops. \<forall>b. ipToBytes z h = Some b \<longrightarrow> \<not> list_ex (matchesCIDR b) nets \<Longrightarrow>
     walk_chain z subnet nets (hops @ rest) = walk_chain z subnet nets hops"
  by (induction hops) (auto split: option.splits)

text \<open>
  C37. What a client writes in front of a forwarded header cannot change who it is: with a
  trusted proxy configured, once the header the proxies wrote contains a hop that is not a
  trusted proxy (or not an address), the resolved client is the same for every prefix.
\<close>

theorem forwarded_prefix_is_ignored:
  assumes "trusted_networks z (ip_trustedProxies options) \<noteq> []"
    and "\<exists>h \<in> set (header_tokens value). \<forall>b. ipToBytes z h = Some b \<longrightarrow>
       \<not> list_ex (matchesCIDR b) (trusted_networks z (ip_trustedProxies options))"
  shows "getIPFromHeader z (forged @ '','' @ value) options = getIPFromHeader z value options"
proof -
  have "header_tokens value \<noteq> []" using assms(2) by auto
  moreover have "walk_chain z s nets (rev (header_tokens value) @ rev (header_tokens forged)) =
      walk_chain z s nets (rev (header_tokens value))"
    if "nets = trusted_networks z (ip_trustedProxies options)" for s nets
    using assms(2) that by (intro walk_chain_append) simp
  ultimately show ?thesis
    using assms(1) by (simp add: getIPFromHeader_def header_tokens_prefix[unfolded append.simps] Let_def
        header_tokens_prefix)
qed

text \<open>A concrete schema: four decimal numbers below 256 are an IPv4 address.\<close>

definition demo_octet :: "string \<Rightarrow> bool" where
  "demo_octet s \<longleftrightarrow> s \<noteq> [] \<and> list_all is_digit s \<and> dec_value s < 256"

definition demo_zod :: zod where
  "demo_zod = \<lparr> isIPv4 = (\<lambda>s. length (split_on CHR ''.'' s) = 4 \<and> list_all demo_octet (split_on CHR ''.'' s)),
     isIPv6 = (\<lambda>s. str_includes s '':'') \<rparr>"

definition demo_ip :: ip_options where
  "demo_ip = \<lparr> ip_ipv6Subnet = None, ip_trustedProxies = [''10.0.0.0/8''],
     ip_disableIpTracking = False, ip_headers = None \<rparr>"

lemma demo_proxy:
  "trusted_networks demo_zod (ip_trustedProxies demo_ip) = [([10, 0, 0, 0], 8)]"
  "header_tokens ''203.0.113.7, 10.0.0.1'' = [''203.0.113.7'', ''10.0.0.1'']"
  "ipToBytes demo_zod ''203.0.113.7'' = Some [203, 0, 113, 7]"
  "getIPFromHeader demo_zod ''203.0.113.7, 10.0.0.1'' demo_ip = Some ''203.0.113.7''"
  by code_simp+

theorem forwarded_prefix_is_ignored_witness:
  "getIPFromHeader demo_zod (''10.0.0.9'' @ '','' @ ''203.0.113.7, 10.0.0.1'') demo_ip = Some ''203.0.113.7''"
proof -
  have "getIPFromHeader demo_zod (''10.0.0.9'' @ '','' @ ''203.0.113.7, 10.0.0.1'') demo_ip =
      getIPFromHeader demo_zod ''203.0.113.7, 10.0.0.1'' demo_ip"
    by (rule forwarded_prefix_is_ignored) (simp_all add: demo_proxy matchesCIDR_def)
  then show ?thesis by (simp only: demo_proxy)
qed

text \<open>
  The mapped prefix is looked for in lower case but the group compared as written: an
  upper-case mapped address is not unmapped, and every one of them shares one bucket.
\<close>

lemma mapped_address_case:
  "normalizeIP demo_zod ''::ffff:c000:0201'' None = ''192.0.2.1''"
  "normalizeIP demo_zod ''::FFFF:C000:0201'' None = ''0000:0000:0000:0000:0000:0000:0000:0000''"
  by code_simp+

end
