(* ===== verification/ApiKeyRoutes.thy ===== *)
theory ApiKeyRoutes
  imports ApiKeyVerify Ip
begin

text \<open>
  The endpoints that manage API keys: \<open>packages/api-key/src/routes/create-api-key.ts\<close>,
  \<open>update-api-key.ts\<close>, \<open>delete-api-key.ts\<close>, \<open>get-api-key.ts\<close>, the clean-up of expired keys in
  \<open>routes/index.ts\<close>, the permission check of \<open>org-authorization.ts\<close> and the metadata
  migration of \<open>adapter.ts\<close>. A request body is a property bag that passed the endpoint's
  schema; JSON texts are read and written by the parameters \<open>e_parse\<close> (\<open>safeJSONParse\<close>) and
  \<open>e_stringify\<close>, and an object value (metadata, permissions) is held as the array of its
  members. Clock readings 10 and up are the endpoints' own. Day limits are whole numbers.
\<close>

section \<open>Configuration and environment\<close>

record key_conf = apikey_opts +
  r_organization :: bool              \<comment> \<open>\<open>references === "organization"\<close>\<close>
  r_enableMetadata :: bool
  r_disableCustomExpiresTime :: bool
  r_minExpiresIn :: int
  r_maxExpiresIn :: int
  r_defaultExpiresIn :: val
  r_minimumPrefixLength :: int
  r_maximumPrefixLength :: int
  r_minimumNameLength :: int
  r_maximumNameLength :: int
  r_requireName :: bool
  r_defaultKeyLength :: int
  r_defaultPrefix :: val
  r_shouldStore :: bool
  r_charactersLength :: nat
  r_maxRequests :: val
  r_timeWindow :: val
  r_enableSessionForAPIKeys :: bool
  r_customAPIKeyGetter :: "((string \<Rightarrow> string option) \<Rightarrow> val) option"
  r_apiKeyHeaders :: "string + string list"

abbreviation base_opts :: "key_conf \<Rightarrow> apikey_opts" where
  "base_opts \<equiv> apikey_opts.truncate"

record route_env =
  e_request :: bool                   \<comment> \<open>\<open>ctx.request\<close> is set\<close>
  e_headers :: bool                   \<comment> \<open>\<open>ctx.headers\<close> is set\<close>
  e_session :: "string option"        \<comment> \<open>the user id of \<open>getSessionFromCtx\<close>\<close>
  e_orgOptions :: bool                \<comment> \<open>the organization plugin is installed\<close>
  e_hasPermission :: "val \<Rightarrow> val \<Rightarrow> string \<Rightarrow> bool res"
  e_parse :: "string \<Rightarrow> val"
  e_stringify :: "val \<Rightarrow> string"
  e_keyGenerator :: "int \<Rightarrow> val \<Rightarrow> string"
  e_defaultPermissions :: "val \<Rightarrow> val"
  e_generateId :: string

definition js_or :: "val \<Rightarrow> val \<Rightarrow> val" where
  "js_or a b = (if truthy a then a else b)"

definition is_object :: "val \<Rightarrow> bool" where
  "is_object v \<longleftrightarrow> (case v of Arr _ \<Rightarrow> True | DateV _ _ \<Rightarrow> True | Null \<Rightarrow> True | _ \<Rightarrow> False)"

text \<open>\<open>new Date(Date.now() + (unit === "sec" ? span * 1000 : span))\<close>.\<close>

definition getDate :: "clock \<Rightarrow> nat \<Rightarrow> int \<Rightarrow> bool \<Rightarrow> val" where
  "getDate clk i span in_sec =
     DateV (fst (clk i)) (now_ms clk i + (if in_sec then span * 1000 else span))"

definition num_of :: "val \<Rightarrow> int" where
  "num_of v = (case v of Num n \<Rightarrow> n | _ \<Rightarrow> 0)"

section \<open>Organization permission\<close>

definition bad_request :: "string \<Rightarrow> err" where
  "bad_request c = APIError ''BAD_REQUEST'' c"

definition unauthorized_session :: err where
  "unauthorized_session = APIError ''UNAUTHORIZED'' ''UNAUTHORIZED_SESSION''"

definition not_found_key :: err where
  "not_found_key = APIError ''NOT_FOUND'' ''KEY_NOT_FOUND''"

definition checkPermission :: "route_env \<Rightarrow> val \<Rightarrow> val \<Rightarrow> string \<Rightarrow> bool" where
  "checkPermission env role organizationId action =
     (case e_hasPermission env role organizationId action of Inl _ \<Rightarrow> False | Inr b \<Rightarrow> b)"

definition checkOrgApiKeyPermission ::
  "'s key_ctx \<Rightarrow> route_env \<Rightarrow> val \<Rightarrow> val \<Rightarrow> string \<Rightarrow> ('s kstate, row) act"
where
  "checkOrgApiKeyPermission ctx env userId organizationId requiredAction =
     (if \<not> e_orgOptions env
      then throwA (APIError ''INTERNAL_SERVER_ERROR'' ''ORGANIZATION_PLUGIN_REQUIRED'')
      else bindA (onDb (a_findOne (c_adapter ctx) ''member''
                   [wh_eq ''userId'' userId, wh_eq ''organizationId'' organizationId])) (\<lambda>member.
        case member of
          None \<Rightarrow> throwA (APIError ''FORBIDDEN'' ''USER_NOT_MEMBER_OF_ORGANIZATION'')
        | Some m \<Rightarrow>
            if checkPermission env (get_field m ''role'') organizationId requiredAction
            then returnA m
            else throwA (APIError ''FORBIDDEN'' ''INSUFFICIENT_API_KEY_PERMISSIONS'')))"

section \<open>Clean-up of expired keys\<close>

definition deleteAllExpiredApiKeys :: "'s key_ctx \<Rightarrow> bool \<Rightarrow> ('s kstate, unit) act" where
  "deleteAllExpiredApiKeys ctx byPassLastCheckTime s =
     (let clk = c_clock ctx in
      if (case k_lastChecked s of
            Some checked \<Rightarrow> \<not> byPassLastCheckTime \<and> now_ms clk 13 - checked < 10000
          | None \<Rightarrow> False)
      then (Inr (), s)
      else catchA
        (bindA (onDb (a_deleteMany (c_adapter ctx) API_KEY_TABLE_NAME
             [wh ''expiresAt'' Op_lt (date_at clk 15), wh ''expiresAt'' Op_ne Null]))
           (\<lambda>_. returnA ()))
        (\<lambda>_. returnA ())
        (s\<lparr>k_lastChecked := Some (now_ms clk 14)\<rparr>))"

section \<open>Metadata migration\<close>

definition parseDoubleStringifiedMetadata :: "(string \<Rightarrow> val) \<Rightarrow> val \<Rightarrow> val" where
  "parseDoubleStringifiedMetadata parse metadata =
     (if nullish metadata then Null
      else if is_object metadata then metadata
      else (case metadata of Str t \<Rightarrow> parse t | v \<Rightarrow> v))"

definition needsMetadataMigration :: "val \<Rightarrow> bool" where
  "needsMetadataMigration metadata \<longleftrightarrow> (case metadata of Str _ \<Rightarrow> True | _ \<Rightarrow> False)"

definition migrateDoubleStringifiedMetadata ::
  "'s key_ctx \<Rightarrow> (string \<Rightarrow> val) \<Rightarrow> row \<Rightarrow> apikey_opts \<Rightarrow> ('s kstate, val) act"
where
  "migrateDoubleStringifiedMetadata ctx parse k opts =
     (let parsed = parseDoubleStringifiedMetadata parse (get_field k ''metadata'') in
      if needsMetadataMigration (get_field k ''metadata'') \<and>
         (\<not> o_secondary opts \<or> o_fallbackToDatabase opts)
      then bindA (catchA (bindA (onDb (a_update (c_adapter ctx) API_KEY_TABLE_NAME
                     [wh_eq ''id'' (id_of k)] [(''metadata'', parsed)])) (\<lambda>_. returnA ()))
                   (\<lambda>_. returnA ()))
             (\<lambda>_. returnA parsed)
      else returnA parsed)"

section \<open>Create\<close>

definition session_user :: "route_env \<Rightarrow> val" where
  "session_user env = (case e_session env of Some u \<Rightarrow> Str u | None \<Rightarrow> Undef)"

definition isClientRequest :: "route_env \<Rightarrow> bool" where
  "isClientRequest env \<longleftrightarrow> e_request env \<or> e_headers env"

definition isUsingServerOnlyProps :: "row \<Rightarrow> bool" where
  "isUsingServerOnlyProps body \<longleftrightarrow>
     list_ex (\<lambda>f. get_field body f \<noteq> Undef)
       [''refillAmount'', ''refillInterval'', ''rateLimitMax'', ''rateLimitTimeWindow'',
        ''rateLimitEnabled'', ''permissions''] \<or>
     get_field body ''remaining'' \<noteq> Null"

definition create_reference ::
  "'s key_ctx \<Rightarrow> route_env \<Rightarrow> key_conf \<Rightarrow> row \<Rightarrow> ('s kstate, val) act"
where
  "create_reference ctx env opts body =
     (let sessionUserId = session_user env; ctxUserId = get_field body ''userId'' in
      if isClientRequest env \<and> isUsingServerOnlyProps body
        then throwA (bad_request ''SERVER_ONLY_PROPERTY'')
      else if e_request env \<and> ctxUserId \<noteq> Undef then throwA unauthorized_session
      else if r_organization opts then
        (let orgId = get_field body ''organizationId''; userId = js_or sessionUserId ctxUserId in
         if \<not> truthy orgId then throwA (bad_request ''ORGANIZATION_ID_REQUIRED'')
         else if \<not> truthy userId then throwA unauthorized_session
         else bindA (checkOrgApiKeyPermission ctx env userId orgId ''create'') (\<lambda>_. returnA orgId))
      else if isClientRequest env then
        (if \<not> truthy sessionUserId then throwA unauthorized_session else returnA sessionUserId)
      else if \<not> truthy sessionUserId \<and> \<not> truthy ctxUserId then throwA unauthorized_session
      else if e_session env \<noteq> None \<and> truthy ctxUserId \<and> sessionUserId \<noteq> ctxUserId
        then throwA unauthorized_session
      else returnA (js_or sessionUserId ctxUserId))"

definition check_metadata :: "key_conf \<Rightarrow> row \<Rightarrow> unit res" where
  "check_metadata opts body =
     (let metadata = get_field body ''metadata'' in
      if \<not> truthy metadata then Inr ()
      else if \<not> r_enableMetadata opts then Inl (bad_request ''METADATA_DISABLED'')
      else if \<not> is_object metadata then Inl (bad_request ''INVALID_METADATA_TYPE'')
      else Inr ())"

definition check_refill :: "row \<Rightarrow> unit res" where
  "check_refill body =
     (let amount = get_field body ''refillAmount''; interval = get_field body ''refillInterval'' in
      if truthy amount \<and> \<not> truthy interval
        then Inl (bad_request ''REFILL_AMOUNT_AND_INTERVAL_REQUIRED'')
      else if truthy interval \<and> \<not> truthy amount
        then Inl (bad_request ''REFILL_INTERVAL_AND_AMOUNT_REQUIRED'')
      else Inr ())"

text \<open>The comparison in days, \<open>min > expiresIn / (60 * 60 * 24)\<close>, over whole seconds.\<close>

definition expires_in_range :: "key_conf \<Rightarrow> int \<Rightarrow> unit res" where
  "expires_in_range opts n =
     (if r_minExpiresIn opts * 86400 > n then Inl (bad_request ''EXPIRES_IN_IS_TOO_SMALL'')
      else if r_maxExpiresIn opts * 86400 < n then Inl (bad_request ''EXPIRES_IN_IS_TOO_LARGE'')
      else Inr ())"

definition check_expires :: "key_conf \<Rightarrow> row \<Rightarrow> unit res" where
  "check_expires opts body =
     (let expiresIn = get_field body ''expiresIn'' in
      if \<not> truthy expiresIn then Inr ()
      else if r_disableCustomExpiresTime opts then Inl (bad_request ''KEY_DISABLED_EXPIRATION'')
      else expires_in_range opts (num_of expiresIn))"

definition length_in :: "string \<Rightarrow> int \<Rightarrow> int \<Rightarrow> val \<Rightarrow> unit res" where
  "length_in code lo hi v =
     (case v of
        Str t \<Rightarrow> if int (length t) < lo \<or> int (length t) > hi then Inl (bad_request code) else Inr ()
      | _ \<Rightarrow> Inr ())"

definition check_prefix :: "key_conf \<Rightarrow> row \<Rightarrow> unit res" where
  "check_prefix opts body =
     (if truthy (get_field body ''prefix'')
      then length_in ''INVALID_PREFIX_LENGTH'' (r_minimumPrefixLength opts)
             (r_maximumPrefixLength opts) (get_field body ''prefix'')
      else Inr ())"

definition check_name :: "key_conf \<Rightarrow> row \<Rightarrow> unit res" where
  "check_name opts body =
     (if truthy (get_field body ''name'')
      then length_in ''INVALID_NAME_LENGTH'' (r_minimumNameLength opts)
             (r_maximumNameLength opts) (get_field body ''name'')
      else if r_requireName opts then Inl (bad_request ''NAME_REQUIRED'')
      else Inr ())"

definition create_checks :: "key_conf \<Rightarrow> row \<Rightarrow> unit res" where
  "create_checks opts body =
     bindR (check_metadata opts body) (\<lambda>_.
     bindR (check_refill body) (\<lambda>_.
     bindR (check_expires opts body) (\<lambda>_.
     bindR (check_prefix opts body) (\<lambda>_. check_name opts body))))"

definition create_data ::
  "clock \<Rightarrow> route_env \<Rightarrow> key_conf \<Rightarrow> row \<Rightarrow> val \<Rightarrow> string \<Rightarrow> string \<Rightarrow> row"
where
  "create_data clk env opts body referenceId key hashed =
     (let b = get_field body; dflt = e_defaultPermissions env referenceId;
          base =
           [(''configId'', case o_configId opts of Some c \<Rightarrow> Str c | None \<Rightarrow> Str ''default''),
            (''createdAt'', date_at clk 10), (''updatedAt'', date_at clk 11),
            (''name'', coalesce (b ''name'') Null),
            (''prefix'', coalesce (b ''prefix'') (coalesce (r_defaultPrefix opts) Null)),
            (''start'', if r_shouldStore opts then Str (take (r_charactersLength opts) key) else Null),
            (''key'', Str hashed), (''enabled'', BoolV True),
            (''expiresAt'',
              if truthy (b ''expiresIn'') then getDate clk 12 (num_of (b ''expiresIn'')) True
              else if truthy (r_defaultExpiresIn opts)
                then getDate clk 12 (num_of (r_defaultExpiresIn opts)) True
              else Null),
            (''referenceId'', referenceId), (''lastRefillAt'', Null), (''lastRequest'', Null),
            (''metadata'', Null),
            (''rateLimitMax'', coalesce (b ''rateLimitMax'') (coalesce (r_maxRequests opts) Null)),
            (''rateLimitTimeWindow'',
              coalesce (b ''rateLimitTimeWindow'') (coalesce (r_timeWindow opts) Null)),
            (''remaining'',
              if b ''remaining'' = Null then Null
              else coalesce (b ''remaining'') (coalesce (b ''refillAmount'') Null)),
            (''refillAmount'', coalesce (b ''refillAmount'') Null),
            (''refillInterval'', coalesce (b ''refillInterval'') Null),
            (''rateLimitEnabled'',
              if b ''rateLimitEnabled'' = Undef then BoolV (o_rateLimitEnabled opts)
              else b ''rateLimitEnabled''),
            (''requestCount'', Num 0),
            (''permissions'',
              if truthy (b ''permissions'') then Str (e_stringify env (b ''permissions''))
              else if truthy dflt then Str (e_stringify env dflt)
              else Undef)]
      in if truthy (b ''metadata'') then set_field base ''metadata'' (b ''metadata'') else base)"

definition parsed_permissions :: "route_env \<Rightarrow> row \<Rightarrow> val" where
  "parsed_permissions env k =
     (case get_field k ''permissions'' of
        Str t \<Rightarrow> if t = [] then Null else e_parse env t
      | _ \<Rightarrow> Null)"

definition store_new_key ::
  "'s key_ctx \<Rightarrow> route_env \<Rightarrow> key_conf \<Rightarrow> row \<Rightarrow> ('s kstate, row) act"
where
  "store_new_key ctx env opts data =
     (let create = onDb (a_create (c_adapter ctx) API_KEY_TABLE_NAME data) in
      if o_secondary opts \<and> o_fallbackToDatabase opts then
        bindA create (\<lambda>k. bindA (setApiKey ctx k (base_opts opts)) (\<lambda>_. returnA k))
      else if o_secondary opts then
        (let k = set_field data ''id'' (Str (e_generateId env)) in
         bindA (setApiKey ctx k (base_opts opts)) (\<lambda>_. returnA k))
      else create)"

definition createApiKey ::
  "'s key_ctx \<Rightarrow> route_env \<Rightarrow> key_conf list \<Rightarrow> row \<Rightarrow> ('s kstate, row) act"
where
  "createApiKey ctx env confs body =
     bindA (liftR (resolveConfiguration confs (get_field body ''configId''))) (\<lambda>opts.
     bindA (create_reference ctx env opts body) (\<lambda>referenceId.
     bindA (liftR (create_checks opts body)) (\<lambda>_.
     bindA (deleteAllExpiredApiKeys ctx False) (\<lambda>_.
       let key = e_keyGenerator env (r_defaultKeyLength opts)
                   (js_or (get_field body ''prefix'') (r_defaultPrefix opts));
           hashed = (if o_disableKeyHashing opts then key else c_hash ctx key)
       in bindA (store_new_key ctx env opts
                   (create_data (c_clock ctx) env opts body referenceId key hashed)) (\<lambda>apiKey.
            returnA (object_assign apiKey
              [(''key'', Str key), (''metadata'', coalesce (get_field body ''metadata'') Null),
               (''permissions'', parsed_permissions env apiKey)]))))))"

section \<open>Get, update and delete one key\<close>

text \<open>
  The part the three endpoints share: look the key up by id, check its configuration and
  its owner.
\<close>

definition config_val :: "'o apikey_opts_scheme \<Rightarrow> val" where
  "config_val c = (case o_configId c of Some i \<Rightarrow> Str i | None \<Rightarrow> Undef)"

definition find_managed_key ::
  "'s key_ctx \<Rightarrow> route_env \<Rightarrow> key_conf list \<Rightarrow> val \<Rightarrow> string \<Rightarrow> val \<Rightarrow> string \<Rightarrow>
     ('s kstate, row \<times> key_conf) act"
where
  "find_managed_key ctx env confs configId keyId userId action =
     bindA (liftR (resolveConfiguration confs configId)) (\<lambda>lookupOpts.
     bindA (getApiKeyById ctx keyId (base_opts lookupOpts)) (\<lambda>found.
       case found of
         None \<Rightarrow> throwA not_found_key
       | Some apiKey \<Rightarrow>
           if \<not> configIdMatches (get_field apiKey ''configId'') (config_val lookupOpts)
             then throwA not_found_key
           else
             bindA (liftR (resolveConfiguration confs (get_field apiKey ''configId''))) (\<lambda>opts.
               if r_organization opts then
                 bindA (checkOrgApiKeyPermission ctx env userId (get_field apiKey ''referenceId'') action)
                   (\<lambda>_. returnA (apiKey, opts))
               else if \<not> strict_eq (get_field apiKey ''referenceId'') userId
                 then throwA not_found_key
               else returnA (apiKey, opts))))"

text \<open>\<open>const { key: _key, ...returningApiKey } = apiKey\<close> with metadata and permissions read.\<close>

definition public_key :: "route_env \<Rightarrow> row \<Rightarrow> val \<Rightarrow> row" where
  "public_key env k metadata =
     object_assign (filter (\<lambda>(f, _). f \<noteq> ''key'') k)
       [(''metadata'', metadata), (''permissions'', parsed_permissions env k)]"

definition getApiKeyEndpoint ::
  "'s key_ctx \<Rightarrow> route_env \<Rightarrow> key_conf list \<Rightarrow> val \<Rightarrow> string \<Rightarrow> val \<Rightarrow> ('s kstate, row) act"
where
  "getApiKeyEndpoint ctx env confs configId keyId userId =
     bindA (find_managed_key ctx env confs configId keyId userId ''read'') (\<lambda>(apiKey, opts).
     bindA (deleteAllExpiredApiKeys ctx False) (\<lambda>_.
     bindA (migrateDoubleStringifiedMetadata ctx (e_parse env) apiKey (base_opts opts)) (\<lambda>metadata.
       returnA (public_key env apiKey metadata))))"

definition server_only_update_fields :: "string list" where
  "server_only_update_fields =
     [''refillAmount'', ''refillInterval'', ''rateLimitMax'', ''rateLimitTimeWindow'',
      ''rateLimitEnabled'', ''remaining'', ''permissions'']"

definition update_user :: "route_env \<Rightarrow> row \<Rightarrow> val res" where
  "update_user env body =
     (let userId = (case e_session env of
                      Some u \<Rightarrow> Str u
                    | None \<Rightarrow> if isClientRequest env then Undef else get_field body ''userId'') in
      if \<not> truthy userId then Inl unauthorized_session
      else if e_session env \<noteq> None \<and> truthy (get_field body ''userId'') \<and>
              session_user env \<noteq> get_field body ''userId''
        then Inl unauthorized_session
      else if isClientRequest env \<and>
              list_ex (\<lambda>f. get_field body f \<noteq> Undef) server_only_update_fields
        then Inl (bad_request ''SERVER_ONLY_PROPERTY'')
      else Inr userId)"

text \<open>The columns to write.\<close>

definition update_expires :: "clock \<Rightarrow> key_conf \<Rightarrow> val \<Rightarrow> row res" where
  "update_expires clk opts expiresIn =
     (if expiresIn = Undef then Inr []
      else if r_disableCustomExpiresTime opts then Inl (bad_request ''KEY_DISABLED_EXPIRATION'')
      else bindR (if expiresIn \<noteq> Null then expires_in_range opts (num_of expiresIn) else Inr ()) (\<lambda>_.
        Inr [(''expiresAt'', if truthy expiresIn then getDate clk 12 (num_of expiresIn) True else Null)]))"

definition update_refill :: "val \<Rightarrow> val \<Rightarrow> row res" where
  "update_refill amount interval =
     (if amount = Undef \<and> interval = Undef then Inr []
      else if interval = Undef then Inl (bad_request ''REFILL_AMOUNT_AND_INTERVAL_REQUIRED'')
      else if amount = Undef then Inl (bad_request ''REFILL_INTERVAL_AND_AMOUNT_REQUIRED'')
      else Inr [(''refillAmount'', amount), (''refillInterval'', interval)])"

definition given :: "row \<Rightarrow> string \<Rightarrow> row" where
  "given body f = (if get_field body f = Undef then [] else [(f, get_field body f)])"

definition update_metadata :: "key_conf \<Rightarrow> row \<Rightarrow> row res" where
  "update_metadata opts body =
     (if get_field body ''metadata'' \<noteq> Undef \<and> r_enableMetadata opts
      then (if is_object (get_field body ''metadata'') then Inr (given body ''metadata'')
            else Inl (bad_request ''INVALID_METADATA_TYPE''))
      else Inr [])"

definition update_values :: "clock \<Rightarrow> route_env \<Rightarrow> key_conf \<Rightarrow> row \<Rightarrow> row res" where
  "update_values clk env opts body =
     bindR (length_in ''INVALID_NAME_LENGTH'' (r_minimumNameLength opts)
              (r_maximumNameLength opts) (get_field body ''name'')) (\<lambda>_.
     bindR (update_expires clk opts (get_field body ''expiresIn'')) (\<lambda>expires.
     bindR (update_metadata opts body) (\<lambda>metadata.
     bindR (update_refill (get_field body ''refillAmount'') (get_field body ''refillInterval'')) (\<lambda>refill.
       let newValues = given body ''name'' @ given body ''enabled'' @ expires @ metadata @
             given body ''remaining'' @ refill @ given body ''rateLimitEnabled'' @
             given body ''rateLimitTimeWindow'' @ given body ''rateLimitMax'' @
             (if get_field body ''permissions'' = Undef then []
              else [(''permissions'', Str (e_stringify env (get_field body ''permissions'')))])
       in if newValues = [] then Inl (bad_request ''NO_VALUES_TO_UPDATE'') else Inr newValues))))"

definition store_update ::
  "'s key_ctx \<Rightarrow> key_conf \<Rightarrow> row \<Rightarrow> row \<Rightarrow> ('s kstate, row) act"
where
  "store_update ctx opts apiKey newValues =
     (let upd = onDb (a_update (c_adapter ctx) API_KEY_TABLE_NAME [wh_eq ''id'' (id_of apiKey)] newValues) in
      if o_secondary opts \<and> o_fallbackToDatabase opts then
        bindA upd (\<lambda>dbUpdated. case dbUpdated of
            None \<Rightarrow> returnA apiKey
          | Some k \<Rightarrow> bindA (setApiKey ctx k (base_opts opts)) (\<lambda>_. returnA k))
      else if \<not> o_secondary opts then
        bindA upd (\<lambda>result. returnA (case result of None \<Rightarrow> apiKey | Some k \<Rightarrow> k))
      else
        (let updated = object_assign apiKey (newValues @ [(''updatedAt'', date_at (c_clock ctx) 11)]) in
         bindA (setApiKey ctx updated (base_opts opts)) (\<lambda>_. returnA updated)))"

definition internal_error :: err where
  "internal_error = APIError ''INTERNAL_SERVER_ERROR'' ''''"

definition updateApiKey ::
  "'s key_ctx \<Rightarrow> route_env \<Rightarrow> key_conf list \<Rightarrow> string \<Rightarrow> row \<Rightarrow> ('s kstate, row) act"
where
  "updateApiKey ctx env confs keyId body =
     bindA (liftR (update_user env body)) (\<lambda>userId.
     bindA (find_managed_key ctx env confs (get_field body ''configId'') keyId userId ''update'')
       (\<lambda>(apiKey, opts).
     bindA (liftR (update_values (c_clock ctx) env opts body)) (\<lambda>newValues.
     bindA (catchA (store_update ctx opts apiKey newValues) (\<lambda>_. throwA internal_error)) (\<lambda>newApiKey.
     bindA (deleteAllExpiredApiKeys ctx False) (\<lambda>_.
     bindA (migrateDoubleStringifiedMetadata ctx (e_parse env) newApiKey (base_opts opts)) (\<lambda>metadata.
       returnA (public_key env newApiKey metadata)))))))"

definition deleteApiKeyEndpoint ::
  "'s key_ctx \<Rightarrow> route_env \<Rightarrow> key_conf list \<Rightarrow> val \<Rightarrow> string \<Rightarrow> val \<Rightarrow> bool \<Rightarrow>
     ('s kstate, unit) act"
where
  "deleteApiKeyEndpoint ctx env confs configId keyId userId banned =
     (if banned then throwA (APIError ''UNAUTHORIZED'' ''USER_BANNED'')
      else bindA (find_managed_key ctx env confs configId keyId userId ''delete'') (\<lambda>(apiKey, opts).
        let delDb = onDb (a_delete (c_adapter ctx) API_KEY_TABLE_NAME [wh_eq ''id'' (id_of apiKey)]);
            task = (if o_secondary opts \<and> o_fallbackToDatabase opts
                      then bindA (deleteApiKey ctx apiKey (base_opts opts)) (\<lambda>_. delDb)
                    else if \<not> o_secondary opts then delDb
                    else deleteApiKey ctx apiKey (base_opts opts))
        in bindA (catchA task (\<lambda>_. throwA internal_error)) (\<lambda>_. deleteAllExpiredApiKeys ctx False)))"

section \<open>List\<close>

definition key_order :: "host \<Rightarrow> string \<Rightarrow> direction \<Rightarrow> row \<Rightarrow> row \<Rightarrow> int" where
  "key_order h sortBy dir a b =
     (let x = get_field a sortBy; y = get_field b sortBy; lo = (if dir = Asc then - 1 else 1) in
      if nullish x \<and> nullish y then 0
      else if nullish x then lo
      else if nullish y then - lo
      else if js_less h x y then lo
      else if js_less h y x then - lo
      else 0)"

definition named_sort :: "(string \<times> direction) option \<Rightarrow> (string \<times> direction) option" where
  "named_sort sort_by =
     (case sort_by of Some (f, dir) \<Rightarrow> if f = [] then None else Some (f, dir) | None \<Rightarrow> None)"

definition applySortingAndPagination ::
  "host \<Rightarrow> (string \<times> direction) option \<Rightarrow> int option \<Rightarrow> int option \<Rightarrow> row list \<Rightarrow> row list"
where
  "applySortingAndPagination h sort_by limit offset ks =
     paginate offset limit
       (case named_sort sort_by of
          None \<Rightarrow> ks
        | Some (f, dir) \<Rightarrow> stable_sort (key_order h f dir) ks)"

definition read_ref_list :: "string \<Rightarrow> ('s kstate, string list option) act" where
  "read_ref_list referenceId =
     bindA (sec_get (getStorageKeyByReferenceId referenceId)) (\<lambda>d.
       returnA (case d of Some (SIds ids, _) \<Rightarrow> Some ids | _ \<Rightarrow> None))"

definition keys_from_storage ::
  "'s key_ctx \<Rightarrow> string list \<Rightarrow> (string \<times> direction) option \<Rightarrow> int option \<Rightarrow> int option \<Rightarrow>
     ('s kstate, row list \<times> nat) act"
where
  "keys_from_storage ctx ids sort_by limit offset =
     bindA (mapA (getApiKeyByIdFromStorage ctx) ids) (\<lambda>results.
       let ks = map the (filter (\<lambda>k. k \<noteq> None) results)
       in returnA (applySortingAndPagination (c_host ctx) sort_by limit offset ks, length ks))"

definition list_from_database ::
  "'s key_ctx \<Rightarrow> string \<Rightarrow> (string \<times> direction) option \<Rightarrow> int option \<Rightarrow> int option \<Rightarrow>
     ('s kstate, row list \<times> nat) act"
where
  "list_from_database ctx referenceId sort_by limit offset =
     (let ws = [wh_eq ''referenceId'' (Str referenceId)] in
      bindA (onDb (a_findMany (c_adapter ctx) API_KEY_TABLE_NAME ws (named_sort sort_by) limit offset)) (\<lambda>ks.
      bindA (onDb (a_count (c_adapter ctx) API_KEY_TABLE_NAME (Some ws))) (\<lambda>total.
        returnA (ks, total))))"

definition listApiKeys ::
  "'s key_ctx \<Rightarrow> string \<Rightarrow> apikey_opts \<Rightarrow> (string \<times> direction) option \<Rightarrow> int option \<Rightarrow>
     int option \<Rightarrow> ('s kstate, row list \<times> nat) act"
where
  "listApiKeys ctx referenceId opts sort_by limit offset =
     (if \<not> o_secondary opts then list_from_database ctx referenceId sort_by limit offset
      else if o_fallbackToDatabase opts then
        bindA (if c_hasStorage ctx then read_ref_list referenceId else returnA None) (\<lambda>cached.
          case cached of
            Some (i # ids) \<Rightarrow> keys_from_storage ctx (i # ids) sort_by limit offset
          | _ \<Rightarrow>
              bindA (list_from_database ctx referenceId sort_by limit offset) (\<lambda>(dbKeys, total).
                if c_hasStorage ctx \<and> dbKeys \<noteq> [] then
                  bindA (mapA (\<lambda>k. setApiKeyInStorage ctx k (calculateTTL (now_ms (c_clock ctx) 0) k) opts)
                           dbKeys) (\<lambda>_.
                  bindA (sec_set (getStorageKeyByReferenceId referenceId)
                           (SIds (map (\<lambda>k. strField (c_host ctx) k ''id'') dbKeys)) None) (\<lambda>_.
                    returnA (dbKeys, total)))
                else returnA (dbKeys, total)))
      else if \<not> c_hasStorage ctx then returnA ([], 0)
      else bindA (read_ref_list referenceId) (\<lambda>ids.
        case ids of
          None \<Rightarrow> returnA ([], 0)
        | Some is \<Rightarrow> keys_from_storage ctx is sort_by limit offset))"

definition getStorageIdentifier :: "key_conf \<Rightarrow> string" where
  "getStorageIdentifier c =
     (if \<not> o_secondary c then ''database''
      else if o_fallbackToDatabase c then ''secondary-storage-with-fallback''
      else ''secondary-storage'')"

text \<open>The first configuration of each storage, in order; the rows of each id kept once.\<close>

fun storage_groups :: "string list \<Rightarrow> key_conf list \<Rightarrow> key_conf list" where
  "storage_groups seen [] = []"
| "storage_groups seen (c # cs) =
     (if getStorageIdentifier c \<in> set seen then storage_groups seen cs
      else c # storage_groups (getStorageIdentifier c # seen) cs)"

fun unique_ids :: "val list \<Rightarrow> row list \<Rightarrow> row list" where
  "unique_ids seen [] = []"
| "unique_ids seen (k # ks) =
     (if id_of k \<in> set seen then unique_ids seen ks
      else k # unique_ids (id_of k # seen) ks)"

definition key_config :: "key_conf list \<Rightarrow> row \<Rightarrow> key_conf option" where
  "key_config confs k =
     List.find (\<lambda>c. if isDefaultConfigId (get_field k ''configId'')
                    then isDefaultConfigId (config_val c)
                    else config_val c = get_field k ''configId'') confs"

definition owned_key :: "key_conf list \<Rightarrow> bool \<Rightarrow> string \<Rightarrow> row \<Rightarrow> bool" where
  "owned_key confs organization referenceId k \<longleftrightarrow>
     (case key_config confs k of Some c \<Rightarrow> r_organization c | None \<Rightarrow> False) = organization \<and>
     strict_eq (get_field k ''referenceId'') (Str referenceId)"

definition batchMigrateLegacyMetadata ::
  "'s key_ctx \<Rightarrow> (string \<Rightarrow> val) \<Rightarrow> row list \<Rightarrow> apikey_opts \<Rightarrow> ('s kstate, unit) act"
where
  "batchMigrateLegacyMetadata ctx parse ks opts =
     (if o_secondary opts \<and> \<not> o_fallbackToDatabase opts then returnA ()
      else bindA (mapA (\<lambda>k. catchA (bindA (onDb (a_update (c_adapter ctx) API_KEY_TABLE_NAME
                     [wh_eq ''id'' (id_of k)]
                     [(''metadata'', parseDoubleStringifiedMetadata parse (get_field k ''metadata''))]))
                     (\<lambda>_. returnA ())) (\<lambda>_. returnA ()))
                 (filter (\<lambda>k. needsMetadataMigration (get_field k ''metadata'')) ks))
             (\<lambda>_. returnA ()))"

definition listed_keys ::
  "'s key_ctx \<Rightarrow> key_conf list \<Rightarrow> val \<Rightarrow> string \<Rightarrow> (string \<times> direction) option \<Rightarrow> ('s kstate, row list) act"
where
  "listed_keys ctx confs configId referenceId sort_by =
     (if truthy configId then
        bindA (liftR (resolveConfiguration confs configId)) (\<lambda>opts.
        bindA (listApiKeys ctx referenceId (base_opts opts) sort_by None None) (\<lambda>(ks, _). returnA ks))
      else
        bindA (mapA (\<lambda>opts. listApiKeys ctx referenceId (base_opts opts) sort_by None None)
                 (storage_groups [] confs)) (\<lambda>results.
          returnA (unique_ids [] (concat (map fst results)))))"

definition listApiKeysEndpoint ::
  "'s key_ctx \<Rightarrow> route_env \<Rightarrow> key_conf list \<Rightarrow> val \<Rightarrow> string option \<Rightarrow> string \<Rightarrow>
     (string \<times> direction) option \<Rightarrow> int option \<Rightarrow> int option \<Rightarrow> ('s kstate, row list \<times> nat) act"
where
  "listApiKeysEndpoint ctx env confs configId organizationId userId sort_by limit offset =
     (let isOrg = (case organizationId of Some g \<Rightarrow> g \<noteq> [] | None \<Rightarrow> False);
          referenceId = (case organizationId of Some g \<Rightarrow> g | None \<Rightarrow> userId) in
      bindA (if isOrg
             then bindA (checkOrgApiKeyPermission ctx env (Str userId) (Str referenceId) ''read'')
                    (\<lambda>_. returnA ())
             else returnA ()) (\<lambda>_.
      bindA (listed_keys ctx confs configId referenceId sort_by) (\<lambda>allApiKeys.
        let owned = filter (owned_key confs isOrg referenceId) allApiKeys;
            filtered = (if truthy configId
                        then filter (\<lambda>k. configIdMatches (get_field k ''configId'') configId) owned
                        else owned);
            page = paginate offset limit filtered
        in bindA (deleteAllExpiredApiKeys ctx False) (\<lambda>_.
           bindA (case List.find (\<lambda>c. \<not> o_secondary c \<or> o_fallbackToDatabase c) confs of
                    None \<Rightarrow> returnA ()
                  | Some c \<Rightarrow> batchMigrateLegacyMetadata ctx (e_parse env) page (base_opts c)) (\<lambda>_.
             returnA (map (\<lambda>k. public_key env k
                 (parseDoubleStringifiedMetadata (e_parse env) (get_field k ''metadata''))) page,
               length filtered))))))"

section \<open>Verify endpoint\<close>

datatype verify_response = NotValid string | Valid row

text \<open>What the \<open>catch\<close> of \<open>verifyApiKey\<close> answers; a run out of fuel has no answer.\<close>

definition verify_failure :: "err \<Rightarrow> ('s, verify_response) act" where
  "verify_failure e =
     (case e of
        APIError _ code \<Rightarrow> returnA (NotValid code)
      | OutOfFuel \<Rightarrow> throwA OutOfFuel
      | _ \<Rightarrow> returnA (NotValid ''INVALID_API_KEY''))"

definition verified_key ::
  "'s key_ctx \<Rightarrow> route_env \<Rightarrow> row \<Rightarrow> apikey_opts \<Rightarrow> ('s kstate, verify_response) act"
where
  "verified_key ctx env k opts =
     bindA (migrateDoubleStringifiedMetadata ctx (e_parse env) k opts) (\<lambda>metadata.
       returnA (Valid (public_key env k metadata)))"

definition verifyApiKey ::
  "nat \<Rightarrow> 's key_ctx \<Rightarrow> route_env \<Rightarrow> (string \<Rightarrow> statements option) \<Rightarrow> apikey_opts list \<Rightarrow>
     string option \<Rightarrow> string \<Rightarrow> (string \<times> request_value) list option \<Rightarrow> ('s kstate, verify_response) act"
where
  "verifyApiKey fuel ctx env parse confs configId key permissions =
     bindA (liftR (resolveConfiguration confs (case configId of Some c \<Rightarrow> Str c | None \<Rightarrow> Undef)))
       (\<lambda>lookupOpts.
       if configId \<noteq> None \<and>
          (case o_customAPIKeyValidator lookupOpts of Some f \<Rightarrow> \<not> f key | None \<Rightarrow> False)
       then returnA (NotValid ''KEY_NOT_FOUND'')
       else (\<lambda>s. case bindA (validateApiKey fuel ctx parse confs lookupOpts key permissions configId
                               (configId = None)) (\<lambda>(k, opts).
                         bindA (if o_deferUpdates opts then deleteAllExpiredApiKeys ctx False
                                else returnA ()) (\<lambda>_. returnA (k, opts))) s of
                  (Inl e, t) \<Rightarrow> verify_failure e t
                | (Inr (k, opts), t) \<Rightarrow> verified_key ctx env k opts t))"

section \<open>A session from an API key\<close>

text \<open>\<open>headers\<close> is \<open>ctx.headers?.get\<close>; a configured getter is a function of it.\<close>

fun first_header :: "(string \<Rightarrow> string option) \<Rightarrow> string list \<Rightarrow> val" where
  "first_header headers [] = Null"
| "first_header headers (h # hs) =
     (case headers h of
        Some v \<Rightarrow> if v \<noteq> [] then Str v else first_header headers hs
      | None \<Rightarrow> first_header headers hs)"

definition getApiKeyFromConfig :: "(string \<Rightarrow> string option) \<Rightarrow> key_conf \<Rightarrow> val" where
  "getApiKeyFromConfig headers config =
     (case r_customAPIKeyGetter config of
        Some getter \<Rightarrow> getter headers
      | None \<Rightarrow>
          (case r_apiKeyHeaders config of
             Inr hs \<Rightarrow> first_header headers hs
           | Inl h \<Rightarrow> (case headers h of Some v \<Rightarrow> Str v | None \<Rightarrow> Null)))"

fun findApiKeyAndConfig :: "(string \<Rightarrow> string option) \<Rightarrow> key_conf list \<Rightarrow> (val \<times> key_conf) option" where
  "findApiKeyAndConfig headers [] = None"
| "findApiKeyAndConfig headers (c # cs) =
     (if \<not> r_enableSessionForAPIKeys c then findApiKeyAndConfig headers cs
      else if truthy (getApiKeyFromConfig headers c) then Some (getApiKeyFromConfig headers c, c)
      else findApiKeyAndConfig headers cs)"

text \<open>
  What is known of the caller: the address options, whether the process runs as test or
  development, and the headers of \<open>ctx.request\<close> when there is one.
\<close>

record caller =
  cl_zod :: zod
  cl_ip :: ip_options
  cl_local :: bool
  cl_request :: "(string \<Rightarrow> string option) option"

definition user_agent :: "caller \<Rightarrow> val" where
  "user_agent cl =
     (case cl_request cl of
        Some h \<Rightarrow> (case h ''user-agent'' of Some a \<Rightarrow> Str a | None \<Rightarrow> Null)
      | None \<Rightarrow> Null)"

definition ip_address :: "caller \<Rightarrow> val" where
  "ip_address cl =
     (case cl_request cl of
        Some h \<Rightarrow> (case getIP (cl_zod cl) h (cl_ip cl) (cl_local cl) of Some ip \<Rightarrow> Str ip | None \<Rightarrow> Null)
      | None \<Rightarrow> Null)"

text \<open>
  The session built for a validated key: \<open>expiresIn\<close> is the configured session length in
  seconds, when set. Clock reading 12 is the \<open>Date.now()\<close> of \<open>getDate\<close>.
\<close>

definition mock_session :: "clock \<Rightarrow> caller \<Rightarrow> int option \<Rightarrow> string \<Rightarrow> row \<Rightarrow> row" where
  "mock_session clk cl expiresIn key apiKey =
     [(''id'', id_of apiKey), (''token'', Str key), (''userId'', get_field apiKey ''referenceId''),
      (''userAgent'', user_agent cl), (''ipAddress'', ip_address cl),
      (''createdAt'', date_at clk 10), (''updatedAt'', date_at clk 11),
      (''expiresAt'', js_or (get_field apiKey ''expiresAt'')
         (getDate clk 12 (case expiresIn of Some n \<Rightarrow> if n = 0 then 604800 else n | None \<Rightarrow> 604800) False))]"

definition api_key_session ::
  "nat \<Rightarrow> 's key_ctx \<Rightarrow> caller \<Rightarrow> (string \<Rightarrow> string option) \<Rightarrow> (string \<Rightarrow> statements option) \<Rightarrow> key_conf list \<Rightarrow>
     int option \<Rightarrow> ('s kstate, (row \<times> row) option) act"
where
  "api_key_session fuel ctx cl headers parse confs expiresIn =
     (case findApiKeyAndConfig headers confs of
        None \<Rightarrow> returnA None
      | Some (key_v, config) \<Rightarrow>
          (case key_v of
             Str key \<Rightarrow>
               (if int (length key) < r_defaultKeyLength config
                  then throwA (APIError ''FORBIDDEN'' ''INVALID_API_KEY'')
                else if (case o_customAPIKeyValidator config of Some f \<Rightarrow> \<not> f key | None \<Rightarrow> False)
                  then throwA (APIError ''FORBIDDEN'' ''INVALID_API_KEY'')
                else bindA (validateApiKey fuel ctx parse (map base_opts confs) (base_opts config) key
                              None (o_configId config) False) (\<lambda>(apiKey, _).
                     bindA (deleteAllExpiredApiKeys ctx False) (\<lambda>_.
                       if r_organization config
                         then throwA (APIError ''UNAUTHORIZED'' ''INVALID_REFERENCE_ID_FROM_API_KEY'')
                       else bindA (onDb (a_findOne (c_adapter ctx) ''user''
                                     [wh_eq ''id'' (get_field apiKey ''referenceId'')])) (\<lambda>user.
                         case user of
                           None \<Rightarrow> throwA (APIError ''UNAUTHORIZED'' ''INVALID_REFERENCE_ID_FROM_API_KEY'')
                         | Some u \<Rightarrow> returnA (Some (u, mock_session (c_clock ctx) cl expiresIn key apiKey))))))
           | _ \<Rightarrow> throwA (bad_request ''INVALID_API_KEY_GETTER_RETURN_TYPE'')))"

end
