(* ===== verification/ApiKeyUsage.thy ===== *)
theory ApiKeyUsage
  imports ApiKeyVerify
begin

text \<open>
  Concurrent verifications of an API key against the database
  (\<open>claimUsageInDatabase\<close>, \<open>consumeRemaining\<close>, \<open>consumeRateLimit\<close> of
  \<open>packages/api-key/src/routes/verify-api-key.ts\<close>): the interleaving of their guarded
  writes, the accounting invariant, that one verification is a sequence of such writes,
  and how many rounds the rate limit takes.
\<close>

section \<open>Concurrent verifications of one key\<close>

text \<open>
  What concurrent \<open>verifyApiKey\<close> requests do to the table of keys is a sequence of the
  guarded single-row writes of \<open>claimUsageInDatabase\<close>, each atomic, in any order and with
  any snapshot rows, clock readings and windows. The ghost counters of \<open>usage\<close> count the
  requests granted by a won write on the watched key: all of them (\<open>u_granted\<close>) against
  the quota handed out so far (\<open>u_quota\<close>, raised by a won refill to what was granted plus
  the refill), and those since its rate-limit window was last opened (\<open>u_window\<close>).
\<close>

record 's usage =
  u_store :: 's
  u_granted :: int
  u_quota :: int
  u_window :: int

inductive verify_step ::
  "'s adapter \<Rightarrow> string \<Rightarrow> int \<Rightarrow> 's usage \<Rightarrow> 's usage \<Rightarrow> bool"
  for A :: "'s adapter" and i :: string and M :: int
where
  quota: "decrement_op A k (u_store u) = (Inr x, t) \<Longrightarrow>
     verify_step A i M u (u\<lparr>u_store := t,
       u_granted := u_granted u + (if x \<noteq> None \<and> id_of k = Str i then 1 else 0)\<rparr>)"
| refilled: "refill_op A h now k (u_store u) = (Inr x, t) \<Longrightarrow>
     (id_of k = Str i \<Longrightarrow> get_field k ''refillAmount'' = Num a \<and> 1 \<le> a) \<Longrightarrow>
     verify_step A i M u (u\<lparr>u_store := t,
       u_granted := u_granted u + (if x \<noteq> None \<and> id_of k = Str i then 1 else 0),
       u_quota := (if x \<noteq> None \<and> id_of k = Str i then u_granted u + a else u_quota u)\<rparr>)"
| stamped: "a_update A API_KEY_TABLE_NAME [wh_eq ''id'' v] [(f, now)] (u_store u) = (Inr y, t) \<Longrightarrow>
     f \<in> {''lastRequest'', ''updatedAt''} \<Longrightarrow>
     verify_step A i M u (u\<lparr>u_store := t\<rparr>)"
| count: "increment_op A k now (Num M') windowStart (u_store u) = (Inr x, t) \<Longrightarrow>
     (id_of k = Str i \<Longrightarrow> M' = M) \<Longrightarrow> 
     verify_step A i M u (u\<lparr>u_store := t,
       u_window := u_window u + (if x \<noteq> None \<and> id_of k = Str i then 1 else 0)\<rparr>)"
| opened: "open_window_op A k now g (u_store u) = (Inr x, t) \<Longrightarrow> simple_clause g \<Longrightarrow>
     verify_step A i M u (u\<lparr>u_store := t,
       u_window := (if x \<noteq> None \<and> id_of k = Str i then 1 else u_window u)\<rparr>)"

inductive verify_steps ::
  "'s adapter \<Rightarrow> string \<Rightarrow> int \<Rightarrow> 's usage \<Rightarrow> 's usage \<Rightarrow> bool"
  for A :: "'s adapter" and i :: string and M :: int
where
  none: "verify_steps A i M u u"
| more: "verify_steps A i M u v \<Longrightarrow> verify_step A i M v w \<Longrightarrow> verify_steps A i M u w"

text \<open>A key row with the given counters.\<close>

definition key_counters :: "int \<Rightarrow> int \<Rightarrow> row \<Rightarrow> bool" where
  "key_counters n c r \<longleftrightarrow>
     get_field r ''remaining'' = Num n \<and> get_field r ''requestCount'' = Num c"

text \<open>
  The invariant of the concurrent system: the quota left plus the requests granted is the
  quota handed out, and the row's request count is the number granted in the window, at most \<open>M\<close>.
\<close>

definition usage_inv ::
  "('s \<Rightarrow> bool) \<Rightarrow> ('s \<Rightarrow> string \<Rightarrow> row list) \<Rightarrow> string \<Rightarrow> int \<Rightarrow> 's usage \<Rightarrow> bool"
where
  "usage_inv ok rows i M u \<longleftrightarrow> ok (u_store u) \<and>
     (\<exists>q n c. rows_with_id i (rows (u_store u) API_KEY_TABLE_NAME) = [q] \<and> key_counters n c q \<and>
        get_field q ''rateLimitMax'' = Num M \<and>
        0 \<le> n \<and> n + u_granted u = u_quota u \<and> c = u_window u \<and> c \<le> M)"

context where_store
begin

lemma verify_step_inv:
  assumes "verify_step A i M u v" and inv: "usage_inv ok rows i M u" and M: "1 \<le> M"
  shows "usage_inv ok rows i M v"
proof -
  from inv obtain q n c where ok: "ok (u_store u)"
    and q: "rows_with_id i (rows (u_store u) API_KEY_TABLE_NAME) = [q]"
    and qc: "key_counters n c q" "get_field q ''rateLimitMax'' = Num M" "0 \<le> n"
      "n + u_granted u = u_quota u" "c = u_window u" "c \<le> M"
    by (auto simp: usage_inv_def)
  from assms(1) show ?thesis
  proof cases
    case (quota k x t)
    have okt: "ok t" using increment_frame[OF ok quota(2)[unfolded decrement_op_def]] by simp
    show ?thesis
    proof (cases x)
      case None
      with quota increment_none[OF ok] have "t = u_store u" by (auto simp: decrement_op_def)
      with None quota(1) inv show ?thesis by (auto simp: usage_inv_def)
    next
      case (Some r)
      note w = guarded_row_write[OF ok quota(2)[unfolded decrement_op_def Some] _ _ q]
      from w qc okt quota(1) Some show ?thesis
        by (auto simp: usage_inv_def key_counters_def row_simps)
    qed
  next
    case (refilled h' now k x t a)
    have okt: "ok t" using increment_frame[OF ok refilled(2)[unfolded refill_op_def]] by simp
    show ?thesis
    proof (cases x)
      case None
      with refilled increment_none[OF ok] have "t = u_store u" by (auto simp: refill_op_def)
      with None refilled(1) inv show ?thesis by (auto simp: usage_inv_def)
    next
      case (Some r)
      note w = guarded_row_write[OF ok refilled(2)[unfolded refill_op_def Some] _ _ q]
      from w qc okt refilled(1,3) Some show ?thesis
        by (auto simp: usage_inv_def key_counters_def row_simps minus_one_def)
    qed
  next
    case (stamped w f now y t)
    have okt: "ok t" using update_frame[OF ok stamped(2)] by simp
    show ?thesis
    proof (cases y)
      case None
      with stamped update_none[OF ok] have "t = u_store u" by auto
      with stamped(1) inv show ?thesis by (auto simp: usage_inv_def)
    next
      case (Some r)
      from rows_with_id_stamp[OF ok stamped(2)[unfolded Some] _ q] stamped(3)
      obtain q' where "rows_with_id i (rows t API_KEY_TABLE_NAME) = [q']"
        and "q' = q \<or> q' = object_assign q [(f, now)]" by auto
      with qc okt stamped(1,3) show ?thesis
        by (auto simp: usage_inv_def key_counters_def row_simps)
    qed
  next
    case (count k now M' windowStart x t)
    have okt: "ok t" using increment_frame[OF ok count(2)[unfolded increment_op_def]] by simp
    show ?thesis
    proof (cases x)
      case None
      with count increment_none[OF ok] have "t = u_store u" by (auto simp: increment_op_def)
      with None count(1) inv show ?thesis by (auto simp: usage_inv_def)
    next
      case (Some r)
      note w = guarded_row_write[OF ok count(2)[unfolded increment_op_def Some] _ _ q]
      from w qc okt count(1,3) Some show ?thesis
        by (auto simp: usage_inv_def key_counters_def row_simps)
    qed
  next
    case (opened k now g x t)
    have okt: "ok t" using increment_frame[OF ok opened(2)[unfolded open_window_op_def]] by simp
    show ?thesis
    proof (cases x)
      case None
      with opened increment_none[OF ok] have "t = u_store u" by (auto simp: open_window_op_def)
      with None opened(1) inv show ?thesis by (auto simp: usage_inv_def)
    next
      case (Some r)
      note w = guarded_row_write[OF ok opened(2)[unfolded open_window_op_def Some] _ _ q]
      from w qc okt opened(1,3) Some M show ?thesis
        by (auto simp: usage_inv_def key_counters_def row_simps)
    qed
  qed
qed

lemma verify_steps_inv:
  assumes "verify_steps A i M u v" and "usage_inv ok rows i M u" and "1 \<le> M"
  shows "usage_inv ok rows i M v"
  using assms by (induction rule: verify_steps.induct) (blast intro: verify_step_inv)+

end

section \<open>One verification as accounted writes\<close>

lemma verify_steps_trans:
  "verify_steps A i M v w \<Longrightarrow> verify_steps A i M u v \<Longrightarrow> verify_steps A i M u w"
  by (induction rule: verify_steps.induct) (auto intro: verify_steps.intros)

lemma verify_steps_one: "verify_step A i M u v \<Longrightarrow> verify_steps A i M u v"
  by (blast intro: verify_steps.intros)

lemma usage_same_store [simp]: "u\<lparr>u_store := u_store u\<rparr> = u"
  by simp

lemma Increment_max:
  "evaluateRateLimit h clk k opts = Increment now mx ws \<Longrightarrow> mx = get_field k ''rateLimitMax''"
  by (auto simp: evaluateRateLimit_def Let_def split: if_splits val.splits)

definition rate_goal :: "'s adapter \<Rightarrow> string \<Rightarrow> int \<Rightarrow> 's usage \<Rightarrow> 's \<Rightarrow> bool" where
  "rate_goal A i M u t \<longleftrightarrow> (\<exists>v. verify_steps A i M u v \<and> u_store v = t \<and> u_granted v = u_granted u)"

context where_store
begin

lemma watched_row:
  assumes "usage_inv ok rows i M u" and "r \<in> set (rows (u_store u) API_KEY_TABLE_NAME)"
    and "id_of r = Str i"
  shows "get_field r ''rateLimitMax'' = Num M"
proof -
  from assms(1) obtain q where q: "rows_with_id i (rows (u_store u) API_KEY_TABLE_NAME) = [q]"
    and "get_field q ''rateLimitMax'' = Num M" by (auto simp: usage_inv_def)
  moreover have "r \<in> set (rows_with_id i (rows (u_store u) API_KEY_TABLE_NAME))"
    using assms(2,3) by (simp add: rows_with_id_def id_of_def)
  ultimately show ?thesis by simp
qed

lemma won_write_row:
  assumes "ok s" and "a_incrementOne A m (wh_eq ''id'' (Str i) # g) inc up s = (Inr (Some q), t)"
    and "list_all simple_clause g"
    and "\<And>r. get_field (apply_set up (apply_increment inc r)) ''id'' = get_field r ''id''"
  shows "q \<in> set (rows t m) \<and> id_of q = Str i"
  by (rule increment_by_id[OF assms(1-3)]) (use assms(4) in \<open>auto simp: id_of_def\<close>)

text \<open>One run of \<open>consumeRemaining\<close> is a sequence of accounted writes.\<close>

lemma decrement_steps:
  assumes ok: "ok (u_store u)" and ki: "id_of k = Str i"
    and run: "decrement_remaining A k (u_store u) = (r, t)"
  shows "\<exists>v. verify_steps A i M u v \<and> u_store v = t \<and> u_window v = u_window u \<and>
     u_granted v = u_granted u + (if isl r then 0 else 1) \<and>
     (\<forall>q. r = Inr q \<longrightarrow> q \<in> set (rows t API_KEY_TABLE_NAME) \<and> id_of q = Str i)"
proof -
  obtain x t' where d: "decrement_op A k (u_store u) = (x, t')" by force
  show ?thesis
  proof (cases x)
    case (Inl e)
    have "t' = u_store u" using increment_error[OF ok d[unfolded decrement_op_def Inl]] .
    with Inl d run have "r = Inl e" "t = u_store u" by (auto simp: decrement_remaining_def bindA_def)
    then show ?thesis by (intro exI[of _ u]) (auto intro: verify_steps.intros)
  next
    case (Inr y)
    have st: "t' = t" and r: "r = (case y of None \<Rightarrow> Inl USAGE_EXCEEDED | Some q \<Rightarrow> Inr q)"
      using run d Inr by (auto simp: decrement_remaining_def bindA_def split: option.splits)
    note step = verify_steps_one[OF verify_step.quota[of A k u y t i M]]
    have row: "y = Some q \<Longrightarrow> q \<in> set (rows t API_KEY_TABLE_NAME) \<and> id_of q = Str i" for q
      using d Inr won_write_row[OF ok] by (auto simp: decrement_op_def ki st row_simps)
    show ?thesis
      by (rule exI, rule conjI, rule step)
         (use d Inr r row ki st in \<open>auto split: option.splits\<close>)
  qed
qed

lemma consumeRemaining_steps:
  assumes ok: "ok (u_store u)" and ki: "id_of k = Str i"
    and am: "refill_due h (now_ms clk 1) k \<Longrightarrow> \<exists>a. get_field k ''refillAmount'' = Num a \<and> 1 \<le> a"
    and run: "consumeRemaining A h clk k (u_store u) = (r, t)"
  shows "\<exists>v. verify_steps A i M u v \<and> u_store v = t \<and> u_window v = u_window u \<and>
     u_granted v = u_granted u + (if isl r then 0 else 1) \<and>
     (\<forall>q. r = Inr q \<longrightarrow> q \<in> set (rows t API_KEY_TABLE_NAME) \<and> id_of q = Str i)"
proof (cases "refill_due h (now_ms clk 1) k")
  case False
  with run have "decrement_remaining A k (u_store u) = (r, t)" by (simp add: consumeRemaining_def)
  from decrement_steps[OF ok ki this] show ?thesis .
next
  case True
  obtain a where a: "get_field k ''refillAmount'' = Num a" "1 \<le> a" using am[OF True] by blast
  obtain x t' where d: "refill_op A h (date_at clk 1) k (u_store u) = (x, t')" by force
  note run' = run[unfolded consumeRemaining_def if_P[OF True]]
  show ?thesis
  proof (cases x)
    case (Inl e)
    have "t' = u_store u" using increment_error[OF ok d[unfolded refill_op_def Inl]] .
    with Inl d run' have "r = Inl e" "t = u_store u" by (auto simp: bindA_def)
    then show ?thesis by (intro exI[of _ u]) (auto intro: verify_steps.intros)
  next
    case (Inr y)
    show ?thesis
    proof (cases y)
      case None
      have "t' = u_store u"
        using increment_none[OF ok d[unfolded refill_op_def Inr None]] by simp
      with d Inr None run' have "decrement_remaining A k (u_store u) = (r, t)"
        by (simp add: bindA_def)
      from decrement_steps[OF ok ki this] show ?thesis .
    next
      case (Some q)
      with d Inr run' have r: "r = Inr q" and t: "t' = t" by (auto simp: bindA_def)
      have row: "q \<in> set (rows t API_KEY_TABLE_NAME) \<and> id_of q = Str i"
        using d Inr Some won_write_row[OF ok] by (auto simp: refill_op_def ki t row_simps)
      note step = verify_steps_one[OF verify_step.refilled[of A h "date_at clk 1" k u y t i a M]]
      show ?thesis
        by (rule exI, rule conjI, rule step) (use d Inr Some r t row ki a in auto)
    qed
  qed
qed

text \<open>One run of \<open>consumeRateLimit\<close>, with all its retries, is a sequence of accounted writes.\<close>

lemma update_outcome:
  assumes ok: "ok (u_store u)" and f: "f \<in> {''lastRequest'', ''updatedAt''}"
    and up: "a_update A API_KEY_TABLE_NAME [wh_eq ''id'' w] [(f, v)] (u_store u) = (x, t)"
  shows "verify_steps A i M u (u\<lparr>u_store := t\<rparr>)"
proof (cases x)
  case (Inl e)
  with update_error[OF ok] up have "t = u_store u" by blast
  then show ?thesis by (simp add: verify_steps.none)
next
  case (Inr y)
  with up f show ?thesis by (blast intro: verify_steps_one verify_step.stamped)
qed

lemma rate_goal_more:
  "verify_steps A i M u w \<Longrightarrow> u_granted w = u_granted u \<Longrightarrow> rate_goal A i M w t \<Longrightarrow> rate_goal A i M u t"
  unfolding rate_goal_def by (auto intro: verify_steps_trans)

lemma retry_steps:
  assumes inv: "usage_inv ok rows i M u"
    and run: "bindA (a_findOne A API_KEY_TABLE_NAME [wh_eq ''id'' (Str i)]) (\<lambda>fresh.
        case fresh of None \<Rightarrow> throwA INVALID_API_KEY | Some r \<Rightarrow> g r) (u_store u) = (x, t)"
    and g: "\<And>q y t'. id_of q = Str i \<Longrightarrow> get_field q ''rateLimitMax'' = Num M \<Longrightarrow>
        g q (u_store u) = (y, t') \<Longrightarrow> rate_goal A i M u t'"
  shows "rate_goal A i M u t"
proof -
  have ok: "ok (u_store u)" using inv by (simp add: usage_inv_def)
  obtain y t' where f: "a_findOne A API_KEY_TABLE_NAME [wh_eq ''id'' (Str i)] (u_store u) = (y, t')" by force
  note pure = findOne_pure[OF ok f]
  have stay: "t = u_store u \<Longrightarrow> rate_goal A i M u t"
    unfolding rate_goal_def by (auto intro: verify_steps.none)
  show ?thesis
  proof (cases "\<exists>q. y = Inr (Some q)")
    case False
    with run f pure have "t = u_store u"
      by (cases y) (auto simp: bindA_def split: option.splits)
    with stay show ?thesis .
  next
    case True
    then obtain q where y: "y = Inr (Some q)" by blast
    with pure have q: "q \<in> set (rows (u_store u) API_KEY_TABLE_NAME)" "id_of q = Str i"
      by (simp_all add: id_of_def)
    from run f y pure have "g q (u_store u) = (x, t)" by (simp add: bindA_def)
    with g[OF q(2) watched_row[OF inv q]] show ?thesis by blast
  qed
qed

lemma guarded_round:
  assumes inv: "usage_inv ok rows i M u"
    and opr: "op (u_store u) = (y, t')"
    and err: "\<And>e. y = Inl e \<Longrightarrow> t' = u_store u" and none: "y = Inr None \<Longrightarrow> t' = u_store u"
    and step: "\<And>z. y = Inr z \<Longrightarrow> \<exists>v. verify_step A i M u v \<and> u_store v = t' \<and> u_granted v = u_granted u"
    and run: "bindA op (\<lambda>z. case z of Some q \<Rightarrow> returnA q | None \<Rightarrow> retry) (u_store u) = (x, t)"
    and retry: "\<And>x t. retry (u_store u) = (x, t) \<Longrightarrow> rate_goal A i M u t"
  shows "rate_goal A i M u t"
proof (cases y)
  case (Inl e)
  with opr run err have "t = u_store u" by (auto simp: bindA_def)
  then show ?thesis unfolding rate_goal_def by (auto intro: verify_steps.none)
next
  case (Inr z)
  show ?thesis
  proof (cases z)
    case None
    with Inr opr run none have "retry (u_store u) = (x, t)" by (auto simp: bindA_def)
    then show ?thesis by (rule retry)
  next
    case (Some q)
    with Inr opr run have "t = t'" by (auto simp: bindA_def)
    with step[OF Inr] show ?thesis unfolding rate_goal_def by (blast intro: verify_steps_one)
  qed
qed

lemma consumeRateLimit_steps:
  assumes inv: "usage_inv ok rows i M u"
  shows "id_of k = Str i \<Longrightarrow> get_field k ''rateLimitMax'' = Num M \<Longrightarrow>
    consumeRateLimit f j A h clk k opts (u_store u) = (x, t) \<Longrightarrow> rate_goal A i M u t"
proof (induction f arbitrary: j k x t)
  case 0
  then show ?case unfolding rate_goal_def by (auto intro: verify_steps.none)
next
  case (Suc f)
  note ki = Suc.prems(1)
  have ok: "ok (u_store u)" using inv by (simp add: usage_inv_def)
  have stay: "t = u_store u \<Longrightarrow> rate_goal A i M u t" for x t
    unfolding rate_goal_def by (auto intro: verify_steps.none)
  define retry where "retry = bindA (a_findOne A API_KEY_TABLE_NAME [wh_eq ''id'' (id_of k)]) (\<lambda>fresh.
     case fresh of None \<Rightarrow> throwA INVALID_API_KEY
       | Some r \<Rightarrow> consumeRateLimit f (Suc j) A h clk r opts)"
  have retry: "rate_goal A i M u t" if "retry (u_store u) = (x, t)" for x t
    by (rule retry_steps[OF inv that[unfolded retry_def ki]]) (rule Suc.IH)
  note round = consumeRateLimit.simps(2) Let_def RateLimitDecision.simps retry_def[symmetric]
  show ?case
  proof (cases "evaluateRateLimit h (clk j) k opts")
    case (Deny msg s)
    with Suc.prems show ?thesis by (intro stay) simp
  next
    case (Skip s)
    show ?thesis
    proof (cases s)
      case None
      with Skip Suc.prems show ?thesis by (intro stay) simp
    next
      case (Some now)
      obtain y t' where up: "a_update A API_KEY_TABLE_NAME [wh_eq ''id'' (id_of k)]
          [(''lastRequest'', now)] (u_store u) = (y, t')" by force
      with Skip Some Suc.prems have "t' = t"
        by (cases y) (auto simp: bindA_def)
      with update_outcome[OF ok _ up] show ?thesis unfolding rate_goal_def by fastforce
    qed
  next
    case (Increment now mx ws)
    have mx: "mx = Num M" using Increment_max[OF Increment] Suc.prems(2) by simp
    obtain y t' where o: "increment_op A k now mx ws (u_store u) = (y, t')" by force
    show ?thesis
    proof (rule guarded_round[OF inv o _ _ _ Suc.prems(3)[unfolded round Increment] retry])
      show "t' = u_store u" if "y = Inl e" for e
        using increment_error[OF ok o[unfolded increment_op_def that]] .
      show "t' = u_store u" if "y = Inr None"
        using increment_none[OF ok o[unfolded increment_op_def that]] by simp
      show "\<exists>v. verify_step A i M u v \<and> u_store v = t' \<and> u_granted v = u_granted u" if "y = Inr z" for z
        by (rule exI, rule conjI, rule verify_step.count[OF o[unfolded mx that]]) simp_all
    qed
  next
    case (Start now)
    obtain y t' where o: "open_window_op A k now (wh_eq ''lastRequest'' Null) (u_store u) = (y, t')" by force
    show ?thesis
    proof (rule guarded_round[OF inv o _ _ _ Suc.prems(3)[unfolded round Start] retry])
      show "t' = u_store u" if "y = Inl e" for e
        using increment_error[OF ok o[unfolded open_window_op_def that]] .
      show "t' = u_store u" if "y = Inr None"
        using increment_none[OF ok o[unfolded open_window_op_def that]] by simp
      show "\<exists>v. verify_step A i M u v \<and> u_store v = t' \<and> u_granted v = u_granted u" if "y = Inr z" for z
        by (rule exI, rule conjI, rule verify_step.opened[OF o[unfolded that]]) simp_all
    qed
  next
    case (Reset now ws)
    obtain y t' where o: "open_window_op A k now (wh ''lastRequest'' Op_lte ws) (u_store u) = (y, t')" by force
    show ?thesis
    proof (rule guarded_round[OF inv o _ _ _ Suc.prems(3)[unfolded round Reset] retry])
      show "t' = u_store u" if "y = Inl e" for e
        using increment_error[OF ok o[unfolded open_window_op_def that]] .
      show "t' = u_store u" if "y = Inr None"
        using increment_none[OF ok o[unfolded open_window_op_def that]] by simp
      show "\<exists>v. verify_step A i M u v \<and> u_store v = t' \<and> u_granted v = u_granted u" if "y = Inr z" for z
        by (rule exI, rule conjI, rule verify_step.opened[OF o[unfolded that]]) simp_all
    qed
  qed
qed

text \<open>The whole claim: quota, rate limit and the final stamp.\<close>

lemma claim_usage_steps:
  assumes inv: "usage_inv ok rows i M u" and M: "1 \<le> M"
    and k: "id_of k = Str i" "get_field k ''rateLimitMax'' = Num M"
    and am: "refill_due h (now_ms (c_clock ctx) 1) k \<Longrightarrow>
       \<exists>a. get_field k ''refillAmount'' = Num a \<and> 1 \<le> a"
    and ctx: "c_adapter ctx = A" "c_host ctx = h" and db: "\<not> o_secondary opts"
    and run: "claimUsageInDatabase f ctx k opts s = (r, t)" and s: "k_db s = u_store u"
  shows "\<exists>v. verify_steps A i M u v \<and> u_store v = k_db t \<and>
     u_granted v \<le> u_granted u + 1 \<and>
     (\<not> isl r \<and> get_field k ''remaining'' \<noteq> Null \<longrightarrow> u_granted v = u_granted u + 1)"
proof -
  have ok: "ok (u_store u)" using inv by (simp add: usage_inv_def)
  let ?quota = "if get_field k ''remaining'' \<noteq> Null
     then consumeRemaining A h (c_clock ctx) k else returnA k"
  obtain r0 d0 where q: "?quota (u_store u) = (r0, d0)" by force
  have "\<exists>v. verify_steps A i M u v \<and> u_store v = d0 \<and>
     u_granted v = u_granted u + (if isl r0 \<or> get_field k ''remaining'' = Null then 0 else 1) \<and>
     (\<forall>q. r0 = Inr q \<longrightarrow> id_of q = Str i \<and> (q = k \<or> q \<in> set (rows d0 API_KEY_TABLE_NAME)))"
  proof (cases "get_field k ''remaining'' = Null")
    case True
    with q have "r0 = Inr k" "d0 = u_store u" by auto
    with k(1) True show ?thesis by (intro exI[of _ u]) (auto intro: verify_steps.none)
  next
    case False
    with q have "consumeRemaining A h (c_clock ctx) k (u_store u) = (r0, d0)" by simp
    from consumeRemaining_steps[OF ok k(1) am this, of M] False show ?thesis by auto
  qed
  then obtain v where v: "verify_steps A i M u v" "u_store v = d0"
     "u_granted v = u_granted u + (if isl r0 \<or> get_field k ''remaining'' = Null then 0 else 1)"
     and row: "\<And>q. r0 = Inr q \<Longrightarrow> id_of q = Str i \<and> (q = k \<or> q \<in> set (rows d0 API_KEY_TABLE_NAME))"
    by blast
  have inv_v: "usage_inv ok rows i M v" by (rule verify_steps_inv[OF v(1) inv M])
  have run1: "claimUsageInDatabase f ctx k opts s =
     (case r0 of Inl e \<Rightarrow> (Inl e, s\<lparr>k_db := d0\<rparr>)
      | Inr q \<Rightarrow> bindA (onDb (consumeRateLimit f 3 A h (c_clock ctx) q opts)) (\<lambda>r1.
          bindA (onDb (a_update A API_KEY_TABLE_NAME [wh_eq ''id'' (id_of r1)]
                     [(''updatedAt'', date_at (c_clock ctx) 2)])) (\<lambda>finalRow.
            case finalRow of None \<Rightarrow> throwA INVALID_API_KEY | Some x \<Rightarrow> returnA x))
          (s\<lparr>k_db := d0\<rparr>))"
    using q db ctx s by (auto simp: claimUsageInDatabase_def Let_def bindA_def onDb_def split: sum.splits)
  show ?thesis
  proof (cases r0)
    case (Inl e)
    with run run1 v show ?thesis by auto
  next
    case (Inr r0')
    obtain x d1 where rl: "consumeRateLimit f 3 A h (c_clock ctx) r0' opts (u_store v) = (x, d1)"
      by force
    have r0k: "id_of r0' = Str i" "get_field r0' ''rateLimitMax'' = Num M"
      using row[OF Inr] k(2) watched_row[OF inv_v, of r0'] v(2) by auto
    obtain w where w: "verify_steps A i M v w" "u_store w = d1" "u_granted w = u_granted v"
      using consumeRateLimit_steps[OF inv_v r0k rl] by (auto simp: rate_goal_def)
    note uw = verify_steps_trans[OF w(1) v(1)]
    show ?thesis
    proof (cases x)
      case (Inl e)
      with run run1 Inr rl v uw w show ?thesis
        by (intro exI[of _ w]) (auto simp: bindA_def onDb_def)
    next
      case (Inr r1)
      have okw: "ok (u_store w)" using verify_steps_inv[OF w(1) inv_v M] by (simp add: usage_inv_def)
      obtain y d2 where up: "a_update A API_KEY_TABLE_NAME [wh_eq ''id'' (id_of r1)]
          [(''updatedAt'', date_at (c_clock ctx) 2)] (u_store w) = (y, d2)" by force
      have "k_db t = d2"
        using run run1 \<open>r0 = Inr r0'\<close> rl Inr up v(2) w(2)
        by (auto simp: bindA_def onDb_def split: sum.splits option.splits)
      with verify_steps_trans[OF update_outcome[OF okw _ up] uw] w v \<open>r0 = Inr r0'\<close> show ?thesis
        by (intro exI[of _ "w\<lparr>u_store := d2\<rparr>"]) auto
    qed
  qed
qed

end

section \<open>Rounds of the rate limit\<close>

text \<open>
  The columns of a key row hold what the schema says, and the row's last request is not
  exactly one window before the clock reading.
\<close>

definition typed_key :: "row \<Rightarrow> bool" where
  "typed_key r \<longleftrightarrow>
     (case get_field r ''lastRequest'' of Null \<Rightarrow> True | DateV _ _ \<Rightarrow> True | _ \<Rightarrow> False) \<and>
     (case get_field r ''rateLimitTimeWindow'' of Null \<Rightarrow> True | Num _ \<Rightarrow> True | _ \<Rightarrow> False) \<and>
     (case get_field r ''rateLimitMax'' of Null \<Rightarrow> True | Num _ \<Rightarrow> True | _ \<Rightarrow> False) \<and>
     (case get_field r ''requestCount'' of Num _ \<Rightarrow> True | _ \<Rightarrow> False)"

definition at_boundary :: "int \<Rightarrow> row \<Rightarrow> bool" where
  "at_boundary now r \<longleftrightarrow>
     (case (get_field r ''lastRequest'', get_field r ''rateLimitTimeWindow'') of
        (DateV _ t, Num w) \<Rightarrow> now - t = w
      | _ \<Rightarrow> False)"

text \<open>Away from the boundary, the guard a fresh row's decision issues holds on that row.\<close>

lemma fresh_guard_holds:
  assumes "typed_key r" and "\<not> at_boundary (snd clk) r"
  shows "evaluateRateLimit h clk r opts = Increment now mx ws \<Longrightarrow>
      list_all (clause_holds h r) [wh ''lastRequest'' Op_gt ws, wh ''requestCount'' Op_lt mx]"
    and "evaluateRateLimit h clk r opts = Reset now ws \<Longrightarrow>
      clause_holds h r (wh ''lastRequest'' Op_lte ws)"
    and "evaluateRateLimit h clk r opts = Start now \<Longrightarrow>
      clause_holds h r (wh_eq ''lastRequest'' Null)"
  using assms
  by (auto simp: evaluateRateLimit_def typed_key_def at_boundary_def window_start_def Let_def
      split: val.splits if_splits) (metis js_less_Num linorder_not_le)

lemma rows_with_id_find:
  assumes "tables db API_KEY_TABLE_NAME \<noteq> None"
    and "rows_with_id i (mem_rows db API_KEY_TABLE_NAME) = [r]"
  shows "a_findOne (mem_adapter cfg) API_KEY_TABLE_NAME [wh_eq ''id'' (Str i)] db = (Inr (Some r), db)"
  by (rule mem_findOne_unique[OF assms(1)])
     (use assms(2) in \<open>simp_all add: rows_with_id_def\<close>)

lemma rows_with_id_member:
  "rows_with_id i rs = [r] \<Longrightarrow> r \<in> set rs \<and> get_field r ''id'' = Str i"
  by (auto simp: rows_with_id_def filter_eq_Cons_iff)

lemma consume_fresh_round:
  assumes tab: "tables db API_KEY_TABLE_NAME \<noteq> None" and wf: "wf_db db"
    and r: "rows_with_id i (mem_rows db API_KEY_TABLE_NAME) = [r]"
    and ty: "typed_key r" and nb: "\<not> at_boundary (snd (clk j)) r"
  shows "fst (consumeRateLimit (Suc f) j (mem_adapter cfg) (hostEnv cfg) clk r opts db) \<noteq> Inl OutOfFuel"
proof -
  have rid: "id_of r = Str i" and mem: "r \<in> set (mem_rows db API_KEY_TABLE_NAME)"
    using rows_with_id_member[OF r] by (auto simp: id_of_def)
  have win: "\<exists>q t. mem_incrementOne cfg API_KEY_TABLE_NAME (wh_eq ''id'' (Str i) # g) inc u db = (Inr (Some q), t)"
    if "list_all simple_clause g" "list_all (clause_holds (hostEnv cfg) r) g" for g inc u
    using mem_increment_total[OF tab, of "wh_eq ''id'' (Str i) # g" cfg inc u] that mem rid
    by (auto simp: id_of_def)
  have upd: "fst (mem_update cfg API_KEY_TABLE_NAME [wh_eq ''id'' (Str i)] up db) \<noteq> Inl OutOfFuel" for up
    using tab matching_objs_simple[of db API_KEY_TABLE_NAME _ "[wh_eq ''id'' (Str i)]" cfg]
    by (auto simp: mem_update_def)
  note fresh = fresh_guard_holds[OF ty nb, of "hostEnv cfg" opts]
  show ?thesis
  proof (cases "evaluateRateLimit (hostEnv cfg) (clk j) r opts")
    case (Skip x)
    with upd show ?thesis
      by (cases x) (auto simp: bindA_def rid split: prod.splits sum.splits, metis fst_conv)
  next
    case (Start now)
    have "\<exists>q t. mem_incrementOne cfg API_KEY_TABLE_NAME
        [wh_eq ''id'' (Str i), wh_eq ''lastRequest'' Null]
        [] (Some [(''requestCount'', Num 1), (''lastRequest'', now)]) db = (Inr (Some q), t)"
      by (rule win) (use fresh(3)[OF Start] in simp_all)
    with Start show ?thesis by (auto simp: open_window_op_def rid bindA_def)
  next
    case (Reset now ws)
    have "\<exists>q t. mem_incrementOne cfg API_KEY_TABLE_NAME
        [wh_eq ''id'' (Str i), wh ''lastRequest'' Op_lte ws]
        [] (Some [(''requestCount'', Num 1), (''lastRequest'', now)]) db = (Inr (Some q), t)"
      by (rule win) (use fresh(2)[OF Reset] in simp_all)
    with Reset show ?thesis by (auto simp: open_window_op_def rid bindA_def)
  next
    case (Increment now mx ws)
    have "\<exists>q t. mem_incrementOne cfg API_KEY_TABLE_NAME
        [wh_eq ''id'' (Str i), wh ''lastRequest'' Op_gt ws, wh ''requestCount'' Op_lt mx]
        [(''requestCount'', 1)] (Some [(''lastRequest'', now)]) db = (Inr (Some q), t)"
      by (rule win) (use fresh(1)[OF Increment] in simp_all)
    with Increment show ?thesis by (auto simp: increment_op_def rid bindA_def)
  next
    case (Deny msg t)
    then show ?thesis by (simp add: RATE_LIMITED_def)
  qed
qed

lemma consume_two_rounds:
  assumes tab: "tables db API_KEY_TABLE_NAME \<noteq> None" and wf: "wf_db db"
    and r: "rows_with_id i (mem_rows db API_KEY_TABLE_NAME) = [r]" and ki: "id_of k = Str i"
    and ty: "typed_key r" and nb: "\<not> at_boundary (snd (clk (Suc j))) r"
  shows "fst (consumeRateLimit (Suc (Suc f)) j (mem_adapter cfg) (hostEnv cfg) clk k opts db) \<noteq> Inl OutOfFuel"
proof -
  define retry where "retry = bindA (a_findOne (mem_adapter cfg) API_KEY_TABLE_NAME [wh_eq ''id'' (id_of k)]) (\<lambda>fresh.
          case fresh of
            None \<Rightarrow> throwA INVALID_API_KEY
          | Some r \<Rightarrow> consumeRateLimit (Suc f) (Suc j) (mem_adapter cfg) (hostEnv cfg) clk r opts)"
  have retried: "fst (retry db) \<noteq> Inl OutOfFuel"
    using consume_fresh_round[where clk = clk and j = "Suc j", OF tab wf r ty nb]
      rows_with_id_find[OF tab r]
    by (simp add: bindA_def ki retry_def del: consumeRateLimit.simps)
  have guarded: "fst (bindA (mem_incrementOne cfg API_KEY_TABLE_NAME (wh_eq ''id'' (id_of k) # g) inc u)
      (\<lambda>x. case x of None \<Rightarrow> retry | Some q \<Rightarrow> returnA q) db) \<noteq> Inl OutOfFuel"
    if "list_all simple_clause g" for g inc u
  proof -
    have "list_all simple_clause (wh_eq ''id'' (id_of k) # g)" using that by simp
    from mem_increment_total[OF tab this, of cfg inc u] retried show ?thesis
      by (auto simp: bindA_def)
  qed
  have upd: "fst (mem_update cfg API_KEY_TABLE_NAME [wh_eq ''id'' (id_of k)] up db) \<noteq> Inl OutOfFuel" for up
    using tab matching_objs_simple[of db API_KEY_TABLE_NAME _ "[wh_eq ''id'' (id_of k)]" cfg]
    by (auto simp: mem_update_def)
  note round = consumeRateLimit.simps(2)[where fuel = "Suc f"] Let_def RateLimitDecision.simps
    option.case open_window_op_def increment_op_def mem_adapter_sel retry_def[symmetric]
  show ?thesis
  proof (cases "evaluateRateLimit (hostEnv cfg) (clk j) k opts")
    case (Skip x)
    with upd show ?thesis
      by (cases x) (auto simp: bindA_def split: prod.splits sum.splits, metis fst_conv)
  next
    case (Start now)
    show ?thesis unfolding round Start by (rule guarded) simp
  next
    case (Reset now ws)
    show ?thesis unfolding round Reset by (rule guarded) simp
  next
    case (Increment now mx ws)
    show ?thesis unfolding round Increment by (rule guarded) simp
  next
    case (Deny msg t)
    then show ?thesis by (simp add: RATE_LIMITED_def)
  qed
qed

end
