(* ===== verification/ApiKeyClaims.thy ===== *)
theory ApiKeyClaims
  imports ApiKeyUsage
begin

text \<open>
  What the verification of API keys promises, over the memory adapter: the properties of
  \<open>packages/api-key/src/routes/verify-api-key.ts\<close> and \<open>rate-limit.ts\<close> with their
  witnesses, and the round trips of \<open>packages/api-key/src/adapter.ts\<close> through a secondary
  storage.
\<close>

section \<open>A sample database of keys\<close>

definition demo_key :: row where
  "demo_key = [(''id'', Str ''k1''), (''key'', Str ''hash''), (''referenceId'', Str ''u1''),
     (''enabled'', BoolV True), (''remaining'', Num 2), (''refillInterval'', Null),
     (''refillAmount'', Null), (''lastRefillAt'', Null), (''createdAt'', DateV 1 0),
     (''updatedAt'', DateV 2 0), (''expiresAt'', Null), (''permissions'', Null),
     (''configId'', Str ''default''), (''rateLimitEnabled'', BoolV True),
     (''rateLimitMax'', Num 10), (''rateLimitTimeWindow'', Num 1000),
     (''requestCount'', Num 1), (''lastRequest'', DateV 3 5000)]"

abbreviation demo_keys :: "row \<Rightarrow> memdb" where
  "demo_keys k \<equiv> one_row API_KEY_TABLE_NAME k"

definition demo_opts :: apikey_opts where
  "demo_opts = \<lparr>o_configId = Some ''default'', o_secondary = False, o_fallbackToDatabase = False,
     o_deferUpdates = False, o_disableKeyHashing = True, o_rateLimitEnabled = True,
     o_customAPIKeyValidator = None, o_authorizeReference = None\<rparr>"

lemma demo_opts_sel [simp]:
  "o_configId demo_opts = Some ''default''" "\<not> o_secondary demo_opts"
  "\<not> o_deferUpdates demo_opts" "o_disableKeyHashing demo_opts" "o_rateLimitEnabled demo_opts"
  "o_customAPIKeyValidator demo_opts = None" "o_authorizeReference demo_opts = None"
  by (simp_all add: demo_opts_def)

definition demo_ctx :: "clock \<Rightarrow> memdb key_ctx" where
  "demo_ctx clk = \<lparr>c_adapter = mem_adapter demo_cfg, c_hasStorage = True, c_host = hostEnv demo_cfg,
     c_clock = clk, c_hash = id\<rparr>"

lemma demo_key_fields [simp]:
  "get_field demo_key ''id'' = Str ''k1''" "get_field demo_key ''remaining'' = Num 2"
  "get_field demo_key ''requestCount'' = Num 1" "get_field demo_key ''rateLimitMax'' = Num 10"
  "get_field demo_key ''rateLimitTimeWindow'' = Num 1000"
  "get_field demo_key ''lastRequest'' = DateV 3 5000"
  "get_field demo_key ''rateLimitEnabled'' = BoolV True"
  "get_field demo_key ''refillInterval'' = Null" "id_of demo_key = Str ''k1''"
  "rows_with_id ''k1'' [demo_key] = [demo_key]"
  by (simp_all add: demo_key_def id_of_def rows_with_id_def)

text \<open>One verification of the sample key, evaluated.\<close>

lemma demo_claim_run:
  "claimUsageInDatabase 2 (demo_ctx (\<lambda>_. (9, 5500))) demo_key demo_opts
      \<lparr>k_db = demo_keys demo_key, k_sec = Map.empty, k_lastChecked = None\<rparr> =
   (Inr (object_assign demo_key
          [(''remaining'', Num 1), (''requestCount'', Num 2), (''lastRequest'', DateV 9 5500),
           (''updatedAt'', DateV 9 5500)]),
    \<lparr>k_db = demo_keys (object_assign demo_key
          [(''remaining'', Num 1), (''requestCount'', Num 2), (''lastRequest'', DateV 9 5500),
           (''updatedAt'', DateV 9 5500)]), k_sec = Map.empty, k_lastChecked = None\<rparr>)"
  by (simp add: claimUsageInDatabase_def demo_ctx_def demo_opts_def Let_def bindA_def onDb_def
      consumeRemaining_def refill_due_def decrement_remaining_def decrement_op_def numeral_2_eq_2
      evaluateRateLimit_def increment_op_def window_start_def date_at_def id_of_def row_simps
      object_assign_Cons)

section \<open>Properties of verification\<close>





text \<open>
  C30. The rate limit settles in two rounds: whatever snapshot the request holds, if no
  other request writes in between and the stored row's last request is not exactly one
  window old, a second round on the fresh row returns, so two rounds of fuel are enough.
\<close>

theorem rate_limit_two_rounds:
  assumes "tables db API_KEY_TABLE_NAME \<noteq> None" and "wf_db db"
    and "rows_with_id i (mem_rows db API_KEY_TABLE_NAME) = [r]" and "id_of k = Str i"
    and "typed_key r" and "\<not> at_boundary (snd (clk (Suc j))) r" and "2 \<le> fuel"
  shows "fst (consumeRateLimit fuel j (mem_adapter cfg) (hostEnv cfg) clk k opts db) \<noteq> Inl OutOfFuel"
proof -
  obtain f where "fuel = Suc (Suc f)" using assms(7) by (auto simp: le_iff_add)
  then show ?thesis
    using consume_two_rounds[where clk = clk and j = j, OF assms(1-6)] by simp
qed

theorem rate_limit_two_rounds_witness:
  "fst (consumeRateLimit 2 3 (mem_adapter demo_cfg) (hostEnv demo_cfg) (\<lambda>_. (9, 5500))
     (set_field demo_key ''lastRequest'' Null) demo_opts (demo_keys demo_key)) \<noteq> Inl OutOfFuel"
  by (rule rate_limit_two_rounds[where i = "''k1''" and r = demo_key])
     (simp_all add: typed_key_def at_boundary_def id_of_def row_simps demo_key_def rows_with_id_def)

text \<open>
  Exactly at the boundary it does not settle: a row whose last request is exactly one
  window old (the decision tests \<open>>\<close>, so the window is still open; the guard asks
  \<open>lastRequest > now - window\<close>, so the write never wins) is read and rejected again in every
  round, for as long as the clock shows that millisecond.
\<close>

theorem boundary_spins:
  assumes wf: "wf_db db" and tab: "tables db API_KEY_TABLE_NAME \<noteq> None"
    and r: "rows_with_id i (mem_rows db API_KEY_TABLE_NAME) = [r]"
    and cols: "get_field r ''lastRequest'' = DateV ref t" "get_field r ''rateLimitTimeWindow'' = Num w"
      "get_field r ''rateLimitMax'' = Num M" "get_field r ''requestCount'' = Num c" "c < M"
      "get_field r ''rateLimitEnabled'' \<noteq> BoolV False"
    and on: "o_rateLimitEnabled opts" and clk: "\<And>j. snd (clk j) = t + w"
  shows "consumeRateLimit fuel j (mem_adapter cfg) (hostEnv cfg) clk r opts db = (Inl OutOfFuel, db)"
proof (induction fuel arbitrary: j)
  case 0
  show ?case by simp
next
  case (Suc fuel)
  have rid: "id_of r = Str i" using rows_with_id_member[OF r] by (simp add: id_of_def)
  let ?ws = "DateV (fst (clk j)) t"
  have dec: "evaluateRateLimit (hostEnv cfg) (clk j) r opts =
      Increment (DateV (fst (clk j)) (snd (clk j))) (Num M) ?ws"
    using cols on clk by (simp add: evaluateRateLimit_def window_start_def Let_def)
  have lost: "increment_op (mem_adapter cfg) r now (Num M) ?ws db = (Inr None, db)" for now
  proof -
    let ?g = "[wh ''lastRequest'' Op_gt ?ws, wh ''requestCount'' Op_lt (Num M)]"
    have "mem_incrementOne cfg API_KEY_TABLE_NAME (wh_eq ''id'' (Str i) # ?g)
        [(''requestCount'', 1)] (Some [(''lastRequest'', now)]) db \<noteq> (Inr (Some q), db')" for q db'
    proof
      assume won: "mem_incrementOne cfg API_KEY_TABLE_NAME (wh_eq ''id'' (Str i) # ?g)
        [(''requestCount'', 1)] (Some [(''lastRequest'', now)]) db = (Inr (Some q), db')"
      show False
      proof (rule memw.increment_by_id[OF wf won[folded mem_adapter_sel]])
        fix pre x post assume x: "mem_rows db API_KEY_TABLE_NAME = pre @ x # post"
          "get_field x ''id'' = Str i" "list_all (clause_holds (hostEnv cfg) x) ?g"
        then have "x \<in> set (rows_with_id i (mem_rows db API_KEY_TABLE_NAME))"
          by (simp add: rows_with_id_def)
        with r x(3) cols show False by simp
      qed simp
    qed
    with mem_increment_total[OF tab, of "wh_eq ''id'' (Str i) # ?g" cfg]
    show ?thesis by (force simp: increment_op_def rid)
  qed
  from rows_with_id_find[OF tab r, of cfg] show ?case
    by (simp add: dec lost bindA_def rid Suc.IH)
qed

theorem boundary_spins_witness:
  "consumeRateLimit 1000 3 (mem_adapter demo_cfg) (hostEnv demo_cfg) (\<lambda>_. (9, 6000)) demo_key
     demo_opts (demo_keys demo_key) = (Inl OutOfFuel, demo_keys demo_key)"
  by (rule boundary_spins[where i = "''k1''" and ref = 3 and t = 5000 and w = 1000 and M = 10 and c = 1])
     (simp_all add: demo_opts_def)



end
