(* ===== verification/ApiKeyStoreClaims.thy ===== *)
theory ApiKeyStoreClaims
  imports ApiKeyClaims
begin

text \<open>
  Round trips of \<open>packages/api-key/src/adapter.ts\<close> through a secondary storage without a
  database fallback: what \<open>setApiKey\<close> stored is what \<open>getApiKey\<close> and \<open>getApiKeyById\<close> read,
  \<open>deleteApiKey\<close> removes it, and the owner's id list follows both.
\<close>

section \<open>Serialization\<close>

lemma get_field_not_Undef:
  "distinct (map fst r) \<Longrightarrow> get_field (filter (\<lambda>(_, v). v \<noteq> Undef) r) f = get_field r f"
proof (induction r)
  case Nil
  then show ?case by simp
next
  case (Cons p r)
  obtain g v where p: "p = (g, v)" by force
  have "map_of (filter (\<lambda>(_, v). v \<noteq> Undef) r) g = None"
    using Cons.prems p by (force simp: map_of_eq_None_iff)
  with Cons p show ?case by (auto simp: get_field_def)
qed

text \<open>What reading a stored key back changes: dates get a new identity, nothing else.\<close>

definition revived :: "nat \<Rightarrow> row \<Rightarrow> row \<Rightarrow> bool" where
  "revived ref k k' \<longleftrightarrow> (\<forall>f. get_field k' f =
     (if f \<in> {''createdAt'', ''updatedAt'', ''expiresAt'', ''lastRefillAt'', ''lastRequest''}
      then (case get_field k f of DateV _ t \<Rightarrow> DateV ref t | _ \<Rightarrow> Null)
      else get_field k f))"

lemma serialize_deserialize:
  assumes ser: "serializeApiKey k = Inr k1" and d: "distinct (map fst k)"
  shows "\<exists>k2. deserializeApiKey ref (Some (SKey k1, ttl)) = Some k2 \<and> revived ref k k2"
proof -
  from ser obtain cr up ex rf rq where
    req: "required_date (get_field k ''createdAt'') = Inr cr" "required_date (get_field k ''updatedAt'') = Inr up"
    and opt: "optional_date (get_field k ''expiresAt'') = Inr ex"
      "optional_date (get_field k ''lastRefillAt'') = Inr rf" "optional_date (get_field k ''lastRequest'') = Inr rq"
    and k1: "k1 = filter (\<lambda>(_, v). v \<noteq> Undef) (object_assign k [(''createdAt'', cr), (''updatedAt'', up),
       (''expiresAt'', ex), (''lastRefillAt'', rf), (''lastRequest'', rq)])"
    by (auto simp: serializeApiKey_def bindR_Inr_iff)
  have f1: "get_field k1 f = get_field (object_assign k [(''createdAt'', cr), (''updatedAt'', up),
       (''expiresAt'', ex), (''lastRefillAt'', rf), (''lastRequest'', rq)]) f" for f
    unfolding k1 by (rule get_field_not_Undef[OF distinct_object_assign[OF d]])
  have r: "revive_required ref v = (case w of DateV _ t \<Rightarrow> DateV ref t | _ \<Rightarrow> Null)"
    if "required_date w = Inr v" for v w
    using that by (cases w) (auto simp: revive_required_def)
  have o: "revive_optional ref v = (case w of DateV _ t \<Rightarrow> DateV ref t | _ \<Rightarrow> Null)"
    if "optional_date w = Inr v" for v w
    using that by (cases w) (auto simp: revive_optional_def optional_date_def revive_required_def split: if_splits)
  show ?thesis
    unfolding deserializeApiKey_def revived_def
    by (simp add: f1 row_simps r[OF req(1)] r[OF req(2)] o[OF opt(1)] o[OF opt(2)] o[OF opt(3)])
qed

section \<open>Storage keys\<close>

lemma storage_keys_differ:
  assumes "CHR '':'' \<notin> set hash"
  shows "getStorageKeyByHashedKey hash \<noteq> getStorageKeyById i"
    and "getStorageKeyByHashedKey hash \<noteq> getStorageKeyByReferenceId r"
    and "getStorageKeyById i \<noteq> getStorageKeyByReferenceId r"
  using assms
  by (auto simp: getStorageKeyByHashedKey_def getStorageKeyById_def getStorageKeyByReferenceId_def)

definition ref_ids :: "'s kstate \<Rightarrow> string \<Rightarrow> string list" where
  "ref_ids s r = (case k_sec s (getStorageKeyByReferenceId r) of Some (SIds ids, _) \<Rightarrow> ids | _ \<Rightarrow> [])"

lemma modifyRefList_app:
  "modifyRefList (getStorageKeyByReferenceId r) g s =
     (Inr (), s\<lparr>k_sec := (k_sec s)(getStorageKeyByReferenceId r :=
        (if g (ref_ids s r) = [] then None else Some (SIds (g (ref_ids s r)), None)))\<rparr>)"
  by (simp add: modifyRefList_def sec_get_def sec_set_def sec_delete_def bindA_def ref_ids_def Let_def)

lemma ref_ids_upd:
  "ref_ids (s\<lparr>k_sec := m(getStorageKeyByReferenceId r :=
     (if xs = [] then None else Some (SIds xs, t)))\<rparr>) r = xs"
  by (simp add: ref_ids_def)

section \<open>Properties of the store\<close>

text \<open>
  C32. A key written to a secondary storage is read back by its hash and by its id with
  every column unchanged but the identity of its dates, and its id is listed once for its
  owner (for a hash without a colon, which a base64url digest is).
\<close>

theorem stored_key_is_found:
  assumes mode: "o_secondary opts" "\<not> o_fallbackToDatabase opts" "c_hasStorage ctx"
    and cols: "get_field k ''key'' = Str hash" "get_field k ''id'' = Str i" "get_field k ''referenceId'' = Str r"
    and hash: "CHR '':'' \<notin> set hash" and d: "distinct (map fst k)" and ids: "distinct (ref_ids s r)"
    and set_ok: "setApiKey ctx k opts s = (Inr (), t)"
  shows "(\<exists>k'. getApiKey ctx hash opts t = (Inr (Some k'), t) \<and>
           getApiKeyById ctx i opts t = (Inr (Some k'), t) \<and> revived (fst (c_clock ctx 0)) k k') \<and>
         i \<in> set (ref_ids t r) \<and> distinct (ref_ids t r)"
proof -
  note diff = storage_keys_differ[OF hash] storage_keys_differ[OF hash, symmetric]
  from set_ok mode cols obtain k1 where ser: "serializeApiKey k = Inr k1"
    by (cases "serializeApiKey k") (auto simp: setApiKey_def setApiKeyInStorage_def)
  obtain k2 where k2: "deserializeApiKey (fst (c_clock ctx 0)) (Some (SKey k1, ttl)) = Some k2"
      "revived (fst (c_clock ctx 0)) k k2" for ttl
    using serialize_deserialize[OF ser d, of "fst (c_clock ctx 0)"]
    by (fastforce simp: deserializeApiKey_def)
  let ?ttl = "calculateTTL (now_ms (c_clock ctx) 0) k"
  let ?m = "(k_sec s)(getStorageKeyByHashedKey hash \<mapsto> (SKey k1, ?ttl), getStorageKeyById i \<mapsto> (SKey k1, ?ttl))"
  let ?ids = "if i \<in> set (ref_ids s r) then ref_ids s r else ref_ids s r @ [i]"
  have same: "ref_ids (s\<lparr>k_sec := ?m\<rparr>) r = ref_ids s r"
    using diff by (simp add: ref_ids_def)
  have t: "t = s\<lparr>k_sec := ?m(getStorageKeyByReferenceId r :=
      (if ?ids = [] then None else Some (SIds ?ids, None)))\<rparr>"
    using set_ok mode cols
    by (simp add: setApiKey_def setApiKeyInStorage_def ser strField_def Let_def bindA_def sec_set_def
        modifyRefList_app same cong: if_cong)
  have "k_sec t (getStorageKeyByHashedKey hash) = Some (SKey k1, ?ttl)"
    "k_sec t (getStorageKeyById i) = Some (SKey k1, ?ttl)"
    using diff by (simp_all add: t)
  with mode k2 have "getApiKey ctx hash opts t = (Inr (Some k2), t)"
    "getApiKeyById ctx i opts t = (Inr (Some k2), t)"
    by (simp_all add: getApiKey_def getApiKeyById_def lookupApiKey_def getApiKeyFromStorage_def
        getApiKeyByIdFromStorage_def sec_get_def bindA_def)
  moreover have "ref_ids t r = ?ids" unfolding t by (rule ref_ids_upd)
  ultimately show ?thesis using k2(2) ids by auto
qed

definition demo_sec_opts :: apikey_opts where
  "demo_sec_opts = demo_opts\<lparr>o_secondary := True\<rparr>"

lemma demo_sec_opts_sel [simp]:
  "o_secondary demo_sec_opts" "\<not> o_fallbackToDatabase demo_sec_opts" "o_disableKeyHashing demo_sec_opts"
  "o_configId demo_sec_opts = Some ''default''"
  by (simp_all add: demo_sec_opts_def demo_opts_def)

lemma demo_ctx_storage [simp]: "c_hasStorage (demo_ctx clk)"
  by (simp add: demo_ctx_def)

lemma demo_key_texts [simp]:
  "get_field demo_key ''key'' = Str ''hash''" "get_field demo_key ''referenceId'' = Str ''u1''"
  "get_field demo_key ''configId'' = Str ''default''" "distinct (map fst demo_key)"
  "get_field demo_key ''createdAt'' = DateV 1 0" "get_field demo_key ''updatedAt'' = DateV 2 0"
  "get_field demo_key ''expiresAt'' = Null" "get_field demo_key ''lastRefillAt'' = Null"
  by (simp_all add: demo_key_def)

definition demo_kstate :: "memdb kstate" where
  "demo_kstate = snd (setApiKey (demo_ctx (\<lambda>_. (9, 5500))) demo_key demo_sec_opts
     \<lparr>k_db = demo_keys demo_key, k_sec = Map.empty, k_lastChecked = None\<rparr>)"

lemma demo_set: "setApiKey (demo_ctx (\<lambda>_. (9, 5500))) demo_key demo_sec_opts
     \<lparr>k_db = demo_keys demo_key, k_sec = Map.empty, k_lastChecked = None\<rparr> = (Inr (), demo_kstate)"
  by (simp add: demo_kstate_def setApiKey_def setApiKeyInStorage_def serializeApiKey_def optional_date_def
      Let_def bindA_def sec_set_def strField_def modifyRefList_app)

theorem stored_key_is_found_witness:
  "(\<exists>k'. getApiKey (demo_ctx (\<lambda>_. (9, 5500))) ''hash'' demo_sec_opts demo_kstate =
       (Inr (Some k'), demo_kstate) \<and> get_field k' ''remaining'' = Num 2) \<and>
   ''k1'' \<in> set (ref_ids demo_kstate ''u1'')"
  using stored_key_is_found[OF _ _ _ _ _ _ _ _ _ demo_set, of "''hash''" "''k1''" "''u1''"]
  by (auto simp: ref_ids_def revived_def)

text \<open>
  Deleting a key from a secondary storage forgets it: neither its hash nor its id
  finds it any more, its id is gone from the owner's list, and the owner's other keys stay
  listed in their order.
\<close>

theorem deleted_key_is_forgotten:
  assumes mode: "o_secondary opts" "\<not> o_fallbackToDatabase opts" "c_hasStorage ctx"
    and cols: "get_field k ''key'' = Str hash" "get_field k ''id'' = Str i" "get_field k ''referenceId'' = Str r"
    and hash: "CHR '':'' \<notin> set hash"
    and del: "deleteApiKey ctx k opts s = (x, t)"
  shows "x = Inr () \<and> getApiKey ctx hash opts t = (Inr None, t) \<and> getApiKeyById ctx i opts t = (Inr None, t) \<and>
    ref_ids t r = filter (\<lambda>j. j \<noteq> i) (ref_ids s r)"
proof -
  note diff = storage_keys_differ[OF hash] storage_keys_differ[OF hash, symmetric]
  let ?m = "(k_sec s)(getStorageKeyByHashedKey hash := None, getStorageKeyById i := None)"
  let ?ids = "filter (\<lambda>j. j \<noteq> i) (ref_ids s r)"
  have same: "ref_ids (s\<lparr>k_sec := ?m\<rparr>) r = ref_ids s r"
    using diff by (simp add: ref_ids_def)
  have xt: "x = Inr () \<and> t = s\<lparr>k_sec := ?m(getStorageKeyByReferenceId r :=
      (if ?ids = [] then None else Some (SIds ?ids, None)))\<rparr>"
    using del mode cols
    by (simp add: deleteApiKey_def deleteApiKeyFromStorage_def strField_def Let_def bindA_def sec_delete_def
        modifyRefList_app same cong: if_cong)
  then have "k_sec t (getStorageKeyByHashedKey hash) = None" "k_sec t (getStorageKeyById i) = None"
    using diff by simp_all
  with mode have "getApiKey ctx hash opts t = (Inr None, t)" "getApiKeyById ctx i opts t = (Inr None, t)"
    by (simp_all add: getApiKey_def getApiKeyById_def lookupApiKey_def getApiKeyFromStorage_def
        getApiKeyByIdFromStorage_def sec_get_def bindA_def deserializeApiKey_def)
  moreover have "ref_ids t r = ?ids" using xt ref_ids_upd by blast
  ultimately show ?thesis using xt by blast
qed

theorem deleted_key_is_forgotten_witness:
  "\<exists>t. deleteApiKey (demo_ctx (\<lambda>_. (9, 5500))) demo_key demo_sec_opts demo_kstate = (Inr (), t) \<and>
     getApiKey (demo_ctx (\<lambda>_. (9, 5500))) ''hash'' demo_sec_opts t = (Inr None, t)"
proof -
  obtain x t where del: "deleteApiKey (demo_ctx (\<lambda>_. (9, 5500))) demo_key demo_sec_opts demo_kstate = (x, t)"
    by force
  with deleted_key_is_forgotten[OF _ _ _ _ _ _ _ del, of "''hash''" "''k1''" "''u1''"] show ?thesis by simp
qed

text \<open>
  With hashing disabled the two lookups share a key space: the presented key
  \<open>by-id:\<close> followed by an id reads the storage entry of that id, so a key whose id is known
  is found (and then validated) without its secret.
\<close>

theorem id_works_as_key:
  assumes mode: "o_secondary opts" "\<not> o_fallbackToDatabase opts" "c_hasStorage ctx" "o_disableKeyHashing opts"
    and known: "getApiKey ctx secret opts s = (Inr (Some k), s)" "getApiKeyById ctx i opts s = (Inr (Some k), s)"
    and conf: "resolveConfiguration confs (get_field k ''configId'') = Inr opts"
  shows "validateApiKey fuel ctx parse confs opts (''by-id:'' @ i) permissions expected False s =
    validateApiKey fuel ctx parse confs opts secret permissions expected False s"
proof -
  define crafted where "crafted = ''by-id:'' @ i"
  have same: "getApiKey ctx crafted opts s = getApiKey ctx secret opts s"
    using mode known
    by (simp add: getApiKey_def getApiKeyById_def lookupApiKey_def getApiKeyFromStorage_def
        getApiKeyByIdFromStorage_def getStorageKeyByHashedKey_def getStorageKeyById_def crafted_def)
  then have claim: "claimUsageInSecondaryStorage ctx k opts crafted s =
      claimUsageInSecondaryStorage ctx k opts secret s"
    by (auto simp: claimUsageInSecondaryStorage_def Let_def bindA_def catchA_def split: sum.splits)
  have valid: "validate_key fuel ctx parse crafted crafted permissions False k opts s =
      validate_key fuel ctx parse secret secret permissions False k opts s"
    using mode claim
    by (auto simp: validate_key_def bindA_def split: sum.splits)
  show ?thesis
    unfolding crafted_def[symmetric] using mode known(1) conf valid same
    by (simp add: validateApiKey_def Let_def bindA_def)
qed

lemma demo_lookup:
  "\<exists>k. getApiKey (demo_ctx (\<lambda>_. (9, 5500))) ''hash'' demo_sec_opts demo_kstate = (Inr (Some k), demo_kstate) \<and>
     getApiKeyById (demo_ctx (\<lambda>_. (9, 5500))) ''k1'' demo_sec_opts demo_kstate = (Inr (Some k), demo_kstate) \<and>
     get_field k ''configId'' = Str ''default''"
  by (simp add: demo_kstate_def setApiKey_def setApiKeyInStorage_def serializeApiKey_def optional_date_def
      Let_def bindA_def sec_set_def strField_def modifyRefList_def sec_delete_def getApiKey_def getApiKeyById_def
      lookupApiKey_def getApiKeyFromStorage_def getApiKeyByIdFromStorage_def sec_get_def
      getStorageKeyByHashedKey_def getStorageKeyById_def getStorageKeyByReferenceId_def
      deserializeApiKey_def row_simps get_field_not_Undef distinct_set_field)

theorem id_works_as_key_witness:
  "validateApiKey 2 (demo_ctx (\<lambda>_. (9, 5500))) (\<lambda>_. None) [demo_sec_opts] demo_sec_opts
     ''by-id:k1'' None None False demo_kstate =
   validateApiKey 2 (demo_ctx (\<lambda>_. (9, 5500))) (\<lambda>_. None) [demo_sec_opts] demo_sec_opts
     ''hash'' None None False demo_kstate"
proof -
  obtain k where k: "getApiKey (demo_ctx (\<lambda>_. (9, 5500))) ''hash'' demo_sec_opts demo_kstate = (Inr (Some k), demo_kstate)"
    "getApiKeyById (demo_ctx (\<lambda>_. (9, 5500))) ''k1'' demo_sec_opts demo_kstate = (Inr (Some k), demo_kstate)"
    "get_field k ''configId'' = Str ''default''" using demo_lookup by blast
  then have "resolveConfiguration [demo_sec_opts] (get_field k ''configId'') = Inr demo_sec_opts"
    by (simp add: resolveConfiguration_def)
  from id_works_as_key[OF _ _ _ _ k(1,2) this] show ?thesis by simp
qed

end
