(* ===== verification/ApiKeyRouteClaims.thy ===== *)
theory ApiKeyRouteClaims
  imports ApiKeyRoutes ApiKeyStoreClaims
begin

text \<open>
  What the endpoints of \<open>ApiKeyRoutes\<close> promise, over the memory adapter where they write.
\<close>

section \<open>Running the endpoints\<close>

lemma onDb_app: "m (k_db s) = (r, d) \<Longrightarrow> onDb m s = (r, s\<lparr>k_db := d\<rparr>)"
  by (simp add: onDb_def)

lemma getApiKeyById_database:
  "\<not> o_secondary opts \<Longrightarrow> getApiKeyById ctx i opts =
     onDb (a_findOne (c_adapter ctx) API_KEY_TABLE_NAME [wh_eq ''id'' (Str i)])"
  by (simp add: getApiKeyById_def lookupApiKey_def)

lemma base_opts_sel [simp]:
  "o_secondary (base_opts c) = o_secondary c" "o_fallbackToDatabase (base_opts c) = o_fallbackToDatabase c"
  "o_configId (base_opts c) = o_configId c"
  by (simp_all add: apikey_opts.truncate_def)

text \<open>The rows an expiry sweep at time \<open>now\<close> removes.\<close>

definition dated :: "row \<Rightarrow> bool" where
  "dated r \<longleftrightarrow> (case get_field r ''expiresAt'' of DateV _ _ \<Rightarrow> True | Null \<Rightarrow> True | Undef \<Rightarrow> True | _ \<Rightarrow> False)"

definition past_expiry :: "int \<Rightarrow> row \<Rightarrow> bool" where
  "past_expiry now r \<longleftrightarrow> (case get_field r ''expiresAt'' of DateV _ e \<Rightarrow> e < now | _ \<Rightarrow> False)"

definition throttled :: "'s key_ctx \<Rightarrow> bool \<Rightarrow> 's kstate \<Rightarrow> bool" where
  "throttled ctx bypass s \<longleftrightarrow> \<not> bypass \<and>
     (\<exists>c. k_lastChecked s = Some c \<and> now_ms (c_clock ctx) 13 - c < 10000)"

lemma cleanup_app:
  assumes wf: "wf_db (k_db s)" and tab: "tables (k_db s) API_KEY_TABLE_NAME \<noteq> None"
    and A: "c_adapter ctx = mem_adapter cfg"
    and d: "\<forall>r \<in> set (mem_rows (k_db s) API_KEY_TABLE_NAME). dated r"
  obtains t where "deleteAllExpiredApiKeys ctx bypass s = (Inr (), t)" "wf_db (k_db t)" "k_sec t = k_sec s"
    "\<And>m. m \<noteq> API_KEY_TABLE_NAME \<Longrightarrow> mem_rows (k_db t) m = mem_rows (k_db s) m"
    "tables (k_db t) API_KEY_TABLE_NAME \<noteq> None"
    "k_lastChecked t = (if throttled ctx bypass s then k_lastChecked s else Some (now_ms (c_clock ctx) 14))"
    "mem_rows (k_db t) API_KEY_TABLE_NAME =
       (if throttled ctx bypass s then mem_rows (k_db s) API_KEY_TABLE_NAME
        else filter (\<lambda>r. \<not> past_expiry (now_ms (c_clock ctx) 15) r) (mem_rows (k_db s) API_KEY_TABLE_NAME))"
proof (cases "throttled ctx bypass s")
  case True
  then have "deleteAllExpiredApiKeys ctx bypass s = (Inr (), s)"
    by (auto simp: deleteAllExpiredApiKeys_def throttled_def Let_def)
  with True wf tab show thesis by (intro that) auto
next
  case False
  let ?ws = "[wh ''expiresAt'' Op_lt (date_at (c_clock ctx) 15), wh ''expiresAt'' Op_ne Null]"
  obtain n t where del: "mem_deleteMany cfg API_KEY_TABLE_NAME ?ws (k_db s) = (Inr n, t)" and t: "wf_db t"
    "mem_rows t API_KEY_TABLE_NAME = filter (\<lambda>r. \<not> list_all (clause_holds (hostEnv cfg) r) ?ws)
       (mem_rows (k_db s) API_KEY_TABLE_NAME)"
    "\<And>m'. m' \<noteq> API_KEY_TABLE_NAME \<Longrightarrow> mem_rows t m' = mem_rows (k_db s) m'"
    "\<And>m'. tables t m' = None \<longleftrightarrow> tables (k_db s) m' = None"
    by (rule mem_deleteMany_simple[OF wf tab, of ?ws cfg]) simp_all
  have "filter (\<lambda>r. \<not> list_all (clause_holds (hostEnv cfg) r) ?ws) (mem_rows (k_db s) API_KEY_TABLE_NAME) =
      filter (\<lambda>r. \<not> past_expiry (now_ms (c_clock ctx) 15) r) (mem_rows (k_db s) API_KEY_TABLE_NAME)"
  proof (rule filter_cong[OF refl])
    fix r assume "r \<in> set (mem_rows (k_db s) API_KEY_TABLE_NAME)"
    with d have "dated r" by blast
    then show "(\<not> list_all (clause_holds (hostEnv cfg) r) ?ws) = (\<not> past_expiry (now_ms (c_clock ctx) 15) r)"
      by (cases "get_field r ''expiresAt''")
         (auto simp: dated_def past_expiry_def date_at_def now_ms_def js_less_def clause_holds_def)
  qed
  note t(2)[unfolded this]
  moreover have "deleteAllExpiredApiKeys ctx bypass s =
      (Inr (), s\<lparr>k_lastChecked := Some (now_ms (c_clock ctx) 14), k_db := t\<rparr>)"
    using False del
    by (auto simp: deleteAllExpiredApiKeys_def throttled_def Let_def A catchA_def bindA_def onDb_def
        split: option.splits)
  ultimately show thesis
    using t(1,3,4) False tab
    by (intro that[of "s\<lparr>k_lastChecked := Some (now_ms (c_clock ctx) 14), k_db := t\<rparr>"]) auto
qed

section \<open>Properties\<close>

text \<open>
  The clean-up removes exactly the keys whose expiry date has passed, keeps keys
  without one, touches no other table, and does nothing within ten seconds of the last
  sweep unless told to.
\<close>

theorem cleanup_removes_exactly_expired:
  assumes "wf_db (k_db s)" and "tables (k_db s) API_KEY_TABLE_NAME \<noteq> None"
    and "c_adapter ctx = mem_adapter cfg"
    and "\<forall>r \<in> set (mem_rows (k_db s) API_KEY_TABLE_NAME). dated r"
    and "deleteAllExpiredApiKeys ctx bypass s = (x, t)"
  shows "x = Inr () \<and> k_sec t = k_sec s \<and>
     (\<forall>m. m \<noteq> API_KEY_TABLE_NAME \<longrightarrow> mem_rows (k_db t) m = mem_rows (k_db s) m) \<and>
     mem_rows (k_db t) API_KEY_TABLE_NAME =
       (if throttled ctx bypass s then mem_rows (k_db s) API_KEY_TABLE_NAME
        else filter (\<lambda>r. \<not> past_expiry (now_ms (c_clock ctx) 15) r) (mem_rows (k_db s) API_KEY_TABLE_NAME))"
  by (rule cleanup_app[OF assms(1-4), of bypass]) (use assms(5) in simp)

theorem cleanup_removes_exactly_expired_witness:
  "\<exists>t. deleteAllExpiredApiKeys (demo_ctx (\<lambda>_. (9, 5500))) True
      \<lparr>k_db = demo_keys (set_field demo_key ''expiresAt'' (DateV 8 5000)), k_sec = Map.empty,
       k_lastChecked = Some 5400\<rparr> = (Inr (), t) \<and> mem_rows (k_db t) API_KEY_TABLE_NAME = []"
proof -
  let ?s = "\<lparr>k_db = demo_keys (set_field demo_key ''expiresAt'' (DateV 8 5000)), k_sec = Map.empty,
       k_lastChecked = Some 5400\<rparr> :: memdb kstate"
  obtain x t where "deleteAllExpiredApiKeys (demo_ctx (\<lambda>_. (9, 5500))) True ?s = (x, t)" by force
  with cleanup_removes_exactly_expired[OF _ _ _ _ this, of demo_cfg] show ?thesis
    by (auto simp: demo_ctx_def dated_def throttled_def past_expiry_def now_ms_def row_simps)
qed

section \<open>A sample configuration\<close>

definition demo_conf :: key_conf where
  "demo_conf = apikey_opts.extend demo_opts
     (key_conf.fields False True False 1 365 Null 1 32 1 32 False 64 Undef True 6 (Num 10) (Num 1000) True None (Inl ''x-api-key''))"

definition demo_env :: route_env where
  "demo_env = \<lparr>e_request = True, e_headers = True, e_session = Some ''u1'', e_orgOptions = False,
     e_hasPermission = (\<lambda>_ _ _. Inr False), e_parse = (\<lambda>_. Null), e_stringify = (\<lambda>_. ''{}''),
     e_keyGenerator = (\<lambda>_ _. ''secret''), e_defaultPermissions = (\<lambda>_. Undef), e_generateId = ''id1''\<rparr>"

definition demo_state :: "memdb kstate" where
  "demo_state = \<lparr>k_db = demo_keys demo_key, k_sec = Map.empty, k_lastChecked = Some 5400\<rparr>"

lemma demo_conf_sel [simp]:
  "o_configId demo_conf = Some ''default''" "\<not> o_secondary demo_conf" "\<not> r_organization demo_conf"
  "r_enableMetadata demo_conf" "\<not> r_disableCustomExpiresTime demo_conf"
  "r_minExpiresIn demo_conf = 1" "r_maxExpiresIn demo_conf = 365"
  "r_minimumNameLength demo_conf = 1" "r_maximumNameLength demo_conf = 32"
  "\<not> r_requireName demo_conf" "o_disableKeyHashing demo_conf"
  "r_enableSessionForAPIKeys demo_conf" "base_opts demo_conf = demo_opts"
  "r_defaultExpiresIn demo_conf = Null" "r_defaultKeyLength demo_conf = 64"
  by (simp_all add: demo_conf_def demo_opts_def apikey_opts.defs key_conf.defs)

lemma demo_env_sel [simp]:
  "e_request demo_env" "e_session demo_env = Some ''u1''" "isClientRequest demo_env"
  "session_user demo_env = Str ''u1''"
  by (simp_all add: demo_env_def isClientRequest_def session_user_def)

lemma demo_resolve [simp]:
  "resolveConfiguration [demo_conf] (Str ''default'') = Inr demo_conf"
  "resolveConfiguration [demo_conf] Undef = Inr demo_conf"
  by (simp_all add: resolveConfiguration_def getDefaultConfig_def demo_conf_def
      apikey_opts.defs key_conf.defs demo_opts_def)

section \<open>Ownership\<close>

lemma find_Some_in: "List.find P xs = Some x \<Longrightarrow> x \<in> set xs"
  by (induction xs) (auto split: if_splits)

lemma find_managed_key_owned:
  assumes "find_managed_key ctx env confs configId keyId userId action s = (Inr (k, opts), u)"
  shows "resolveConfiguration confs (get_field k ''configId'') = Inr opts \<and>
    (\<not> r_organization opts \<longrightarrow> strict_eq (get_field k ''referenceId'') userId) \<and>
    (\<exists>lookup v. resolveConfiguration confs configId = Inr lookup \<and>
       getApiKeyById ctx keyId (base_opts lookup) s = (Inr (Some k), v) \<and>
       configIdMatches (get_field k ''configId'') (config_val lookup) \<and>
       (r_organization opts \<longrightarrow>
          (\<exists>m. checkOrgApiKeyPermission ctx env userId (get_field k ''referenceId'') action v = (Inr m, u))))"
  using assms unfolding find_managed_key_def
  by (auto simp: bindA_Inr_iff split: option.splits if_splits)

lemma checkOrgApiKeyPermission_ok:
  assumes "checkOrgApiKeyPermission ctx env userId organizationId action s = (Inr m, t)"
  shows "e_orgOptions env \<and> checkPermission env (get_field m ''role'') organizationId action"
  using assms unfolding checkOrgApiKeyPermission_def
  by (auto simp: bindA_Inr_iff split: option.splits if_splits)

lemma disjoint_mono_left: "A \<subseteq> B \<Longrightarrow> B \<inter> C = {} \<Longrightarrow> A \<inter> C = {}"
  by blast

lemma given_columns: "fst ` set (given body f) \<subseteq> {f}" "get_field body f = Undef \<Longrightarrow> given body f = []"
  by (auto simp: given_def)

lemma given_in: "f \<in> C \<Longrightarrow> fst ` set (given body f) \<subseteq> C"
  by (auto simp: given_def)

lemma get_field_dropped: "get_field (filter (\<lambda>(f, _). f \<noteq> g) r) g = Undef"
  by (induction r) (auto simp: get_field_def)

lemma get_field_kept: "f \<noteq> g \<Longrightarrow> get_field (filter (\<lambda>(f, _). f \<noteq> g) r) f = get_field r f"
  by (induction r) (auto simp: get_field_def)

lemma update_expires_columns: "update_expires clk opts v = Inr r \<Longrightarrow> fst ` set r \<subseteq> {''expiresAt''}"
  by (auto simp: update_expires_def bindR_Inr_iff split: if_splits)

lemma update_metadata_columns: "update_metadata opts body = Inr r \<Longrightarrow> fst ` set r \<subseteq> {''metadata''}"
  using given_columns by (fastforce simp: update_metadata_def split: if_splits)

lemma update_refill_columns:
  "update_refill a i = Inr r \<Longrightarrow> fst ` set r \<subseteq> {''refillAmount'', ''refillInterval''}"
  "update_refill Undef Undef = Inr r \<Longrightarrow> r = []"
  by (auto simp: update_refill_def split: if_splits)

lemma update_values_columns:
  assumes "update_values clk env opts body = Inr vs"
  shows "vs \<noteq> []"
    and "fst ` set vs \<subseteq> {''name'', ''enabled'', ''expiresAt'', ''metadata'', ''remaining'',
      ''refillAmount'', ''refillInterval'', ''rateLimitEnabled'', ''rateLimitTimeWindow'', ''rateLimitMax'',
      ''permissions''}"
    and "list_all (\<lambda>f. get_field body f = Undef) server_only_update_fields \<Longrightarrow>
      fst ` set vs \<subseteq> {''name'', ''enabled'', ''expiresAt'', ''metadata''}"
proof -
  from assms obtain ex md rf where parts: "update_expires clk opts (get_field body ''expiresIn'') = Inr ex"
    "update_metadata opts body = Inr md"
    "update_refill (get_field body ''refillAmount'') (get_field body ''refillInterval'') = Inr rf"
    and vs: "vs = given body ''name'' @ given body ''enabled'' @ ex @ md @
             given body ''remaining'' @ rf @ given body ''rateLimitEnabled'' @
             given body ''rateLimitTimeWindow'' @ given body ''rateLimitMax'' @
             (if get_field body ''permissions'' = Undef then []
              else [(''permissions'', Str (e_stringify env (get_field body ''permissions'')))])"
    and ne: "vs \<noteq> []"
    by (auto simp: update_values_def bindR_Inr_iff Let_def split: if_splits)
  note sub = update_expires_columns[OF parts(1)] update_metadata_columns[OF parts(2)]
    update_refill_columns(1)[OF parts(3)]
  show "vs \<noteq> []" by (rule ne)
  show "fst ` set vs \<subseteq> {''name'', ''enabled'', ''expiresAt'', ''metadata'', ''remaining'',
      ''refillAmount'', ''refillInterval'', ''rateLimitEnabled'', ''rateLimitTimeWindow'', ''rateLimitMax'',
      ''permissions''}"
    by (simp add: vs image_Un given_in subset_trans[OF sub(1)] subset_trans[OF sub(2)]
        subset_trans[OF sub(3)])
  assume "list_all (\<lambda>f. get_field body f = Undef) server_only_update_fields"
  then have "vs = given body ''name'' @ given body ''enabled'' @ ex @ md"
    using parts(3) update_refill_columns(2) by (simp add: vs server_only_update_fields_def given_columns(2))
  then show "fst ` set vs \<subseteq> {''name'', ''enabled'', ''expiresAt'', ''metadata''}"
    using sub(1,2) given_columns(1)[of body "''name''"] given_columns(1)[of body "''enabled''"] by auto
qed


lemma demo_state_sel [simp]: "k_db demo_state = demo_keys demo_key" "k_lastChecked demo_state = Some 5400"
  by (simp_all add: demo_state_def)

lemma demo_ctx_sel [simp]:
  "c_adapter (demo_ctx clk) = mem_adapter demo_cfg" "c_clock (demo_ctx clk) = clk"
  "c_host (demo_ctx clk) = hostEnv demo_cfg" "c_hash (demo_ctx clk) = id"
  by (simp_all add: demo_ctx_def)

lemma demo_throttled [simp]:
  "k_lastChecked s = Some 5400 \<Longrightarrow> deleteAllExpiredApiKeys (demo_ctx (\<lambda>_. (9, 5500))) False s = (Inr (), s)"
  by (simp add: deleteAllExpiredApiKeys_def now_ms_def)

lemma demo_found:
  "find_managed_key (demo_ctx (\<lambda>_. (9, 5500))) demo_env [demo_conf] Undef ''k1'' (Str ''u1'') act demo_state =
     (Inr (demo_key, demo_conf), demo_state)"
proof -
  have "getApiKeyById (demo_ctx (\<lambda>_. (9, 5500))) ''k1'' demo_opts demo_state = (Inr (Some demo_key), demo_state)"
    by (simp add: getApiKeyById_database onDb_def)
  then show ?thesis
    by (simp add: find_managed_key_def bindA_def configIdMatches_def isDefaultConfigId_def config_val_def)
qed

lemma demo_migrate [simp]:
  "get_field k ''metadata'' = Undef \<Longrightarrow> migrateDoubleStringifiedMetadata ctx parse k opts s = (Inr Null, s)"
  by (simp add: migrateDoubleStringifiedMetadata_def needsMetadataMigration_def
      parseDoubleStringifiedMetadata_def)


text \<open>
  Deleting a key in the database removes every row with its id and nothing else but
  keys that have expired, and only for its owner.
\<close>

theorem delete_removes_only_that_key:
  assumes run: "deleteApiKeyEndpoint ctx env confs configId keyId (Str userId) banned s = (Inr (), t)"
    and wf: "wf_db (k_db s)" and tab: "tables (k_db s) API_KEY_TABLE_NAME \<noteq> None"
    and A: "c_adapter ctx = mem_adapter cfg"
    and d: "\<forall>r \<in> set (mem_rows (k_db s) API_KEY_TABLE_NAME). dated r"
    and db: "\<forall>c \<in> set confs. \<not> o_secondary c \<and> \<not> r_organization c"
  shows "\<not> banned \<and>
    (\<exists>k \<in> set (mem_rows (k_db s) API_KEY_TABLE_NAME). get_field k ''id'' = Str keyId \<and>
       get_field k ''referenceId'' = Str userId) \<and>
    (\<forall>r \<in> set (mem_rows (k_db t) API_KEY_TABLE_NAME).
       r \<in> set (mem_rows (k_db s) API_KEY_TABLE_NAME) \<and> get_field r ''id'' \<noteq> Str keyId) \<and>
    (\<forall>r \<in> set (mem_rows (k_db s) API_KEY_TABLE_NAME). get_field r ''id'' \<noteq> Str keyId \<longrightarrow>
       r \<in> set (mem_rows (k_db t) API_KEY_TABLE_NAME) \<or> past_expiry (now_ms (c_clock ctx) 15) r)"
proof -
  have conf: "\<not> o_secondary c \<and> \<not> r_organization c" if "resolveConfiguration confs x = Inr c" for x c
  proof -
    have "\<exists>c0 \<in> set confs. c = c0 \<or> c = c0\<lparr>o_configId := Some ''default''\<rparr>"
      using that
      by (auto simp: resolveConfiguration_def getDefaultConfig_def split: if_splits option.splits
          dest!: find_Some_in)
    with db show ?thesis by auto
  qed
  from run have nb: "\<not> banned" by (auto simp: deleteApiKeyEndpoint_def)
  with run obtain k opts u where f: "find_managed_key ctx env confs configId keyId (Str userId) ''delete'' s = (Inr (k, opts), u)"
    and rest: "bindA (catchA (if o_secondary opts \<and> o_fallbackToDatabase opts
             then bindA (deleteApiKey ctx k (base_opts opts)) (\<lambda>_. onDb (a_delete (c_adapter ctx) API_KEY_TABLE_NAME [wh_eq ''id'' (id_of k)]))
             else if \<not> o_secondary opts then onDb (a_delete (c_adapter ctx) API_KEY_TABLE_NAME [wh_eq ''id'' (id_of k)])
             else deleteApiKey ctx k (base_opts opts)) (\<lambda>_. throwA internal_error))
         (\<lambda>_. deleteAllExpiredApiKeys ctx False) u = (Inr (), t)"
    by (auto simp: deleteApiKeyEndpoint_def bindA_Inr_iff Let_def)
  from find_managed_key_owned[OF f] obtain lookup v where
    look: "resolveConfiguration confs configId = Inr lookup"
    and get: "getApiKeyById ctx keyId (base_opts lookup) s = (Inr (Some k), v)"
    and opts: "resolveConfiguration confs (get_field k ''configId'') = Inr opts"
    and own: "get_field k ''referenceId'' = Str userId"
    using conf by auto
  from get conf[OF look] A have find: "a_findOne (mem_adapter cfg) API_KEY_TABLE_NAME [wh_eq ''id'' (Str keyId)] (k_db s)
      = (Inr (Some k), k_db v)" and sv: "v = s\<lparr>k_db := k_db v\<rparr>"
    by (auto simp: getApiKeyById_database onDb_def split: prod.splits)
  from mem.findOne_pure[OF wf find] have k: "k \<in> set (mem_rows (k_db s) API_KEY_TABLE_NAME)"
    "get_field k ''id'' = Str keyId" and "v = s" using sv by auto
  with f look get opts conf have us: "u = s"
    by (auto simp: find_managed_key_def bindA_def split: if_splits)
  obtain db' where del: "mem_delete cfg API_KEY_TABLE_NAME [wh_eq ''id'' (Str keyId)] (k_db s) = (Inr (), db')"
    and wf': "wf_db db'" and rows': "mem_rows db' API_KEY_TABLE_NAME =
       filter (\<lambda>r. get_field r ''id'' \<noteq> Str keyId) (mem_rows (k_db s) API_KEY_TABLE_NAME)"
    and tab': "tables db' API_KEY_TABLE_NAME \<noteq> None"
  proof (rule mem_delete_simple[OF wf tab, of "[wh_eq ''id'' (Str keyId)]" cfg])
    fix t assume "mem_delete cfg API_KEY_TABLE_NAME [wh_eq ''id'' (Str keyId)] (k_db s) = (Inr (), t)" "wf_db t"
      "mem_rows t API_KEY_TABLE_NAME = filter (\<lambda>r. \<not> list_all (clause_holds (hostEnv cfg) r)
         [wh_eq ''id'' (Str keyId)]) (mem_rows (k_db s) API_KEY_TABLE_NAME)"
      "\<And>m'. tables t m' = None \<longleftrightarrow> tables (k_db s) m' = None"
    with tab show thesis by (intro that[of t]) simp_all
  qed simp_all
  let ?u = "s\<lparr>k_db := db'\<rparr>"
  have "deleteAllExpiredApiKeys ctx False ?u = (Inr (), t)"
    using rest conf[OF opts] del by (simp add: us A k(2) id_of_def bindA_def catchA_def onDb_def)
  moreover obtain t' where "deleteAllExpiredApiKeys ctx False ?u = (Inr (), t')"
    "mem_rows (k_db t') API_KEY_TABLE_NAME =
       (if throttled ctx False ?u then mem_rows (k_db ?u) API_KEY_TABLE_NAME
        else filter (\<lambda>r. \<not> past_expiry (now_ms (c_clock ctx) 15) r) (mem_rows (k_db ?u) API_KEY_TABLE_NAME))"
    by (rule cleanup_app[of ?u ctx cfg False]) (use wf' tab' A d rows' in auto)
  ultimately show ?thesis using nb k own rows' by (auto split: if_splits)
qed

theorem delete_removes_only_that_key_witness:
  "\<exists>t. deleteApiKeyEndpoint (demo_ctx (\<lambda>_. (9, 5500))) demo_env [demo_conf] Undef ''k1'' (Str ''u1'') False
       demo_state = (Inr (), t) \<and> mem_rows (k_db t) API_KEY_TABLE_NAME = []"
proof -
  obtain db' where del: "mem_delete demo_cfg API_KEY_TABLE_NAME [wh_eq ''id'' (Str ''k1'')] (demo_keys demo_key) = (Inr (), db')"
    by (rule mem_delete_simple[of "demo_keys demo_key" API_KEY_TABLE_NAME "[wh_eq ''id'' (Str ''k1'')]" demo_cfg]) auto
  then obtain t where run: "deleteApiKeyEndpoint (demo_ctx (\<lambda>_. (9, 5500))) demo_env [demo_conf] Undef ''k1''
      (Str ''u1'') False demo_state = (Inr (), t)"
    by (simp add: deleteApiKeyEndpoint_def bindA_def demo_found catchA_def onDb_def)
  have "\<forall>r \<in> set (mem_rows (k_db t) API_KEY_TABLE_NAME). r \<in> {demo_key} \<and> get_field r ''id'' \<noteq> Str ''k1''"
    using delete_removes_only_that_key[OF run, of demo_cfg] by (simp add: dated_def)
  then have "mem_rows (k_db t) API_KEY_TABLE_NAME = []"
    by (cases "mem_rows (k_db t) API_KEY_TABLE_NAME") auto
  with run show ?thesis by auto
qed

section \<open>Creation\<close>

lemma resolve_database:
  "\<forall>c \<in> set confs. \<not> o_secondary c \<Longrightarrow> resolveConfiguration confs x = Inr c \<Longrightarrow> \<not> o_secondary c"
  by (auto simp: resolveConfiguration_def getDefaultConfig_def split: if_splits option.splits
      dest!: find_Some_in)

lemma cleanup_subset:
  assumes wf: "wf_db (k_db u)" and A: "c_adapter ctx = mem_adapter cfg"
    and run: "deleteAllExpiredApiKeys ctx b u = (x, v)"
  shows "set (mem_rows (k_db v) m) \<subseteq> set (mem_rows (k_db u) m) \<and> wf_db (k_db v)"
proof (cases "throttled ctx b u")
  case True
  then have "deleteAllExpiredApiKeys ctx b u = (Inr (), u)"
    by (auto simp: deleteAllExpiredApiKeys_def throttled_def Let_def)
  with run wf show ?thesis by simp
next
  case False
  let ?ws = "[wh ''expiresAt'' Op_lt (date_at (c_clock ctx) 15), wh ''expiresAt'' Op_ne Null]"
  obtain y d where del: "mem_deleteMany cfg API_KEY_TABLE_NAME ?ws (k_db u) = (y, d)" by force
  have v: "k_db v = d"
    using run del False
    by (auto simp: deleteAllExpiredApiKeys_def throttled_def Let_def A catchA_def bindA_def onDb_def
        split: option.splits sum.splits)
  have "wf_db d" and frame: "m \<noteq> API_KEY_TABLE_NAME \<Longrightarrow> mem_rows d m = mem_rows (k_db u) m"
    using mem.deleteMany_frame[OF wf, of cfg] del by auto
  moreover have "set (mem_rows d API_KEY_TABLE_NAME) \<subseteq> set (mem_rows (k_db u) API_KEY_TABLE_NAME)"
  proof (cases y)
    case (Inl e)
    with del mem.deleteMany_error[OF wf, of cfg] show ?thesis by auto
  next
    case (Inr n)
    with del mem.deleteMany_rows[OF wf, of cfg] show ?thesis by auto
  qed
  ultimately show ?thesis by (cases "m = API_KEY_TABLE_NAME") (auto simp: v)
qed

lemma create_reference_state:
  assumes wf: "wf_db (k_db s)" and A: "c_adapter ctx = mem_adapter cfg"
    and run: "create_reference ctx env opts body s = (Inr ref, u)"
  shows "u = s"
proof (cases "r_organization opts")
  case False
  with run show ?thesis by (auto simp: create_reference_def Let_def split: if_splits)
next
  case True
  with run obtain m where "checkOrgApiKeyPermission ctx env
      (js_or (session_user env) (get_field body ''userId'')) (get_field body ''organizationId'') ''create'' s = (Inr m, u)"
    by (auto simp: create_reference_def Let_def bindA_Inr_iff split: if_splits)
  then obtain y d where f: "a_findOne (mem_adapter cfg) ''member''
      [wh_eq ''userId'' (js_or (session_user env) (get_field body ''userId'')),
       wh_eq ''organizationId'' (get_field body ''organizationId'')] (k_db s) = (y, d)" and u: "u = s\<lparr>k_db := d\<rparr>"
    by (auto simp: checkOrgApiKeyPermission_def A bindA_def onDb_def split: if_splits option.splits prod.splits sum.splits)
  from mem.findOne_pure[OF wf f] u show ?thesis by simp
qed

lemma create_run:
  assumes run: "createApiKey ctx env confs body s = (Inr r, t)" and wf: "wf_db (k_db s)"
    and A: "c_adapter ctx = mem_adapter cfg" "\<not> useNumberId cfg" and db: "\<forall>c \<in> set confs. \<not> o_secondary c"
  obtains opts ref v key data where
    "resolveConfiguration confs (get_field body ''configId'') = Inr opts"
    "create_reference ctx env opts body s = (Inr ref, s)" "create_checks opts body = Inr ()"
    "deleteAllExpiredApiKeys ctx False s = (Inr (), v)"
    "key = e_keyGenerator env (r_defaultKeyLength opts) (js_or (get_field body ''prefix'') (r_defaultPrefix opts))"
    "data = create_data (c_clock ctx) env opts body ref key (if o_disableKeyHashing opts then key else c_hash ctx key)"
    "mem_create cfg API_KEY_TABLE_NAME data (k_db v) = (Inr data, k_db t)"
    "r = object_assign data [(''key'', Str key), (''metadata'', coalesce (get_field body ''metadata'') Null),
       (''permissions'', parsed_permissions env data)]"
proof -
  from run obtain opts ref u v where opts: "resolveConfiguration confs (get_field body ''configId'') = Inr opts"
    and ref: "create_reference ctx env opts body s = (Inr ref, u)" and chk: "create_checks opts body = Inr ()"
    and cl: "deleteAllExpiredApiKeys ctx False u = (Inr (), v)"
    and st: "bindA (store_new_key ctx env opts (create_data (c_clock ctx) env opts body ref
          (e_keyGenerator env (r_defaultKeyLength opts) (js_or (get_field body ''prefix'') (r_defaultPrefix opts)))
          (if o_disableKeyHashing opts
           then e_keyGenerator env (r_defaultKeyLength opts) (js_or (get_field body ''prefix'') (r_defaultPrefix opts))
           else c_hash ctx (e_keyGenerator env (r_defaultKeyLength opts) (js_or (get_field body ''prefix'') (r_defaultPrefix opts))))))
        (\<lambda>apiKey. returnA (object_assign apiKey
          [(''key'', Str (e_keyGenerator env (r_defaultKeyLength opts) (js_or (get_field body ''prefix'') (r_defaultPrefix opts)))),
           (''metadata'', coalesce (get_field body ''metadata'') Null),
           (''permissions'', parsed_permissions env apiKey)])) v = (Inr r, t)"
    by (auto simp: createApiKey_def bindA_Inr_iff Let_def)
  note us = create_reference_state[OF wf A(1) ref]
  have "\<not> o_secondary opts" using resolve_database[OF db opts] .
  with st obtain data where
    "data = create_data (c_clock ctx) env opts body ref
          (e_keyGenerator env (r_defaultKeyLength opts) (js_or (get_field body ''prefix'') (r_defaultPrefix opts)))
          (if o_disableKeyHashing opts
           then e_keyGenerator env (r_defaultKeyLength opts) (js_or (get_field body ''prefix'') (r_defaultPrefix opts))
           else c_hash ctx (e_keyGenerator env (r_defaultKeyLength opts) (js_or (get_field body ''prefix'') (r_defaultPrefix opts))))"
    "mem_create cfg API_KEY_TABLE_NAME data (k_db v) = (Inr data, k_db t)"
    "r = object_assign data [(''key'', Str (e_keyGenerator env (r_defaultKeyLength opts)
          (js_or (get_field body ''prefix'') (r_defaultPrefix opts)))), (''metadata'', coalesce (get_field body ''metadata'') Null),
       (''permissions'', parsed_permissions env data)]"
    using A by (auto simp: store_new_key_def bindA_Inr_iff onDb_def mem_create_def Let_def)
  then show thesis using that[OF opts ref[unfolded us] chk cl[unfolded us] refl] by blast
qed

lemma create_data_fields:
  "get_field (create_data clk env opts body ref key hashed) ''key'' = Str hashed"
  "get_field (create_data clk env opts body ref key hashed) ''enabled'' = BoolV True"
  "get_field (create_data clk env opts body ref key hashed) ''referenceId'' = ref"
  "get_field (create_data clk env opts body ref key hashed) ''requestCount'' = Num 0"
  "get_field (create_data clk env opts body ref key hashed) ''lastRequest'' = Null"
  "get_field (create_data clk env opts body ref key hashed) ''remaining'' =
     (if get_field body ''remaining'' = Null then Null
      else coalesce (get_field body ''remaining'') (coalesce (get_field body ''refillAmount'') Null))"
  "truthy (get_field body ''expiresIn'') \<Longrightarrow>
     get_field (create_data clk env opts body ref key hashed) ''expiresAt'' =
       DateV (fst (clk 12)) (now_ms clk 12 + num_of (get_field body ''expiresIn'') * 1000)"
  by (simp_all add: create_data_def Let_def getDate_def)

text \<open>
  A key created in the database belongs to the caller and keeps to the configuration:
  a client names no server-only property and gets a key of its own session's user (with no
  quota), a requested lifetime lies between the configured number of days, a refill has
  both amount and interval, the key starts enabled and unused, and the row is added after
  the others while the secret is only in the answer.
\<close>

theorem created_key_keeps_policy:
  assumes run: "createApiKey ctx env confs body s = (Inr r, t)" and wf: "wf_db (k_db s)"
    and A: "c_adapter ctx = mem_adapter cfg" "\<not> useNumberId cfg" and db: "\<forall>c \<in> set confs. \<not> o_secondary c"
  shows "\<exists>opts ref v data secret. resolveConfiguration confs (get_field body ''configId'') = Inr opts \<and>
    deleteAllExpiredApiKeys ctx False s = (Inr (), v) \<and>
    mem_rows (k_db t) API_KEY_TABLE_NAME = mem_rows (k_db v) API_KEY_TABLE_NAME @ [data] \<and>
    get_field data ''key'' = Str (if o_disableKeyHashing opts then secret else c_hash ctx secret) \<and>
    get_field r ''key'' = Str secret \<and>
    get_field data ''enabled'' = BoolV True \<and> get_field data ''requestCount'' = Num 0 \<and>
    get_field data ''lastRequest'' = Null \<and> get_field data ''referenceId'' = ref \<and>
    (isClientRequest env \<and> \<not> r_organization opts \<longrightarrow>
       ref = session_user env \<and> truthy ref \<and> \<not> isUsingServerOnlyProps body \<and> get_field data ''remaining'' = Null) \<and>
    (r_organization opts \<longrightarrow> (\<exists>m. checkPermission env (get_field m ''role'') ref ''create'')) \<and>
    (truthy (get_field body ''refillAmount'') \<longleftrightarrow> truthy (get_field body ''refillInterval'')) \<and>
    (truthy (get_field body ''expiresIn'') \<longrightarrow>
       r_minExpiresIn opts * 86400 \<le> num_of (get_field body ''expiresIn'') \<and>
       num_of (get_field body ''expiresIn'') \<le> r_maxExpiresIn opts * 86400 \<and>
       get_field data ''expiresAt'' =
         DateV (fst (c_clock ctx 12)) (now_ms (c_clock ctx) 12 + num_of (get_field body ''expiresIn'') * 1000))"
proof (rule create_run[OF assms])
  fix opts ref v key data
  assume opts: "resolveConfiguration confs (get_field body ''configId'') = Inr opts"
    and ref: "create_reference ctx env opts body s = (Inr ref, s)" and chk: "create_checks opts body = Inr ()"
    and cl: "deleteAllExpiredApiKeys ctx False s = (Inr (), v)"
    and data: "data = create_data (c_clock ctx) env opts body ref key
      (if o_disableKeyHashing opts then key else c_hash ctx key)"
    and cr: "mem_create cfg API_KEY_TABLE_NAME data (k_db v) = (Inr data, k_db t)"
    and r: "r = object_assign data [(''key'', Str key), (''metadata'', coalesce (get_field body ''metadata'') Null),
       (''permissions'', parsed_permissions env data)]"
  have wv: "wf_db (k_db v)" using cleanup_subset[OF wf A(1) cl] by blast
  have rows: "mem_rows (k_db t) API_KEY_TABLE_NAME = mem_rows (k_db v) API_KEY_TABLE_NAME @ [data]"
    using mem.create_row[OF wv, of cfg] cr by simp
  have own: "isClientRequest env \<and> \<not> r_organization opts \<longrightarrow>
      ref = session_user env \<and> truthy ref \<and> \<not> isUsingServerOnlyProps body"
    using ref by (auto simp: create_reference_def Let_def split: if_splits)
  have org: "r_organization opts \<longrightarrow> (\<exists>m. checkPermission env (get_field m ''role'') ref ''create'')"
    using ref
    by (auto simp: create_reference_def Let_def bindA_Inr_iff split: if_splits dest!: checkOrgApiKeyPermission_ok)
  have refill: "truthy (get_field body ''refillAmount'') \<longleftrightarrow> truthy (get_field body ''refillInterval'')"
    using chk by (auto simp: create_checks_def bindR_Inr_iff check_refill_def Let_def split: if_splits)
  have exp: "truthy (get_field body ''expiresIn'') \<longrightarrow>
      r_minExpiresIn opts * 86400 \<le> num_of (get_field body ''expiresIn'') \<and>
      num_of (get_field body ''expiresIn'') \<le> r_maxExpiresIn opts * 86400"
    using chk by (auto simp: create_checks_def bindR_Inr_iff check_expires_def expires_in_range_def Let_def
        split: if_splits)
  have quota: "\<not> isUsingServerOnlyProps body \<longrightarrow> get_field data ''remaining'' = Null"
    by (auto simp: data create_data_fields isUsingServerOnlyProps_def)
  have "get_field r ''key'' = Str key" by (simp add: r row_simps)
  then show ?thesis
    using opts cl rows own org refill exp quota
    by (intro exI[of _ opts] exI[of _ ref] exI[of _ v] exI[of _ data] exI[of _ key])
       (auto simp: data create_data_fields)
qed

definition demo_create_body :: row where
  "demo_create_body = [(''name'', Str ''ci''), (''expiresIn'', Num 172800), (''remaining'', Null)]"

lemma demo_body_fields [simp]:
  "get_field demo_create_body ''configId'' = Undef" "get_field demo_create_body ''name'' = Str ''ci''"
  "get_field demo_create_body ''expiresIn'' = Num 172800" "get_field demo_create_body ''remaining'' = Null"
  "get_field demo_create_body ''refillAmount'' = Undef" "get_field demo_create_body ''refillInterval'' = Undef"
  "get_field demo_create_body ''userId'' = Undef" "get_field demo_create_body ''metadata'' = Undef"
  "get_field demo_create_body ''prefix'' = Undef" "\<not> isUsingServerOnlyProps demo_create_body"
  by (simp_all add: demo_create_body_def isUsingServerOnlyProps_def)

lemma demo_created:
  "\<exists>r t. createApiKey (demo_ctx (\<lambda>_. (9, 5500))) demo_env [demo_conf] demo_create_body demo_state = (Inr r, t)"
proof -
  have "create_reference (demo_ctx (\<lambda>_. (9, 5500))) demo_env demo_conf demo_create_body demo_state =
      (Inr (Str ''u1''), demo_state)"
    by (simp add: create_reference_def)
  moreover have "create_checks demo_conf demo_create_body = Inr ()"
    by (simp add: create_checks_def check_metadata_def check_refill_def check_expires_def expires_in_range_def
        check_prefix_def check_name_def length_in_def num_of_def)
  moreover have "mem_create demo_cfg m d db = (Inr d, (set_table db m (table_of db m @ [(next_ref db, d)]))
      \<lparr>next_ref := Suc (next_ref db)\<rparr>)" for m d db
    by (simp add: mem_create_def demo_cfg_def)
  ultimately show ?thesis
    by (simp add: createApiKey_def bindA_def store_new_key_def onDb_def Let_def)
qed

theorem created_key_keeps_policy_witness:
  "\<exists>r t data secret. createApiKey (demo_ctx (\<lambda>_. (9, 5500))) demo_env [demo_conf] demo_create_body demo_state
       = (Inr r, t) \<and> data \<in> set (mem_rows (k_db t) API_KEY_TABLE_NAME) \<and>
     get_field data ''key'' = Str secret \<and> get_field r ''key'' = Str secret \<and>
     get_field data ''referenceId'' = Str ''u1'' \<and> get_field data ''expiresAt'' = DateV 9 172805500"
proof -
  obtain r t where run: "createApiKey (demo_ctx (\<lambda>_. (9, 5500))) demo_env [demo_conf] demo_create_body demo_state
       = (Inr r, t)" using demo_created by blast
  have "\<not> useNumberId demo_cfg" by (simp add: demo_cfg_def)
  from created_key_keeps_policy[OF run _ _ this] run show ?thesis
    by (auto simp: num_of_def now_ms_def)
qed

text \<open>
  What \<open>createApiKey\<close> returns works: looked up by the hash of the returned secret, the
  new row is found, as it was stored (no other key having that hash).
\<close>

theorem created_key_is_found:
  assumes run: "createApiKey ctx env confs body s = (Inr r, t)" and wf: "wf_db (k_db s)"
    and A: "c_adapter ctx = mem_adapter cfg" "\<not> useNumberId cfg" and db: "\<forall>c \<in> set confs. \<not> o_secondary c"
    and opts: "resolveConfiguration confs (get_field body ''configId'') = Inr opts"
    and secret: "get_field r ''key'' = Str secret"
    and hashed: "hashed = (if o_disableKeyHashing opts then secret else c_hash ctx secret)"
    and fresh: "\<forall>q \<in> set (mem_rows (k_db s) API_KEY_TABLE_NAME). get_field q ''key'' \<noteq> Str hashed"
  shows "\<exists>data. getApiKey ctx hashed (base_opts opts) t = (Inr (Some data), t) \<and>
     get_field data ''key'' = Str hashed \<and> get_field data ''enabled'' = BoolV True"
proof (rule create_run[OF run wf A db])
  fix opts' ref v key data
  assume opts': "resolveConfiguration confs (get_field body ''configId'') = Inr opts'"
    and cl: "deleteAllExpiredApiKeys ctx False s = (Inr (), v)"
    and data: "data = create_data (c_clock ctx) env opts' body ref key
      (if o_disableKeyHashing opts' then key else c_hash ctx key)"
    and cr: "mem_create cfg API_KEY_TABLE_NAME data (k_db v) = (Inr data, k_db t)"
    and r: "r = object_assign data [(''key'', Str key), (''metadata'', coalesce (get_field body ''metadata'') Null),
       (''permissions'', parsed_permissions env data)]"
  have sub: "set (mem_rows (k_db v) API_KEY_TABLE_NAME) \<subseteq> set (mem_rows (k_db s) API_KEY_TABLE_NAME)"
    and wv: "wf_db (k_db v)" using cleanup_subset[OF wf A(1) cl] by auto
  have rows: "mem_rows (k_db t) API_KEY_TABLE_NAME = mem_rows (k_db v) API_KEY_TABLE_NAME @ [data]"
    using mem.create_row[OF wv, of cfg] cr by simp
  have key: "key = secret" using secret by (simp add: r row_simps)
  have dk: "get_field data ''key'' = Str hashed" "get_field data ''enabled'' = BoolV True"
    using opts opts' by (simp_all add: data create_data_fields hashed key)
  have "filter (\<lambda>q. get_field q ''key'' = Str hashed) (mem_rows (k_db t) API_KEY_TABLE_NAME) = [data]"
    using fresh sub dk by (auto simp: rows filter_empty_conv)
  moreover have "k_db t = (set_table (k_db v) API_KEY_TABLE_NAME
      (table_of (k_db v) API_KEY_TABLE_NAME @ [(next_ref (k_db v), data)]))\<lparr>next_ref := Suc (next_ref (k_db v))\<rparr>"
    using cr A(2) by (simp add: mem_create_def)
  then have "tables (k_db t) API_KEY_TABLE_NAME \<noteq> None"
    by (simp add: set_table_def)
  ultimately have "a_findOne (mem_adapter cfg) API_KEY_TABLE_NAME [wh_eq ''key'' (Str hashed)] (k_db t)
      = (Inr (Some data), k_db t)"
    by (intro mem_findOne_unique) simp_all
  with resolve_database[OF db opts] A(1) dk show ?thesis
    by (auto simp: getApiKey_def lookupApiKey_def onDb_def)
qed

theorem created_key_is_found_witness:
  "\<exists>r t secret data. createApiKey (demo_ctx (\<lambda>_. (9, 5500))) demo_env [demo_conf] demo_create_body demo_state
       = (Inr r, t) \<and> get_field r ''key'' = Str secret \<and>
     getApiKey (demo_ctx (\<lambda>_. (9, 5500))) secret demo_opts t = (Inr (Some data), t)"
proof -
  obtain r t where run: "createApiKey (demo_ctx (\<lambda>_. (9, 5500))) demo_env [demo_conf] demo_create_body demo_state
       = (Inr r, t)" using demo_created by blast
  have num: "\<not> useNumberId demo_cfg" by (simp add: demo_cfg_def)
  have "get_field r ''key'' = Str ''secret''"
    by (rule create_run[OF run _ _ num]) (simp_all add: row_simps demo_env_def)
  with created_key_is_found[OF run _ _ num, of demo_conf "''secret''" "''secret''"] run show ?thesis
    by auto
qed

section \<open>Listing, verification and sessions\<close>

text \<open>
  A listing shows a caller only keys of the requested owner: every listed key belongs
  to the user, or to the organization the caller may read, under a configuration of that
  kind and matching the requested one; the stored hash is never shown, and a page holds at
  most as many keys as the reported total.
\<close>

theorem list_shows_owned_keys:
  assumes "listApiKeysEndpoint ctx env confs configId organizationId userId sort_by limit offset s
     = (Inr (ks, n), t)"
  shows "\<exists>isOrg referenceId. isOrg = (organizationId \<noteq> None \<and> organizationId \<noteq> Some []) \<and>
     referenceId = (case organizationId of Some g \<Rightarrow> g | None \<Rightarrow> userId) \<and>
     (isOrg \<longrightarrow> (\<exists>m. checkPermission env (get_field m ''role'') (Str referenceId) ''read'')) \<and>
     (\<forall>k' \<in> set ks. get_field k' ''key'' = Undef \<and>
        (\<exists>k. owned_key confs isOrg referenceId k \<and>
           get_field k ''referenceId'' = Str referenceId \<and>
           (truthy configId \<longrightarrow> configIdMatches (get_field k ''configId'') configId) \<and>
           (\<forall>f. f \<notin> {''key'', ''metadata'', ''permissions''} \<longrightarrow> get_field k' f = get_field k f))) \<and>
     length ks \<le> n"
proof -
  let ?org = "case organizationId of Some g \<Rightarrow> g \<noteq> [] | None \<Rightarrow> False"
  let ?ref = "case organizationId of Some g \<Rightarrow> g | None \<Rightarrow> userId"
  let ?filt = "\<lambda>all. if truthy configId
      then filter (\<lambda>k. configIdMatches (get_field k ''configId'') configId) (filter (owned_key confs ?org ?ref) all)
      else filter (owned_key confs ?org ?ref) all"
  from assms obtain u all where perm: "(if ?org
             then bindA (checkOrgApiKeyPermission ctx env (Str userId) (Str ?ref) ''read'') (\<lambda>_. returnA ())
             else returnA ()) s = (Inr (), u)"
    and ks: "ks = map (\<lambda>k. public_key env k
                 (parseDoubleStringifiedMetadata (e_parse env) (get_field k ''metadata''))) (paginate offset limit (?filt all))"
    and n: "n = length (?filt all)"
    by (auto simp: listApiKeysEndpoint_def Let_def bindA_Inr_iff cong: if_cong)
  have pub: "get_field (public_key env k md) ''key'' = Undef \<and>
      (\<forall>f. f \<notin> {''key'', ''metadata'', ''permissions''} \<longrightarrow> get_field (public_key env k md) f = get_field k f)" for k md
    by (auto simp: public_key_def row_simps get_field_dropped get_field_kept)
  have len: "length (paginate offset limit xs) \<le> length xs" for xs :: "row list"
    by (auto simp: paginate_def slice_from_def slice_upto_def Let_def split: option.splits)
  have "\<exists>m. checkPermission env (get_field m ''role'') (Str ?ref) ''read''" if "?org"
    using perm that by (auto simp: bindA_Inr_iff dest!: checkOrgApiKeyPermission_ok)
  then have org: "?org \<longrightarrow> (\<exists>m. checkPermission env (get_field m ''role'') (Str ?ref) ''read'')"
    by blast
  have page: "owned_key confs ?org ?ref k \<and> get_field k ''referenceId'' = Str ?ref \<and>
      (truthy configId \<longrightarrow> configIdMatches (get_field k ''configId'') configId)"
    if "k \<in> set (paginate offset limit (?filt all))" for k
    using set_paginate[of offset limit "?filt all"] that by (auto simp: owned_key_def split: if_splits)
  have keys: "\<forall>k' \<in> set ks. get_field k' ''key'' = Undef \<and>
        (\<exists>k. owned_key confs ?org ?ref k \<and> get_field k ''referenceId'' = Str ?ref \<and>
           (truthy configId \<longrightarrow> configIdMatches (get_field k ''configId'') configId) \<and>
           (\<forall>f. f \<notin> {''key'', ''metadata'', ''permissions''} \<longrightarrow> get_field k' f = get_field k f))"
  proof
    fix k' assume "k' \<in> set ks"
    then obtain k where k: "k \<in> set (paginate offset limit (?filt all))"
      and k': "k' = public_key env k (parseDoubleStringifiedMetadata (e_parse env) (get_field k ''metadata''))"
      unfolding ks set_map by (rule imageE) (rule that)
    show "get_field k' ''key'' = Undef \<and>
        (\<exists>k. owned_key confs ?org ?ref k \<and> get_field k ''referenceId'' = Str ?ref \<and>
           (truthy configId \<longrightarrow> configIdMatches (get_field k ''configId'') configId) \<and>
           (\<forall>f. f \<notin> {''key'', ''metadata'', ''permissions''} \<longrightarrow> get_field k' f = get_field k f))"
      unfolding k' using pub page[OF k] by blast
  qed
  have "?org = (organizationId \<noteq> None \<and> organizationId \<noteq> Some [])" by (auto split: option.splits)
  moreover have "length ks \<le> n" unfolding ks n length_map by (rule len)
  ultimately show ?thesis using org keys by (intro exI[of _ "?org"] exI[of _ "?ref"]) blast
qed

theorem list_shows_owned_keys_witness:
  "\<exists>k'. listApiKeysEndpoint (demo_ctx (\<lambda>_. (9, 5500))) demo_env [demo_conf] Undef None ''u1'' None None None
       demo_state = (Inr ([k'], 1), demo_state) \<and> get_field k' ''key'' = Undef"
proof -
  have lists: "listed_keys (demo_ctx (\<lambda>_. (9, 5500))) [demo_conf] Undef ''u1'' None demo_state =
      (Inr [demo_key], demo_state)"
    by (simp add: listed_keys_def listApiKeys_def list_from_database_def named_sort_def onDb_def bindA_def Let_def)
  have "owned_key [demo_conf] False ''u1'' demo_key"
    by (simp add: owned_key_def key_config_def isDefaultConfigId_def config_val_def)
  moreover have "get_field demo_key ''metadata'' = Undef" by (simp add: demo_key_def)
  ultimately obtain k' where run: "listApiKeysEndpoint (demo_ctx (\<lambda>_. (9, 5500))) demo_env [demo_conf] Undef None ''u1''
      None None None demo_state = (Inr ([k'], 1), demo_state)"
    using lists
    by (simp add: listApiKeysEndpoint_def Let_def bindA_def batchMigrateLegacyMetadata_def
        needsMetadataMigration_def paginate_def)
  from list_shows_owned_keys[OF run] run show ?thesis by auto
qed

lemma migrate_answers:
  "\<exists>v t. migrateDoubleStringifiedMetadata ctx parse k opts s = (Inr v, t)"
  by (auto simp: migrateDoubleStringifiedMetadata_def Let_def bindA_def catchA_def
      split: prod.splits sum.splits)

text \<open>
  The verify endpoint always answers: once its configuration resolves, every failure of
  the validation becomes an answer with \<open>valid: false\<close>, no exception leaves the endpoint, and
  a positive answer never contains the stored hash.
\<close>

theorem verify_endpoint_answers:
  assumes "resolveConfiguration confs (case configId of Some c \<Rightarrow> Str c | None \<Rightarrow> Undef) = Inr lookup"
    and "verifyApiKey fuel ctx env parse confs configId key permissions s = (x, t)"
  shows "x = Inl OutOfFuel \<or> (\<exists>code. x = Inr (NotValid code)) \<or>
    (\<exists>k. x = Inr (Valid k) \<and> get_field k ''key'' = Undef)"
proof -
  have pub: "get_field (public_key env k md) ''key'' = Undef" for k md
    by (simp add: public_key_def row_simps get_field_dropped)
  have ok: "\<exists>k. fst (verified_key ctx env k' opts u) = Inr (Valid k) \<and> get_field k ''key'' = Undef" for k' opts u
  proof -
    obtain v t where "migrateDoubleStringifiedMetadata ctx (e_parse env) k' opts u = (Inr v, t)"
      using migrate_answers[of ctx "e_parse env" k' opts u] by blast
    then show ?thesis using pub by (simp add: verified_key_def bindA_def)
  qed
  have bad: "fst (verify_failure e u) = Inl OutOfFuel \<or> (\<exists>code. fst (verify_failure e u) = Inr (NotValid code))" for e u
    by (cases e) (simp_all add: verify_failure_def)
  show ?thesis
  proof (cases "configId \<noteq> None \<and> (case o_customAPIKeyValidator lookup of Some f \<Rightarrow> \<not> f key | None \<Rightarrow> False)")
    case True
    with assms show ?thesis by (auto simp: verifyApiKey_def)
  next
    case False
    obtain y v where run: "bindA (validateApiKey fuel ctx parse confs lookup key permissions configId (configId = None))
        (\<lambda>(k, opts). bindA (if o_deferUpdates opts then deleteAllExpiredApiKeys ctx False else returnA ())
           (\<lambda>_. returnA (k, opts))) s = (y, v)" by force
    show ?thesis
    proof (cases y)
      case (Inl e)
      with False run assms have "(x, t) = verify_failure e v" by (auto simp: verifyApiKey_def)
      with bad[of e v] show ?thesis by (cases "verify_failure e v") auto
    next
      case (Inr p)
      with False run assms have "(x, t) = verified_key ctx env (fst p) (snd p) v"
        by (auto simp: verifyApiKey_def split: prod.splits)
      with ok[of "fst p" "snd p" v] show ?thesis by (cases "verified_key ctx env (fst p) (snd p) v") auto
    qed
  qed
qed

text \<open>
  A session built from an API key without an expiry date ends 604,800 milliseconds, about
  ten minutes, after its creation: the seven days in seconds are read as milliseconds.
\<close>

theorem api_key_session_lifetime:
  assumes "api_key_session fuel ctx cl headers parse confs None s = (Inr (Some (user, session)), t)"
  shows "\<exists>key config k opts u. findApiKeyAndConfig headers confs = Some (Str key, config) \<and>
     validateApiKey fuel ctx parse (map base_opts confs) (base_opts config) key None (o_configId config) False s
       = (Inr (k, opts), u) \<and>
     r_defaultKeyLength config \<le> int (length key) \<and> \<not> r_organization config \<and>
     get_field session ''userId'' = get_field k ''referenceId'' \<and>
     (\<not> truthy (get_field k ''expiresAt'') \<longrightarrow>
        get_field session ''expiresAt'' = DateV (fst (c_clock ctx 12)) (now_ms (c_clock ctx) 12 + 604800) \<and>
        604800 < (11 * 60 * 1000 :: int))"
proof -
  from assms obtain key config where found: "findApiKeyAndConfig headers confs = Some (Str key, config)"
    by (auto simp: api_key_session_def split: option.splits val.splits)
  with assms obtain k opts u where v: "validateApiKey fuel ctx parse (map base_opts confs) (base_opts config) key
      None (o_configId config) False s = (Inr (k, opts), u)"
    and len: "r_defaultKeyLength config \<le> int (length key)" and org: "\<not> r_organization config"
    and ses: "session = mock_session (c_clock ctx) cl None key k"
    by (auto simp: api_key_session_def bindA_Inr_iff split: if_splits option.splits)
  have "get_field session ''userId'' = get_field k ''referenceId''"
    by (simp add: ses mock_session_def)
  moreover have "\<not> truthy (get_field k ''expiresAt'') \<Longrightarrow>
      get_field session ''expiresAt'' = DateV (fst (c_clock ctx 12)) (now_ms (c_clock ctx) 12 + 604800)"
    by (simp add: ses mock_session_def js_or_def getDate_def)
  ultimately show ?thesis using found v len org by auto
qed

theorem verify_endpoint_answers_witness:
  "\<exists>x t. verifyApiKey 2 (demo_ctx (\<lambda>_. (9, 5500))) demo_env (\<lambda>_. None) [demo_opts] None ''wrong'' None
     demo_state = (Inr (NotValid ''INVALID_API_KEY''), t)"
proof -
  have conf: "resolveConfiguration [demo_opts] (case None of Some c \<Rightarrow> Str c | None \<Rightarrow> Undef) = Inr demo_opts"
    by (simp add: resolveConfiguration_def getDefaultConfig_def demo_opts_def)
  obtain x t where run: "verifyApiKey 2 (demo_ctx (\<lambda>_. (9, 5500))) demo_env (\<lambda>_. None) [demo_opts] None ''wrong''
      None demo_state = (x, t)" by force
  have "x = Inr (NotValid ''INVALID_API_KEY'')"
    using run conf
    by (auto simp: verifyApiKey_def validateApiKey_def getApiKey_def lookupApiKey_def onDb_def bindA_def
        verify_failure_def INVALID_API_KEY_def Let_def)
  with verify_endpoint_answers[OF conf run] run show ?thesis by blast
qed

definition demo_users :: "row \<Rightarrow> memdb" where
  "demo_users k = \<lparr>tables = [API_KEY_TABLE_NAME \<mapsto> [(0, k)], ''user'' \<mapsto> [(1, [(''id'', Str ''u1'')])]], next_ref = 2\<rparr>"

lemma demo_users_facts [simp]:
  "tables (demo_users k) API_KEY_TABLE_NAME = Some [(0, k)]"
  "tables (demo_users k) ''user'' = Some [(1, [(''id'', Str ''u1'')])]"
  "set_table (demo_users k) API_KEY_TABLE_NAME [(0, k')] = demo_users k'"
  by (auto simp: demo_users_def set_table_def)

lemmas demo_users_simps [simp] = single_increment[OF demo_users_facts(1), unfolded demo_users_facts(3)]
  single_update[OF demo_users_facts(1), unfolded demo_users_facts(3)] single_findOne[OF demo_users_facts(1)]
  single_findOne[OF demo_users_facts(2)]

definition demo_short_conf :: key_conf where
  "demo_short_conf = demo_conf\<lparr>r_defaultKeyLength := 4\<rparr>"

definition demo_caller :: caller where
  "demo_caller = \<lparr>cl_zod = demo_zod, cl_ip = demo_ip, cl_local = False, cl_request = None\<rparr>"

lemma demo_short_sel [simp]:
  "base_opts demo_short_conf = demo_opts" "r_defaultKeyLength demo_short_conf = 4" "\<not> r_organization demo_short_conf"
  "o_configId demo_short_conf = Some ''default''" "r_enableSessionForAPIKeys demo_short_conf"
  "o_customAPIKeyValidator demo_short_conf = None"
  "r_customAPIKeyGetter demo_short_conf = None" "r_apiKeyHeaders demo_short_conf = Inl ''x-api-key''"
  by (simp_all add: demo_short_conf_def demo_conf_def demo_opts_def apikey_opts.defs key_conf.defs)

lemma demo_session_claim:
  "claimUsageInDatabase 2 (demo_ctx (\<lambda>_. (9, 5500))) demo_key demo_opts
      \<lparr>k_db = demo_users demo_key, k_sec = Map.empty, k_lastChecked = Some 5400\<rparr> =
   (Inr (object_assign demo_key
          [(''remaining'', Num 1), (''requestCount'', Num 2), (''lastRequest'', DateV 9 5500),
           (''updatedAt'', DateV 9 5500)]),
    \<lparr>k_db = demo_users (object_assign demo_key
          [(''remaining'', Num 1), (''requestCount'', Num 2), (''lastRequest'', DateV 9 5500),
           (''updatedAt'', DateV 9 5500)]), k_sec = Map.empty, k_lastChecked = Some 5400\<rparr>)"
  by (simp add: claimUsageInDatabase_def demo_opts_def Let_def bindA_def onDb_def
      consumeRemaining_def refill_due_def decrement_remaining_def decrement_op_def numeral_2_eq_2
      evaluateRateLimit_def increment_op_def window_start_def date_at_def id_of_def row_simps
      object_assign_Cons)

theorem api_key_session_lifetime_witness:
  "\<exists>user session t. api_key_session 2 (demo_ctx (\<lambda>_. (9, 5500))) demo_caller (\<lambda>_. Some ''hash'') (\<lambda>_. None) [demo_short_conf] None
       \<lparr>k_db = demo_users demo_key, k_sec = Map.empty, k_lastChecked = Some 5400\<rparr>
       = (Inr (Some (user, session)), t) \<and> get_field session ''userId'' = Str ''u1'' \<and>
     get_field session ''expiresAt'' = DateV 9 610300"
proof -
  let ?s = "\<lparr>k_db = demo_users demo_key, k_sec = Map.empty, k_lastChecked = Some 5400\<rparr> :: memdb kstate"
  let ?k = "object_assign demo_key [(''remaining'', Num 1), (''requestCount'', Num 2), (''lastRequest'', DateV 9 5500),
           (''updatedAt'', DateV 9 5500)]"
  have get: "getApiKey (demo_ctx (\<lambda>_. (9, 5500))) ''hash'' demo_opts ?s = (Inr (Some demo_key), ?s)"
    by (simp add: getApiKey_def lookupApiKey_def onDb_def)
  have "validate_key 2 (demo_ctx (\<lambda>_. (9, 5500))) (\<lambda>_. None) ''hash'' ''hash'' None False demo_key demo_opts ?s =
       bindA (claimUsageInDatabase 2 (demo_ctx (\<lambda>_. (9, 5500))) demo_key demo_opts)
         (\<lambda>n. returnA (n, demo_opts)) ?s"
    by (simp add: validate_key_def expired_at_def check_permissions_def demo_key_def)
  with demo_session_claim get have valid: "validateApiKey 2 (demo_ctx (\<lambda>_. (9, 5500))) (\<lambda>_. None) [demo_opts] demo_opts ''hash''
      None (Some ''default'') False ?s = (Inr (?k, demo_opts), ?s\<lparr>k_db := demo_users ?k\<rparr>)"
    by (simp add: validateApiKey_def Let_def configIdMatches_def bindA_def resolveConfiguration_def)
  have "get_field ?k ''referenceId'' = Str ''u1''" "get_field ?k ''expiresAt'' = Null"
    by (simp_all add: row_simps)
  note k = this
  have found: "findApiKeyAndConfig (\<lambda>_. Some ''hash'') [demo_short_conf] = Some (Str ''hash'', demo_short_conf)"
    by (simp add: getApiKeyFromConfig_def)
  obtain user session t where run: "api_key_session 2 (demo_ctx (\<lambda>_. (9, 5500))) demo_caller (\<lambda>_. Some ''hash'') (\<lambda>_. None)
      [demo_short_conf] None ?s = (Inr (Some (user, session)), t)"
    using valid k by (simp add: api_key_session_def getApiKeyFromConfig_def bindA_def onDb_def)
  from api_key_session_lifetime[OF run] valid k run show ?thesis
    by (auto simp: found getApiKeyFromConfig_def now_ms_def)
qed

end
