(* ===== verification/MemoryTransaction.thy ===== *)
theory MemoryTransaction
  imports MemoryAdapter JsDate
begin

text \<open>
  Transactions of the in-memory store: \<open>transaction\<close>, \<open>mergeTransactionInto\<close>, \<open>indexById\<close>
  and \<open>rowChanged\<close> of \<open>packages/memory-adapter/src/memory-adapter.ts\<close>.

  The callback runs on a clone while other requests may write the live database; the
  commit replays the difference between the base snapshot and the clone. A row object
  taken from the clone keeps its contents; its address is moved above the live counter,
  so that it stays a new object of the live database.
\<close>

section \<open>The three-way merge\<close>

definition row_id :: "obj \<Rightarrow> val" where
  "row_id ob = get_field (obj_row ob) ''id''"

definition indexById :: "obj list \<Rightarrow> (val \<rightharpoonup> obj)" where
  "indexById os = foldl (\<lambda>m ob. m(row_id ob \<mapsto> ob)) Map.empty os"

definition rowChanged :: "obj option \<Rightarrow> obj \<Rightarrow> bool" where
  "rowChanged baseRow cloneRow =
     (case baseRow of
        None \<Rightarrow> True
      | Some b \<Rightarrow> json_row (obj_row b) \<noteq> json_row (obj_row cloneRow))"

text \<open>A clone's object as an object of the live database.\<close>

definition adopt :: "nat \<Rightarrow> obj \<Rightarrow> obj" where
  "adopt k ob = (k + obj_ref ob, obj_row ob)"

text \<open>The first loop: the merged rows and the ids placed.\<close>

fun merge_live ::
  "nat \<Rightarrow> (val \<rightharpoonup> obj) \<Rightarrow> (val \<rightharpoonup> obj) \<Rightarrow> obj list \<Rightarrow> obj list \<times> val list"
where
  "merge_live k baseById cloneById [] = ([], [])"
| "merge_live k baseById cloneById (liveRow # rest) =
     (let i = row_id liveRow; (merged, placed) = merge_live k baseById cloneById rest in
      case (baseById i, cloneById i) of
        (Some _, None) \<Rightarrow> (merged, placed)
      | (b, Some c) \<Rightarrow>
          ((if rowChanged b c then adopt k c else liveRow) # merged, i # placed)
      | (None, None) \<Rightarrow> (liveRow # merged, i # placed))"

definition merge_table :: "nat \<Rightarrow> obj list \<Rightarrow> obj list \<Rightarrow> obj list \<Rightarrow> obj list" where
  "merge_table k liveRows baseRows cloneRows =
     (let baseById = indexById baseRows; cloneById = indexById cloneRows;
          (merged, placed) = merge_live k baseById cloneById liveRows
      in merged @ map (adopt k)
           (filter (\<lambda>c. baseById (row_id c) = None \<and> row_id c \<notin> set placed) cloneRows))"

definition mergeTransactionInto :: "memdb \<Rightarrow> memdb \<Rightarrow> memdb \<Rightarrow> memdb" where
  "mergeTransactionInto target base clone =
     \<lparr>tables = (\<lambda>m.
        if tables base m = None \<and> tables clone m = None then tables target m
        else if tables clone m = None then None
        else Some (merge_table (next_ref target)
               (table_of target m) (table_of base m) (table_of clone m))),
      next_ref = next_ref target + next_ref clone\<rparr>"

section \<open>The transaction\<close>

fun clone_val :: "nat \<Rightarrow> val \<Rightarrow> val" where
  "clone_val k (DateV r t) = DateV (k + r) t"
| "clone_val k (Arr vs) = Arr (map (clone_val k) vs)"
| "clone_val k v = v"

definition clone_row :: "nat \<Rightarrow> row \<Rightarrow> row" where
  "clone_row k r = map (\<lambda>(f, v). (f, clone_val k v)) r"

definition structuredClone :: "nat \<Rightarrow> memdb \<Rightarrow> memdb" where
  "structuredClone k db =
     \<lparr>tables = (\<lambda>m. map_option (map (\<lambda>(r, rec). (r, clone_row k rec))) (tables db m)),
      next_ref = next_ref db\<rparr>"

text \<open>
  \<open>transaction cb others\<close>: \<open>others\<close> is what concurrent requests do to the live database
  while the callback awaits. \<open>base\<close> and \<open>clone\<close> get dates with fresh identities.
\<close>

definition transaction :: "(memdb, 'a) act \<Rightarrow> (memdb \<Rightarrow> memdb) \<Rightarrow> (memdb, 'a) act" where
  "transaction cb others db =
     (let base = structuredClone (next_ref db) db;
          clone = structuredClone (2 * next_ref db) db;
          (r, clone') = cb clone;
          live = others db
      in case r of
           Inl e \<Rightarrow> (Inl e, live)
         | Inr x \<Rightarrow> (Inr x, mergeTransactionInto live base clone'))"

section \<open>Lemmas\<close>

lemma indexById_snoc: "indexById (os @ [ob]) = (indexById os)(row_id ob \<mapsto> ob)"
  by (simp add: indexById_def)

lemma indexById_Nil [simp]: "indexById [] = Map.empty"
  by (simp add: indexById_def)

lemma indexById_None_iff: "indexById os i = None \<longleftrightarrow> i \<notin> row_id ` set os"
  by (induction os rule: rev_induct) (auto simp: indexById_snoc)

lemma indexById_SomeD: "indexById os i = Some ob \<Longrightarrow> ob \<in> set os \<and> row_id ob = i"
  by (induction os rule: rev_induct) (auto simp: indexById_snoc split: if_splits)

lemma indexById_distinct:
  "distinct (map row_id os) \<Longrightarrow> ob \<in> set os \<Longrightarrow> indexById os (row_id ob) = Some ob"
proof (induction os rule: rev_induct)
  case Nil
  then show ?case by simp
next
  case (snoc x os)
  then show ?case by (cases "ob = x") (auto simp: indexById_snoc image_iff)
qed

text \<open>What the merge makes of one live row.\<close>

definition merge_row :: "nat \<Rightarrow> (val \<rightharpoonup> obj) \<Rightarrow> (val \<rightharpoonup> obj) \<Rightarrow> obj \<Rightarrow> obj option" where
  "merge_row k baseById cloneById ob =
     (case (baseById (row_id ob), cloneById (row_id ob)) of
        (Some _, None) \<Rightarrow> None
      | (b, Some c) \<Rightarrow> Some (if rowChanged b c then adopt k c else ob)
      | (None, None) \<Rightarrow> Some ob)"

lemma merge_live_eq:
  "merge_live k b c os =
     (List.map_filter (merge_row k b c) os,
      map row_id (filter (\<lambda>ob. merge_row k b c ob \<noteq> None) os))"
  by (induction os)
     (auto simp: merge_row_def map_filter_def Let_def split: option.splits)

lemma merge_table_eq:
  "merge_table k live base clone =
     List.map_filter (merge_row k (indexById base) (indexById clone)) live @
     map (adopt k) (filter (\<lambda>c. row_id c \<notin> row_id ` set base \<and>
       row_id c \<notin> row_id ` set (filter
         (\<lambda>ob. merge_row k (indexById base) (indexById clone) ob \<noteq> None) live)) clone)"
  by (simp add: merge_table_def merge_live_eq indexById_None_iff Let_def)

lemma obj_row_adopt [simp]: "obj_row (adopt k ob) = obj_row ob"
  by (simp add: adopt_def)

lemma row_id_adopt [simp]: "row_id (adopt k ob) = row_id ob"
  by (simp add: row_id_def)

lemma merge_row_id: "merge_row k b c ob = Some ob' \<Longrightarrow> c = indexById cs \<Longrightarrow> row_id ob' = row_id ob"
  by (auto simp: merge_row_def split: option.splits if_splits dest: indexById_SomeD)

lemma set_map_filter: "set (List.map_filter f xs) = {y. \<exists>x \<in> set xs. f x = Some y}"
  by (force simp: map_filter_def)

lemma map_filter_Some [simp]: "(\<And>x. x \<in> set xs \<Longrightarrow> f x = Some (g x)) \<Longrightarrow> List.map_filter f xs = map g xs"
  by (induction xs) (auto simp: map_filter_def)

lemma to_json_clone [simp]: "to_json (clone_val k v) = to_json v"
  by (induction v) auto

lemma clone_val_Undef [simp]: "clone_val k v = Undef \<longleftrightarrow> v = Undef"
  by (cases v) auto

lemma json_row_clone [simp]: "json_row (clone_row k r) = json_row r"
  by (induction r) (auto simp: json_row_def clone_row_def)

section \<open>What a commit keeps and what it applies\<close>

text \<open>The transaction left the row with this id as it found it.\<close>

definition untouched :: "obj list \<Rightarrow> obj list \<Rightarrow> val \<Rightarrow> bool" where
  "untouched base clone i =
     (case (indexById base i, indexById clone i) of
        (None, None) \<Rightarrow> True
      | (Some b, Some c) \<Rightarrow> json_row (obj_row b) = json_row (obj_row c)
      | _ \<Rightarrow> False)"

lemma merge_row_untouched:
  "untouched base clone (row_id ob) \<Longrightarrow>
     merge_row k (indexById base) (indexById clone) ob = Some ob"
  by (auto simp: untouched_def merge_row_def rowChanged_def split: option.splits)

lemma merge_table_keeps_untouched:
  assumes "ob \<in> set live" and "untouched base clone (row_id ob)"
  shows "ob \<in> set (merge_table k live base clone)"
proof -
  have "ob \<in> set (List.map_filter (merge_row k (indexById base) (indexById clone)) live)"
    using merge_row_untouched[OF assms(2)] assms(1) unfolding set_map_filter by blast
  then show ?thesis by (simp add: merge_table_eq)
qed

text \<open>The rows of a table up to object identity.\<close>

definition json_rows :: "obj list \<Rightarrow> (string \<times> json) list set" where
  "json_rows os = (json_row \<circ> obj_row) ` set os"

lemma distinct_map_filter_Some:
  assumes "distinct (map f xs)" and "\<And>x y. g x = Some y \<Longrightarrow> f y = f x"
  shows "distinct (map f (List.map_filter g xs)) \<and>
    f ` set (List.map_filter g xs) \<subseteq> f ` set xs"
  using assms
proof (induction xs)
  case Nil
  then show ?case by (simp add: map_filter_def)
next
  case (Cons x xs)
  have "distinct (map f xs)" using Cons.prems(1) by simp
  from Cons.IH[OF this Cons.prems(2)] have IH: "distinct (map f (List.map_filter g xs))"
      "f ` set (List.map_filter g xs) \<subseteq> f ` set xs"
    by blast+
  show ?case
  proof (cases "g x")
    case None
    with IH show ?thesis by (auto simp: map_filter_simps)
  next
    case (Some y)
    then have eq: "f y = f x" by (rule Cons.prems(2))
    from Cons.prems(1) have "f x \<notin> f ` set xs" by simp
    then have "f y \<notin> f ` set (List.map_filter g xs)"
      unfolding eq by (rule contra_subsetD[OF IH(2)])
    moreover from Some have "List.map_filter g (x # xs) = y # List.map_filter g xs"
      by (simp add: map_filter_simps)
    ultimately show ?thesis using IH eq by (simp add: subset_insertI2)
  qed
qed

lemma merge_table_distinct_ids:
  assumes "distinct (map row_id live)" and "distinct (map row_id clone)"
  shows "distinct (map row_id (merge_table k live base clone))"
proof -
  let ?g = "merge_row k (indexById base) (indexById clone)"
  let ?B = "filter (\<lambda>c. row_id c \<notin> row_id ` set base \<and>
       row_id c \<notin> row_id ` set (filter (\<lambda>ob. ?g ob \<noteq> None) live)) clone"
  have id: "row_id y = row_id x" if "?g x = Some y" for x y
    by (rule merge_row_id[OF that refl])
  have d: "distinct (map row_id (List.map_filter ?g live))"
    using distinct_map_filter_Some[OF assms(1), of ?g] id by blast
  have "row_id ` set (List.map_filter ?g live) \<subseteq>
      row_id ` set (filter (\<lambda>ob. ?g ob \<noteq> None) live)"
  proof
    fix i assume "i \<in> row_id ` set (List.map_filter ?g live)"
    then obtain x y where "x \<in> set live" "?g x = Some y" "i = row_id y"
      unfolding set_map_filter by blast
    with id[of x y] show "i \<in> row_id ` set (filter (\<lambda>ob. ?g ob \<noteq> None) live)"
      by (intro image_eqI[of _ _ x]) simp_all
  qed
  moreover have "row_id ` set ?B \<inter> row_id ` set (filter (\<lambda>ob. ?g ob \<noteq> None) live) = {}"
    unfolding set_filter[of _ clone] by blast
  ultimately have "row_id ` set (List.map_filter ?g live) \<inter> row_id ` set ?B = {}"
    by blast
  moreover have "distinct (map row_id ?B)"
    using assms(2) by (rule distinct_map_filter)
  moreover have "map row_id (map (adopt k) ?B) = map row_id ?B"
    by simp
  ultimately show ?thesis
    using d unfolding merge_table_eq map_append distinct_append
    by (metis set_map)
qed

text \<open>Without interference the commit yields the clone's rows.\<close>

lemma merge_table_serial:
  assumes base: "indexById base = map_option h \<circ> indexById live"
    and h: "\<And>ob. json_row (obj_row (h ob)) = json_row (obj_row ob)"
    and dl: "distinct (map row_id live)" and dc: "distinct (map row_id clone)"
  shows "json_rows (merge_table k live base clone) = json_rows clone"
proof -
  let ?g = "merge_row k (indexById base) (indexById clone)"
  have g: "?g ob = (case indexById clone (row_id ob) of None \<Rightarrow> None
      | Some c \<Rightarrow> Some (if rowChanged (Some (h ob)) c then adopt k c else ob))"
    if "ob \<in> set live" for ob
    using indexById_distinct[OF dl that] by (auto simp: merge_row_def base split: option.splits)
  have some: "?g ob \<noteq> None \<longleftrightarrow> row_id ob \<in> row_id ` set clone" if "ob \<in> set live" for ob
    using g[OF that] indexById_None_iff[of clone "row_id ob"] by (auto split: option.splits)
  have base_ids: "row_id ` set base = row_id ` set live"
  proof -
    have "i \<in> row_id ` set base \<longleftrightarrow> i \<in> row_id ` set live" for i
      using indexById_None_iff[of base i] indexById_None_iff[of live i] base by auto
    then show ?thesis by blast
  qed
  have merged: "(json_row \<circ> obj_row) ` set (List.map_filter ?g live) =
      (json_row \<circ> obj_row) ` {c \<in> set clone. row_id c \<in> row_id ` set live}"
    (is "?L = ?R")
  proof
    have "json_row (obj_row y) \<in> ?R" if ob: "ob \<in> set live" and y: "?g ob = Some y" for ob y
    proof -
      from g[OF ob] y obtain c where c: "indexById clone (row_id ob) = Some c"
        and "json_row (obj_row y) = json_row (obj_row c)"
        by (auto simp: rowChanged_def h split: option.splits if_splits)
      with indexById_SomeD[OF c] ob show ?thesis
        by (intro image_eqI[of _ _ c]) auto
    qed
    then show "?L \<subseteq> ?R" unfolding set_map_filter by fastforce
  next
    have "json_row (obj_row c) \<in> ?L"
      if c: "c \<in> set clone" and ob: "ob \<in> set live" and eq: "row_id c = row_id ob" for c ob
    proof -
      from indexById_distinct[OF dc c] eq have "indexById clone (row_id ob) = Some c" by simp
      with g[OF ob] obtain y where "?g ob = Some y" "json_row (obj_row y) = json_row (obj_row c)"
        by (auto simp: rowChanged_def h)
      with ob show ?thesis
        unfolding set_map_filter by (intro image_eqI[of _ _ y]) auto
    qed
    then show "?R \<subseteq> ?L" by auto
  qed
  have rest: "(\<lambda>c. row_id c \<notin> row_id ` set base \<and>
       row_id c \<notin> row_id ` set (filter (\<lambda>ob. ?g ob \<noteq> None) live)) =
     (\<lambda>c. row_id c \<notin> row_id ` set live)"
    by (auto simp: base_ids)
  have "json_rows (merge_table k live base clone) =
      (json_row \<circ> obj_row) ` {c \<in> set clone. row_id c \<in> row_id ` set live} \<union>
      (json_row \<circ> obj_row) ` {c \<in> set clone. row_id c \<notin> row_id ` set live}"
    unfolding json_rows_def merge_table_eq rest set_append image_Un merged
    by (simp add: image_image comp_def)
  also have "\<dots> = json_rows clone" by (auto simp: json_rows_def)
  finally show ?thesis .
qed

lemma table_of_clone: "table_of (structuredClone k db) m = map (\<lambda>(r, rec). (r, clone_row k rec)) (table_of db m)"
  by (auto simp: structuredClone_def table_of_def split: option.splits)

lemma tables_clone_None [simp]: "tables (structuredClone k db) m = None \<longleftrightarrow> tables db m = None"
  by (simp add: structuredClone_def)

lemma get_clone_row: "get_field (clone_row k r) f = clone_val k (get_field r f)"
  by (induction r) (auto simp: clone_row_def)

text \<open>Ids are strings or numbers, on which a clone agrees with the original.\<close>

definition scalar_id :: "obj \<Rightarrow> bool" where
  "scalar_id ob = (case row_id ob of Str _ \<Rightarrow> True | Num _ \<Rightarrow> True | _ \<Rightarrow> False)"

definition clone_obj :: "nat \<Rightarrow> obj \<Rightarrow> obj" where
  "clone_obj k ob = (obj_ref ob, clone_row k (obj_row ob))"

lemma row_id_clone: "scalar_id ob \<Longrightarrow> row_id (clone_obj k ob) = row_id ob"
  by (auto simp: scalar_id_def row_id_def clone_obj_def get_clone_row split: val.splits)

lemma indexById_clone:
  "(\<forall>ob \<in> set os. scalar_id ob) \<Longrightarrow>
     indexById (map (clone_obj k) os) = map_option (clone_obj k) \<circ> indexById os"
proof (induction os rule: rev_induct)
  case Nil
  then show ?case by (simp add: fun_eq_iff)
next
  case (snoc ob os)
  then show ?case by (auto simp: indexById_snoc row_id_clone fun_eq_iff)
qed

lemma table_of_merge:
  "tables clone m \<noteq> None \<Longrightarrow> table_of (mergeTransactionInto live base clone) m =
     merge_table (next_ref live) (table_of live m) (table_of base m) (table_of clone m)"
  by (auto simp: mergeTransactionInto_def table_of_def)

text \<open>
  A transaction whose callback throws reports that error and leaves the live database
  exactly as the concurrent requests made it: none of its writes is visible.
\<close>

theorem transaction_rollback:
  assumes "fst (cb (structuredClone (2 * next_ref db) db)) = Inl e"
  shows "transaction cb others db = (Inl e, others db)"
  using assms by (cases "cb (structuredClone (2 * next_ref db) db)") (simp add: transaction_def Let_def)

theorem transaction_rollback_witness:
  "transaction (\<lambda>d. (Inl TypeError, set_table d ''user'' []) :: unit res \<times> memdb) id
     \<lparr>tables = [''user'' \<mapsto> [(0, [(''id'', Str ''u1'')])]], next_ref = 1\<rparr>
   = (Inl TypeError, \<lparr>tables = [''user'' \<mapsto> [(0, [(''id'', Str ''u1'')])]], next_ref = 1\<rparr>)"
proof -
  let ?db = "\<lparr>tables = [''user'' \<mapsto> [(0, [(''id'', Str ''u1'')])]], next_ref = 1\<rparr>"
  have "transaction (\<lambda>d. (Inl TypeError, set_table d ''user'' []) :: unit res \<times> memdb) id ?db
      = (Inl TypeError, id ?db)"
    by (rule transaction_rollback) simp
  then show ?thesis by simp
qed

text \<open>
  C28. A committed transaction keeps concurrent writes: a live row (created or edited by
  other requests while the callback ran) whose id the callback neither changed, created
  nor deleted is in the table after the commit, the same object with the same contents;
  and a table the callback never had is not touched.
\<close>

theorem transaction_keeps_concurrent_writes:
  assumes cb: "cb (structuredClone (2 * next_ref db) db) = (Inr x, clone)"
    and live: "ob \<in> set (table_of (others db) m)"
    and unt: "untouched (table_of (structuredClone (next_ref db) db) m) (table_of clone m) (row_id ob)"
    and "tables db m = None \<or> tables clone m \<noteq> None"
  shows "ob \<in> set (table_of (snd (transaction cb others db)) m)"
proof (cases "tables clone m = None")
  case True
  with assms(4) have "tables db m = None" by simp
  with True cb live show ?thesis
    by (simp add: transaction_def Let_def mergeTransactionInto_def table_of_def)
next
  case False
  with cb have "table_of (snd (transaction cb others db)) m =
      merge_table (next_ref (others db)) (table_of (others db) m)
        (table_of (structuredClone (next_ref db) db) m) (table_of clone m)"
    by (simp add: transaction_def Let_def table_of_merge)
  with merge_table_keeps_untouched[OF live unt] show ?thesis by simp
qed

definition demo_db :: memdb where
  "demo_db = \<lparr>tables = [''user'' \<mapsto> [(0, [(''id'', Str ''u1''), (''n'', Num 1)]),
                                   (1, [(''id'', Str ''u2''), (''n'', Num 1)])]], next_ref = 2\<rparr>"

text \<open>The callback edits \<open>u1\<close> while another request edits \<open>u2\<close>.\<close>

definition demo_clone :: memdb where
  "demo_clone = \<lparr>tables = [''user'' \<mapsto> [(0, [(''id'', Str ''u1''), (''n'', Num 7)]),
                                   (1, [(''id'', Str ''u2''), (''n'', Num 1)])]], next_ref = 2\<rparr>"

definition demo_live :: memdb where
  "demo_live = \<lparr>tables = [''user'' \<mapsto> [(0, [(''id'', Str ''u1''), (''n'', Num 1)]),
                                   (1, [(''id'', Str ''u2''), (''n'', Num 5)])]], next_ref = 2\<rparr>"

theorem transaction_keeps_concurrent_writes_witness:
  "(1, [(''id'', Str ''u2''), (''n'', Num 5)]) \<in> set (table_of
     (snd (transaction (\<lambda>_. (Inr (), demo_clone)) (\<lambda>_. demo_live) demo_db)) ''user'')"
  by (rule transaction_keeps_concurrent_writes[where clone = demo_clone and x = "()"])
     (simp_all add: demo_db_def demo_clone_def demo_live_def table_of_def structuredClone_def
       untouched_def indexById_def row_id_def clone_row_def json_row_def)

text \<open>
  With no concurrent write, a commit makes the live table the callback's table: the
  same rows, compared as JSON, with no id twice.
\<close>

theorem transaction_serial:
  assumes cb: "cb (structuredClone (2 * next_ref db) db) = (Inr x, clone)"
    and ids: "distinct (map row_id (table_of db m))" "\<forall>ob \<in> set (table_of db m). scalar_id ob"
    and cids: "distinct (map row_id (table_of clone m))"
    and tab: "tables clone m \<noteq> None"
  shows "json_rows (table_of (snd (transaction cb id db)) m) = json_rows (table_of clone m) \<and>
    distinct (map row_id (table_of (snd (transaction cb id db)) m))"
proof -
  let ?base = "table_of (structuredClone (next_ref db) db) m"
  have base: "?base = map (clone_obj (next_ref db)) (table_of db m)"
    by (simp add: table_of_clone clone_obj_def case_prod_beta')
  have "table_of (snd (transaction cb id db)) m =
      merge_table (next_ref db) (table_of db m) ?base (table_of clone m)"
    using cb tab by (simp add: transaction_def Let_def table_of_merge)
  then show ?thesis
    using merge_table_serial[OF indexById_clone[OF ids(2)] _ ids(1) cids]
      merge_table_distinct_ids[OF ids(1) cids]
    by (simp add: base clone_obj_def)
qed

theorem transaction_serial_witness:
  "json_rows (table_of (snd (transaction (\<lambda>_. (Inr (), demo_clone)) id demo_db)) ''user'') =
     json_rows (table_of demo_clone ''user'')"
  using transaction_serial[of "\<lambda>_. (Inr (), demo_clone)" demo_db "()" demo_clone "''user''"]
  by (simp add: demo_db_def demo_clone_def table_of_def row_id_def scalar_id_def)

end
