(* ===== verification/Host.thy ===== *)
theory Host
  imports Ip
begin

text \<open>
  The classification of hosts: \<open>packages/core/src/utils/host.ts\<close>. A host is text; a dotted IPv4
  address is packed into a \<open>32 word\<close> and compared with the special-purpose ranges, an expanded
  IPv6 address is classified by its text, and an IPv4 address embedded in it is unpacked
  again. The second half states the same tables on numbers (octets and 16-bit groups) and
  shows the code agrees with them.
\<close>

unbundle bit_operations_syntax

section \<open>The shape of a host\<close>

datatype HostKind =
    Loopback | Localhost | Unspecified | Private | LinkLocal | SharedAddressSpace
  | Documentation | Benchmarking | Multicast | Broadcast | Reserved | CloudMetadata | Public

datatype HostLiteral = Ipv4 | Ipv6 | Fqdn

record HostClassification =
  hc_kind :: HostKind
  hc_literal :: HostLiteral
  hc_canonical :: string

definition CLOUD_METADATA_HOSTS :: "string list" where
  "CLOUD_METADATA_HOSTS =
     [''metadata.google.internal'', ''metadata.goog'', ''metadata'', ''instance-data'',
      ''instance-data.ec2.internal'']"

text \<open>\<open>s.slice(a, b)\<close> for indices that are not negative.\<close>

definition slice_str :: "nat \<Rightarrow> nat \<Rightarrow> string \<Rightarrow> string" where
  "slice_str a b s = take (b - a) (drop a s)"

definition stripBrackets :: "string \<Rightarrow> string" where
  "stripBrackets host =
     (if length host \<ge> 2 \<and> startsWith host ''['' \<and> endsWith host '']''
      then slice_str 1 (length host - 1) host else host)"

definition stripPort :: "string \<Rightarrow> string" where
  "stripPort host =
     (if startsWith host ''['' then
        (case indexOf host CHR '']'' of
           None \<Rightarrow> host
         | Some e \<Rightarrow> slice_str 0 (e + 1) host)
      else
        (case indexOf host CHR '':'' of
           None \<Rightarrow> host
         | Some firstColon \<Rightarrow>
             (if indexOf (drop (firstColon + 1) host) CHR '':'' \<noteq> None then host
              else slice_str 0 firstColon host)))"

definition stripZoneId :: "string \<Rightarrow> string" where
  "stripZoneId host =
     (case indexOf host CHR ''%'' of None \<Rightarrow> host | Some zone \<Rightarrow> slice_str 0 zone host)"

definition stripTrailingDot :: "string \<Rightarrow> string" where
  "stripTrailingDot host = rev (dropWhile (\<lambda>c. c = CHR ''.'') (rev host))"

definition looksLikeIPv4 :: "string \<Rightarrow> bool" where
  "looksLikeIPv4 host =
     (let parts = split_on CHR ''.'' host in
      length parts = 4 \<and>
      list_all (\<lambda>p. 1 \<le> length p \<and> length p \<le> 3 \<and> list_all is_digit p) parts)"

section \<open>IPv4\<close>

text \<open>The operand of a shift: \<open>Number(part)\<close> as 32 bits, a missing part and \<open>NaN\<close> being 0.\<close>

definition part_word :: "string list \<Rightarrow> nat \<Rightarrow> 32 word" where
  "part_word parts i =
     (if i < length parts
      then (case str_to_number (parts ! i) of Some n \<Rightarrow> of_int n | None \<Rightarrow> 0) else 0)"

definition ipv4ToUint32 :: "string \<Rightarrow> 32 word" where
  "ipv4ToUint32 ip =
     (let parts = split_on CHR ''.'' ip in
      push_bit 24 (part_word parts 0) OR push_bit 16 (part_word parts 1) OR
      push_bit 8 (part_word parts 2) OR part_word parts 3)"

definition inIPv4Range :: "32 word \<Rightarrow> 32 word \<Rightarrow> nat \<Rightarrow> bool" where
  "inIPv4Range v prefix len =
     (if len = 0 then True
      else (let m = (if len = 32 then 0xffffffff else push_bit (32 - len) (- 1 :: 32 word))
            in v AND m = prefix AND m))"

definition classifyIPv4 :: "string \<Rightarrow> HostKind" where
  "classifyIPv4 ip =
     (if ip = ''0.0.0.0'' then Unspecified
      else if ip = ''255.255.255.255'' then Broadcast
      else
        (let n = ipv4ToUint32 ip in
         if inIPv4Range n (ipv4ToUint32 ''127.0.0.0'') 8 then Loopback
         else if inIPv4Range n (ipv4ToUint32 ''10.0.0.0'') 8 then Private
         else if inIPv4Range n (ipv4ToUint32 ''172.16.0.0'') 12 then Private
         else if inIPv4Range n (ipv4ToUint32 ''192.168.0.0'') 16 then Private
         else if inIPv4Range n (ipv4ToUint32 ''169.254.0.0'') 16 then LinkLocal
         else if inIPv4Range n (ipv4ToUint32 ''100.64.0.0'') 10 then SharedAddressSpace
         else if inIPv4Range n (ipv4ToUint32 ''192.0.2.0'') 24 then Documentation
         else if inIPv4Range n (ipv4ToUint32 ''198.51.100.0'') 24 then Documentation
         else if inIPv4Range n (ipv4ToUint32 ''203.0.113.0'') 24 then Documentation
         else if inIPv4Range n (ipv4ToUint32 ''198.18.0.0'') 15 then Benchmarking
         else if inIPv4Range n (ipv4ToUint32 ''224.0.0.0'') 4 then Multicast
         else if inIPv4Range n (ipv4ToUint32 ''0.0.0.0'') 8 then Reserved
         else if inIPv4Range n (ipv4ToUint32 ''192.0.0.0'') 24 then Reserved
         else if inIPv4Range n (ipv4ToUint32 ''192.88.99.0'') 24 then Reserved
         else if inIPv4Range n (ipv4ToUint32 ''240.0.0.0'') 4 then Reserved
         else Public))"

definition dotted :: "nat list \<Rightarrow> string" where
  "dotted ns = join_with ''.'' (map (digits_of 10) ns)"

definition extractEmbeddedIPv4 :: "string \<Rightarrow> nat \<Rightarrow> bool \<Rightarrow> string option" where
  "extractEmbeddedIPv4 expanded startGroup xor_mask =
     (let offset = startGroup * 5 in
      case (parseInt16 (slice_str offset (offset + 4) expanded),
            parseInt16 (slice_str (offset + 5) (offset + 9) expanded)) of
        (Some g1, Some g2) \<Rightarrow>
          (let c = push_bit 16 (of_nat g1 :: 32 word) OR of_nat g2;
               combined = (if xor_mask then c XOR 0xffffffff else c)
           in Some (dotted [unat (drop_bit 24 combined AND 0xff), unat (drop_bit 16 combined AND 0xff),
                            unat (drop_bit 8 combined AND 0xff), unat (combined AND 0xff)]))
      | _ \<Rightarrow> None)"

section \<open>IPv6\<close>

definition embedded_public :: "string option \<Rightarrow> bool" where
  "embedded_public embedded =
     (case embedded of Some e \<Rightarrow> e = [] \<or> classifyIPv4 e = Public | None \<Rightarrow> True)"

definition classifyIPv6 :: "string \<Rightarrow> HostKind" where
  "classifyIPv6 expanded =
     (let firstByte = parseInt16 (slice_str 0 2 expanded);
          secondByte = parseInt16 (slice_str 2 4 expanded) in
      if expanded = ''0000:0000:0000:0000:0000:0000:0000:0000'' then Unspecified
      else if expanded = ''0000:0000:0000:0000:0000:0000:0000:0001'' then Loopback
      else if firstByte = Some 0xff then Multicast
      else if firstByte = Some 0xfe \<and> bits_of secondByte AND 0xc0 = 0x80 then LinkLocal
      else if firstByte = Some 0xfe \<and> bits_of secondByte AND 0xc0 = 0xc0 then Reserved
      else if bits_of firstByte AND 0xfe = 0xfc then Private
      else if startsWith expanded ''2001:0db8:'' then Documentation
      else if startsWith expanded ''2001:0002:0000:'' then Benchmarking
      else if startsWith expanded ''2002:'' then
        (if \<not> embedded_public (extractEmbeddedIPv4 expanded 1 False) then Reserved else Public)
      else if startsWith expanded ''0064:ff9b:0000:0000:0000:0000:'' then
        (if \<not> embedded_public (extractEmbeddedIPv4 expanded 6 False) then Reserved else Reserved)
      else if startsWith expanded ''0064:ff9b:0001:'' then Reserved
      else if startsWith expanded ''2001:0000:'' then
        (if \<not> embedded_public (extractEmbeddedIPv4 expanded 6 True) then Reserved else Reserved)
      else if startsWith expanded ''0100:0000:0000:0000:'' then Reserved
      else if startsWith expanded ''3fff:0'' then Documentation
      else if startsWith expanded ''5f00:'' then Reserved
      else if startsWith expanded ''0000:0000:0000:0000:0000:0000:'' then Reserved
      else Public)"

section \<open>Hosts\<close>

definition strip_host :: "string \<Rightarrow> string" where
  "strip_host host = stripTrailingDot (stripZoneId (stripBrackets (stripPort (trim host))))"

definition classifyHost :: "zod \<Rightarrow> string \<Rightarrow> HostClassification" where
  "classifyHost z host =
     (let lowered = toLowerCase (strip_host host) in
      if lowered = [] then \<lparr>hc_kind = Reserved, hc_literal = Fqdn, hc_canonical = []\<rparr>
      else if \<not> isValidIP z lowered then
        (if lowered = ''localhost'' \<or> endsWith lowered ''.localhost''
           then \<lparr>hc_kind = Localhost, hc_literal = Fqdn, hc_canonical = lowered\<rparr>
         else if lowered \<in> set CLOUD_METADATA_HOSTS
           then \<lparr>hc_kind = CloudMetadata, hc_literal = Fqdn, hc_canonical = lowered\<rparr>
         else \<lparr>hc_kind = Public, hc_literal = Fqdn, hc_canonical = lowered\<rparr>)
      else if looksLikeIPv4 lowered
        then \<lparr>hc_kind = classifyIPv4 lowered, hc_literal = Ipv4, hc_canonical = lowered\<rparr>
      else
        (let canonical = normalizeIP z lowered (Some 128) in
         if looksLikeIPv4 canonical
           then \<lparr>hc_kind = classifyIPv4 canonical, hc_literal = Ipv4, hc_canonical = canonical\<rparr>
         else \<lparr>hc_kind = classifyIPv6 canonical, hc_literal = Ipv6, hc_canonical = canonical\<rparr>))"

definition isLoopbackIP :: "zod \<Rightarrow> string \<Rightarrow> bool" where
  "isLoopbackIP z host \<longleftrightarrow> hc_kind (classifyHost z host) = Loopback"

definition isLoopbackHost :: "zod \<Rightarrow> string \<Rightarrow> bool" where
  "isLoopbackHost z host \<longleftrightarrow>
     (let kind = hc_kind (classifyHost z host) in kind = Loopback \<or> kind = Localhost)"

definition isPublicRoutableHost :: "zod \<Rightarrow> string \<Rightarrow> bool" where
  "isPublicRoutableHost z host \<longleftrightarrow> hc_kind (classifyHost z host) = Public"

section \<open>Reading a dotted address back\<close>

lemma digits_inj: "digits_of 10 n = digits_of 10 m \<longleftrightarrow> n = m"
  using digits_dec[of n] digits_dec[of m] by metis

lemma digits_chars:
  assumes "c \<in> set (digits_of 10 n)"
  shows "is_digit c" "\<not> is_space c" "lower_char c = c"
    "c \<noteq> CHR ''.''" "c \<noteq> CHR '':''" "c \<noteq> CHR ''%''" "c \<noteq> CHR ''[''" "c \<noteq> CHR '']''"
proof -
  show d: "is_digit c" using digits_dec[of n] assms by (auto simp: list_all_iff)
  then show "\<not> is_space c" "lower_char c = c" "c \<noteq> CHR ''.''" "c \<noteq> CHR '':''" "c \<noteq> CHR ''%''"
    "c \<noteq> CHR ''[''" "c \<noteq> CHR '']''"
    by (auto simp: is_digit_def is_space_def lower_char_def Let_def)
qed

lemma trim_id: "s = [] \<or> (\<not> is_space (hd s) \<and> \<not> is_space (last s)) \<Longrightarrow> trim s = s"
proof -
  assume *: "s = [] \<or> (\<not> is_space (hd s) \<and> \<not> is_space (last s))"
  then have "dropWhile is_space s = s" by (cases s) simp_all
  moreover from * have "dropWhile is_space (rev s) = rev s" by (cases s rule: rev_cases) simp_all
  ultimately show ?thesis by (simp add: trim_def)
qed

lemma digits_number: "str_to_number (digits_of 10 n) = Some (int n)"
  using digits_dec[of n] by (simp add: str_to_number_def digits_not_Nil trim_digits)

lemma split_dotted: "ns \<noteq> [] \<Longrightarrow> split_on CHR ''.'' (dotted ns) = map (digits_of 10) ns"
  unfolding dotted_def by (rule split_join) (auto dest: digits_chars(4))

lemma dotted_inj: "ns \<noteq> [] \<Longrightarrow> ms \<noteq> [] \<Longrightarrow> dotted ns = dotted ms \<longleftrightarrow> ns = ms"
  by (metis digits_inj inj_map_eq_map inj_def split_dotted)

lemma dotted_chars:
  "c \<in> set (dotted ns) \<Longrightarrow> c = CHR ''.'' \<or> is_digit c"
proof (induction ns rule: induct_list012)
  case (3 x y zs)
  then show ?case using digits_chars(1)[of c x] by (auto simp: dotted_def)
qed (auto simp: dotted_def dest: digits_chars)

section \<open>Ranges of 32-bit values\<close>

lemma in_range_iff:
  assumes "len \<le> 32"
  shows "inIPv4Range v p len \<longleftrightarrow> unat v div 2 ^ (32 - len) = unat p div 2 ^ (32 - len)"
proof (cases "len = 0")
  case True
  have "unat v < 2 ^ LENGTH(32)" "unat p < 2 ^ LENGTH(32)" by (rule unsigned_less)+
  with True show ?thesis by (simp add: inIPv4Range_def)
next
  case False
  let ?k = "32 - len"
  have m: "(if len = 32 then 0xffffffff else push_bit (32 - len) (- 1 :: 32 word)) = push_bit ?k (- 1)"
    by simp
  have "inIPv4Range v p len \<longleftrightarrow> v AND push_bit ?k (- 1) = p AND push_bit ?k (- 1)"
    unfolding inIPv4Range_def Let_def m using False by simp
  also have "\<dots> \<longleftrightarrow> drop_bit ?k v = drop_bit ?k p"
  proof -
    have "v AND push_bit ?k (- 1) = p AND push_bit ?k (- 1) \<longleftrightarrow> (\<forall>n < 32. ?k \<le> n \<longrightarrow> bit v n = bit p n)"
      by (auto simp: bit_eq_iff bit_simps)
    also have "\<dots> \<longleftrightarrow> (\<forall>n. bit v (?k + n) = bit p (?k + n))"
    proof (rule iffI; intro allI impI)
      fix n assume *: "\<forall>n < 32. ?k \<le> n \<longrightarrow> bit v n = bit p n"
      show "bit v (?k + n) = bit p (?k + n)"
      proof (cases "?k + n < 32")
        case False
        then show ?thesis by (auto dest: bit_imp_le_length)
      qed (use * in simp)
    next
      fix n assume "\<forall>n. bit v (?k + n) = bit p (?k + n)" "?k \<le> n"
      then show "bit v n = bit p n" by (metis le_add_diff_inverse)
    qed
    also have "\<dots> \<longleftrightarrow> drop_bit ?k v = drop_bit ?k p"
    proof
      assume "\<forall>n. bit v (?k + n) = bit p (?k + n)"
      then show "drop_bit ?k v = drop_bit ?k p" by (intro bit_eqI) (simp add: bit_drop_bit_eq)
    next
      assume eq: "drop_bit ?k v = drop_bit ?k p"
      show "\<forall>n. bit v (?k + n) = bit p (?k + n)"
      proof
        fix n
        have "bit (drop_bit ?k v) n = bit (drop_bit ?k p) n" by (simp only: eq)
        then show "bit v (?k + n) = bit p (?k + n)" by (simp add: bit_drop_bit_eq)
      qed
    qed
    finally show "v AND push_bit ?k (- 1) = p AND push_bit ?k (- 1) \<longleftrightarrow> drop_bit ?k v = drop_bit ?k p" .
  qed
  also have "\<dots> \<longleftrightarrow> unat (drop_bit ?k v) = unat (drop_bit ?k p)"
    by (simp add: word_unat_eq_iff)
  finally show ?thesis unfolding unat_drop_bit_eq by (simp add: drop_bit_eq_div)
qed

definition octets_value :: "nat \<Rightarrow> nat \<Rightarrow> nat \<Rightarrow> nat \<Rightarrow> nat" where
  "octets_value a b c d = ((a * 256 + b) * 256 + c) * 256 + d"

lemma or_disjoint_add:
  "(y :: nat) < 2 ^ k \<Longrightarrow> push_bit k x OR y = x * 2 ^ k + y"
proof -
  assume "y < 2 ^ k"
  then have "take_bit k y = y" by (simp add: take_bit_nat_eq_self_iff)
  have "push_bit k x AND y = 0"
  proof (rule bit_eqI)
    fix n
    have "bit (take_bit k y) n = bit y n" using \<open>take_bit k y = y\<close> by simp
    then show "bit (push_bit k x AND y) n = bit 0 n" by (auto simp: bit_simps)
  qed
  then have "push_bit k x OR y = push_bit k x + y" by (simp add: disjunctive_add_eq_or)
  then show ?thesis by (simp add: push_bit_eq_mult)
qed

lemma uint32_value:
  assumes "a < 256" "b < 256" "c < 256" "d < 256"
  shows "unat (ipv4ToUint32 (dotted [a, b, c, d])) = octets_value a b c d"
proof -
  have p: "part_word (map (digits_of 10) [a, b, c, d]) i = of_nat ([a, b, c, d] ! i)" if "i < 4" for i
    using that by (simp add: part_word_def digits_number nth_Cons' del: of_int_of_nat_eq) simp
  have w: "ipv4ToUint32 (dotted [a, b, c, d]) =
      push_bit 24 (of_nat a) OR push_bit 16 (of_nat b) OR push_bit 8 (of_nat c) OR of_nat d"
    using p[of 0] p[of 1] p[of 2] p[of 3] by (simp add: ipv4ToUint32_def split_dotted Let_def)
  have "\<dots> = of_nat (push_bit 24 a OR (push_bit 16 b OR (push_bit 8 c OR d)))"
    by (simp add: push_bit_of_nat of_nat_or_eq)
  also have "push_bit 24 a OR (push_bit 16 b OR (push_bit 8 c OR d)) = octets_value a b c d"
    using assms by (simp add: or_disjoint_add octets_value_def)
  finally have "ipv4ToUint32 (dotted [a, b, c, d]) = of_nat (octets_value a b c d)" using w by simp
  moreover have "octets_value a b c d < 2 ^ 32" using assms by (simp add: octets_value_def)
  ultimately show ?thesis by (simp add: unsigned_of_nat take_bit_nat_eq_self_iff)
qed

section \<open>The IPv4 table\<close>

text \<open>The special-purpose ranges of RFC 6890, on octets.\<close>

definition octet_kind :: "nat \<Rightarrow> nat \<Rightarrow> nat \<Rightarrow> nat \<Rightarrow> HostKind" where
  "octet_kind a b c d =
     (if [a, b, c, d] = [0, 0, 0, 0] then Unspecified
      else if [a, b, c, d] = [255, 255, 255, 255] then Broadcast
      else if a = 127 then Loopback
      else if a = 10 \<or> a = 172 \<and> 16 \<le> b \<and> b \<le> 31 \<or> a = 192 \<and> b = 168 then Private
      else if a = 169 \<and> b = 254 then LinkLocal
      else if a = 100 \<and> 64 \<le> b \<and> b \<le> 127 then SharedAddressSpace
      else if a = 192 \<and> b = 0 \<and> c = 2 \<or> a = 198 \<and> b = 51 \<and> c = 100 \<or> a = 203 \<and> b = 0 \<and> c = 113
        then Documentation
      else if a = 198 \<and> (b = 18 \<or> b = 19) then Benchmarking
      else if 224 \<le> a \<and> a \<le> 239 then Multicast
      else if a = 0 \<or> a = 192 \<and> b = 0 \<and> c = 0 \<or> a = 192 \<and> b = 88 \<and> c = 99 \<or> 240 \<le> a then Reserved
      else Public)"

lemma network_texts:
  "''0.0.0.0'' = dotted [0, 0, 0, 0]" "''255.255.255.255'' = dotted [255, 255, 255, 255]"
  "''127.0.0.0'' = dotted [127, 0, 0, 0]" "''10.0.0.0'' = dotted [10, 0, 0, 0]"
  "''172.16.0.0'' = dotted [172, 16, 0, 0]" "''192.168.0.0'' = dotted [192, 168, 0, 0]"
  "''169.254.0.0'' = dotted [169, 254, 0, 0]" "''100.64.0.0'' = dotted [100, 64, 0, 0]"
  "''192.0.2.0'' = dotted [192, 0, 2, 0]" "''198.51.100.0'' = dotted [198, 51, 100, 0]"
  "''203.0.113.0'' = dotted [203, 0, 113, 0]" "''198.18.0.0'' = dotted [198, 18, 0, 0]"
  "''224.0.0.0'' = dotted [224, 0, 0, 0]" "''192.0.0.0'' = dotted [192, 0, 0, 0]"
  "''192.88.99.0'' = dotted [192, 88, 99, 0]" "''240.0.0.0'' = dotted [240, 0, 0, 0]"
  by code_simp+

lemma octet_range:
  assumes "a < 256" "b < 256" "c < 256" "d < 256" "len \<le> 32"
    "a' < 256" "b' < 256" "c' < 256" "d' < 256"
  shows "inIPv4Range (ipv4ToUint32 (dotted [a, b, c, d])) (ipv4ToUint32 (dotted [a', b', c', d'])) len \<longleftrightarrow>
     octets_value a b c d div 2 ^ (32 - len) = octets_value a' b' c' d' div 2 ^ (32 - len)"
  using assms by (simp add: in_range_iff uint32_value)

lemma octets_div:
  assumes "b < 256" "c < 256" "d < 256"
  shows "octets_value a b c d div 16777216 = a" "octets_value a b c d div 65536 = a * 256 + b"
    "octets_value a b c d div 256 = (a * 256 + b) * 256 + c"
    "octets_value a b c d div 1048576 = a * 16 + b div 16"
    "octets_value a b c d div 4194304 = a * 4 + b div 64"
    "octets_value a b c d div 131072 = a * 128 + b div 2"
    "octets_value a b c d div 268435456 = a div 16"
proof -
  show 1: "octets_value a b c d div 16777216 = a" using assms by (simp add: octets_value_def)
  show 2: "octets_value a b c d div 65536 = a * 256 + b" using assms by (simp add: octets_value_def)
  show 3: "octets_value a b c d div 256 = (a * 256 + b) * 256 + c" using assms by (simp add: octets_value_def)
  have "octets_value a b c d div 1048576 = octets_value a b c d div 65536 div 16" by (simp add: div_mult2_eq)
  then show "octets_value a b c d div 1048576 = a * 16 + b div 16" by (simp add: 2)
  have "octets_value a b c d div 4194304 = octets_value a b c d div 65536 div 64" by (simp add: div_mult2_eq)
  then show "octets_value a b c d div 4194304 = a * 4 + b div 64" by (simp add: 2)
  have "octets_value a b c d div 131072 = octets_value a b c d div 65536 div 2" by (simp add: div_mult2_eq)
  then show "octets_value a b c d div 131072 = a * 128 + b div 2" by (simp add: 2)
  have "octets_value a b c d div 268435456 = octets_value a b c d div 16777216 div 16" by (simp add: div_mult2_eq)
  then show "octets_value a b c d div 268435456 = a div 16" by (simp add: 1)
qed

lemma digit_eq: "r < k \<Longrightarrow> a * k + r = n \<longleftrightarrow> a = n div k \<and> r = n mod (k :: nat)"
  by (auto simp: mult.commute[of a])

lemma div_eq_range: "0 < k \<Longrightarrow> b div k = q \<longleftrightarrow> q * k \<le> b \<and> b < Suc q * (k :: nat)"
  using div_times_less_eq_dividend[of b k] dividend_less_div_times[of k b] div_nat_eqI[of k q b]
  by (auto simp: mult.commute)

lemma if_merge: "(if P then x else if Q then x else y) = (if P \<or> Q then x else y)"
  by simp

lemma classify_octets:
  assumes "a < 256" "b < 256" "c < 256" "d < 256"
  shows "classifyIPv4 (dotted [a, b, c, d]) = octet_kind a b c d"
proof -
  have s: "b div 16 < 16" "b div 64 < 4" "b div 2 < 128" using assms by simp_all
  have r: "a * 16 + b div 16 = 2753 \<longleftrightarrow> a = 172 \<and> 16 \<le> b \<and> b \<le> 31"
    "a * 4 + b div 64 = 401 \<longleftrightarrow> a = 100 \<and> 64 \<le> b \<and> b \<le> 127"
    "a * 128 + b div 2 = 25353 \<longleftrightarrow> a = 198 \<and> (b = 18 \<or> b = 19)"
    "a div 16 = 14 \<longleftrightarrow> 224 \<le> a \<and> a \<le> 239" "a div 16 = 15 \<longleftrightarrow> 240 \<le> a"
    using assms by (auto simp: digit_eq[OF s(1)] digit_eq[OF s(2)] digit_eq[OF s(3)] div_eq_range)
  have q: "a * 256 + b = n \<longleftrightarrow> a = n div 256 \<and> b = n mod 256"
    "(a * 256 + b) * 256 + c = n \<longleftrightarrow> a = n div 256 div 256 \<and> b = n div 256 mod 256 \<and> c = n mod 256" for n
    unfolding digit_eq[OF assms(3)] digit_eq[OF assms(2)] by auto
  have q': "65536 * a + b * 256 + c = n \<longleftrightarrow> a = n div 256 div 256 \<and> b = n div 256 mod 256 \<and> c = n mod 256" for n
  proof -
    have "65536 * a + b * 256 + c = (a * 256 + b) * 256 + c" by simp
    then show ?thesis by (simp only: q)
  qed
  have range: "inIPv4Range (ipv4ToUint32 (dotted [a, b, c, d])) (ipv4ToUint32 (dotted [a', b', c', d'])) len \<longleftrightarrow>
     octets_value a b c d div 2 ^ (32 - len) = octets_value a' b' c' d' div 2 ^ (32 - len)"
    if "a' < 256" "b' < 256" "c' < 256" "d' < 256" "len \<le> 32" for a' b' c' d' len
    by (rule octet_range) (use assms that in auto)
  note div = octets_div[OF assms(2-4)] octets_div
  have ranges:
    "inIPv4Range (ipv4ToUint32 (dotted [a, b, c, d])) (ipv4ToUint32 (dotted [127, 0, 0, 0])) 8 \<longleftrightarrow> a = 127"
    "inIPv4Range (ipv4ToUint32 (dotted [a, b, c, d])) (ipv4ToUint32 (dotted [10, 0, 0, 0])) 8 \<longleftrightarrow> a = 10"
    "inIPv4Range (ipv4ToUint32 (dotted [a, b, c, d])) (ipv4ToUint32 (dotted [172, 16, 0, 0])) 12 \<longleftrightarrow>
       a = 172 \<and> 16 \<le> b \<and> b \<le> 31"
    "inIPv4Range (ipv4ToUint32 (dotted [a, b, c, d])) (ipv4ToUint32 (dotted [192, 168, 0, 0])) 16 \<longleftrightarrow>
       a = 192 \<and> b = 168"
    "inIPv4Range (ipv4ToUint32 (dotted [a, b, c, d])) (ipv4ToUint32 (dotted [169, 254, 0, 0])) 16 \<longleftrightarrow>
       a = 169 \<and> b = 254"
    "inIPv4Range (ipv4ToUint32 (dotted [a, b, c, d])) (ipv4ToUint32 (dotted [100, 64, 0, 0])) 10 \<longleftrightarrow>
       a = 100 \<and> 64 \<le> b \<and> b \<le> 127"
    "inIPv4Range (ipv4ToUint32 (dotted [a, b, c, d])) (ipv4ToUint32 (dotted [192, 0, 2, 0])) 24 \<longleftrightarrow>
       a = 192 \<and> b = 0 \<and> c = 2"
    "inIPv4Range (ipv4ToUint32 (dotted [a, b, c, d])) (ipv4ToUint32 (dotted [198, 51, 100, 0])) 24 \<longleftrightarrow>
       a = 198 \<and> b = 51 \<and> c = 100"
    "inIPv4Range (ipv4ToUint32 (dotted [a, b, c, d])) (ipv4ToUint32 (dotted [203, 0, 113, 0])) 24 \<longleftrightarrow>
       a = 203 \<and> b = 0 \<and> c = 113"
    "inIPv4Range (ipv4ToUint32 (dotted [a, b, c, d])) (ipv4ToUint32 (dotted [198, 18, 0, 0])) 15 \<longleftrightarrow>
       a = 198 \<and> (b = 18 \<or> b = 19)"
    "inIPv4Range (ipv4ToUint32 (dotted [a, b, c, d])) (ipv4ToUint32 (dotted [224, 0, 0, 0])) 4 \<longleftrightarrow>
       224 \<le> a \<and> a \<le> 239"
    "inIPv4Range (ipv4ToUint32 (dotted [a, b, c, d])) (ipv4ToUint32 (dotted [0, 0, 0, 0])) 8 \<longleftrightarrow> a = 0"
    "inIPv4Range (ipv4ToUint32 (dotted [a, b, c, d])) (ipv4ToUint32 (dotted [192, 0, 0, 0])) 24 \<longleftrightarrow>
       a = 192 \<and> b = 0 \<and> c = 0"
    "inIPv4Range (ipv4ToUint32 (dotted [a, b, c, d])) (ipv4ToUint32 (dotted [192, 88, 99, 0])) 24 \<longleftrightarrow>
       a = 192 \<and> b = 88 \<and> c = 99"
    "inIPv4Range (ipv4ToUint32 (dotted [a, b, c, d])) (ipv4ToUint32 (dotted [240, 0, 0, 0])) 4 \<longleftrightarrow> 240 \<le> a"
    by (subst range; simp add: div r q q')+
  show ?thesis
    unfolding classifyIPv4_def octet_kind_def Let_def network_texts(3-16)
    unfolding network_texts(1,2) dotted_inj[OF list.simps(3) list.simps(3)] ranges if_merge by (rule refl)
qed

section \<open>The IPv6 table\<close>

lemma replicate_few: "replicate 3 c = [c, c, c]" "replicate 2 c = [c, c]"
  by (simp_all add: numeral_eq_Suc)

lemma group_text_digits:
  assumes "n < 65536"
  shows "group_text n = map digit_char [n div 4096, n div 256 mod 16, n div 16 mod 16, n mod 16]"
proof -
  note pad = group_text_def pad4_def padStart_def
  consider "n < 16" | "16 \<le> n" "n < 256" | "256 \<le> n" "n < 4096" | "4096 \<le> n" by linarith
  then show ?thesis
  proof cases
    case 1
    then have "digits_of 16 n = [digit_char n]" by (simp add: digits_small)
    with 1 show ?thesis by (simp add: pad digit_char_simps replicate_few)
  next
    case 2
    then have "digits_of 16 n = [digit_char (n div 16), digit_char (n mod 16)]"
      by (simp add: digits_small digits_step)
    with 2 show ?thesis by (simp add: pad digit_char_simps replicate_few)
  next
    case 3
    then have "digits_of 16 n = [digit_char (n div 256), digit_char (n div 16 mod 16), digit_char (n mod 16)]"
      by (simp add: digits_small digits_step flip: div_mult2_eq)
    with 3 show ?thesis by (simp add: pad digit_char_simps)
  next
    case 4
    with assms have "digits_of 16 n =
        [digit_char (n div 4096), digit_char (n div 256 mod 16), digit_char (n div 16 mod 16), digit_char (n mod 16)]"
      by (simp add: digits_small digits_step flip: div_mult2_eq)
    then show ?thesis by (simp add: pad)
  qed
qed

lemma length_group_text: "n < 65536 \<Longrightarrow> length (group_text n) = 4"
  by (simp add: group_text_digits)

lemma parse_digits:
  assumes "ds \<noteq> []" "\<forall>d \<in> set ds. d < 16"
  shows "parseInt16 (map digit_char ds) = Some (foldl (\<lambda>n d. 16 * n + d) 0 ds)"
proof -
  have "takeWhile (\<lambda>c. hex_val c \<noteq> None) (map digit_char ds) = map digit_char ds"
    using assms(2) by (simp add: takeWhile_eq_all_conv hex_digit_char)
  moreover have "foldl hex_step n (map digit_char ds) = foldl (\<lambda>n d. 16 * n + d) n ds" for n
    using assms(2) by (induction ds arbitrary: n) (simp_all add: hex_step_digit)
  ultimately show ?thesis using assms(1) by (cases ds) (simp_all add: parseInt16_def)
qed

lemma parse_two: "x < 16 \<Longrightarrow> y < 16 \<Longrightarrow> parseInt16 [digit_char x, digit_char y] = Some (16 * x + y)"
  using parse_digits[of "[x, y]"] by simp

lemma byte_texts:
  assumes "n < 65536"
  shows "parseInt16 (take 2 (group_text n)) = Some (n div 256)"
    "parseInt16 (take 2 (drop 2 (group_text n))) = Some (n mod 256)"
proof -
  have "take 2 (group_text n) = map digit_char [n div 4096, n div 256 mod 16]"
    "take 2 (drop 2 (group_text n)) = map digit_char [n div 16 mod 16, n mod 16]"
    using assms by (simp_all add: group_text_digits)
  moreover have "n div 4096 < 16" using assms by (simp add: less_mult_imp_div_less)
  moreover have "16 * (n div 4096) + n div 256 mod 16 = n div 256"
  proof -
    have "n div 4096 = n div 256 div 16" by (simp add: div_mult2_eq)
    then show ?thesis by simp
  qed
  moreover have "16 * (n div 16 mod 16) + n mod 16 = n mod 256"
    using mod_mult2_eq[of n 16 16] by simp
  ultimately show "parseInt16 (take 2 (group_text n)) = Some (n div 256)"
    "parseInt16 (take 2 (drop 2 (group_text n))) = Some (n mod 256)"
    by (simp_all add: parse_two)
qed

definition text6 :: "nat list \<Rightarrow> string" where
  "text6 ns = join_with '':'' (map group_text ns)"

definition prefix6 :: "nat list \<Rightarrow> string" where
  "prefix6 ps = concat (map (\<lambda>p. group_text p @ '':'') ps)"

lemma startsWith_block: "length x = length y \<Longrightarrow> startsWith (x @ r) (y @ s) \<longleftrightarrow> x = y \<and> startsWith r s"
  by (auto simp: startsWith_iff)

lemma starts_prefix6:
  "length ps < length ns \<Longrightarrow> \<forall>n \<in> set ns \<union> set ps. n < 65536 \<Longrightarrow>
     startsWith (text6 ns) (prefix6 ps) \<longleftrightarrow> take (length ps) ns = ps"
proof (induction ps arbitrary: ns)
  case Nil
  then show ?case by (simp add: prefix6_def)
next
  case (Cons p ps)
  then obtain n m ms where ns: "ns = n # m # ms" by (cases ns; cases "tl ns") auto
  have "text6 ns = group_text n @ '':'' @ text6 (m # ms)" by (simp add: ns text6_def)
  moreover have "prefix6 (p # ps) = group_text p @ '':'' @ prefix6 ps" by (simp add: prefix6_def)
  moreover have "startsWith (text6 (m # ms)) (prefix6 ps) \<longleftrightarrow> take (length ps) (m # ms) = ps"
    using Cons ns by (intro Cons.IH) auto
  moreover have "length (group_text n) = length (group_text p)"
    using Cons.prems ns by (simp add: length_group_text)
  ultimately show ?case by (simp add: startsWith_block group_text_inj ns)
qed

lemma starts_prefix:
  "length ps = k \<Longrightarrow> k < length ns \<Longrightarrow> \<forall>n \<in> set ns. n < 65536 \<Longrightarrow> \<forall>n \<in> set ps. n < 65536 \<Longrightarrow>
     startsWith (text6 ns) (prefix6 ps) \<longleftrightarrow> take k ns = ps"
  using starts_prefix6[of ps ns] by auto

lemma text6_inj:
  assumes "ns \<noteq> []" "ms \<noteq> []"
  shows "text6 ns = text6 ms \<longleftrightarrow> ns = ms"
proof
  have "split_on CHR '':'' (text6 ns) = map group_text ns" if "ns \<noteq> []" for ns
    unfolding text6_def using that by (intro split_join) (auto dest: group_text_chars)
  moreover assume "text6 ns = text6 ms"
  ultimately have "map group_text ns = map group_text ms" using assms by metis
  then show "ns = ms" by (simp add: inj_map_eq_map inj_def group_text_inj)
qed simp

lemma text6_literals:
  "''0000:0000:0000:0000:0000:0000:0000:0000'' = text6 [0, 0, 0, 0, 0, 0, 0, 0]"
  "''0000:0000:0000:0000:0000:0000:0000:0001'' = text6 [0, 0, 0, 0, 0, 0, 0, 1]"
  "''2001:0db8:'' = prefix6 [0x2001, 0xdb8]" "''2001:0002:0000:'' = prefix6 [0x2001, 2, 0]"
  "''2002:'' = prefix6 [0x2002]" "''0064:ff9b:0000:0000:0000:0000:'' = prefix6 [0x64, 0xff9b, 0, 0, 0, 0]"
  "''0064:ff9b:0001:'' = prefix6 [0x64, 0xff9b, 1]" "''2001:0000:'' = prefix6 [0x2001, 0]"
  "''0100:0000:0000:0000:'' = prefix6 [0x100, 0, 0, 0]" "''5f00:'' = prefix6 [0x5f00]"
  "''0000:0000:0000:0000:0000:0000:'' = prefix6 [0, 0, 0, 0, 0, 0]" "''3fff:'' = prefix6 [0x3fff]"
  by (simp_all add: text6_def prefix6_def group_text_digits digit_char_simps del: One_nat_def)

text \<open>
  The same ranges on the eight groups of an address. The embedded IPv4 address of a 6to4
  address is in the second and third group.
\<close>

definition group_kind :: "nat list \<Rightarrow> HostKind" where
  "group_kind ns =
     (let a = ns ! 0; b = ns ! 1; c = ns ! 2 in
      if ns = [0, 0, 0, 0, 0, 0, 0, 0] then Unspecified
      else if ns = [0, 0, 0, 0, 0, 0, 0, 1] then Loopback
      else if 0xff00 \<le> a then Multicast
      else if 0xfe80 \<le> a \<and> a < 0xfec0 then LinkLocal
      else if 0xfec0 \<le> a \<and> a < 0xff00 then Reserved
      else if 0xfc00 \<le> a \<and> a < 0xfe00 then Private
      else if take 2 ns = [0x2001, 0xdb8] then Documentation
      else if take 3 ns = [0x2001, 2, 0] then Benchmarking
      else if take 1 ns = [0x2002] then
        (if octet_kind (b div 256) (b mod 256) (c div 256) (c mod 256) = Public then Public else Reserved)
      else if take 6 ns = [0x64, 0xff9b, 0, 0, 0, 0] \<or> take 3 ns = [0x64, 0xff9b, 1] \<or>
              take 2 ns = [0x2001, 0] \<or> take 4 ns = [0x100, 0, 0, 0] then Reserved
      else if take 1 ns = [0x3fff] \<and> b < 0x1000 then Documentation
      else if take 1 ns = [0x5f00] \<or> take 6 ns = [0, 0, 0, 0, 0, 0] then Reserved
      else Public)"

lemma and_shifted_mask: "s AND push_bit k (mask j) = s div 2 ^ k mod 2 ^ j * (2 :: nat) ^ k"
proof -
  have "s AND push_bit k (mask j) = push_bit k (take_bit j (drop_bit k s))"
    by (rule bit_eqI) (auto simp: bit_simps)
  then show ?thesis by (simp add: push_bit_eq_mult take_bit_eq_mod drop_bit_eq_div)
qed

lemma byte_masks:
  assumes "s < (256 :: nat)"
  shows "s AND 0xc0 = 0x80 \<longleftrightarrow> 0x80 \<le> s \<and> s < 0xc0" "s AND 0xc0 = 0xc0 \<longleftrightarrow> 0xc0 \<le> s"
    "s AND 0xfe = 0xfc \<longleftrightarrow> s = 0xfc \<or> s = 0xfd"
proof -
  have m: "(0xc0 :: nat) = push_bit 6 (mask 2)" "(0xfe :: nat) = push_bit 1 (mask 7)"
    by (simp_all add: push_bit_eq_mult mask_eq_exp_minus_1)
  define x y where "x = s AND 0xc0" and "y = s AND 0xfe"
  have "x = s div 2 ^ 6 mod 2 ^ 2 * 2 ^ 6" unfolding x_def by (subst m(1)) (rule and_shifted_mask)
  moreover have "y = s div 2 ^ 1 mod 2 ^ 7 * 2 ^ 1" unfolding y_def by (subst m(2)) (rule and_shifted_mask)
  moreover have "s div 64 < 4" "s div 2 < 128" using assms by simp_all
  ultimately have "x = s div 64 * 64" "y = s div 2 * 2" by simp_all
  then show "s AND 0xc0 = 0x80 \<longleftrightarrow> 0x80 \<le> s \<and> s < 0xc0" "s AND 0xc0 = 0xc0 \<longleftrightarrow> 0xc0 \<le> s"
    "s AND 0xfe = 0xfc \<longleftrightarrow> s = 0xfc \<or> s = 0xfd"
    using assms div_eq_range[of 64 s 2] div_eq_range[of 64 s 3] div_eq_range[of 2 s 126]
    unfolding x_def[symmetric] y_def[symmetric] by linarith+
qed

lemma byte_at:
  assumes "N < 2 ^ 32"
  shows "unat (drop_bit k (of_nat N :: 32 word) AND 0xff) = N div 2 ^ k mod 256"
proof -
  have m: "(0xff :: 32 word) = mask 8" by (simp add: mask_eq_exp_minus_1)
  have "unat (drop_bit k (of_nat N :: 32 word) AND 0xff) = unat (take_bit 8 (drop_bit k (of_nat N :: 32 word)))"
    unfolding m by (simp add: take_bit_eq_mask)
  also have "\<dots> = take_bit 8 (drop_bit k (unat (of_nat N :: 32 word)))"
    by (simp only: unsigned_take_bit_eq unat_drop_bit_eq)
  also have "unat (of_nat N :: 32 word) = N"
    using assms by (simp add: unsigned_of_nat take_bit_nat_eq_self_iff)
  finally show ?thesis by (simp add: take_bit_eq_mod drop_bit_eq_div)
qed

lemma embedded_groups:
  assumes "g1 < 65536" "g2 < 65536"
    and "slice_str (k * 5) (k * 5 + 4) e = group_text g1"
    and "slice_str (k * 5 + 5) (k * 5 + 9) e = group_text g2"
  shows "extractEmbeddedIPv4 e k False = Some (dotted [g1 div 256, g1 mod 256, g2 div 256, g2 mod 256])"
proof -
  define w where "w = (push_bit 16 (of_nat g1 :: 32 word) OR of_nat g2)"
  have "push_bit 16 g1 OR g2 = g1 * 65536 + g2" using or_disjoint_add[of g2 16 g1] assms(2) by simp
  then have w: "w = of_nat (g1 * 65536 + g2)"
    by (simp add: w_def push_bit_of_nat flip: of_nat_or_eq)
  have N: "g1 * 65536 + g2 < 2 ^ 32" using assms by simp
  have at: "unat (drop_bit k w AND 0xff) = (g1 * 65536 + g2) div 2 ^ k mod 256" for k
    unfolding w by (rule byte_at[OF N])
  have "(g1 * 65536 + g2) div 2 ^ 24 = g1 div 256"
    using assms(2) div_mult2_eq[of "g1 * 65536 + g2" 65536 256] by simp
  moreover have "(g1 * 65536 + g2) div 2 ^ 16 = g1" using assms(2) by simp
  moreover have "(g1 * 65536 + g2) div 2 ^ 8 mod 256 = g2 div 256"
  proof -
    have "(g1 * 65536 + g2) div 256 = (g1 * 256) + g2 div 256"
      using div_mult_self1[of 256 g2 "g1 * 256"] by (simp add: algebra_simps)
    then show ?thesis using assms(2) by simp
  qed
  moreover have "(g1 * 65536 + g2) mod 256 = g2 mod 256"
    using mod_mult_self1[of g2 "g1 * 256" 256] by (simp add: algebra_simps)
  moreover have "g1 div 256 mod 256 = g1 div 256" using assms(1) by (simp add: less_mult_imp_div_less)
  ultimately show ?thesis
    using at[of 24] at[of 16] at[of 8] at[of 0] assms(1)
    unfolding extractEmbeddedIPv4_def Let_def assms(3,4) parse_group prod.case option.case if_False
      w_def[symmetric]
    by simp
qed

lemma classify_groups:
  assumes "length ns = 8" and "\<forall>n \<in> set ns. n < 65536"
  shows "classifyIPv6 (text6 ns) = group_kind ns"
proof -
  from assms(1) obtain a b c d e f g h where ns: "ns = [a, b, c, d, e, f, g, h]"
    by (auto simp: length_Suc_conv eval_nat_numeral)
  have bounds: "a < 65536" "b < 65536" "c < 65536" using assms(2) ns by auto
  have len: "length (group_text a) = 4" "length (group_text b) = 4" "length (group_text c) = 4"
    using bounds by (simp_all add: length_group_text)
  obtain r where r: "text6 ns = group_text a @ '':'' @ group_text b @ '':'' @ group_text c @ r"
    by (simp add: ns text6_def)
  have s: "slice_str 0 2 (text6 ns) = take 2 (group_text a)"
    "slice_str 2 4 (text6 ns) = take 2 (drop 2 (group_text a))"
    "slice_str (1 * 5) (1 * 5 + 4) (text6 ns) = group_text b"
    "slice_str (1 * 5 + 5) (1 * 5 + 9) (text6 ns) = group_text c"
    using len by (simp_all add: r slice_str_def)
  note bytes = byte_texts[OF bounds(1), folded s(1,2)]
  have emb: "extractEmbeddedIPv4 (text6 ns) 1 False =
      Some (dotted [b div 256, b mod 256, c div 256, c mod 256])"
    by (rule embedded_groups[OF bounds(2,3) s(3,4)])
  have "b div 256 < 256" "c div 256 < 256" using bounds by (simp_all add: less_mult_imp_div_less)
  then have pub: "embedded_public (Some (dotted [b div 256, b mod 256, c div 256, c mod 256])) \<longleftrightarrow>
      octet_kind (b div 256) (b mod 256) (c div 256) (c mod 256) = Public"
    by (simp add: embedded_public_def classify_octets) (simp add: dotted_def digits_not_Nil)
  have starts:
    "startsWith (text6 ns) (prefix6 [0x2001, 0xdb8]) \<longleftrightarrow> take 2 ns = [0x2001, 0xdb8]"
    "startsWith (text6 ns) (prefix6 [0x2001, 2, 0]) \<longleftrightarrow> take 3 ns = [0x2001, 2, 0]"
    "startsWith (text6 ns) (prefix6 [0x2002]) \<longleftrightarrow> take 1 ns = [0x2002]"
    "startsWith (text6 ns) (prefix6 [0x64, 0xff9b, 0, 0, 0, 0]) \<longleftrightarrow> take 6 ns = [0x64, 0xff9b, 0, 0, 0, 0]"
    "startsWith (text6 ns) (prefix6 [0x64, 0xff9b, 1]) \<longleftrightarrow> take 3 ns = [0x64, 0xff9b, 1]"
    "startsWith (text6 ns) (prefix6 [0x2001, 0]) \<longleftrightarrow> take 2 ns = [0x2001, 0]"
    "startsWith (text6 ns) (prefix6 [0x100, 0, 0, 0]) \<longleftrightarrow> take 4 ns = [0x100, 0, 0, 0]"
    "startsWith (text6 ns) (prefix6 [0x5f00]) \<longleftrightarrow> take 1 ns = [0x5f00]"
    "startsWith (text6 ns) (prefix6 [0, 0, 0, 0, 0, 0]) \<longleftrightarrow> take 6 ns = [0, 0, 0, 0, 0, 0]"
    by (rule starts_prefix; use assms in simp)+
  have doc: "startsWith (text6 ns) ''3fff:0'' \<longleftrightarrow> take 1 ns = [0x3fff] \<and> b < 0x1000"
  proof -
    have lit: "''3fff:0'' = group_text 0x3fff @ '':'' @ ''0''"
      by (simp add: group_text_digits digit_char_simps)
    have first:  "startsWith (group_text b @ x) ''0'' \<longleftrightarrow> b < 0x1000" for x
    proof -
      have "b div 4096 < 16" using bounds(2) by (simp add: less_mult_imp_div_less)
      then have "digit_char (b div 4096) = digit_char 0 \<longleftrightarrow> b div 4096 = 0"
        using hex_digit_char[of "b div 4096"] hex_digit_char[of 0] by auto
      then show ?thesis
        using bounds(2) by (simp add: group_text_digits digit_char_simps div_eq_0_iff)
    qed
    have "startsWith (text6 ns) (group_text 0x3fff @ '':'' @ ''0'') \<longleftrightarrow>
        group_text a = group_text 0x3fff \<and> b < 0x1000"
      unfolding r by (subst startsWith_block) (simp_all add: len length_group_text first)
    then show ?thesis unfolding lit by (simp add: group_text_inj ns)
  qed
  have m: "a div 256 = 0xff \<longleftrightarrow> 0xff00 \<le> a"
    "a div 256 = 0xfe \<and> (0x80 \<le> a mod 256 \<and> a mod 256 < 0xc0) \<longleftrightarrow> 0xfe80 \<le> a \<and> a < 0xfec0"
    "a div 256 = 0xfe \<and> 0xc0 \<le> a mod 256 \<longleftrightarrow> 0xfec0 \<le> a \<and> a < 0xff00"
    "a div 256 = 0xfc \<or> a div 256 = 0xfd \<longleftrightarrow> 0xfc00 \<le> a \<and> a < 0xfe00"
  proof -
    define q t where "q = a div 256" and "t = a mod 256"
    have "a = q * 256 + t" "t < 256" "a < 65536" using bounds(1) by (simp_all add: q_def t_def)
    then show "a div 256 = 0xff \<longleftrightarrow> 0xff00 \<le> a"
      "a div 256 = 0xfe \<and> (0x80 \<le> a mod 256 \<and> a mod 256 < 0xc0) \<longleftrightarrow> 0xfe80 \<le> a \<and> a < 0xfec0"
      "a div 256 = 0xfe \<and> 0xc0 \<le> a mod 256 \<longleftrightarrow> 0xfec0 \<le> a \<and> a < 0xff00"
      "a div 256 = 0xfc \<or> a div 256 = 0xfd \<longleftrightarrow> 0xfc00 \<le> a \<and> a < 0xfe00"
      unfolding q_def[symmetric] t_def[symmetric]
      by (cases "q = 254"; cases "q < 254"; auto)+
  qed
  have small: "a div 256 < 256" "a mod 256 < 256"
    using bounds(1) by (simp_all add: less_mult_imp_div_less)
  have ne: "ns \<noteq> []" "[0, 0, 0, 0, 0, 0, 0, 0] \<noteq> ([] :: nat list)" "[0, 0, 0, 0, 0, 0, 0, 1] \<noteq> ([] :: nat list)"
    by (simp_all add: ns)
  have nth: "ns ! 0 = a" "ns ! 1 = b" "ns ! 2 = c" by (simp_all add: ns)
  show ?thesis
    unfolding classifyIPv6_def group_kind_def Let_def text6_literals doc
      text6_inj[OF ne(1,2)] text6_inj[OF ne(1,3)] starts bytes emb pub bits_of_def option.case option.inject
      byte_masks[OF small(1)] byte_masks[OF small(2)] m nth if_merge if_cancel
    by simp
qed

section \<open>Stripping a host\<close>

definition is_port :: "string \<Rightarrow> bool" where
  "is_port port \<longleftrightarrow> port = [] \<or> (hd port = CHR '':'' \<and> list_all is_digit (tl port))"

lemma digit_not: "is_digit c \<Longrightarrow> \<not> is_space c \<and> c \<noteq> CHR '':'' \<and> c \<noteq> CHR ''['' \<and> c \<noteq> CHR '']'' \<and>
    c \<noteq> CHR ''%'' \<and> c \<noteq> CHR ''.'' \<and> lower_char c = c"
  by (auto simp: is_digit_def is_space_def lower_char_def Let_def)

lemma not_spaces: "\<not> is_space CHR ''.''" "\<not> is_space CHR '':''" "\<not> is_space CHR ''[''" "\<not> is_space CHR '']''"
  by (simp_all add: is_space_def)

lemma trim_no_space: "\<forall>c \<in> set s. \<not> is_space c \<Longrightarrow> trim s = s"
  by (intro trim_id) auto

lemma port_chars: "is_port port \<Longrightarrow> c \<in> set port \<Longrightarrow> c = CHR '':'' \<or> is_digit c"
  by (cases port) (auto simp: is_port_def list_all_iff)

lemma port_no_space: "is_port port \<Longrightarrow> \<forall>c \<in> set port. \<not> is_space c"
  using port_chars digit_not not_spaces(2) by blast

lemma indexOf_append: "c \<notin> set x \<Longrightarrow> indexOf (x @ c # y) c = Some (length x)"
  by (induction x) auto

lemma strip_dots:
  assumes "name \<noteq> []" and "last name \<noteq> CHR ''.''"
  shows "stripTrailingDot (name @ replicate k CHR ''.'') = name"
proof -
  have "dropWhile (\<lambda>c. c = CHR ''.'') (replicate k CHR ''.'' @ rev name) = rev name"
    using assms by (induction k) (cases name rule: rev_cases; simp)+
  then show ?thesis by (simp add: stripTrailingDot_def)
qed

lemma strip_zone_none: "CHR ''%'' \<notin> set s \<Longrightarrow> stripZoneId s = s"
  using indexOf_None_iff[of s "CHR ''%''"] by (simp add: stripZoneId_def)

lemma strip_port_plain:
  assumes "\<forall>c \<in> set x. c \<noteq> CHR '':'' \<and> c \<noteq> CHR ''[''" and "is_port port" and "x \<noteq> []"
  shows "stripPort (x @ port) = x"
proof -
  have nb: "\<not> startsWith (x @ port) ''[''" using assms by (cases x) auto
  show ?thesis
  proof (cases port)
    case Nil
    then have "indexOf (x @ port) CHR '':'' = None" using assms by (auto simp: indexOf_None_iff)
    with Nil nb show ?thesis by (simp add: stripPort_def)
  next
    case (Cons c p)
    with assms(2) have c: "c = CHR '':''" and p: "CHR '':'' \<notin> set p"
      by (auto simp: is_port_def list_all_iff dest: digit_not)
    have "indexOf (x @ port) CHR '':'' = Some (length x)"
      unfolding Cons c using assms(1) by (intro indexOf_append) auto
    moreover have "indexOf p CHR '':'' = None" using p by (simp add: indexOf_None_iff)
    ultimately show ?thesis using nb by (simp add: stripPort_def slice_str_def Cons)
  qed
qed

lemma strip_plain:
  assumes "name \<noteq> []" and "last name \<noteq> CHR ''.''" and "is_port port"
    and "\<forall>c \<in> set name. \<not> is_space c \<and> c \<noteq> CHR '':'' \<and> c \<noteq> CHR ''['' \<and> c \<noteq> CHR ''%''"
  shows "strip_host (name @ replicate k CHR ''.'' @ port) = name"
proof -
  let ?x = "name @ replicate k CHR ''.''"
  have "trim (?x @ port) = ?x @ port"
    using assms(4) port_no_space[OF assms(3)] not_spaces by (intro trim_no_space) (auto simp: set_replicate_conv_if)
  moreover have "stripPort (?x @ port) = ?x"
  proof (rule strip_port_plain[OF _ assms(3)])
    have "\<forall>c \<in> set name. c \<noteq> CHR '':'' \<and> c \<noteq> CHR ''[''" using assms(4) by blast
    then show "\<forall>c \<in> set ?x. c \<noteq> CHR '':'' \<and> c \<noteq> CHR ''[''"
      by (simp add: ball_Un set_replicate_conv_if)
    show "?x \<noteq> []" using assms(1) by simp
  qed
  moreover have "stripBrackets ?x = ?x" using assms(1,4) by (cases name) (auto simp: stripBrackets_def)
  moreover have "stripZoneId ?x = ?x" using assms(4) by (intro strip_zone_none) auto
  ultimately show ?thesis by (simp add: strip_host_def strip_dots[OF assms(1,2)])
qed

lemma strip_bracketed:
  assumes "addr \<noteq> []" and "last addr \<noteq> CHR ''.''" and "is_port port"
    and "\<forall>c \<in> set addr. \<not> is_space c \<and> c \<noteq> CHR '']'' \<and> c \<noteq> CHR ''%''"
  shows "strip_host (''['' @ addr @ '']'' @ port) = addr"
proof -
  let ?h = "''['' @ addr @ '']'' @ port"
  have "trim ?h = ?h"
    using assms(4) port_no_space[OF assms(3)] not_spaces by (intro trim_no_space) auto
  moreover have "stripPort ?h = ''['' @ addr @ '']''"
  proof -
    have "CHR '']'' \<notin> set (''['' @ addr)" using assms(4) by auto
    from indexOf_append[OF this, of port] show ?thesis by (simp add: stripPort_def slice_str_def)
  qed
  moreover have "stripBrackets (''['' @ addr @ '']'') = addr"
    by (simp add: stripBrackets_def endsWith_def slice_str_def)
  moreover have "stripZoneId addr = addr" using assms(4) by (intro strip_zone_none) auto
  ultimately show ?thesis using strip_dots[OF assms(1,2), of 0] by (simp add: strip_host_def)
qed

section \<open>From the host to its class\<close>

lemma length_digits: "n < 1000 \<Longrightarrow> length (digits_of 10 n) \<le> 3"
proof -
  assume n: "n < 1000"
  have "length (digits_of 10 m) = 1" if "m < 10" for m using that by (subst digits_of.simps) simp
  moreover have "length (digits_of 10 m) \<le> 2" if "m < 100" for m
    using that calculation[of "m div 10"] calculation[of m] by (subst digits_of.simps) (simp add: less_mult_imp_div_less)
  ultimately show ?thesis
    using n by (subst digits_of.simps) (simp add: less_mult_imp_div_less)
qed

lemma looks_dotted:
  assumes "a < 256" "b < 256" "c < 256" "d < 256"
  shows "looksLikeIPv4 (dotted [a, b, c, d])"
proof -
  have "1 \<le> length (digits_of 10 n) \<and> length (digits_of 10 n) \<le> 3 \<and> list_all is_digit (digits_of 10 n)"
    if "n < 256" for n
    using that length_digits[of n] digits_dec[of n] digits_not_Nil[of 10 n]
    by (cases "digits_of 10 n") auto
  with assms show ?thesis by (simp add: looksLikeIPv4_def split_dotted)
qed

lemma dotted_plain:
  "dotted [a, b, c, d] \<noteq> []" "last (dotted [a, b, c, d]) \<noteq> CHR ''.''"
  "toLowerCase (dotted [a, b, c, d]) = dotted [a, b, c, d]"
  "c' \<in> set (dotted [a, b, c, d]) \<Longrightarrow>
     \<not> is_space c' \<and> c' \<noteq> CHR '':'' \<and> c' \<noteq> CHR ''['' \<and> c' \<noteq> CHR '']'' \<and> c' \<noteq> CHR ''%''"
proof -
  have l: "last (digits_of 10 d) \<in> set (digits_of 10 d)" by (simp add: digits_not_Nil)
  show "dotted [a, b, c, d] \<noteq> []" by (simp add: dotted_def digits_not_Nil)
  show "last (dotted [a, b, c, d]) \<noteq> CHR ''.''"
    using digits_chars(4)[OF l] by (simp add: dotted_def digits_not_Nil)
  show "toLowerCase (dotted [a, b, c, d]) = dotted [a, b, c, d]"
    unfolding toLowerCase_def
    by (rule map_idI) (auto dest!: dotted_chars digit_not simp: lower_char_def Let_def)
  show "c' \<in> set (dotted [a, b, c, d]) \<Longrightarrow>
     \<not> is_space c' \<and> c' \<noteq> CHR '':'' \<and> c' \<noteq> CHR ''['' \<and> c' \<noteq> CHR '']'' \<and> c' \<noteq> CHR ''%''"
    using not_spaces by (auto dest!: dotted_chars digit_not)
qed

definition mapped_host :: "string \<Rightarrow> string" where
  "mapped_host ip = ''::ffff:'' @ ip"

lemma mapped_facts:
  "startsWith (mapped_host ip) ''::ffff:''" "drop 7 (mapped_host ip) = ip"
  "toLowerCase ip = ip \<Longrightarrow> toLowerCase (mapped_host ip) = mapped_host ip"
  by (simp_all add: mapped_host_def toLowerCase_def lower_char_def Let_def)

lemma mapped_not_dotted: "\<not> looksLikeIPv4 (mapped_host ip)"
proof -
  obtain w ws where "split_on CHR ''.'' ip = w # ws" by (cases "split_on CHR ''.'' ip") auto
  then have "split_on CHR ''.'' (mapped_host ip) = (''::ffff:'' @ w) # ws"
    by (simp add: mapped_host_def)
  then show ?thesis by (simp add: looksLikeIPv4_def)
qed

lemma classify_literal:
  assumes "a < 256" "b < 256" "c < 256" "d < 256"
    and "isIPv4 z (dotted [a, b, c, d])"
    and "strip_host h = dotted [a, b, c, d]"
  shows "classifyHost z h = \<lparr>hc_kind = octet_kind a b c d, hc_literal = Ipv4,
       hc_canonical = dotted [a, b, c, d]\<rparr>"
  using assms(5)
  by (simp add: classifyHost_def assms(6) dotted_plain isValidIP_def looks_dotted[OF assms(1-4)]
      classify_octets[OF assms(1-4)])

lemma classify_mapped:
  assumes "a < 256" "b < 256" "c < 256" "d < 256"
    and "isIPv4 z (dotted [a, b, c, d])"
    and "\<not> isIPv4 z (mapped_host (dotted [a, b, c, d]))" "isIPv6 z (mapped_host (dotted [a, b, c, d]))"
    and "strip_host h = mapped_host (dotted [a, b, c, d])"
  shows "classifyHost z h = \<lparr>hc_kind = octet_kind a b c d, hc_literal = Ipv4,
       hc_canonical = dotted [a, b, c, d]\<rparr>"
proof -
  let ?d = "dotted [a, b, c, d]"
  have "extractIPv4FromMapped z (mapped_host ?d) = Some ?d"
    using assms(5) by (simp add: extractIPv4FromMapped_def Let_def mapped_facts dotted_plain)
  then have "normalizeIP z (mapped_host ?d) (Some 128) = ?d"
    using assms(6,7) by (simp add: normalizeIP_def dotted_plain)
  moreover have "mapped_host ?d \<noteq> []" by (simp add: mapped_host_def)
  ultimately show ?thesis
    using assms(6,7)
    by (simp add: classifyHost_def assms(8) mapped_facts dotted_plain isValidIP_def mapped_not_dotted
        looks_dotted[OF assms(1-4)] classify_octets[OF assms(1-4)])
qed

lemma includes_dcolon: "str_includes s ''::'' \<Longrightarrow> [] \<in> set (tl (split_on CHR '':'' s))"
proof (induction s)
  case (Cons x s)
  show ?case
  proof (cases "startsWith (x # s) ''::''")
    case True
    then show ?thesis by (cases s) (auto split: list.splits)
  next
    case False
    with Cons show ?thesis by (auto split: list.splits dest: list.set_sel(2)[rotated])
  qed
qed simp

lemma split_text6: "ns \<noteq> [] \<Longrightarrow> split_on CHR '':'' (text6 ns) = map group_text ns"
  unfolding text6_def by (intro split_join) (auto dest: group_text_chars)

lemma text6_not_Nil: "length ns = 8 \<Longrightarrow> text6 ns \<noteq> []"
proof
  assume len: "length ns = 8" and "text6 ns = []"
  then have "ns \<noteq> []" by auto
  from split_text6[OF this] \<open>text6 ns = []\<close> have "map group_text ns = [[]]" by simp
  then have "length ns = 1" by (metis length_Cons length_map list.size(3) One_nat_def)
  with len show False by simp
qed

lemma text6_lower: "toLowerCase (text6 ns) = text6 ns"
  unfolding text6_def by (rule lower_join) (auto dest: group_text_chars)

lemma expand_text6:
  assumes "ns \<noteq> []" "\<forall>n \<in> set ns. n < 65536"
  shows "expandIPv6 (text6 ns) = map group_text ns"
proof -
  have len: "\<forall>n \<in> set ns. length (group_text n) = 4" using assms(2) by (simp add: length_group_text)
  then have "[] \<notin> set (split_on CHR '':'' (text6 ns))" using assms(1) by (auto simp: split_text6)
  then have "\<not> str_includes (text6 ns) ''::''" using includes_dcolon list.set_sel(2) split_on_not_Nil by metis
  with len show ?thesis by (simp add: expandIPv6_def split_text6[OF assms(1)] pad4_def padStart_def)
qed

lemma group_text_hex:
  assumes "c \<in> set (group_text n)"
  shows "\<not> is_space c \<and> c \<noteq> CHR ''.'' \<and> c \<noteq> CHR '']'' \<and> c \<noteq> CHR ''%'' \<and> c \<noteq> CHR '':''"
proof -
  have "CHR ''0'' = digit_char 0" by (simp add: digit_char_simps)
  with assms have "c \<in> digit_char ` {..<16}"
    using digits_digit_chars[of n] by (auto simp: group_text_def pad4_def padStart_def)
  then obtain d where "c = digit_char d" "d < 16" by auto
  then have "of_char c = (if d < 10 then 48 + d else 87 + d)" "d < 16" by (simp_all add: digit_char_def)
  then show ?thesis by (auto simp: is_space_def Let_def split: if_splits)
qed

lemma text6_chars:
  "c \<in> set (text6 ns) \<Longrightarrow> \<not> is_space c \<and> c \<noteq> CHR ''.'' \<and> c \<noteq> CHR '']'' \<and> c \<noteq> CHR ''%''"
proof (induction ns rule: induct_list012)
  case (3 x y zs)
  then have "c \<in> set (group_text x) \<or> c = CHR '':'' \<or> c \<in> set (text6 (y # zs))"
    by (auto simp: text6_def)
  with 3 show ?case using group_text_hex[of c x] not_spaces by auto
qed (auto simp: text6_def dest: group_text_hex)

lemma text6_not_mapped:
  assumes "length ns = 8" "\<forall>n \<in> set ns. n < 65536" "take 6 ns \<noteq> [0, 0, 0, 0, 0, 0xffff]"
  shows "extractIPv4FromMapped z (text6 ns) = None"
proof -
  from assms(1) obtain a b c d e f g h where ns: "ns = [a, b, c, d, e, f, g, h]"
    by (auto simp: length_Suc_conv eval_nat_numeral)
  have ne: "ns \<noteq> []" by (simp add: ns)
  have 0: "group_text 0 = ''0000''" "group_text 0xffff = ''ffff''"
    by (simp_all add: group_text_digits digit_char_simps)
  have "\<not> startsWith (text6 ns) ''::ffff:''"
  proof -
    have "length (group_text a) = 4" using assms(2) by (simp add: ns length_group_text)
    then obtain x r where x: "group_text a = x # r" by (cases "group_text a") auto
    then have "x \<noteq> CHR '':''" using group_text_hex[of x a] by simp
    then show ?thesis by (simp add: ns text6_def x)
  qed
  moreover have "\<not> (take 5 (map group_text ns) = replicate 5 ''0000'' \<and> map group_text ns ! 5 = ''ffff'')"
  proof -
    have "replicate 5 x = [x, x, x, x, x]" for x :: string by (simp add: numeral_eq_Suc)
    then show ?thesis using assms(3) by (auto simp: ns group_text_inj simp flip: 0)
  qed
  ultimately show ?thesis
    by (simp add: extractIPv4FromMapped_def Let_def text6_lower split_text6[OF ne]
        expand_text6[OF ne assms(2)] assms(1)) blast
qed

lemma classify_ipv6:
  assumes "length ns = 8" "\<forall>n \<in> set ns. n < 65536" "take 6 ns \<noteq> [0, 0, 0, 0, 0, 0xffff]"
    and "isIPv6 z (text6 ns)" "\<not> isIPv4 z (text6 ns)" "strip_host h = text6 ns"
  shows "classifyHost z h = \<lparr>hc_kind = group_kind ns, hc_literal = Ipv6, hc_canonical = text6 ns\<rparr>"
proof -
  have ne: "ns \<noteq> []" using assms(1) by auto
  have "CHR ''.'' \<notin> set (text6 ns)" using text6_chars by blast
  then have "\<not> looksLikeIPv4 (text6 ns)" by (simp add: looksLikeIPv4_def split_on_no_sep)
  moreover have "normalizeIP z (text6 ns) (Some 128) = text6 ns"
    using assms(4,5) text6_not_mapped[OF assms(1-3), of z]
    by (simp add: normalizeIP_def normalizeIPv6_def expand_text6[OF ne assms(2)] text6_lower flip: text6_def)
  moreover have "text6 ns \<noteq> []" by (rule text6_not_Nil[OF assms(1)])
  ultimately show ?thesis
    using assms(4,5) by (simp add: classifyHost_def assms(6) text6_lower isValidIP_def
        classify_groups[OF assms(1,2)])
qed

section \<open>Properties\<close>

text \<open>
  C35. An IPv4 host is classified by the table of special-purpose ranges on its octets,
  whether it is written as a dotted address or as an IPv4-mapped IPv6 address in brackets,
  and whatever port follows it.
\<close>

theorem ipv4_host_table:
  assumes "a < 256" "b < 256" "c < 256" "d < 256" and "is_port port"
    and "isIPv4 z (dotted [a, b, c, d])"
    and "\<not> isIPv4 z (mapped_host (dotted [a, b, c, d]))" "isIPv6 z (mapped_host (dotted [a, b, c, d]))"
    and "h = dotted [a, b, c, d] @ port \<or> h = ''['' @ mapped_host (dotted [a, b, c, d]) @ '']'' @ port"
  shows "classifyHost z h = \<lparr>hc_kind = octet_kind a b c d, hc_literal = Ipv4,
       hc_canonical = dotted [a, b, c, d]\<rparr>"
  using assms(9)
proof
  assume h: "h = dotted [a, b, c, d] @ port"
  have "strip_host (dotted [a, b, c, d] @ replicate 0 CHR ''.'' @ port) = dotted [a, b, c, d]"
    using dotted_plain(4) by (intro strip_plain[OF dotted_plain(1,2) assms(5)]) blast
  then show ?thesis by (intro classify_literal assms) (simp add: h)
next
  assume h: "h = ''['' @ mapped_host (dotted [a, b, c, d]) @ '']'' @ port"
  have "strip_host (''['' @ mapped_host (dotted [a, b, c, d]) @ '']'' @ port) = mapped_host (dotted [a, b, c, d])"
  proof (rule strip_bracketed[OF _ _ assms(5)])
    show "\<forall>c' \<in> set (mapped_host (dotted [a, b, c, d])). \<not> is_space c' \<and> c' \<noteq> CHR '']'' \<and> c' \<noteq> CHR ''%''"
      using dotted_plain(4) by (auto simp: mapped_host_def is_space_def)
  qed (use dotted_plain(1,2) in \<open>simp_all add: mapped_host_def\<close>)
  then show ?thesis by (intro classify_mapped assms) (simp add: h)
qed

theorem ipv4_host_table_witness:
  "hc_kind (classifyHost demo_zod ''[::ffff:10.0.0.1]:8080'') = Private"
proof -
  have d: "dotted [10, 0, 0, 1] = ''10.0.0.1''" by code_simp
  have "isIPv4 demo_zod ''10.0.0.1''" "\<not> isIPv4 demo_zod ''::ffff:10.0.0.1''" "isIPv6 demo_zod ''::ffff:10.0.0.1''"
    by code_simp+
  then have "classifyHost demo_zod ''[::ffff:10.0.0.1]:8080'' =
      \<lparr>hc_kind = octet_kind 10 0 0 1, hc_literal = Ipv4, hc_canonical = dotted [10, 0, 0, 1]\<rparr>"
    by (intro ipv4_host_table[where port = "'':8080''"]) (simp_all add: d mapped_host_def is_port_def is_digit_def del: One_nat_def)
  then show ?thesis by (simp add: octet_kind_def)
qed



text \<open>
  A name of this machine or of a cloud's metadata service is never public, in whatever
  case it is written and whatever trailing dots or port follow it.
\<close>

theorem local_names_never_public:
  assumes "name \<noteq> []" and "last name \<noteq> CHR ''.''" and "is_port port"
    and "\<forall>c \<in> set name. \<not> is_space c \<and> c \<noteq> CHR '':'' \<and> c \<noteq> CHR ''['' \<and> c \<noteq> CHR ''%''"
    and "toLowerCase name = ''localhost'' \<or> endsWith (toLowerCase name) ''.localhost'' \<or>
       toLowerCase name \<in> set CLOUD_METADATA_HOSTS"
    and "\<not> isValidIP z (toLowerCase name)"
  shows "\<not> isPublicRoutableHost z (name @ replicate k CHR ''.'' @ port)"
  using assms(5,6)
  by (auto simp: isPublicRoutableHost_def classifyHost_def strip_plain[OF assms(1-4)] Let_def)

theorem local_names_never_public_witness:
  "\<not> isPublicRoutableHost demo_zod ''Metadata.Google.Internal..:80''"
proof -
  have l: "toLowerCase ''Metadata.Google.Internal'' = ''metadata.google.internal''" by code_simp
  have "\<not> isValidIP demo_zod ''metadata.google.internal''" by code_simp
  then have "\<not> isPublicRoutableHost demo_zod (''Metadata.Google.Internal'' @ replicate 2 CHR ''.'' @ '':80'')"
    by (intro local_names_never_public)
      (simp_all add: l is_port_def is_digit_def CLOUD_METADATA_HOSTS_def is_space_def)
  then show ?thesis by (simp add: replicate_few)
qed

end
