(* ===== verification/RateLimiter.thy ===== *)
theory RateLimiter
  imports Ip Adapter JsDate
begin

text \<open>
  Rate limiting of requests: \<open>packages/cinaauth/src/api/rate-limiter/index.ts\<close> and the path
  normalization of \<open>packages/core/src/utils/url.ts\<close>. Times are the milliseconds of
  \<open>Date.now()\<close>, windows whole seconds. A \<open>Map\<close> is the list of its entries in insertion order.
  The glob matcher of custom rules, \<open>URL\<close> parsing and a secondary storage's atomic
  \<open>increment\<close> are parameters.
\<close>

section \<open>The decision\<close>

record rate_limit =
  rl_key :: string
  rl_count :: int
  rl_lastRequest :: int

record rate_rule =
  rule_window :: int
  rule_max :: int

record decision =
  d_next :: rate_limit
  d_update :: bool
  d_allowed :: bool
  d_retryAfter :: "int option"

definition getRetryAfter :: "int \<Rightarrow> int \<Rightarrow> int \<Rightarrow> int" where
  "getRetryAfter lastRequest window now = - ((- (lastRequest + window * 1000 - now)) div 1000)"

text \<open>\<open>later\<close> is the second reading of the clock, in \<open>getRetryAfter\<close>.\<close>

definition decideConsume :: "rate_limit option \<Rightarrow> rate_rule \<Rightarrow> int \<Rightarrow> int \<Rightarrow> decision" where
  "decideConsume data rule now later =
     (case data of
        None \<Rightarrow> \<lparr>d_next = \<lparr>rl_key = [], rl_count = 1, rl_lastRequest = now\<rparr>, d_update = False,
                 d_allowed = True, d_retryAfter = None\<rparr>
      | Some d \<Rightarrow>
          (if now - rl_lastRequest d \<ge> rule_window rule * 1000
             then \<lparr>d_next = d\<lparr>rl_count := 1, rl_lastRequest := now\<rparr>, d_update = True,
                    d_allowed = True, d_retryAfter = None\<rparr>
           else if rl_count d \<ge> rule_max rule
             then \<lparr>d_next = d, d_update = True, d_allowed = False,
                    d_retryAfter = Some (getRetryAfter (rl_lastRequest d) (rule_window rule) later)\<rparr>
           else \<lparr>d_next = d\<lparr>rl_count := rl_count d + 1, rl_lastRequest := now\<rparr>, d_update = True,
                    d_allowed = True, d_retryAfter = None\<rparr>))"

section \<open>The memory store\<close>

record memory_entry =
  me_data :: rate_limit
  me_expiresAt :: int

type_synonym memory_store = "(string \<times> memory_entry) list"

definition MEMORY_STORE_MAX_ENTRIES :: nat where
  "MEMORY_STORE_MAX_ENTRIES = 100000"

definition pruneMemoryStore :: "int \<Rightarrow> memory_store \<Rightarrow> memory_store" where
  "pruneMemoryStore now m =
     (let live = filter (\<lambda>(k, e). \<not> now \<ge> me_expiresAt e) m in
      if length live \<le> MEMORY_STORE_MAX_ENTRIES then live
      else drop (length live - MEMORY_STORE_MAX_ENTRIES) live)"

text \<open>\<open>memory.set\<close>: an existing key keeps its place.\<close>

fun map_put :: "'k \<Rightarrow> 'v \<Rightarrow> ('k \<times> 'v) list \<Rightarrow> ('k \<times> 'v) list" where
  "map_put k v [] = [(k, v)]"
| "map_put k v (p # ps) = (if fst p = k then (k, v) # ps else p # map_put k v ps)"

text \<open>
  One \<open>consume\<close>: the clock is read when pruning, for the decision and for the retry time.
  The answer is \<open>allowed\<close> and \<open>retryAfter\<close>.
\<close>

record clock3 =
  at_prune :: int
  at_now :: int
  at_retry :: int

definition memory_consume ::
  "clock3 \<Rightarrow> string \<Rightarrow> rate_rule \<Rightarrow> memory_store \<Rightarrow> (bool \<times> int option) \<times> memory_store"
where
  "memory_consume clk key rule m =
     (let m' = pruneMemoryStore (at_prune clk) m;
          now = at_now clk;
          current = (case map_of m' key of
                       Some e \<Rightarrow> if now < me_expiresAt e then Some (me_data e) else None
                     | None \<Rightarrow> None);
          d = decideConsume current rule now (at_retry clk)
      in ((d_allowed d, d_retryAfter d),
          if d_allowed d
          then map_put key \<lparr>me_data = (d_next d)\<lparr>rl_key := key\<rparr>,
                            me_expiresAt = now + rule_window rule * 1000\<rparr> m'
          else m'))"

section \<open>A secondary storage\<close>

definition secondary_consume ::
  "(string \<Rightarrow> int \<Rightarrow> 's \<Rightarrow> int \<times> 's) \<Rightarrow> string \<Rightarrow> rate_rule \<Rightarrow> 's \<Rightarrow> (bool \<times> int option) \<times> 's"
where
  "secondary_consume increment key rule s =
     (let (n, t) = increment key (rule_window rule) s in
      if n \<le> rule_max rule then ((True, None), t) else ((False, Some (rule_window rule)), t))"

section \<open>The database\<close>

record 's rate_db =
  rd_store :: 's
  rd_longest :: int      \<comment> \<open>\<open>longestObservedWindow\<close>\<close>

definition on_store :: "('s, 'a) act \<Rightarrow> ('s rate_db, 'a) act" where
  "on_store f s = (case f (rd_store s) of (x, t) \<Rightarrow> (x, s\<lparr>rd_store := t\<rparr>))"

abbreviation RATE_LIMIT :: string where
  "RATE_LIMIT \<equiv> ''rateLimit''"

definition readRow :: "'s adapter \<Rightarrow> string \<Rightarrow> ('s rate_db, row option) act" where
  "readRow A key =
     bindA (on_store (a_findMany A RATE_LIMIT [wh_eq ''key'' (Str key)] None None None))
       (\<lambda>res. returnA (case res of [] \<Rightarrow> None | r # _ \<Rightarrow> Some r))"

definition num_field :: "row \<Rightarrow> string \<Rightarrow> int" where
  "num_field r f = (case get_field r f of Num n \<Rightarrow> n | _ \<Rightarrow> 0)"

definition deleteExpiredRows :: "'s adapter \<Rightarrow> int \<Rightarrow> ('s rate_db, unit) act" where
  "deleteExpiredRows A now s =
     (let cutoff = now - rd_longest s * 1000;
          (x, t) = on_store (a_deleteMany A RATE_LIMIT [wh ''lastRequest'' Op_lt (Num cutoff)]) s
      in (Inr (), t))"

definition open_row :: "'s adapter \<Rightarrow> string \<Rightarrow> int \<Rightarrow> ('s, row) act" where
  "open_row A key now =
     a_create A RATE_LIMIT [(''key'', Str key), (''count'', Num 1), (''lastRequest'', Num now)]"

definition reset_row :: "'s adapter \<Rightarrow> string \<Rightarrow> int \<Rightarrow> int \<Rightarrow> ('s, row option) act" where
  "reset_row A key lastRequest now =
     a_incrementOne A RATE_LIMIT
       [wh_eq ''key'' (Str key), wh ''lastRequest'' Op_lte (Num lastRequest)]
       [] (Some [(''count'', Num 1), (''lastRequest'', Num now)])"

definition count_row :: "'s adapter \<Rightarrow> string \<Rightarrow> rate_rule \<Rightarrow> int \<Rightarrow> ('s, row option) act" where
  "count_row A key rule now =
     a_incrementOne A RATE_LIMIT
       [wh_eq ''key'' (Str key), wh ''lastRequest'' Op_gt (Num (now - rule_window rule * 1000)),
        wh ''count'' Op_lt (Num (rule_max rule))]
       [(''count'', 1)] (Some [(''lastRequest'', Num now)])"

text \<open>
  \<open>consume\<close>, with fuel for its retries: round \<open>i\<close> reads the clock as \<open>clk (2 i)\<close> and, for the
  retry time, as \<open>clk (2 i + 1)\<close>.
\<close>

fun db_consume ::
  "nat \<Rightarrow> nat \<Rightarrow> (nat \<Rightarrow> int) \<Rightarrow> 's adapter \<Rightarrow> string \<Rightarrow> rate_rule \<Rightarrow> ('s rate_db, bool \<times> int option) act"
where
  "db_consume 0 i clk A key rule s = (Inl OutOfFuel, s)"
| "db_consume (Suc fuel) i clk A key rule s0 =
     (let s = (if rule_window rule > rd_longest s0 then s0\<lparr>rd_longest := rule_window rule\<rparr> else s0);
          now = clk (2 * i); windowInMs = rule_window rule * 1000 in
      bindA (readRow A key) (\<lambda>data.
        case data of
          None \<Rightarrow>
            (\<lambda>s1. case on_store (open_row A key now) s1 of
               (Inr _, s2) \<Rightarrow> (Inr (True, None), s2)
             | (Inl e, s2) \<Rightarrow>
                 bindA (readRow A key) (\<lambda>existing.
                   case existing of
                     None \<Rightarrow> throwA e
                   | Some _ \<Rightarrow> db_consume fuel (Suc i) clk A key rule) s2)
        | Some d \<Rightarrow>
            if now - num_field d ''lastRequest'' \<ge> windowInMs then
              bindA (on_store (reset_row A key (num_field d ''lastRequest'') now)) (\<lambda>reset.
                case reset of
                  Some _ \<Rightarrow> bindA (deleteExpiredRows A now) (\<lambda>_. returnA (True, None))
                | None \<Rightarrow> db_consume fuel (Suc i) clk A key rule)
            else
              bindA (on_store (count_row A key rule now)) (\<lambda>incremented.
                case incremented of
                  Some _ \<Rightarrow> returnA (True, None)
                | None \<Rightarrow>
                    bindA (readRow A key) (\<lambda>fresh.
                      case fresh of
                        None \<Rightarrow> db_consume fuel (Suc i) clk A key rule
                      | Some f \<Rightarrow>
                          if now - num_field f ''lastRequest'' \<ge> windowInMs
                            then db_consume fuel (Suc i) clk A key rule
                          else returnA (False, Some (getRetryAfter (num_field f ''lastRequest'')
                                 (rule_window rule) (clk (2 * i + 1))))))) s)"

section \<open>Rules\<close>

text \<open>\<open>s.replace(/\/+$/, "")\<close>.\<close>

definition strip_slashes :: "string \<Rightarrow> string" where
  "strip_slashes s = rev (dropWhile (\<lambda>c. c = CHR ''/'') (rev s))"

text \<open>\<open>pathname\<close> is the path of the parsed request URL, \<open>None\<close> when parsing throws.\<close>

definition normalizePathname :: "string option \<Rightarrow> string \<Rightarrow> string" where
  "normalizePathname pathname basePath =
     (case pathname of
        None \<Rightarrow> ''/''
      | Some raw \<Rightarrow>
          (let path = (if strip_slashes raw = [] then ''/'' else strip_slashes raw);
               base = strip_slashes basePath in
           if base = [] then path
           else if path = base then ''/''
           else if startsWith path (base @ ''/'') then
             (let rest = strip_slashes (drop (length base) path) in if rest = [] then ''/'' else rest)
           else path))"

record path_rule =
  pr_matcher :: "string \<Rightarrow> bool"
  pr_window :: int
  pr_max :: int

definition getDefaultSpecialRules :: "path_rule list" where
  "getDefaultSpecialRules =
     [\<lparr>pr_matcher = (\<lambda>path. startsWith path ''/sign-in'' \<or> startsWith path ''/sign-up'' \<or>
          startsWith path ''/change-password'' \<or> startsWith path ''/change-email''),
       pr_window = 10, pr_max = 3\<rparr>,
      \<lparr>pr_matcher = (\<lambda>path. path = ''/request-password-reset'' \<or> path = ''/send-verification-email'' \<or>
          startsWith path ''/forget-password'' \<or> path = ''/email-otp/send-verification-otp'' \<or>
          path = ''/email-otp/request-password-reset''),
       pr_window = 60, pr_max = 3\<rparr>]"

text \<open>What a custom rule resolves to: a rule, \<open>false\<close>, or nothing.\<close>

datatype custom_result = UseRule rate_rule | NoLimit | Unset

datatype custom_rule = Constant custom_result | Computed "rate_rule \<Rightarrow> custom_result"

record rate_ctx =
  rc_enabled :: bool
  rc_window :: int
  rc_max :: int
  rc_basePath :: string
  rc_ip :: ip_options
  rc_plugins :: "path_rule list list"     \<comment> \<open>the \<open>rateLimit\<close> of the plugins that have one\<close>
  rc_customRules :: "(string \<times> custom_rule) list"

text \<open>The windows the storage knows in advance, for its first \<open>longestObservedWindow\<close>.\<close>

definition getConfiguredRateLimitWindows :: "rate_ctx \<Rightarrow> int list" where
  "getConfiguredRateLimitWindows ctx =
     (let windows = [rc_window ctx] @ map pr_window getDefaultSpecialRules @
            concat (map (map pr_window) (rc_plugins ctx)) @
            concat (map (\<lambda>(_, c). case c of Constant (UseRule r) \<Rightarrow> [rule_window r] | _ \<Rightarrow> [])
                      (rc_customRules ctx));
          validWindows = filter (\<lambda>w. w > 0) windows
      in if validWindows \<noteq> [] then validWindows else [rc_window ctx])"

definition initial_rate_db :: "rate_ctx \<Rightarrow> 's \<Rightarrow> 's rate_db" where
  "initial_rate_db ctx s = \<lparr>rd_store = s, rd_longest = Max (set (getConfiguredRateLimitWindows ctx))\<rparr>"

definition rule_of :: "path_rule \<Rightarrow> rate_rule" where
  "rule_of r = \<lparr>rule_window = pr_window r, rule_max = pr_max r\<rparr>"

fun plugin_rule :: "string \<Rightarrow> path_rule list list \<Rightarrow> rate_rule option" where
  "plugin_rule path [] = None"
| "plugin_rule path (rules # ps) =
     (case find (\<lambda>r. pr_matcher r path) rules of
        Some r \<Rightarrow> Some (rule_of r)
      | None \<Rightarrow> plugin_rule path ps)"

definition custom_match :: "(string \<Rightarrow> string \<Rightarrow> bool) \<Rightarrow> string \<Rightarrow> string \<Rightarrow> bool" where
  "custom_match wildcardMatch path p =
     (if CHR ''*'' \<in> set p then wildcardMatch p path else p = path)"

definition NO_TRUSTED_IP_KEY :: string where
  "NO_TRUSTED_IP_KEY = ''no-trusted-ip''"

text \<open>
  The key and the rule of a request, \<open>None\<close> when it is not limited. An empty path pattern is
  falsy and is not looked up.
\<close>

definition resolveRateLimitConfig ::
  "zod \<Rightarrow> (string \<Rightarrow> string \<Rightarrow> bool) \<Rightarrow> bool \<Rightarrow> rate_ctx \<Rightarrow> (string \<Rightarrow> string option) \<Rightarrow> string option \<Rightarrow>
     (string \<times> rate_rule) option"
where
  "resolveRateLimitConfig z wildcardMatch local ctx headers pathname =
     (let path = normalizePathname pathname (rc_basePath ctx);
          ip = getIP z headers (rc_ip ctx) local in
      if (ip = None \<or> ip = Some []) \<and> ip_disableIpTracking (rc_ip ctx) then None
      else
        (let key = createRateLimitKey (case ip of Some a \<Rightarrow> a | None \<Rightarrow> NO_TRUSTED_IP_KEY) path;
             r0 = \<lparr>rule_window = rc_window ctx, rule_max = rc_max ctx\<rparr>;
             r1 = (case find (\<lambda>r. pr_matcher r path) getDefaultSpecialRules of
                     Some r \<Rightarrow> rule_of r | None \<Rightarrow> r0);
             r2 = (case plugin_rule path (rc_plugins ctx) of Some r \<Rightarrow> r | None \<Rightarrow> r1);
             resolved = (case find (\<lambda>(p, _). custom_match wildcardMatch path p) (rc_customRules ctx) of
                     Some (p, c) \<Rightarrow> if p = [] then Unset
                       else (case c of Constant x \<Rightarrow> x | Computed f \<Rightarrow> f r2)
                   | None \<Rightarrow> Unset)
         in case resolved of
              UseRule r \<Rightarrow> Some (key, r)
            | NoLimit \<Rightarrow> None
            | Unset \<Rightarrow> Some (key, r2)))"

text \<open>
  \<open>onRequestRateLimit\<close> over a storage's \<open>consume\<close>: \<open>None\<close> lets the request pass, \<open>Some n\<close>
  answers 429 with \<open>n\<close> as the retry time.
\<close>

definition onRequestRateLimit ::
  "(string \<Rightarrow> rate_rule \<Rightarrow> 's \<Rightarrow> (bool \<times> int option) \<times> 's) \<Rightarrow> bool \<Rightarrow> (string \<times> rate_rule) option \<Rightarrow>
     's \<Rightarrow> int option \<times> 's"
where
  "onRequestRateLimit consume enabled config s =
     (if \<not> enabled then (None, s)
      else (case config of
              None \<Rightarrow> (None, s)
            | Some (key, rule) \<Rightarrow>
                (case consume key rule s of
                   ((allowed, retryAfter), t) \<Rightarrow>
                     if \<not> allowed
                       then (Some (case retryAfter of Some n \<Rightarrow> n | None \<Rightarrow> rule_window rule), t)
                     else (None, t))))"

end
