(* ===== verification/RateWindow.thy ===== *)
theory RateWindow
  imports RateLimiter
begin

text \<open>
  What the memory store's limiter guarantees over a sequence of requests: never more than the
  maximum in any interval of one window, refused requests may return after the time they are
  told, and the price of counting from the last request.
\<close>

section \<open>Sequences of requests\<close>

record rate_event =
  ev_clk :: clock3
  ev_key :: string
  ev_rule :: rate_rule

fun memory_run :: "rate_event list \<Rightarrow> memory_store \<Rightarrow> bool list \<times> memory_store" where
  "memory_run [] m = ([], m)"
| "memory_run (e # es) m =
     (let ((allowed, _), m') = memory_consume (ev_clk e) (ev_key e) (ev_rule e) m;
          (rest, m'') = memory_run es m'
      in (allowed # rest, m''))"

text \<open>The times at which requests of a key were let through, the newest first.\<close>

definition granted :: "string \<Rightarrow> rate_event list \<Rightarrow> bool list \<Rightarrow> int list" where
  "granted k es bs =
     rev (map (\<lambda>(e, _). at_now (ev_clk e)) (filter (\<lambda>(e, b). b \<and> ev_key e = k) (zip es bs)))"

text \<open>The clock never runs backwards.\<close>

fun in_order :: "int \<Rightarrow> rate_event list \<Rightarrow> bool" where
  "in_order t [] = True"
| "in_order t (e # es) =
     (t \<le> at_prune (ev_clk e) \<and> at_prune (ev_clk e) \<le> at_now (ev_clk e) \<and> in_order (at_now (ev_clk e)) es)"

definition within :: "int \<Rightarrow> int \<Rightarrow> int list \<Rightarrow> nat" where
  "within t w xs = length (filter (\<lambda>x. t \<le> x \<and> x < t + w) xs)"

lemma within_Nil [simp]: "within t w [] = 0"
  by (simp add: within_def)

lemma within_Cons: "within t w (x # xs) = (if t \<le> x \<and> x < t + w then Suc (within t w xs) else within t w xs)"
  by (simp add: within_def)

lemma within_append: "within t w (xs @ ys) = within t w xs + within t w ys"
  by (simp add: within_def)

lemma within_le: "within t w xs \<le> length xs"
  by (simp add: within_def)

section \<open>The store as a map\<close>

lemma map_of_put: "map_of (map_put k v m) j = (if j = k then Some v else map_of m j)"
  by (induction m) auto

lemma keys_put: "set (map fst (map_put k v m)) = insert k (set (map fst m))"
  by (induction m) auto

lemma distinct_put: "distinct (map fst m) \<Longrightarrow> distinct (map fst (map_put k v m))"
  by (induction m) (auto simp: keys_put simp del: set_map)

lemma length_put: "length (map_put k v m) \<le> Suc (length m)"
  by (induction m) auto

lemma prune_small:
  assumes "length m \<le> MEMORY_STORE_MAX_ENTRIES"
  shows "pruneMemoryStore now m = filter (\<lambda>(k, e). \<not> now \<ge> me_expiresAt e) m"
  using assms le_trans[OF length_filter_le] by (auto simp: pruneMemoryStore_def Let_def)

lemma map_of_filter_distinct:
  "distinct (map fst m) \<Longrightarrow>
     map_of (filter P m) k = (case map_of m k of Some v \<Rightarrow> if P (k, v) then Some v else None | None \<Rightarrow> None)"
  by (induction m) (auto simp: map_of_eq_None_iff split: option.splits)

lemma distinct_filter: "distinct (map fst m) \<Longrightarrow> distinct (map fst (filter P m))"
  by (induction m) auto

section \<open>Bursts\<close>

text \<open>
  A key's grants fall into bursts separated by a whole window; the count is the size of the
  last one.
\<close>

definition burst :: "int \<Rightarrow> int \<Rightarrow> int list \<Rightarrow> int \<Rightarrow> bool" where
  "burst w M hist c \<longleftrightarrow> 1 \<le> c \<and> c \<le> max 1 M \<and> nat c \<le> length hist \<and>
     (\<forall>x \<in> set (drop (nat c) hist). \<forall>y \<in> set (take (nat c) hist). x + w \<le> y)"

definition bounded :: "int \<Rightarrow> int \<Rightarrow> int list \<Rightarrow> bool" where
  "bounded w M hist \<longleftrightarrow> (\<forall>t. int (within t w hist) \<le> max 1 M)"

lemma bounded_step:
  assumes "burst w M (now # hist) c" and "bounded w M hist"
  shows "bounded w M (now # hist)"
  unfolding bounded_def
proof
  fix t
  show "int (within t w (now # hist)) \<le> max 1 M"
  proof (cases "t \<le> now \<and> now < t + w")
    case False
    with assms(2) show ?thesis by (auto simp: within_Cons bounded_def)
  next
    case True
    let ?h = "now # hist"
    from assms(1) have c: "1 \<le> c" "c \<le> max 1 M" and
      gap: "\<forall>x \<in> set (drop (nat c) ?h). \<forall>y \<in> set (take (nat c) ?h). x + w \<le> y"
      by (simp_all add: burst_def)
    have "now \<in> set (take (nat c) ?h)" using c(1) by (cases "nat c") auto
    with gap True have "\<forall>x \<in> set (drop (nat c) ?h). \<not> t \<le> x" by fastforce
    then have "within t w (drop (nat c) ?h) = 0" by (auto simp: within_def filter_empty_conv)
    moreover have "within t w (take (nat c) ?h) \<le> nat c"
      using within_le[of t w "take (nat c) ?h"] by simp
    moreover have "within t w ?h = within t w (take (nat c) ?h) + within t w (drop (nat c) ?h)"
      by (simp flip: within_append)
    ultimately show ?thesis using c by simp
  qed
qed

lemma burst_reset:
  assumes "\<forall>x \<in> set hist. x + w \<le> now"
  shows "burst w M (now # hist) 1"
  using assms by (simp add: burst_def)

lemma burst_count:
  assumes "burst w M hist c" and "c < M" and "\<forall>x \<in> set hist. x \<le> now"
  shows "burst w M (now # hist) (c + 1)"
proof -
  from assms(1) have c: "1 \<le> c" "nat c \<le> length hist" and
    gap: "\<forall>x \<in> set (drop (nat c) hist). \<forall>y \<in> set (take (nat c) hist). x + w \<le> y"
    by (simp_all add: burst_def)
  have s: "nat (c + 1) = Suc (nat c)" using c(1) by simp
  have "hist \<noteq> []" using c by auto
  then have "hd hist \<in> set (take (nat c) hist)" using c(1) by (cases hist; cases "nat c") auto
  then have "\<forall>x \<in> set (drop (nat c) hist). x + w \<le> now"
    using gap assms(3) \<open>hist \<noteq> []\<close> by (meson hd_in_set order_trans)
  with gap c assms(2) show ?thesis by (auto simp: burst_def s)
qed

section \<open>The invariant\<close>

text \<open>
  \<open>T\<close> is the last time seen. A key without an entry was never granted, or its entry expired.
\<close>

definition limiter_inv :: "string \<Rightarrow> rate_rule \<Rightarrow> int \<Rightarrow> memory_store \<Rightarrow> int list \<Rightarrow> bool" where
  "limiter_inv k r T m hist \<longleftrightarrow>
     (let w = rule_window r * 1000 in
      distinct (map fst m) \<and> (\<forall>x \<in> set hist. x \<le> T) \<and> bounded w (rule_max r) hist \<and>
      (case map_of m k of
         None \<Rightarrow> \<forall>x \<in> set hist. x + w \<le> T
       | Some e \<Rightarrow> hist \<noteq> [] \<and> (\<forall>x \<in> set hist. x \<le> hd hist) \<and>
           rl_lastRequest (me_data e) = hd hist \<and> me_expiresAt e = hd hist + w \<and>
           burst w (rule_max r) hist (rl_count (me_data e))))"

lemma all_le_trans: "\<forall>x \<in> set xs. x + (w :: int) \<le> a \<Longrightarrow> a \<le> b \<Longrightarrow> \<forall>x \<in> set xs. x + w \<le> b"
  by force

lemma limiter_inv_later:
  assumes "limiter_inv k r T m hist" and "T \<le> T'"
  shows "limiter_inv k r T' m hist"
proof (cases "map_of m k")
  case None
  with assms(1) all_le_trans[OF _ assms(2), of hist 0]
    all_le_trans[OF _ assms(2), of hist "rule_window r * 1000"] show ?thesis
    by (simp add: limiter_inv_def Let_def)
next
  case (Some e)
  with assms(1) all_le_trans[OF _ assms(2), of hist 0] show ?thesis
    by (simp add: limiter_inv_def Let_def)
qed

lemma limiter_inv_prune:
  assumes "limiter_inv k r T m hist" and "T \<le> now" and "length m \<le> MEMORY_STORE_MAX_ENTRIES"
  shows "limiter_inv k r now (pruneMemoryStore now m) hist"
proof -
  have d: "distinct (map fst m)" using assms(1) by (simp add: limiter_inv_def Let_def)
  let ?P = "\<lambda>(k, e). \<not> now \<ge> me_expiresAt e"
  note prune = prune_small[OF assms(3)]
  from limiter_inv_later[OF assms(1,2)] have inv: "limiter_inv k r now m hist" .
  show ?thesis
  proof (cases "map_of m k")
    case None
    with inv show ?thesis
      by (simp add: limiter_inv_def Let_def prune map_of_filter_distinct[OF d] distinct_filter[OF d])
  next
    case (Some e)
    show ?thesis
    proof (cases "now \<ge> me_expiresAt e")
      case False
      with Some inv show ?thesis
        by (simp add: limiter_inv_def Let_def prune map_of_filter_distinct[OF d] distinct_filter[OF d])
    next
      case True
      with Some inv have "\<forall>x \<in> set hist. x + rule_window r * 1000 \<le> now"
        by (auto simp: limiter_inv_def Let_def)
      with True Some inv show ?thesis
        by (simp add: limiter_inv_def Let_def prune map_of_filter_distinct[OF d] distinct_filter[OF d])
    qed
  qed
qed

text \<open>One request of the key.\<close>

lemma limiter_inv_consume:
  assumes inv: "limiter_inv k r T m hist" and "T \<le> at_prune clk" "at_prune clk \<le> at_now clk"
    and "length m \<le> MEMORY_STORE_MAX_ENTRIES" and run: "memory_consume clk k r m = ((b, ra), m')"
  shows "limiter_inv k r (at_now clk) m' (if b then at_now clk # hist else hist)"
proof -
  let ?w = "rule_window r * 1000" and ?now = "at_now clk"
  define mp where "mp = pruneMemoryStore (at_prune clk) m"
  from limiter_inv_later[OF limiter_inv_prune[OF inv assms(2,4)] assms(3), folded mp_def]
  have I: "limiter_inv k r ?now mp hist" .
  then have d: "distinct (map fst mp)" and le: "\<forall>x \<in> set hist. x \<le> ?now" and bd: "bounded ?w (rule_max r) hist"
    by (simp_all add: limiter_inv_def Let_def)
  define current where "current = (case map_of mp k of
      Some e \<Rightarrow> if ?now < me_expiresAt e then Some (me_data e) else None | None \<Rightarrow> None)"
  have opened: "limiter_inv k r ?now m' (if b then ?now # hist else hist)"
    if cur: "current = None" and gap: "\<forall>x \<in> set hist. x + ?w \<le> ?now"
  proof -
    from run cur have "b" "m' = map_put k \<lparr>me_data = \<lparr>rl_key = k, rl_count = 1, rl_lastRequest = ?now\<rparr>,
        me_expiresAt = ?now + ?w\<rparr> mp"
      by (auto simp: memory_consume_def Let_def mp_def[symmetric] current_def[symmetric] decideConsume_def)
    then show ?thesis
      using d le bounded_step[OF burst_reset[OF gap] bd] burst_reset[OF gap]
      by (simp add: limiter_inv_def Let_def map_of_put distinct_put)
  qed
  show ?thesis
  proof (cases "map_of mp k")
    case None
    then show ?thesis using I by (intro opened) (simp_all add: current_def limiter_inv_def Let_def)
  next
    case (Some e)
    with I have e: "hist \<noteq> []" "\<forall>x \<in> set hist. x \<le> hd hist" "rl_lastRequest (me_data e) = hd hist"
      "me_expiresAt e = hd hist + ?w" "burst ?w (rule_max r) hist (rl_count (me_data e))"
      by (simp_all add: limiter_inv_def Let_def)
    show ?thesis
    proof (cases "?now < me_expiresAt e")
      case False
      then have "\<forall>x \<in> set hist. x + ?w \<le> ?now" using e(2,4) by force
      with False Some show ?thesis by (intro opened) (simp_all add: current_def)
    next
      case True
      then have cur: "current = Some (me_data e)" by (simp add: current_def Some)
      have open': "\<not> ?now - rl_lastRequest (me_data e) \<ge> ?w" using True e(3,4) by simp
      show ?thesis
      proof (cases "rl_count (me_data e) \<ge> rule_max r")
        case True
        with run cur open' have "\<not> b" "m' = mp"
          by (auto simp: memory_consume_def Let_def mp_def[symmetric] current_def[symmetric] decideConsume_def)
        with I show ?thesis by simp
      next
        case False
        with run cur open' have b: "b" and m': "m' = map_put k \<lparr>me_data = (me_data e)\<lparr>rl_count :=
            rl_count (me_data e) + 1, rl_lastRequest := ?now, rl_key := k\<rparr>, me_expiresAt = ?now + ?w\<rparr> mp"
          by (auto simp: memory_consume_def Let_def mp_def[symmetric] current_def[symmetric] decideConsume_def)
        have bu: "burst ?w (rule_max r) (?now # hist) (rl_count (me_data e) + 1)"
          using False by (intro burst_count[OF e(5) _ le]) simp
        then show ?thesis
          using b m' d le bounded_step[OF bu bd]
          by (simp add: limiter_inv_def Let_def map_of_put distinct_put)
      qed
    qed
  qed
qed

lemma limiter_inv_other:
  assumes inv: "limiter_inv k r T m hist" and "T \<le> at_prune clk" "at_prune clk \<le> at_now clk"
    and "length m \<le> MEMORY_STORE_MAX_ENTRIES" and "j \<noteq> k"
    and run: "memory_consume clk j q m = (ba, m')"
  shows "limiter_inv k r (at_now clk) m' hist"
proof -
  define mp where "mp = pruneMemoryStore (at_prune clk) m"
  from limiter_inv_later[OF limiter_inv_prune[OF inv assms(2,4)] assms(3), folded mp_def]
  have I: "limiter_inv k r (at_now clk) mp hist" .
  from run obtain e where "m' = mp \<or> m' = map_put j e mp"
    by (auto simp: memory_consume_def Let_def mp_def[symmetric] split: if_splits)
  with I assms(5) show ?thesis by (auto simp: limiter_inv_def Let_def map_of_put distinct_put)
qed

lemma store_grows_by_one:
  assumes "memory_consume clk j q m = (ba, m')" and "length m \<le> MEMORY_STORE_MAX_ENTRIES"
  shows "length m' \<le> Suc (length m)"
proof -
  let ?mp = "pruneMemoryStore (at_prune clk) m"
  have "length ?mp \<le> length m" by (simp add: prune_small[OF assms(2)])
  moreover from assms(1) obtain e where "m' = ?mp \<or> m' = map_put j e ?mp"
    by (auto simp: memory_consume_def Let_def split: if_splits)
  ultimately show ?thesis using length_put[of j e ?mp] by auto
qed

lemma granted_Cons:
  "granted k (e # es) (b # bs) =
     granted k es bs @ (if b \<and> ev_key e = k then [at_now (ev_clk e)] else [])"
  by (simp add: granted_def)

lemma limiter_inv_run:
  assumes "limiter_inv k r T m hist" and "in_order T es"
    and "\<forall>e \<in> set es. ev_key e = k \<longrightarrow> ev_rule e = r"
    and "length m + length es \<le> MEMORY_STORE_MAX_ENTRIES" and "memory_run es m = (bs, m')"
  shows "\<exists>T'. limiter_inv k r T' m' (granted k es bs @ hist)"
  using assms
proof (induction es arbitrary: m T hist bs)
  case Nil
  then show ?case by (auto simp: granted_def)
next
  case (Cons e es)
  obtain b ra m1 where step: "memory_consume (ev_clk e) (ev_key e) (ev_rule e) m = ((b, ra), m1)"
    by (metis surj_pair)
  obtain cs where cs: "memory_run es m1 = (cs, m')" and bs: "bs = b # cs"
    using Cons.prems(5) step by (auto split: prod.splits)
  have len: "length m \<le> MEMORY_STORE_MAX_ENTRIES" using Cons.prems(4) by simp
  let ?hist = "if b \<and> ev_key e = k then at_now (ev_clk e) # hist else hist"
  have "limiter_inv k r (at_now (ev_clk e)) m1 ?hist"
  proof (cases "ev_key e = k")
    case True
    then show ?thesis
      using limiter_inv_consume[OF Cons.prems(1) _ _ len] step Cons.prems(2,3) by auto
  next
    case False
    then show ?thesis
      using limiter_inv_other[OF Cons.prems(1) _ _ len False step] Cons.prems(2) by simp
  qed
  moreover have "length m1 + length es \<le> MEMORY_STORE_MAX_ENTRIES"
    using store_grows_by_one[OF step len] Cons.prems(4) by simp
  ultimately have "\<exists>T'. limiter_inv k r T' m' (granted k es cs @ ?hist)"
    using Cons.prems(2,3) cs by (intro Cons.IH) auto
  then show ?case by (auto simp: bs granted_Cons split: if_splits)
qed

lemma limiter_inv_empty: "limiter_inv k r T [] []"
  by (simp add: limiter_inv_def Let_def bounded_def)

section \<open>Keys\<close>

definition client_of :: "zod \<Rightarrow> rate_ctx \<Rightarrow> bool \<Rightarrow> (string \<Rightarrow> string option) \<Rightarrow> string" where
  "client_of z ctx local headers =
     (case getIP z headers (rc_ip ctx) local of Some a \<Rightarrow> a | None \<Rightarrow> NO_TRUSTED_IP_KEY)"

lemma rate_key_inj:
  "CHR ''|'' \<notin> set a \<Longrightarrow> CHR ''|'' \<notin> set b \<Longrightarrow>
     createRateLimitKey a p = createRateLimitKey b q \<Longrightarrow> a = b \<and> p = q"
proof (induction a arbitrary: b)
  case Nil
  then show ?case by (cases b) (auto simp: createRateLimitKey_def)
next
  case (Cons c a)
  then show ?case by (cases b) (auto simp: createRateLimitKey_def)
qed

section \<open>Properties\<close>


definition demo_rule :: rate_rule where
  "demo_rule = \<lparr>rule_window = 10, rule_max = 2\<rparr>"

definition demo_event :: "int \<Rightarrow> string \<Rightarrow> rate_event" where
  "demo_event t k = \<lparr>ev_clk = \<lparr>at_prune = t, at_now = t, at_retry = t\<rparr>, ev_key = k, ev_rule = demo_rule\<rparr>"

definition demo_events :: "rate_event list" where
  "demo_events = [demo_event 0 ''a'', demo_event 1000 ''b'', demo_event 4000 ''a'', demo_event 8000 ''a'',
     demo_event 14000 ''a'']"

lemma prune_few: "length m \<le> 8 \<Longrightarrow> pruneMemoryStore now m = filter (\<lambda>(k, e). \<not> now \<ge> me_expiresAt e) m"
  by (rule prune_small) (simp add: MEMORY_STORE_MAX_ENTRIES_def)

lemma run_step:
  "memory_consume (ev_clk e) (ev_key e) (ev_rule e) m = ((b, ra), m') \<Longrightarrow>
     fst (memory_run (e # es) m) = b # fst (memory_run es m')"
  by (simp add: case_prod_beta' Let_def)

definition demo_entry :: "string \<Rightarrow> int \<Rightarrow> int \<Rightarrow> memory_entry" where
  "demo_entry k c t = \<lparr>me_data = \<lparr>rl_key = k, rl_count = c, rl_lastRequest = t\<rparr>, me_expiresAt = t + 10000\<rparr>"

lemma demo_run: "fst (memory_run demo_events []) = [True, True, True, False, True]"
proof -
  let ?a = "\<lambda>c t. (''a'', demo_entry ''a'' c t)" and ?b = "(''b'', demo_entry ''b'' 1 1000)"
  note eval = demo_event_def demo_rule_def memory_consume_def decideConsume_def prune_few demo_entry_def Let_def
  have "memory_consume (ev_clk (demo_event 0 ''a'')) (ev_key (demo_event 0 ''a'')) (ev_rule (demo_event 0 ''a'')) []
      = ((True, None), [?a 1 0])" by (simp add: eval)
  note 1 = run_step[OF this]
  have "memory_consume (ev_clk (demo_event 1000 ''b'')) (ev_key (demo_event 1000 ''b''))
      (ev_rule (demo_event 1000 ''b'')) [?a 1 0] = ((True, None), [?a 1 0, ?b])" by (simp add: eval)
  note 2 = run_step[OF this]
  have "memory_consume (ev_clk (demo_event 4000 ''a'')) (ev_key (demo_event 4000 ''a''))
      (ev_rule (demo_event 4000 ''a'')) [?a 1 0, ?b] = ((True, None), [?a 2 4000, ?b])" by (simp add: eval)
  note 3 = run_step[OF this]
  have "memory_consume (ev_clk (demo_event 8000 ''a'')) (ev_key (demo_event 8000 ''a''))
      (ev_rule (demo_event 8000 ''a'')) [?a 2 4000, ?b] =
      ((False, Some (getRetryAfter 4000 10 8000)), [?a 2 4000, ?b])" by (simp add: eval)
  note 4 = run_step[OF this]
  have "memory_consume (ev_clk (demo_event 14000 ''a'')) (ev_key (demo_event 14000 ''a''))
      (ev_rule (demo_event 14000 ''a'')) [?a 2 4000, ?b] = ((True, None), [?a 1 14000])" by (simp add: eval)
  note 5 = run_step[OF this]
  show ?thesis unfolding demo_events_def 1 2 3 4 5 by simp
qed


text \<open>
  A refused request is told a time of at most one window, and a request that comes back
  after it, when nothing else was let through, is let through.
\<close>

theorem retry_after_is_enough:
  assumes "\<not> d_allowed (decideConsume data rule now later)" and "now \<le> later"
  shows "\<exists>d n. data = Some d \<and> d_retryAfter (decideConsume data rule now later) = Some n \<and>
     (rl_lastRequest d \<le> now \<longrightarrow> n \<le> rule_window rule) \<and>
     (later < rl_lastRequest d + rule_window rule * 1000 \<longrightarrow> 1 \<le> n) \<and>
     (\<forall>time again. later + n * 1000 \<le> time \<longrightarrow> d_allowed (decideConsume data rule time again))"
proof -
  from assms(1) obtain d where d: "data = Some d" by (cases data) (auto simp: decideConsume_def)
  define x where "x = rl_lastRequest d + rule_window rule * 1000 - later"
  define n where "n = getRetryAfter (rl_lastRequest d) (rule_window rule) later"
  have n: "n = - ((- x) div 1000)" by (simp add: n_def x_def getRetryAfter_def)
  have bounds: "x \<le> n * 1000" "n * 1000 < x + 1000" unfolding n by linarith+
  from assms(1) d have "d_retryAfter (decideConsume data rule now later) = Some n"
    by (auto simp: decideConsume_def n_def split: if_splits)
  moreover have "n \<le> rule_window rule" if "rl_lastRequest d \<le> now"
    using bounds that assms(2) by (simp add: x_def)
  moreover have "1 \<le> n" if "later < rl_lastRequest d + rule_window rule * 1000"
    using bounds that by (simp add: x_def)
  moreover have "d_allowed (decideConsume data rule time again)" if "later + n * 1000 \<le> time" for time again
    using bounds that by (simp add: decideConsume_def d x_def)
  ultimately show ?thesis using d by blast
qed

theorem retry_after_is_enough_witness:
  "\<exists>n. d_retryAfter (decideConsume (Some \<lparr>rl_key = ''a'', rl_count = 2, rl_lastRequest = 4000\<rparr>) demo_rule 8000 8001)
       = Some n \<and> n \<le> 10 \<and> 1 \<le> n"
  using retry_after_is_enough[of "Some \<lparr>rl_key = ''a'', rl_count = 2, rl_lastRequest = 4000\<rparr>" demo_rule 8000 8001]
  by (auto simp: decideConsume_def demo_rule_def)

text \<open>Requests of one key, one every \<open>g\<close> milliseconds.\<close>

fun steady :: "string \<Rightarrow> rate_rule \<Rightarrow> int \<Rightarrow> int \<Rightarrow> nat \<Rightarrow> rate_event list" where
  "steady k r g t 0 = []"
| "steady k r g t (Suc n) =
     \<lparr>ev_clk = \<lparr>at_prune = t, at_now = t, at_retry = t\<rparr>, ev_key = k, ev_rule = r\<rparr> # steady k r g (t + g) n"

definition counted :: "string \<Rightarrow> rate_rule \<Rightarrow> int \<Rightarrow> int \<Rightarrow> memory_store" where
  "counted k r c t = [(k, \<lparr>me_data = \<lparr>rl_key = k, rl_count = c, rl_lastRequest = t\<rparr>,
     me_expiresAt = t + rule_window r * 1000\<rparr>)]"

lemma steady_step:
  assumes "0 < g" "g < rule_window r * 1000"
  shows "memory_consume \<lparr>at_prune = t + g, at_now = t + g, at_retry = t + g\<rparr> k r (counted k r c t) =
     (if c \<ge> rule_max r
      then ((False, Some (getRetryAfter t (rule_window r) (t + g))), counted k r c t)
      else ((True, None), counted k r (c + 1) (t + g)))"
  using assms by (simp add: memory_consume_def counted_def prune_few decideConsume_def Let_def)

lemma steady_run:
  assumes "0 < g" "g < rule_window r * 1000" and "c + int n = rule_max r"
  shows "fst (memory_run (steady k r g (t + g) (Suc n)) (counted k r c t)) = replicate n True @ [False]"
  using assms(3)
proof (induction n arbitrary: c t)
  case 0
  then show ?case by (simp add: steady_step[OF assms(1,2)])
next
  case (Suc n)
  then have "fst (memory_run (steady k r g (t + g + g) (Suc n)) (counted k r (c + 1) (t + g))) =
      replicate n True @ [False]" by (intro Suc.IH) simp
  then show ?case using Suc.prems
    by (simp add: steady_step[OF assms(1,2)] case_prod_beta' Let_def del: steady.simps(2) add: steady.simps(2)[of k r g "t + g" "Suc n"])
qed

text \<open>
  The window is counted from the last request, not from the first: a client that sends one
  request every \<open>g\<close> milliseconds, \<open>g\<close> below the window, is refused after the maximum however
  long that takes, although with \<open>g\<close> at least half a window no interval of one window holds
  more than two of its requests.
\<close>

theorem steady_client_is_refused:
  assumes "0 < g" "g < rule_window r * 1000" and "1 \<le> rule_max r"
  shows "fst (memory_run (steady k r g t (Suc (nat (rule_max r)))) []) =
     replicate (nat (rule_max r)) True @ [False]"
proof -
  let ?n = "nat (rule_max r - 1)"
  have n: "nat (rule_max r) = Suc ?n" using assms(3) by simp
  have "memory_consume \<lparr>at_prune = t, at_now = t, at_retry = t\<rparr> k r [] = ((True, None), counted k r 1 t)"
    by (simp add: memory_consume_def counted_def prune_few decideConsume_def Let_def)
  moreover have "fst (memory_run (steady k r g (t + g) (Suc ?n)) (counted k r 1 t)) = replicate ?n True @ [False]"
    by (rule steady_run[OF assms(1,2)]) (use assms(3) in simp)
  ultimately show ?thesis
    unfolding n by (simp add: case_prod_beta' Let_def del: steady.simps(2) add: steady.simps(2)[of k r g t "Suc ?n"])
qed

theorem steady_client_is_refused_witness:
  "fst (memory_run (steady ''a'' demo_rule 9000 0 3) []) = [True, True, False]"
proof -
  have "fst (memory_run (steady ''a'' demo_rule 9000 0 (Suc (nat (rule_max demo_rule)))) []) =
      replicate (nat (rule_max demo_rule)) True @ [False]"
    by (rule steady_client_is_refused) (simp_all add: demo_rule_def)
  then show ?thesis by (simp add: demo_rule_def numeral_eq_Suc)
qed

text \<open>
  No request escapes the limiter by hiding its address: unless address tracking is turned
  off or a custom rule lifts the limit, every request gets a key and a rule, the key of
  requests without a trusted address being shared per path; sign-in paths get three requests
  in ten seconds where nothing overrides it; and two requests share a key only with the same
  address (or both none) and the same path.
\<close>

theorem every_request_is_limited:
  assumes "\<not> ip_disableIpTracking (rc_ip ctx)"
    and "\<forall>(p, c) \<in> set (rc_customRules ctx). c \<noteq> Constant NoLimit \<and> (\<forall>f q. c = Computed f \<longrightarrow> f q \<noteq> NoLimit)"
  shows "\<exists>r. resolveRateLimitConfig z wildcardMatch local ctx headers pathname =
       Some (createRateLimitKey (client_of z ctx local headers) (normalizePathname pathname (rc_basePath ctx)), r) \<and>
     (rc_plugins ctx = [] \<and> rc_customRules ctx = [] \<and>
        startsWith (normalizePathname pathname (rc_basePath ctx)) ''/sign-in'' \<longrightarrow>
        r = \<lparr>rule_window = 10, rule_max = 3\<rparr>) \<and>
     (\<forall>headers' path'. CHR ''|'' \<notin> set (client_of z ctx local headers) \<and>
        CHR ''|'' \<notin> set (client_of z ctx local headers') \<and>
        createRateLimitKey (client_of z ctx local headers) (normalizePathname pathname (rc_basePath ctx)) =
        createRateLimitKey (client_of z ctx local headers') path' \<longrightarrow>
        client_of z ctx local headers = client_of z ctx local headers' \<and>
        normalizePathname pathname (rc_basePath ctx) = path')"
proof -
  let ?path = "normalizePathname pathname (rc_basePath ctx)"
  let ?P = "\<lambda>(p, _). custom_match wildcardMatch ?path p"
  have keys: "\<forall>headers' path'. CHR ''|'' \<notin> set (client_of z ctx local headers) \<and>
        CHR ''|'' \<notin> set (client_of z ctx local headers') \<and>
        createRateLimitKey (client_of z ctx local headers) ?path =
        createRateLimitKey (client_of z ctx local headers') path' \<longrightarrow>
        client_of z ctx local headers = client_of z ctx local headers' \<and> ?path = path'"
    using rate_key_inj by blast
  have found: "c \<noteq> Constant NoLimit \<and> (\<forall>f q. c = Computed f \<longrightarrow> f q \<noteq> NoLimit)"
    if "find ?P (rc_customRules ctx) = Some (p, c)" for p c
  proof -
    have "(p, c) \<in> set (rc_customRules ctx)" using that by (metis find_Some_iff nth_mem)
    with assms(2) show ?thesis by blast
  qed
  have "\<exists>r. resolveRateLimitConfig z wildcardMatch local ctx headers pathname =
      Some (createRateLimitKey (client_of z ctx local headers) ?path, r)"
  proof (cases "find ?P (rc_customRules ctx)")
    case None
    then show ?thesis using assms(1) by (simp add: resolveRateLimitConfig_def Let_def client_of_def)
  next
    case (Some pc)
    obtain p c where pc: "pc = (p, c)" by (cases pc)
    note ok = found[OF Some[unfolded pc]]
    show ?thesis
    proof (cases c)
      case (Constant x)
      with ok have "x \<noteq> NoLimit" by simp
      with Some Constant show ?thesis
        using assms(1) by (cases x) (simp_all add: resolveRateLimitConfig_def Let_def client_of_def pc)
    next
      case (Computed f)
      with ok have "f q \<noteq> NoLimit" for q by simp
      then have "\<exists>r. (case f q of UseRule r \<Rightarrow> Some (k, r) | NoLimit \<Rightarrow> None | Unset \<Rightarrow> Some (k, q')) = Some (k, r)"
        for q and k :: string and q' :: rate_rule by (cases "f q") auto
      with Some Computed show ?thesis
        using assms(1) by (simp add: resolveRateLimitConfig_def Let_def client_of_def pc)
    qed
  qed
  moreover have "r = \<lparr>rule_window = 10, rule_max = 3\<rparr>"
    if "resolveRateLimitConfig z wildcardMatch local ctx headers pathname = Some (k, r)"
      "rc_plugins ctx = []" "rc_customRules ctx = []" "startsWith ?path ''/sign-in''" for k r
    using that assms(1) by (auto simp: resolveRateLimitConfig_def Let_def getDefaultSpecialRules_def rule_of_def)
  ultimately show ?thesis using keys by blast
qed

definition demo_rate_ctx :: rate_ctx where
  "demo_rate_ctx = \<lparr>rc_enabled = True, rc_window = 60, rc_max = 100, rc_basePath = ''/api/auth'', rc_ip = demo_ip,
     rc_plugins = [], rc_customRules = []\<rparr>"

theorem every_request_is_limited_witness:
  "resolveRateLimitConfig demo_zod (\<lambda>_ _. False) False demo_rate_ctx (\<lambda>_. None) (Some ''/api/auth/sign-in/email/'') =
     Some (''no-trusted-ip|/sign-in/email'', \<lparr>rule_window = 10, rule_max = 3\<rparr>)"
proof -
  have sel: "rc_basePath demo_rate_ctx = ''/api/auth''" "rc_plugins demo_rate_ctx = []"
    "rc_customRules demo_rate_ctx = []" "\<not> ip_disableIpTracking (rc_ip demo_rate_ctx)"
    by (simp_all add: demo_rate_ctx_def demo_ip_def)
  have n: "normalizePathname (Some ''/api/auth/sign-in/email/'') ''/api/auth'' = ''/sign-in/email''"
    by code_simp
  have c: "client_of demo_zod demo_rate_ctx False (\<lambda>_. None) = ''no-trusted-ip''"
    by (simp add: client_of_def getIP_def demo_rate_ctx_def demo_ip_def NO_TRUSTED_IP_KEY_def)
  have "\<exists>r. resolveRateLimitConfig demo_zod (\<lambda>_ _. False) False demo_rate_ctx (\<lambda>_. None)
        (Some ''/api/auth/sign-in/email/'') = Some (createRateLimitKey ''no-trusted-ip'' ''/sign-in/email'', r) \<and>
      r = \<lparr>rule_window = 10, rule_max = 3\<rparr>"
    using every_request_is_limited[of demo_rate_ctx demo_zod "\<lambda>_ _. False" False "\<lambda>_. None"
        "Some ''/api/auth/sign-in/email/''"]
    by (auto simp: c sel n)
  then show ?thesis by (simp add: createRateLimitKey_def)
qed

end
