(* ===== verification/RateDatabase.thy ===== *)
theory RateDatabase
  imports RateLimiter MemoryAdapter
begin

text \<open>
  The database limiter on the memory adapter: without concurrent writers one round of
  \<open>consume\<close> is enough and decides what the shared decision function decides.
\<close>

definition keyed :: "memdb \<Rightarrow> string \<Rightarrow> row list" where
  "keyed db key = filter (\<lambda>r. get_field r ''key'' = Str key) (mem_rows db RATE_LIMIT)"

definition rate_row :: "row \<Rightarrow> string \<Rightarrow> rate_limit \<Rightarrow> bool" where
  "rate_row r key d \<longleftrightarrow> get_field r ''key'' = Str key \<and> get_field r ''count'' = Num (rl_count d) \<and>
     get_field r ''lastRequest'' = Num (rl_lastRequest d)"

lemma mem_findMany_simple:
  assumes "tables db m \<noteq> None" and "list_all simple_clause ws"
  shows "a_findMany (mem_adapter cfg) m ws None None None db =
     (Inr (filter (\<lambda>r. list_all (clause_holds (hostEnv cfg) r) ws) (mem_rows db m)), db)"
proof -
  from assms(1) obtain os where t: "tables db m = Some os" by auto
  show ?thesis
    by (simp add: mem_findMany_app matching_objs_simple[OF t assms(2)] paginate_def sort_nested_def
        mem_rows_def table_of_def t filter_map comp_def)
qed

lemma readRow_mem:
  assumes "tables (rd_store s) RATE_LIMIT \<noteq> None"
  shows "readRow (mem_adapter cfg) key s =
     (Inr (case keyed (rd_store s) key of [] \<Rightarrow> None | r # _ \<Rightarrow> Some r), s)"
  by (simp add: readRow_def bindA_def on_store_def mem_findMany_simple[OF assms] keyed_def returnA_def)

text \<open>A guarded step on the row of a key.\<close>

lemma keyed_increment:
  assumes wf: "wf_db db" and tab: "tables db RATE_LIMIT \<noteq> None" and one: "keyed db key = [r]"
    and g: "list_all simple_clause g"
    and keep: "get_field (apply_set u (apply_increment inc r)) ''key'' = Str key"
  obtains (hit) t where "a_incrementOne (mem_adapter cfg) RATE_LIMIT (wh_eq ''key'' (Str key) # g) inc u db =
        (Inr (Some (apply_set u (apply_increment inc r))), t)"
      "list_all (clause_holds (hostEnv cfg) r) g" "wf_db t" "tables t RATE_LIMIT \<noteq> None"
      "keyed t key = [apply_set u (apply_increment inc r)]"
  | (miss) "a_incrementOne (mem_adapter cfg) RATE_LIMIT (wh_eq ''key'' (Str key) # g) inc u db = (Inr None, db)"
      "\<not> list_all (clause_holds (hostEnv cfg) r) g"
proof -
  let ?ws = "wh_eq ''key'' (Str key) # g" and ?h = "hostEnv cfg"
  have ws: "list_all simple_clause ?ws" using g by simp
  have unique: "q = r" if "q \<in> set (mem_rows db RATE_LIMIT)" "list_all (clause_holds ?h q) ?ws" for q
  proof -
    from that have "q \<in> set (keyed db key)" by (simp add: keyed_def)
    with one show ?thesis by simp
  qed
  from mem_increment_total[OF tab ws, of cfg inc u] show thesis
  proof
    assume "\<exists>q t. mem_incrementOne cfg RATE_LIMIT ?ws inc u db = (Inr (Some q), t)"
    then obtain q t where run: "a_incrementOne (mem_adapter cfg) RATE_LIMIT ?ws inc u db = (Inr (Some q), t)"
      by auto
    from mem.increment_some[OF wf run] obtain pre p post where
      p: "mem_rows db RATE_LIMIT = pre @ p # post" "mem_sat cfg ?ws p = Inr True"
      "q = apply_set u (apply_increment inc p)" "mem_rows t RATE_LIMIT = pre @ q # post" by blast
    then have sat: "list_all (clause_holds ?h p) ?ws" by (simp add: mem_sat_simple[OF ws])
    with unique[of p] p(1) have "p = r" by simp
    note p = p[unfolded this]
    have "keyed db key = filter (\<lambda>r. get_field r ''key'' = Str key) pre @ r #
        filter (\<lambda>r. get_field r ''key'' = Str key) post"
      using sat p(1) \<open>p = r\<close> by (simp add: keyed_def)
    with one have "filter (\<lambda>r. get_field r ''key'' = Str key) pre = []"
      "filter (\<lambda>r. get_field r ''key'' = Str key) post = []"
      by (auto simp: append_eq_Cons_conv)
    with p keep have "keyed t key = [q]" by (simp add: keyed_def)
    moreover have "wf_db t" "tables t RATE_LIMIT \<noteq> None"
      using mem.increment_frame[OF wf run] tab by (auto simp: mem_has_table_def)
    ultimately show thesis using hit run sat p(3) \<open>p = r\<close> by simp
  next
    assume m: "mem_incrementOne cfg RATE_LIMIT ?ws inc u db = (Inr None, db) \<and>
      (\<forall>q \<in> set (mem_rows db RATE_LIMIT). \<not> list_all (clause_holds ?h q) ?ws)"
    have "r \<in> set (keyed db key)" using one by simp
    then have "r \<in> set (mem_rows db RATE_LIMIT)" "get_field r ''key'' = Str key" by (auto simp: keyed_def)
    with m show thesis by (intro miss) auto
  qed
qed

text \<open>A new row, and the sweep.\<close>

lemma keyed_open:
  assumes wf: "wf_db db" and tab: "tables db (getModelName cfg RATE_LIMIT) \<noteq> None"
  obtains d t where "a_create (mem_adapter cfg) RATE_LIMIT
       [(''key'', Str key), (''count'', Num 1), (''lastRequest'', Num now)] db = (Inr d, t)"
    "rate_row d key \<lparr>rl_key = key, rl_count = 1, rl_lastRequest = now\<rparr>" "wf_db t"
    "\<And>k. keyed t k = keyed db k @ (if k = key then [d] else [])"
proof -
  let ?r = "[(''key'', Str key), (''count'', Num 1), (''lastRequest'', Num now)]"
  obtain x t where run: "mem_create cfg RATE_LIMIT ?r db = (x, t)" by force
  from wf run show thesis
  proof (cases rule: mem_create_cases)
    case (err e)
    with run tab show thesis by (auto simp: mem_create_def split: if_splits option.splits)
  next
    case (ok d)
    have "rate_row d key \<lparr>rl_key = key, rl_count = 1, rl_lastRequest = now\<rparr>"
      using ok(2) by (auto simp: rate_row_def row_simps)
    with ok run show thesis by (intro that[of d t]) (auto simp: keyed_def rate_row_def)
  qed
qed

lemma keyed_sweep:
  assumes wf: "wf_db db" and tab: "tables db RATE_LIMIT \<noteq> None"
    and keep: "\<forall>r \<in> set (keyed db key). \<exists>n. get_field r ''lastRequest'' = Num n \<and> cutoff \<le> n"
  shows "\<exists>n t. a_deleteMany (mem_adapter cfg) RATE_LIMIT [wh ''lastRequest'' Op_lt (Num cutoff)] db = (Inr n, t) \<and>
     keyed t key = keyed db key"
proof -
  let ?ws = "[wh ''lastRequest'' Op_lt (Num cutoff)]"
  obtain n t where run: "mem_deleteMany cfg RATE_LIMIT ?ws db = (Inr n, t)"
    and rows: "mem_rows t RATE_LIMIT =
      filter (\<lambda>r. \<not> list_all (clause_holds (hostEnv cfg) r) ?ws) (mem_rows db RATE_LIMIT)"
    by (rule mem_deleteMany_simple[OF wf tab, of ?ws cfg]) (simp, rule that)
  have "keyed t key = filter (\<lambda>r. \<not> list_all (clause_holds (hostEnv cfg) r) ?ws) (keyed db key)"
    by (simp add: keyed_def rows conj_commute)
  also have "\<dots> = keyed db key" using keep by (intro filter_True) auto
  finally show ?thesis using run by simp
qed

section \<open>Properties\<close>

text \<open>
  The answer of \<open>db_consume\<close> on a table with one row of the key: the decision's, and the row
  the decision asks for when the request is allowed.
\<close>

definition decided ::
  "mem_config \<Rightarrow> (nat \<Rightarrow> int) \<Rightarrow> nat \<Rightarrow> string \<Rightarrow> rate_rule \<Rightarrow> nat \<Rightarrow> memdb rate_db \<Rightarrow> decision \<Rightarrow> bool"
where
  "decided cfg clk i key rule fuel s D \<longleftrightarrow>
     (\<exists>t. db_consume (Suc fuel) i clk (mem_adapter cfg) key rule s = (Inr (d_allowed D, d_retryAfter D), t) \<and>
       (if d_allowed D
        then \<exists>r'. keyed (rd_store t) key = [r'] \<and> rate_row r' key ((d_next D)\<lparr>rl_key := key\<rparr>)
        else rd_store t = rd_store s))"

lemma decided_open:
  assumes wf: "wf_db (rd_store s)" and tab: "tables (rd_store s) (getModelName cfg RATE_LIMIT) \<noteq> None"
    and none: "keyed (rd_store s) key = []" "readRow (mem_adapter cfg) key s = (Inr None, s)"
    and known: "rule_window rule \<le> rd_longest s"
  shows "decided cfg clk i key rule fuel s (decideConsume None rule (clk (2 * i)) (clk (2 * i + 1)))"
proof -
  let ?now = "clk (2 * i)"
  obtain d t where "a_create (mem_adapter cfg) RATE_LIMIT
      [(''key'', Str key), (''count'', Num 1), (''lastRequest'', Num ?now)] (rd_store s) = (Inr d, t)"
    "rate_row d key \<lparr>rl_key = key, rl_count = 1, rl_lastRequest = ?now\<rparr>"
    "keyed t key = keyed (rd_store s) key @ [d]"
    by (rule keyed_open[OF wf tab]) (rule that, auto)
  then show ?thesis
    using none known
    by (simp add: decided_def decideConsume_def bindA_def Let_def on_store_def open_row_def)
qed

lemma decided_reset:
  assumes wf: "wf_db (rd_store s)" and tab: "tables (rd_store s) RATE_LIMIT \<noteq> None"
    and one: "keyed (rd_store s) key = [r]" "readRow (mem_adapter cfg) key s = (Inr (Some r), s)"
    and r: "rate_row r key d" and known: "rule_window rule \<le> rd_longest s" "0 \<le> rd_longest s"
    and over: "clk (2 * i) - rl_lastRequest d \<ge> rule_window rule * 1000"
  shows "decided cfg clk i key rule fuel s (decideConsume (Some d) rule (clk (2 * i)) (clk (2 * i + 1)))"
proof -
  let ?now = "clk (2 * i)"
  let ?u = "Some [(''count'', Num 1), (''lastRequest'', Num ?now)]"
  let ?g = "[wh ''lastRequest'' Op_lte (Num (rl_lastRequest d))]"
  let ?r' = "apply_set ?u (apply_increment [] r)"
  have last: "num_field r ''lastRequest'' = rl_lastRequest d"
    using r by (simp add: num_field_def rate_row_def)
  have r': "rate_row ?r' key (d\<lparr>rl_count := 1, rl_lastRequest := ?now\<rparr>)"
    using r by (simp add: rate_row_def row_simps)
  have keep: "get_field ?r' ''key'' = Str key" using r' by (simp add: rate_row_def)
  obtain t where
    t: "a_incrementOne (mem_adapter cfg) RATE_LIMIT (wh_eq ''key'' (Str key) # ?g) [] ?u (rd_store s) =
        (Inr (Some ?r'), t)" "wf_db t" "tables t RATE_LIMIT \<noteq> None" "keyed t key = [?r']"
  proof (cases rule: keyed_increment[OF wf tab one(1) _ keep, of ?g cfg])
    case 1
    then show ?case by simp
  next
    case (2 t)
    then show thesis by (intro that)
  next
    case 3
    with r show thesis by (simp add: rate_row_def)
  qed
  have "\<exists>n u. a_deleteMany (mem_adapter cfg) RATE_LIMIT
      [wh ''lastRequest'' Op_lt (Num (?now - rd_longest s * 1000))] t = (Inr n, u) \<and>
      keyed u key = keyed t key"
    by (rule keyed_sweep[OF t(2,3)]) (use r' known in \<open>auto simp: t(4) rate_row_def\<close>)
  then obtain n u where "a_deleteMany (mem_adapter cfg) RATE_LIMIT
      [wh ''lastRequest'' Op_lt (Num (?now - rd_longest s * 1000))] t = (Inr n, u)"
    "keyed u key = [?r']" using t(4) by auto
  then show ?thesis
    using over one(2) last t(1) r' known
    by (simp add: decided_def decideConsume_def bindA_def Let_def on_store_def reset_row_def
        deleteExpiredRows_def returnA_def rate_row_def)
qed

lemma decided_count:
  assumes wf: "wf_db (rd_store s)" and tab: "tables (rd_store s) RATE_LIMIT \<noteq> None"
    and one: "keyed (rd_store s) key = [r]" "readRow (mem_adapter cfg) key s = (Inr (Some r), s)"
    and r: "rate_row r key d" and known: "rule_window rule \<le> rd_longest s"
    and within: "\<not> clk (2 * i) - rl_lastRequest d \<ge> rule_window rule * 1000"
  shows "decided cfg clk i key rule fuel s (decideConsume (Some d) rule (clk (2 * i)) (clk (2 * i + 1)))"
proof -
  let ?now = "clk (2 * i)"
  let ?u = "Some [(''lastRequest'', Num ?now)]" and ?inc = "[(''count'', 1 :: int)]"
  let ?g = "[wh ''lastRequest'' Op_gt (Num (?now - rule_window rule * 1000)),
             wh ''count'' Op_lt (Num (rule_max rule))]"
  let ?r' = "apply_set ?u (apply_increment ?inc r)"
  have last: "num_field r ''lastRequest'' = rl_lastRequest d"
    using r by (simp add: num_field_def rate_row_def)
  have r': "rate_row ?r' key (d\<lparr>rl_count := rl_count d + 1, rl_lastRequest := ?now\<rparr>)"
    using r by (simp add: rate_row_def row_simps)
  have keep: "get_field ?r' ''key'' = Str key" using r' by (simp add: rate_row_def)
  have guard: "list_all (clause_holds (hostEnv cfg) r) ?g \<longleftrightarrow> rl_count d < rule_max rule"
    using within r by (auto simp: rate_row_def)
  note defs = decided_def decideConsume_def bindA_def Let_def on_store_def count_row_def returnA_def
  show ?thesis
  proof (cases rule: keyed_increment[OF wf tab one(1) _ keep, of ?g cfg])
    case 1
    then show ?case by simp
  next
    case (2 t)
    with guard within one(2) last r' known show ?thesis by (simp add: defs rate_row_def)
  next
    case 3
    with guard within one(2) last r known show ?thesis by (simp add: defs)
  qed
qed

text \<open>
  C34. On the memory adapter, without concurrent writers, one round of the database limiter
  answers exactly what \<open>decideConsume\<close> decides on the key's row, and leaves the row that
  decision prescribes; a refused request changes nothing.
\<close>

theorem db_consume_is_decision:
  assumes wf: "wf_db db" and tab: "tables db RATE_LIMIT \<noteq> None" "tables db (getModelName cfg RATE_LIMIT) \<noteq> None"
    and rows: "keyed db key = (case data of None \<Rightarrow> [] | Some _ \<Rightarrow> [r])"
    and row: "\<forall>d. data = Some d \<longrightarrow> rate_row r key d" and longest: "0 \<le> L"
    and D: "D = decideConsume data rule (clk (2 * i)) (clk (2 * i + 1))"
  shows "\<exists>t. db_consume (Suc fuel) i clk (mem_adapter cfg) key rule \<lparr>rd_store = db, rd_longest = L\<rparr> =
       (Inr (d_allowed D, d_retryAfter D), t) \<and>
     (if d_allowed D
      then \<exists>r'. keyed (rd_store t) key = [r'] \<and> rate_row r' key ((d_next D)\<lparr>rl_key := key\<rparr>)
      else rd_store t = db)"
proof -
  define s where "s = \<lparr>rd_store = db, rd_longest = max L (rule_window rule)\<rparr>"
  have start: "db_consume (Suc fuel) i clk (mem_adapter cfg) key rule \<lparr>rd_store = db, rd_longest = L\<rparr> =
      db_consume (Suc fuel) i clk (mem_adapter cfg) key rule s"
    by (simp add: s_def max_def)
  have read: "readRow (mem_adapter cfg) key s = (Inr (case data of None \<Rightarrow> None | Some _ \<Rightarrow> Some r), s)"
    using readRow_mem[of s cfg key] tab(1) rows by (simp add: s_def split: option.splits)
  have "decided cfg clk i key rule fuel s D"
  proof (cases data)
    case None
    then have D': "D = decideConsume None rule (clk (2 * i)) (clk (2 * i + 1))" using D by simp
    show ?thesis
      unfolding D' by (rule decided_open) (use wf tab(2) rows read None in \<open>auto simp: s_def\<close>)
  next
    case (Some d)
    then have D': "D = decideConsume (Some d) rule (clk (2 * i)) (clk (2 * i + 1))" using D by simp
    have "wf_db (rd_store s)" "tables (rd_store s) RATE_LIMIT \<noteq> None" "keyed (rd_store s) key = [r]"
      "readRow (mem_adapter cfg) key s = (Inr (Some r), s)" "rate_row r key d"
      "rule_window rule \<le> rd_longest s" "0 \<le> rd_longest s"
      using wf tab(1) rows read row longest Some by (auto simp: s_def)
    then show ?thesis
      unfolding D' by (cases "clk (2 * i) - rl_lastRequest d \<ge> rule_window rule * 1000")
        (blast intro: decided_reset decided_count)+
  qed
  moreover have "rd_store s = db" by (simp add: s_def)
  ultimately show ?thesis by (simp only: start decided_def)
qed

theorem db_consume_is_decision_witness:
  "\<exists>t. db_consume 1 0 (\<lambda>i. 8000) (mem_adapter demo_cfg) ''a'' \<lparr>rule_window = 10, rule_max = 2\<rparr>
       \<lparr>rd_store = one_row RATE_LIMIT [(''key'', Str ''a''), (''count'', Num 2), (''lastRequest'', Num 4000)],
        rd_longest = 60\<rparr> = (Inr (False, Some 6), t)"
proof -
  let ?r = "[(''key'', Str ''a''), (''count'', Num 2), (''lastRequest'', Num 4000)]"
  let ?d = "\<lparr>rl_key = ''a'', rl_count = 2, rl_lastRequest = 4000\<rparr>"
  let ?rule = "\<lparr>rule_window = 10, rule_max = 2\<rparr>"
  have D: "decideConsume (Some ?d) ?rule 8000 8000 =
      \<lparr>d_next = ?d, d_update = True, d_allowed = False, d_retryAfter = Some 6\<rparr>"
    by (simp add: decideConsume_def getRetryAfter_def)
  have "\<exists>t. db_consume (Suc 0) 0 (\<lambda>i. 8000) (mem_adapter demo_cfg) ''a'' ?rule
      \<lparr>rd_store = one_row RATE_LIMIT ?r, rd_longest = 60\<rparr> =
      (Inr (d_allowed (decideConsume (Some ?d) ?rule 8000 8000), d_retryAfter (decideConsume (Some ?d) ?rule 8000 8000)), t) \<and>
     (if d_allowed (decideConsume (Some ?d) ?rule 8000 8000)
      then \<exists>r'. keyed (rd_store t) ''a'' = [r'] \<and>
        rate_row r' ''a'' ((d_next (decideConsume (Some ?d) ?rule 8000 8000))\<lparr>rl_key := ''a''\<rparr>)
      else rd_store t = one_row RATE_LIMIT ?r)"
    by (rule db_consume_is_decision[where r = ?r]) (simp_all add: keyed_def rate_row_def row_simps demo_cfg_def)
  then show ?thesis unfolding D by (auto simp del: db_consume.simps)
qed

end
