(* ===== verification/Schema.thy ===== *)
theory Schema
  imports JsDate
begin

text \<open>
  Parsing of client input and filtering of output by the table schema,
  \<open>packages/cinaauth/src/db/schema.ts\<close> and \<open>filterOutputFields\<close> of
  \<open>packages/core/src/utils/db.ts\<close>.

  A schema is the object of the field attributes in insertion order. A default value, a
  validator and a transform are given by the application: a validator is the function
  from the value to what the Standard Schema returns, a transform the function it
  applies, a computed default what its function returns on this call. The cache of parsed
  schemas holds what \<open>getFields\<close> returns and is left out.
\<close>

section \<open>Field attributes\<close>

datatype default_value = Fixed val | Generated val

datatype validation = Valid val | Issues | Pending

record field_attr =
  f_required :: bool
  f_returned :: "bool option"
  f_input :: "bool option"
  f_default :: "default_value option"
  f_validator :: "(val \<Rightarrow> validation) option"
  f_transform :: "(val \<Rightarrow> val) option"

type_synonym fields = "(string \<times> field_attr) list"

text \<open>What a default gives when the code calls it if it is a function.\<close>

fun default_val :: "default_value \<Rightarrow> val" where
  "default_val (Fixed v) = v"
| "default_val (Generated v) = v"

text \<open>The spread \<open>{...a, ...b}\<close> of two schemas.\<close>

definition spread_fields :: "fields \<Rightarrow> fields \<Rightarrow> fields" where
  "spread_fields a b = foldl (\<lambda>s (k, f). AList.update k f s) a b"

record schema_options =
  so_core :: "string \<Rightarrow> fields"          \<comment> \<open>\<open>getAuthTables(options)[model].fields\<close>\<close>
  so_additional :: "string \<Rightarrow> fields"    \<comment> \<open>\<open>options[model].additionalFields\<close>\<close>
  so_plugins :: "(string \<Rightarrow> fields) list"  \<comment> \<open>\<open>plugin.schema[model].fields\<close>\<close>

datatype schema_mode = Mode_input | Mode_output

definition getFields :: "schema_options \<Rightarrow> string \<Rightarrow> schema_mode \<Rightarrow> fields" where
  "getFields opts model mode =
     (let coreSchema = (if mode = Mode_output then so_core opts model else []);
          additionalFields =
            (if model \<in> {''user'', ''session'', ''account''} then so_additional opts model else [])
      in foldl (\<lambda>s plugin. spread_fields s (plugin model))
           (spread_fields coreSchema additionalFields) (so_plugins opts))"

section \<open>Output\<close>

definition filterOutputFields :: "row \<Rightarrow> fields \<Rightarrow> row" where
  "filterOutputFields data additionalFields =
     (let returnFiltered = map fst (filter (\<lambda>(_, f). f_returned f = Some False) additionalFields)
      in filter (\<lambda>(k, _). k \<notin> set returnFiltered) data)"

definition parseUserOutput :: "schema_options \<Rightarrow> row \<Rightarrow> row" where
  "parseUserOutput opts user = filterOutputFields user (getFields opts ''user'' Mode_output)"

definition parseSessionOutput :: "schema_options \<Rightarrow> row \<Rightarrow> row" where
  "parseSessionOutput opts session =
     filterOutputFields session (getFields opts ''session'' Mode_output)"

definition account_secrets :: "string list" where
  "account_secrets = [''accessToken'', ''refreshToken'', ''idToken'', ''accessTokenExpiresAt'',
     ''refreshTokenExpiresAt'', ''password'']"

definition parseAccountOutput :: "schema_options \<Rightarrow> row \<Rightarrow> row" where
  "parseAccountOutput opts account =
     filter (\<lambda>(k, _). k \<notin> set account_secrets)
       (filterOutputFields account (getFields opts ''account'' Mode_output))"

text \<open>The loop of \<open>buildSyntheticUserOutput\<close> over the schema, then the id.\<close>

fun synthetic_fields :: "row \<Rightarrow> fields \<Rightarrow> row" where
  "synthetic_fields data [] = []"
| "synthetic_fields data ((key, f) # rest) =
     (let more = synthetic_fields data rest in
      if f_returned f = Some False then more
      else if get_field data key \<noteq> Undef then (key, get_field data key) # more
      else case f_default f of
             Some d \<Rightarrow> (key, default_val d) # more
           | None \<Rightarrow> if \<not> f_required f then (key, Null) # more else more)"

definition has_key :: "row \<Rightarrow> string \<Rightarrow> bool" where
  "has_key data k = (map_of data k \<noteq> None)"

definition buildSyntheticUserOutput :: "schema_options \<Rightarrow> row \<Rightarrow> row" where
  "buildSyntheticUserOutput opts data =
     (let result = synthetic_fields data (getFields opts ''user'' Mode_output)
      in if has_key data ''id'' then set_field result ''id'' (get_field data ''id'') else result)"

section \<open>Input\<close>

datatype input_action = Act_create | Act_update

text \<open>
  A member of the parsed object: a value, or the default function itself, which the code
  stores without calling it when a protected field is present in the input.
\<close>

datatype slot = Slot val | Uncalled

fun raw_default :: "default_value \<Rightarrow> slot" where
  "raw_default (Fixed v) = Slot v"
| "raw_default (Generated _) = Uncalled"

text \<open>One turn of the loop: the member to add, if any.\<close>

definition parse_field :: "row \<Rightarrow> input_action \<Rightarrow> string \<Rightarrow> field_attr \<Rightarrow> slot option res" where
  "parse_field data action key f =
     (let v = get_field data key in
      if has_key data key then
        if f_input f = Some False then
          (case f_default f of
             Some d \<Rightarrow>
               if action \<noteq> Act_update then Inr (Some (raw_default d))
               else if truthy v then Inl (APIError ''BAD_REQUEST'' ''FIELD_NOT_ALLOWED'')
               else Inr None
           | None \<Rightarrow>
               if truthy v then Inl (APIError ''BAD_REQUEST'' ''FIELD_NOT_ALLOWED'')
               else Inr None)
        else
          (case f_validator f of
             Some validate \<Rightarrow>
               if v \<noteq> Undef then
                 (case validate v of
                    Pending \<Rightarrow> Inl (APIError ''INTERNAL_SERVER_ERROR'' ''ASYNC_VALIDATION_NOT_SUPPORTED'')
                  | Issues \<Rightarrow> Inl (APIError ''BAD_REQUEST'' ''VALIDATION_ERROR'')
                  | Valid w \<Rightarrow> Inr (Some (Slot w)))
               else Inr (Some (Slot v))
           | None \<Rightarrow>
               (case f_transform f of
                  Some tr \<Rightarrow> Inr (Some (Slot (if v \<noteq> Undef then tr v else v)))
                | None \<Rightarrow> Inr (Some (Slot v))))
      else
        (case f_default f of
           Some d \<Rightarrow> Inr (if action = Act_create then Some (Slot (default_val d)) else None)
         | None \<Rightarrow>
             if f_required f \<and> action = Act_create
             then Inl (APIError ''BAD_REQUEST'' ''MISSING_FIELD'') else Inr None))"

fun parse_fields :: "row \<Rightarrow> input_action \<Rightarrow> fields \<Rightarrow> (string \<times> slot) list res" where
  "parse_fields data action [] = Inr []"
| "parse_fields data action ((key, f) # rest) =
     bindR (parse_field data action key f) (\<lambda>m.
     bindR (parse_fields data action rest) (\<lambda>ms.
       Inr (case m of Some x \<Rightarrow> (key, x) # ms | None \<Rightarrow> ms)))"

definition parseInputData :: "row \<Rightarrow> fields \<Rightarrow> input_action option \<Rightarrow> (string \<times> slot) list res" where
  "parseInputData data fs action =
     parse_fields data (case action of None \<Rightarrow> Act_create | Some a \<Rightarrow> a) fs"

definition parseUserInput ::
  "schema_options \<Rightarrow> row \<Rightarrow> input_action \<Rightarrow> (string \<times> slot) list res" where
  "parseUserInput opts user action =
     parseInputData user (getFields opts ''user'' Mode_input) (Some action)"

definition parseAdditionalUserInputFromProviderProfile ::
  "schema_options \<Rightarrow> row \<Rightarrow> input_action \<Rightarrow> (string \<times> slot) list res" where
  "parseAdditionalUserInputFromProviderProfile opts profile action =
     (let schema = getFields opts ''user'' Mode_input;
          allowed = filter (\<lambda>(k, _). case map_of schema k of
                       Some f \<Rightarrow> f_input f \<noteq> Some False | None \<Rightarrow> True) profile
      in parseInputData allowed schema (Some action))"

definition parseAdditionalUserInput ::
  "schema_options \<Rightarrow> row option \<Rightarrow> (string \<times> slot) list res" where
  "parseAdditionalUserInput opts user =
     parseInputData (case user of None \<Rightarrow> [] | Some u \<Rightarrow> u) (getFields opts ''user'' Mode_input) None"

definition parseAccountInput :: "schema_options \<Rightarrow> row \<Rightarrow> (string \<times> slot) list res" where
  "parseAccountInput opts account =
     parseInputData account (getFields opts ''account'' Mode_input) None"

definition parseSessionInput ::
  "schema_options \<Rightarrow> row \<Rightarrow> input_action option \<Rightarrow> (string \<times> slot) list res" where
  "parseSessionInput opts session action =
     parseInputData session (getFields opts ''session'' Mode_input) action"

definition getSessionDefaultFields :: "schema_options \<Rightarrow> row" where
  "getSessionDefaultFields opts =
     List.map_filter (\<lambda>(k, f). map_option (\<lambda>d. (k, default_val d)) (f_default f))
       (getFields opts ''session'' Mode_input)"

section \<open>Lemmas\<close>

lemma spread_fields_Nil [simp]: "spread_fields a [] = a"
  by (simp add: spread_fields_def)

lemma spread_fields_Cons [simp]:
  "spread_fields a ((k, f) # b) = spread_fields (AList.update k f a) b"
  by (simp add: spread_fields_def)

lemma distinct_spread_fields: "distinct (map fst a) \<Longrightarrow> distinct (map fst (spread_fields a b))"
proof (induction b arbitrary: a)
  case (Cons p b)
  then show ?case by (cases p) (simp add: distinct_update)
qed simp

lemma distinct_getFields:
  assumes "mode = Mode_output \<Longrightarrow> distinct (map fst (so_core opts model))"
  shows "distinct (map fst (getFields opts model mode))"
proof -
  have plugins: "distinct (map fst s) \<Longrightarrow>
      distinct (map fst (foldl (\<lambda>s p. spread_fields s (p model)) s ps))"
    for s and ps :: "(string \<Rightarrow> fields) list"
    by (induction ps arbitrary: s) (auto intro: distinct_spread_fields)
  show ?thesis
    unfolding getFields_def Let_def
    by (rule plugins, rule distinct_spread_fields) (simp add: assms)
qed

text \<open>The parsed object looked up field by field.\<close>

lemma parse_fields_keys:
  "parse_fields data action fs = Inr out \<Longrightarrow> fst ` set out \<subseteq> fst ` set fs"
proof (induction fs arbitrary: out)
  case (Cons p fs)
  obtain key f where p: "p = (key, f)" by force
  with Cons.prems obtain m ms where ms: "parse_fields data action fs = Inr ms"
    and out: "out = (case m of Some x \<Rightarrow> (key, x) # ms | None \<Rightarrow> ms)"
    by (auto simp: bindR_Inr_iff)
  from Cons.IH[OF ms] show ?case unfolding out p by (cases m) auto
qed simp

lemma parse_fields_lookup:
  assumes "parse_fields data action fs = Inr out" and "distinct (map fst fs)"
    and "map_of fs k = Some f"
  shows "parse_field data action k f = Inr (map_of out k)"
  using assms
proof (induction fs arbitrary: out)
  case (Cons p fs)
  obtain key g where p: "p = (key, g)" by force
  with Cons.prems(1) obtain m ms where m: "parse_field data action key g = Inr m"
    and ms: "parse_fields data action fs = Inr ms"
    and out: "out = (case m of Some x \<Rightarrow> (key, x) # ms | None \<Rightarrow> ms)"
    by (auto simp: bindR_Inr_iff)
  show ?case
  proof (cases "k = key")
    case True
    with Cons.prems(2) p parse_fields_keys[OF ms] have "map_of ms k = None"
      by (auto simp: map_of_eq_None_iff)
    with True p Cons.prems(3) m out show ?thesis by (auto split: option.splits)
  next
    case False
    with Cons p ms out show ?thesis by (auto split: option.splits)
  qed
qed simp

lemma map_of_filter_keys:
  "map_of (filter (\<lambda>(k, _). P k) xs) k = (if P k then map_of xs k else None)"
  by (induction xs) auto

lemma get_field_filter_keys:
  "get_field (filter (\<lambda>(k, _). P k) r) k = (if P k then get_field r k else Undef)"
  by (simp add: get_field_def map_of_filter_keys)

text \<open>The fields a schema hides.\<close>

definition hidden :: "fields \<Rightarrow> string \<Rightarrow> bool" where
  "hidden fs k \<longleftrightarrow> (\<exists>f. (k, f) \<in> set fs \<and> f_returned f = Some False)"

lemma filterOutputFields_eq: "filterOutputFields data fs = filter (\<lambda>(k, _). \<not> hidden fs k) data"
  by (auto simp: filterOutputFields_def hidden_def image_iff intro!: filter_cong)

lemma get_filterOutputFields:
  "get_field (filterOutputFields data fs) k = (if hidden fs k then Undef else get_field data k)"
  by (simp add: filterOutputFields_eq get_field_filter_keys)

lemma synthetic_keys:
  assumes "\<And>key f. (key, f) \<in> set fs \<Longrightarrow> f_returned f \<noteq> Some False \<Longrightarrow> f_required f \<Longrightarrow>
    f_default f = None \<Longrightarrow> get_field data key \<noteq> Undef"
    and "distinct (map fst fs)"
  shows "fst ` set (synthetic_fields data fs) = {k \<in> fst ` set fs. \<not> hidden fs k}"
  using assms
proof (induction fs)
  case (Cons p fs)
  obtain key f where p: "p = (key, f)" by force
  from Cons p have IH: "fst ` set (synthetic_fields data fs) = {k \<in> fst ` set fs. \<not> hidden fs k}"
    by auto
  have hid: "hidden (p # fs) k = (if k = key then f_returned f = Some False else hidden fs k)" for k
    using Cons.prems(2) p by (force simp: hidden_def)
  have "key \<notin> fst ` set fs" using Cons.prems(2) p by auto
  moreover from Cons.prems(1)[of key f] p have "f_returned f \<noteq> Some False \<Longrightarrow>
      get_field data key \<noteq> Undef \<or> f_default f \<noteq> None \<or> \<not> f_required f" by auto
  ultimately show ?case
    using IH by (auto simp: p Let_def hid[unfolded p] split: option.splits)
qed (simp add: hidden_def)

lemma keys_set_field: "fst ` set (set_field r k v) = insert k (fst ` set r)"
  by (simp add: set_field_def update_conv' flip: dom_map_of_conv_image_fst)

text \<open>Tokens and the password of an account are never part of its output.\<close>

lemma account_output_hides_secrets:
  "get_field (parseAccountOutput opts account) k =
     (if k \<in> set account_secrets \<or> hidden (getFields opts ''account'' Mode_output) k
      then Undef else get_field account k)"
  by (simp add: parseAccountOutput_def get_field_filter_keys get_filterOutputFields)

section \<open>Properties\<close>

lemma parsed_field:
  assumes parsed: "parseUserInput opts data action = Inr out"
  shows "map_of (getFields opts ''user'' Mode_input) k = None \<Longrightarrow> map_of out k = None"
    and "map_of (getFields opts ''user'' Mode_input) k = Some f \<Longrightarrow> f_input f = Some False \<Longrightarrow>
      map_of out k = (case f_default f of
          None \<Rightarrow> None
        | Some d \<Rightarrow> if action = Act_update then None
                    else if has_key data k then Some (raw_default d)
                    else Some (Slot (default_val d)))
      \<and> (truthy (get_field data k) \<longrightarrow> action = Act_create \<and> f_default f \<noteq> None)"
    and "map_of (getFields opts ''user'' Mode_input) k = Some f \<Longrightarrow> f_input f \<noteq> Some False \<Longrightarrow>
      has_key data k \<Longrightarrow> f_validator f = None \<Longrightarrow> f_transform f = None \<Longrightarrow>
      map_of out k = Some (Slot (get_field data k))"
proof -
  let ?fs = "getFields opts ''user'' Mode_input"
  from parsed have run: "parse_fields data action ?fs = Inr out"
    by (simp add: parseUserInput_def parseInputData_def)
  have dist: "distinct (map fst ?fs)" by (rule distinct_getFields) simp
  note at = parse_fields_lookup[OF run dist]
  show "map_of out k = None" if "map_of ?fs k = None"
    using that parse_fields_keys[OF run] by (auto simp: map_of_eq_None_iff)
  show "map_of out k = (case f_default f of
          None \<Rightarrow> None
        | Some d \<Rightarrow> if action = Act_update then None
                    else if has_key data k then Some (raw_default d)
                    else Some (Slot (default_val d)))
      \<and> (truthy (get_field data k) \<longrightarrow> action = Act_create \<and> f_default f \<noteq> None)"
    if "map_of ?fs k = Some f" "f_input f = Some False"
    using at[OF that(1)] that(2)
    by (cases action) (auto simp: parse_field_def Let_def has_key_def get_field_def
        split: if_splits option.splits)
  show "map_of out k = Some (Slot (get_field data k))"
    if "map_of ?fs k = Some f" "f_input f \<noteq> Some False" "has_key data k"
      "f_validator f = None" "f_transform f = None"
    using at[OF that(1)] that(2-) by (simp add: parse_field_def Let_def)
qed


definition plain_attr :: field_attr where
  "plain_attr = \<lparr>f_required = False, f_returned = None, f_input = None, f_default = None,
     f_validator = None, f_transform = None\<rparr>"

definition demo_schema :: schema_options where
  "demo_schema =
     \<lparr>so_core = (\<lambda>m. if m = ''user'' then [(''name'', plain_attr\<lparr>f_required := True\<rparr>)] else []),
      so_additional = (\<lambda>m. if m = ''user'' then [(''nickname'', plain_attr),
        (''role'', plain_attr\<lparr>f_input := Some False, f_default := Some (Fixed (Str ''user''))\<rparr>),
        (''secret'', plain_attr\<lparr>f_returned := Some False\<rparr>)] else []),
      so_plugins = [\<lambda>_. []]\<rparr>"

lemma demo_schema_fields:
  "getFields demo_schema ''user'' Mode_input = [(''nickname'', plain_attr),
     (''role'', plain_attr\<lparr>f_input := Some False, f_default := Some (Fixed (Str ''user''))\<rparr>),
     (''secret'', plain_attr\<lparr>f_returned := Some False\<rparr>)]"
  "getFields demo_schema ''user'' Mode_output = [(''name'', plain_attr\<lparr>f_required := True\<rparr>),
     (''nickname'', plain_attr),
     (''role'', plain_attr\<lparr>f_input := Some False, f_default := Some (Fixed (Str ''user''))\<rparr>),
     (''secret'', plain_attr\<lparr>f_returned := Some False\<rparr>)]"
  by (simp_all add: getFields_def demo_schema_def)


text \<open>
  The answer to a sign-up whose email already exists has the same members as the answer
  to a fresh one: the synthetic user, filtered like a real one, shows exactly the keys
  that the row of a real user (the id and every column of the schema) shows, when the
  sign-up supplies every required column that has no default. Columns with
  \<open>returned: false\<close> are in neither.
\<close>

theorem synthetic_user_same_keys:
  assumes real: "fst ` set user = insert ''id'' (fst ` set (getFields opts ''user'' Mode_output))"
    and supplied: "\<And>key f. (key, f) \<in> set (getFields opts ''user'' Mode_output) \<Longrightarrow>
      f_returned f \<noteq> Some False \<Longrightarrow> f_required f \<Longrightarrow> f_default f = None \<Longrightarrow>
      get_field data key \<noteq> Undef"
    and id: "has_key data ''id''"
    and dist: "distinct (map fst (so_core opts ''user''))"
  shows "fst ` set (parseUserOutput opts (buildSyntheticUserOutput opts data)) =
      fst ` set (parseUserOutput opts user) \<and>
    (\<forall>k \<in> fst ` set (parseUserOutput opts user). \<not> hidden (getFields opts ''user'' Mode_output) k)"
proof (intro conjI)
  let ?fs = "getFields opts ''user'' Mode_output"
  have keys: "fst ` set (parseUserOutput opts r) = {k \<in> fst ` set r. \<not> hidden ?fs k}" for r
    by (auto simp: parseUserOutput_def filterOutputFields_eq image_iff)
  have "distinct (map fst ?fs)" by (rule distinct_getFields) (rule dist)
  with supplied have "fst ` set (synthetic_fields data ?fs) = {k \<in> fst ` set ?fs. \<not> hidden ?fs k}"
    by (rule synthetic_keys)
  with id show "fst ` set (parseUserOutput opts (buildSyntheticUserOutput opts data)) =
      fst ` set (parseUserOutput opts user)"
    unfolding keys real by (auto simp: buildSyntheticUserOutput_def Let_def keys_set_field)
  show "\<forall>k \<in> fst ` set (parseUserOutput opts user). \<not> hidden ?fs k" unfolding keys by simp
qed

theorem synthetic_user_same_keys_witness:
  "fst ` set (parseUserOutput demo_schema (buildSyntheticUserOutput demo_schema
      [(''name'', Str ''Ann''), (''id'', Str ''new'')])) =
   fst ` set (parseUserOutput demo_schema [(''id'', Str ''u1''), (''name'', Str ''Bob''),
      (''nickname'', Null), (''role'', Str ''user''), (''secret'', Str ''s'')])"
proof (rule synthetic_user_same_keys[THEN conjunct1])
  show "fst ` set [(''id'', Str ''u1''), (''name'', Str ''Bob''), (''nickname'', Null),
      (''role'', Str ''user''), (''secret'', Str ''s'')] =
      insert ''id'' (fst ` set (getFields demo_schema ''user'' Mode_output))"
    by (simp add: demo_schema_fields)
  show "get_field [(''name'', Str ''Ann''), (''id'', Str ''new'')] key \<noteq> Undef"
    if "(key, f) \<in> set (getFields demo_schema ''user'' Mode_output)"
      "f_required f" "f_default f = None" for key f
    using that by (auto simp: demo_schema_fields plain_attr_def)
qed (simp_all add: has_key_def demo_schema_def)

end
