(* ===== verification/SecondaryStorage.thy ===== *)
theory SecondaryStorage
  imports JsDate
begin

text \<open>
  The interface \<open>SecondaryStorage\<close> of \<open>packages/core/src/db/type.ts\<close> as a record of
  actions on the service's state, the contract its callers rely on (locale
  \<open>secondary_storage\<close>), the JSON texts the library keeps there, and \<open>safeJSONParse\<close> of
  \<open>packages/core/src/utils/json.ts\<close>.
\<close>

section \<open>The interface\<close>

record ('q, 'v) sec_storage =
  ss_get :: "string \<Rightarrow> ('q, 'v option) act"
  ss_getAndDelete :: "string \<Rightarrow> ('q, 'v option) act"
  ss_increment :: "string \<Rightarrow> int \<Rightarrow> ('q, int) act"
  ss_set :: "string \<Rightarrow> 'v \<Rightarrow> int option \<Rightarrow> ('q, unit) act"
  ss_delete :: "string \<Rightarrow> ('q, unit) act"

text \<open>
  \<open>view q k\<close> is the value under \<open>k\<close>, \<open>life q k\<close> the seconds it was given to live
  (\<open>None\<close>: it stays until it is deleted). The passing of time is not an operation: an
  entry whose time is up disappears between two operations.
\<close>

definition lifetime :: "int option \<Rightarrow> int option" where
  "lifetime ttl = (case ttl of Some t \<Rightarrow> if t > 0 then Some t else None | None \<Rightarrow> None)"

locale secondary_storage =
  fixes S :: "('q, 'v) sec_storage"
    and view :: "'q \<Rightarrow> string \<Rightarrow> 'v option"
    and life :: "'q \<Rightarrow> string \<Rightarrow> int option"
  assumes get_view: "ss_get S k q = (Inr (view q k), q)"
    and set_view: "ss_set S k v ttl q = (r, q') \<Longrightarrow>
      r = Inr () \<and> view q' = (view q)(k \<mapsto> v) \<and> life q' = (life q)(k := lifetime ttl)"
    and delete_view: "ss_delete S k q = (r, q') \<Longrightarrow>
      r = Inr () \<and> view q' = (view q)(k := None) \<and> life q' = (life q)(k := None)"
    and getAndDelete_view: "ss_getAndDelete S k q = (rv, q') \<Longrightarrow>
      rv = Inr (view q k) \<and> view q' = (view q)(k := None) \<and> life q' = (life q)(k := None)"
begin

text \<open>Each operation as an equation on the state it leaves.\<close>

lemma set_run:
  obtains q' where "ss_set S k v ttl q = (Inr (), q')" "view q' = (view q)(k \<mapsto> v)"
    "life q' = (life q)(k := lifetime ttl)"
  using set_view[of k v ttl q] by (cases "ss_set S k v ttl q") auto

lemma delete_run:
  obtains q' where "ss_delete S k q = (Inr (), q')" "view q' = (view q)(k := None)"
    "life q' = (life q)(k := None)"
  using delete_view[of k q] by (cases "ss_delete S k q") auto

lemma getAndDelete_run:
  obtains q' where "ss_getAndDelete S k q = (Inr (view q k), q')" "view q' = (view q)(k := None)"
    "life q' = (life q)(k := None)"
  using getAndDelete_view[of k q] by (cases "ss_getAndDelete S k q") auto

text \<open>A value taken with \<open>getAndDelete\<close> is taken once.\<close>

lemma taken_once:
  assumes "ss_getAndDelete S k q = (Inr v, q')"
  shows "ss_getAndDelete S k q' = (Inr None, snd (ss_getAndDelete S k q')) \<and>
    ss_get S k q' = (Inr None, q')"
proof -
  from getAndDelete_view[OF assms] have "view q' k = None" by simp
  with get_view[of k q'] getAndDelete_view[of k q'] show ?thesis
    by (cases "ss_getAndDelete S k q'") auto
qed

end

section \<open>The texts kept in the storage\<close>

text \<open>
  A text the library wrote is held as the JSON value it denotes: a session with its user,
  the list of a user's active sessions, a verification, a counter. \<open>CText\<close> is any text that is not
  JSON. In a row, \<open>DateV\<close> stands for the ISO string of that time, which is what
  \<open>JSON.stringify\<close> makes of a \<open>Date\<close>; the dates have a four-digit year.
\<close>

datatype cached =
    CSession row "row option"
  | CActive "(string \<times> int) list"
  | CVerification row
  | CNumber int
  | CText string

fun text_val :: "val \<Rightarrow> val" where
  "text_val Undef = Null"
| "text_val (DateV r t) = DateV 0 t"
| "text_val (Arr vs) = Arr (map text_val vs)"
| "text_val v = v"

definition stringify :: "row \<Rightarrow> row" where
  "stringify r = map (\<lambda>(k, v). (k, text_val v)) (filter (\<lambda>(_, v). v \<noteq> Undef) r)"

text \<open>
  \<open>iso8601Regex\<close>: four digits, two, two, \<open>T\<close>, two, two, two, optionally a fraction, \<open>Z\<close>.
\<close>

definition digits_at :: "string \<Rightarrow> nat list \<Rightarrow> bool" where
  "digits_at s ns \<longleftrightarrow> list_all (\<lambda>i. i < length s \<and> is_digit (s ! i)) ns"

definition char_at :: "string \<Rightarrow> nat \<Rightarrow> char \<Rightarrow> bool" where
  "char_at s i c \<longleftrightarrow> i < length s \<and> s ! i = c"

definition iso8601 :: "string \<Rightarrow> bool" where
  "iso8601 s \<longleftrightarrow>
     digits_at s [0, 1, 2, 3, 5, 6, 8, 9, 11, 12, 14, 15, 17, 18] \<and>
     char_at s 4 CHR ''-'' \<and> char_at s 7 CHR ''-'' \<and> char_at s 10 CHR ''T'' \<and>
     char_at s 13 CHR '':'' \<and> char_at s 16 CHR '':'' \<and>
     (let rest = drop 19 s in
      rest = ''Z'' \<or>
      (length rest \<ge> 3 \<and> hd rest = CHR ''.'' \<and> last rest = CHR ''Z'' \<and>
       list_all is_digit (butlast (tl rest))))"

text \<open>
  \<open>reviveDate\<close> and \<open>reviveDates\<close>: \<open>parse\<close> is what the host's \<open>new Date(text)\<close> reads
  (\<open>None\<close>: an invalid date), \<open>ref\<close> the identity of the new objects.
\<close>

fun reviveDates :: "(string \<Rightarrow> int option) \<Rightarrow> nat \<Rightarrow> val \<Rightarrow> val" where
  "reviveDates parse ref (Str s) =
     (if iso8601 s then (case parse s of Some t \<Rightarrow> DateV ref t | None \<Rightarrow> Str s) else Str s)"
| "reviveDates parse ref (DateV _ t) = DateV ref t"
| "reviveDates parse ref (Arr vs) = Arr (map (reviveDates parse ref) vs)"
| "reviveDates parse ref v = v"

definition revive_row :: "(string \<Rightarrow> int option) \<Rightarrow> nat \<Rightarrow> row \<Rightarrow> row" where
  "revive_row parse ref r = map (\<lambda>(k, v). (k, reviveDates parse ref v)) r"

text \<open>\<open>safeJSONParse\<close>: \<open>None\<close> is the \<open>null\<close> it returns when the text does not parse.\<close>

fun safeJSONParse :: "(string \<Rightarrow> int option) \<Rightarrow> nat \<Rightarrow> cached \<Rightarrow> cached option" where
  "safeJSONParse parse ref (CSession s u) =
     Some (CSession (revive_row parse ref s) (map_option (revive_row parse ref) u))"
| "safeJSONParse parse ref (CActive l) = Some (CActive l)"
| "safeJSONParse parse ref (CVerification v) = Some (CVerification (revive_row parse ref v))"
| "safeJSONParse parse ref (CNumber n) = Some (CNumber n)"
| "safeJSONParse parse ref (CText _) = None"

text \<open>
  \<open>getTTLSeconds(expiresAt, now)\<close>: whole seconds left, at least 0.
\<close>

definition getTTLSeconds :: "int \<Rightarrow> int \<Rightarrow> int" where
  "getTTLSeconds expiresMs now = max ((expiresMs - now) div 1000) 0"

lemma getTTLSeconds_pos: "0 < getTTLSeconds e now \<longleftrightarrow> now + 1000 \<le> e"
  unfolding getTTLSeconds_def by linarith

text \<open>An entry given that many seconds is gone no later than the value it holds.\<close>

lemma getTTLSeconds_le: "now \<le> e \<Longrightarrow> now + 1000 * getTTLSeconds e now \<le> e"
  unfolding getTTLSeconds_def by linarith

section \<open>Reading a row back\<close>

lemma get_stringify [row_simps]:
  "distinct (map fst r) \<Longrightarrow> get_field (stringify r) k =
     (if get_field r k = Undef then Undef else text_val (get_field r k))"
proof (induction r)
  case (Cons p r)
  obtain f v where p: "p = (f, v)" by force
  have "f \<notin> fst ` set r" using Cons.prems p by simp
  then have "get_field r f = Undef" by (simp add: get_field_def map_of_eq_None_iff[THEN iffD2])
  with Cons p show ?case by (auto simp: stringify_def)
qed (simp add: stringify_def)

lemma get_revive_row [row_simps]:
  "get_field (revive_row parse ref r) k = reviveDates parse ref (get_field r k)"
  by (induction r) (auto simp: revive_row_def)

text \<open>A date comes back with its time, a number, boolean or null as it was.\<close>

lemma revive_text_val:
  "reviveDates parse ref (text_val (DateV i t)) = DateV ref t"
  "reviveDates parse ref (text_val (Num n)) = Num n"
  "reviveDates parse ref (text_val (BoolV b)) = BoolV b"
  "reviveDates parse ref (text_val Null) = Null"
  "\<not> iso8601 s \<Longrightarrow> reviveDates parse ref (text_val (Str s)) = Str s"
  by simp_all

section \<open>A storage for the examples\<close>

text \<open>A finite map of values with their lifetimes meets the contract; examples run on it.\<close>

type_synonym 'v entries = "(string \<times> 'v \<times> int option) list"

definition map_storage :: "('v entries, 'v) sec_storage" where
  "map_storage =
     \<lparr>ss_get = (\<lambda>k q. (Inr (map_option fst (map_of q k)), q)),
      ss_getAndDelete = (\<lambda>k q. (Inr (map_option fst (map_of q k)), AList.delete k q)),
      ss_increment = (\<lambda>k t q. (Inl TypeError, q)),
      ss_set = (\<lambda>k v t q. (Inr (), AList.update k (v, lifetime t) q)),
      ss_delete = (\<lambda>k q. (Inr (), AList.delete k q))\<rparr>"

definition map_view :: "'v entries \<Rightarrow> string \<Rightarrow> 'v option" where
  "map_view q k = map_option fst (map_of q k)"

definition map_life :: "'v entries \<Rightarrow> string \<Rightarrow> int option" where
  "map_life q k = Option.bind (map_of q k) snd"

interpretation map_store: secondary_storage map_storage map_view map_life
  by unfold_locales
    (auto simp: map_storage_def map_view_def map_life_def fun_eq_iff update_conv' delete_conv')

end
