(* ===== verification/RedisStorage.thy ===== *)
theory RedisStorage
  imports SecondaryStorage
begin

text \<open>
  The Redis secondary storage, \<open>packages/redis-storage/src/redis-storage.ts\<close>.

  The ioredis client and the server are not under src/: the client is a record of the
  commands the code sends, and the locale \<open>redis_client\<close> states what the Redis manual
  documents of them over the keyspace \<open>ks\<close> (value and remaining seconds of every key).
  The two Lua scripts run on the server without interleaving and are translated over the
  commands they call. Values are texts; a text that INCR accepts has a number \<open>as_int\<close>.
\<close>

section \<open>The client\<close>

record ('q, 'v) redis =
  r_get :: "string \<Rightarrow> ('q, 'v option) act"
  r_set :: "string \<Rightarrow> 'v \<Rightarrow> ('q, unit) act"
  r_setex :: "string \<Rightarrow> int \<Rightarrow> 'v \<Rightarrow> ('q, unit) act"
  r_del :: "string list \<Rightarrow> ('q, nat) act"
  r_getdel :: "string \<Rightarrow> ('q, 'v option) act"
  r_incr :: "string \<Rightarrow> ('q, int) act"
  r_expire :: "string \<Rightarrow> int \<Rightarrow> ('q, unit) act"
  r_scan :: "string \<Rightarrow> string \<Rightarrow> nat \<Rightarrow> ('q, string \<times> string list) act"

text \<open>The server and the variable \<open>supportsGetDel\<close> of the closure.\<close>

record 'q redis_state =
  rs_server :: 'q
  rs_supportsGetDel :: bool

definition onServer :: "('q, 'a) act \<Rightarrow> ('q redis_state, 'a) act" where
  "onServer m s = (case m (rs_server s) of (r, q) \<Rightarrow> (r, s\<lparr>rs_server := q\<rparr>))"

definition prefixKey :: "string \<Rightarrow> string \<Rightarrow> string" where
  "prefixKey keyPrefix key = keyPrefix @ key"

fun isUnknownCommandError :: "err \<Rightarrow> bool" where
  "isUnknownCommandError (Throw msg) = str_includes (toLowerCase msg) ''unknown command''"
| "isUnknownCommandError _ = False"

definition getAndDeleteScript :: "('q, 'v) redis \<Rightarrow> string \<Rightarrow> ('q, 'v option) act" where
  "getAndDeleteScript C key =
     bindA (r_get C key) (\<lambda>value.
       if value \<noteq> None then bindA (r_del C [key]) (\<lambda>_. returnA value) else returnA value)"

definition incrementScript :: "('q, 'v) redis \<Rightarrow> string \<Rightarrow> int \<Rightarrow> ('q, int) act" where
  "incrementScript C key ttl =
     bindA (r_incr C key) (\<lambda>value.
       if value = 1 then bindA (r_expire C key ttl) (\<lambda>_. returnA value) else returnA value)"

section \<open>The storage\<close>

definition redis_getAndDelete :: "('q, 'v) redis \<Rightarrow> string \<Rightarrow> ('q redis_state, 'v option) act" where
  "redis_getAndDelete C prefixedKey s =
     (let script = onServer (getAndDeleteScript C prefixedKey) in
      if rs_supportsGetDel s then
        catchA (onServer (r_getdel C prefixedKey))
          (\<lambda>e. if \<not> isUnknownCommandError e then throwA e
               else (\<lambda>t. script (t\<lparr>rs_supportsGetDel := False\<rparr>))) s
      else script s)"

definition redis_increment :: "('q, 'v) redis \<Rightarrow> string \<Rightarrow> int \<Rightarrow> ('q redis_state, int) act" where
  "redis_increment C prefixedKey ttl =
     (if ttl \<le> 0 then throwA TypeError else onServer (incrementScript C prefixedKey ttl))"

definition redis_set :: "('q, 'v) redis \<Rightarrow> string \<Rightarrow> 'v \<Rightarrow> int option \<Rightarrow> ('q redis_state, unit) act" where
  "redis_set C prefixedKey v ttl =
     (case ttl of
        Some t \<Rightarrow> if t > 0 then onServer (r_setex C prefixedKey t v)
                  else onServer (r_set C prefixedKey v)
      | None \<Rightarrow> onServer (r_set C prefixedKey v))"

definition redisStorage :: "('q, 'v) redis \<Rightarrow> string \<Rightarrow> ('q redis_state, 'v) sec_storage" where
  "redisStorage C keyPrefix =
     \<lparr>ss_get = (\<lambda>key. onServer (r_get C (prefixKey keyPrefix key))),
      ss_getAndDelete = (\<lambda>key. redis_getAndDelete C (prefixKey keyPrefix key)),
      ss_increment = (\<lambda>key. redis_increment C (prefixKey keyPrefix key)),
      ss_set = (\<lambda>key. redis_set C (prefixKey keyPrefix key)),
      ss_delete = (\<lambda>key. bindA (onServer (r_del C [prefixKey keyPrefix key])) (\<lambda>_. returnA ()))\<rparr>"

section \<open>Enumeration with SCAN\<close>

definition SCAN_COUNT :: nat where "SCAN_COUNT = 100"

definition glob_meta :: "char list" where
  "glob_meta = [CHR 0x5C, CHR ''*'', CHR ''?'', CHR ''['', CHR '']'']"

definition escapedPrefix :: "string \<Rightarrow> string" where
  "escapedPrefix p = concat (map (\<lambda>c. if c \<in> set glob_meta then [CHR 0x5C, c] else [c]) p)"

text \<open>
  \<open>scanBatches\<close> with the body of its consumer's \<open>for await\<close> loop: each non-empty page is
  handed to \<open>f\<close>. The fuel bounds the pages; \<open>redis_client\<close> gives a bound that is enough.
\<close>

fun scanBatches ::
  "nat \<Rightarrow> ('q, 'v) redis \<Rightarrow> string \<Rightarrow> string \<Rightarrow> (string list \<Rightarrow> 'a \<Rightarrow> ('q, 'a) act) \<Rightarrow> 'a \<Rightarrow> ('q, 'a) act"
where
  "scanBatches 0 C pat cursor f a = throwA OutOfFuel"
| "scanBatches (Suc n) C pat cursor f a =
     bindA (r_scan C cursor pat SCAN_COUNT) (\<lambda>(nextCursor, batch).
       bindA (if batch \<noteq> [] then f batch a else returnA a) (\<lambda>a'.
         if nextCursor \<noteq> ''0'' then scanBatches n C pat nextCursor f a' else returnA a'))"

definition set_add :: "'a \<Rightarrow> 'a list \<Rightarrow> 'a list" where
  "set_add k ks = (if k \<in> set ks then ks else ks @ [k])"

definition listKeys :: "nat \<Rightarrow> ('q, 'v) redis \<Rightarrow> string \<Rightarrow> ('q redis_state, string list) act" where
  "listKeys fuel C keyPrefix =
     onServer (scanBatches fuel C (escapedPrefix keyPrefix @ ''*'') ''0''
       (\<lambda>batch keys. returnA (foldl (\<lambda>ks key. set_add (drop (length keyPrefix) key) ks) keys batch)) [])"

definition clear :: "nat \<Rightarrow> ('q, 'v) redis \<Rightarrow> string \<Rightarrow> ('q redis_state, unit) act" where
  "clear fuel C keyPrefix =
     onServer (scanBatches fuel C (escapedPrefix keyPrefix @ ''*'') ''0''
       (\<lambda>batch _. bindA (r_del C batch) (\<lambda>_. returnA ())) ())"

section \<open>What Redis documents\<close>

text \<open>
  A run of SCAN calls: the state at each call, the cursor and the page it returned. Only
  the last page may return the cursor 0.
\<close>

fun scan_chain :: "('q, 'v) redis \<Rightarrow> string \<Rightarrow> string \<Rightarrow> ('q \<times> string \<times> string list) list \<Rightarrow> bool" where
  "scan_chain C pat c [] = True"
| "scan_chain C pat c ((q, n, b) # steps) =
     (r_scan C c pat SCAN_COUNT q = (Inr (n, b), q) \<and> (steps = [] \<or> n \<noteq> ''0'') \<and>
      scan_chain C pat n steps)"

definition returned :: "('q \<times> string \<times> string list) list \<Rightarrow> string set" where
  "returned steps = (\<Union>(_, _, b) \<in> set steps. set b)"

definition scan_cursor :: "string \<Rightarrow> ('q \<times> string \<times> string list) list \<Rightarrow> string" where
  "scan_cursor c steps = (if steps = [] then c else fst (snd (last steps)))"

locale redis_client =
  fixes C :: "('q, 'v) redis"
    and ks :: "'q \<Rightarrow> string \<Rightarrow> ('v \<times> int option) option"
    and as_int :: "'v \<Rightarrow> int option"
    and of_int_text :: "int \<Rightarrow> 'v"
    and glob :: "string \<Rightarrow> string \<Rightarrow> bool"
    and bound :: "'q \<Rightarrow> nat"
  assumes GET: "r_get C k q = (Inr (map_option fst (ks q k)), q)"
    and SET: "r_set C k v q = (r, q') \<Longrightarrow> r = Inr () \<and> ks q' = (ks q)(k \<mapsto> (v, None))"
    and SETEX: "0 < t \<Longrightarrow> r_setex C k t v q = (r, q') \<Longrightarrow>
      r = Inr () \<and> ks q' = (ks q)(k \<mapsto> (v, Some t))"
    and DEL: "r_del C keys q = (rn, q') \<Longrightarrow>
      (\<exists>n. rn = Inr n) \<and> ks q' = (\<lambda>k. if k \<in> set keys then None else ks q k)"
    and GETDEL: "r_getdel C k q = (rv, q') \<Longrightarrow>
      (rv = Inr (map_option fst (ks q k)) \<and> ks q' = (ks q)(k := None)) \<or>
      (\<exists>e. rv = Inl e \<and> isUnknownCommandError e \<and> q' = q)"
    and INCR: "r_incr C k q = (ri, q') \<Longrightarrow>
      (case ks q k of
         None \<Rightarrow> ri = Inr 1 \<and> ks q' = (ks q)(k \<mapsto> (of_int_text 1, None))
       | Some (v, t) \<Rightarrow>
           (case as_int v of
              Some n \<Rightarrow> ri = Inr (n + 1) \<and> ks q' = (ks q)(k \<mapsto> (of_int_text (n + 1), t))
            | None \<Rightarrow> isl ri \<and> q' = q))"
    and int_text: "as_int (of_int_text n) = Some n"
    and EXPIRE: "0 < t \<Longrightarrow> ks q k = Some (v, t') \<Longrightarrow> r_expire C k t q = (r, q') \<Longrightarrow>
      r = Inr () \<and> ks q' = (ks q)(k \<mapsto> (v, Some t))"
    and SCAN: "\<exists>n b. r_scan C c pat SCAN_COUNT q = (Inr (n, b), q) \<and> (\<forall>k \<in> set b. glob pat k)"
    and SCAN_present: "scan_chain C pat ''0'' steps \<Longrightarrow> k \<in> returned steps \<Longrightarrow>
      \<exists>(q, _) \<in> set steps. ks q k \<noteq> None"
    and SCAN_complete: "scan_chain C pat ''0'' steps \<Longrightarrow> steps \<noteq> [] \<Longrightarrow>
      scan_cursor ''0'' steps = ''0'' \<Longrightarrow> \<forall>(q, _) \<in> set steps. ks q k \<noteq> None \<Longrightarrow> glob pat k \<Longrightarrow>
      k \<in> returned steps"
    and SCAN_ends: "scan_chain C pat ''0'' steps \<Longrightarrow>
      \<forall>(q, _) \<in> set steps. dom (ks q) \<subseteq> dom (ks q0) \<Longrightarrow> length steps \<le> bound q0"
    and glob_star: "glob ''*'' s"
    and glob_literal: "ch \<notin> set glob_meta \<Longrightarrow> glob (ch # p) s \<longleftrightarrow> (\<exists>s'. s = ch # s' \<and> glob p s')"
    and glob_escaped: "glob (CHR 0x5C # ch # p) s \<longleftrightarrow> (\<exists>s'. s = ch # s' \<and> glob p s')"
begin

text \<open>The escaped prefix matches the prefix literally.\<close>

lemma glob_prefix: "glob (escapedPrefix p @ ''*'') s \<longleftrightarrow> startsWith s p"
proof (induction p arbitrary: s)
  case Nil
  then show ?case by (simp add: escapedPrefix_def glob_star)
next
  case (Cons c p)
  have "glob (escapedPrefix (c # p) @ ''*'') s \<longleftrightarrow> (\<exists>s'. s = c # s' \<and> glob (escapedPrefix p @ ''*'') s')"
    by (cases "c \<in> set glob_meta") (simp_all add: escapedPrefix_def glob_escaped glob_literal)
  with Cons show ?case by (cases s) auto
qed

end

section \<open>The storage meets the contract of a secondary storage\<close>

definition redis_view ::
  "('q \<Rightarrow> string \<Rightarrow> ('v \<times> int option) option) \<Rightarrow> string \<Rightarrow> 'q redis_state \<Rightarrow> string \<Rightarrow> 'v option" where
  "redis_view ks p s k = map_option fst (ks (rs_server s) (prefixKey p k))"

definition redis_life ::
  "('q \<Rightarrow> string \<Rightarrow> ('v \<times> int option) option) \<Rightarrow> string \<Rightarrow> 'q redis_state \<Rightarrow> string \<Rightarrow> int option" where
  "redis_life ks p s k = Option.bind (ks (rs_server s) (prefixKey p k)) snd"

lemma onServer_app: "onServer m s = (fst (m (rs_server s)), s\<lparr>rs_server := snd (m (rs_server s))\<rparr>)"
  by (simp add: onServer_def split: prod.split)

lemma redis_views_upd:
  assumes "ks (rs_server t) = (ks (rs_server s))(prefixKey p k := x)"
  shows "redis_view ks p t = (redis_view ks p s)(k := map_option fst x)"
    and "redis_life ks p t = (redis_life ks p s)(k := Option.bind x snd)"
  using assms by (auto simp: redis_view_def redis_life_def fun_eq_iff prefixKey_def)

lemma redisStorage_sel [simp]:
  "ss_get (redisStorage C p) k = onServer (r_get C (prefixKey p k))"
  "ss_getAndDelete (redisStorage C p) k = redis_getAndDelete C (prefixKey p k)"
  "ss_increment (redisStorage C p) k = redis_increment C (prefixKey p k)"
  "ss_set (redisStorage C p) k = redis_set C (prefixKey p k)"
  "ss_delete (redisStorage C p) k = bindA (onServer (r_del C [prefixKey p k])) (\<lambda>_. returnA ())"
  by (simp_all add: redisStorage_def)

context redis_client
begin

lemma DEL1:
  assumes "r_del C [k] q = (rn, q')"
  obtains n where "rn = Inr n" "ks q' = (ks q)(k := None)"
proof -
  from DEL[OF assms] have "ks q' = (ks q)(k := None)" by (simp add: fun_eq_iff)
  with DEL[OF assms] that show thesis by blast
qed

text \<open>Either way of taking a value returns it and removes the key.\<close>

lemma script_takes:
  "\<exists>q'. getAndDeleteScript C k q = (Inr (map_option fst (ks q k)), q') \<and> ks q' = (ks q)(k := None)"
proof (cases "ks q k")
  case None
  then show ?thesis
    by (intro exI[of _ q]) (simp add: getAndDeleteScript_def bindA_def GET fun_upd_idem)
next
  case (Some x)
  obtain rn q' where del: "r_del C [k] q = (rn, q')" by force
  then obtain n where "rn = Inr n" "ks q' = (ks q)(k := None)" by (rule DEL1)
  with Some del show ?thesis by (simp add: getAndDeleteScript_def bindA_def GET)
qed

lemma getAndDelete_takes:
  assumes "redis_getAndDelete C k s = (rv, t)"
  shows "rv = Inr (map_option fst (ks (rs_server s) k)) \<and>
    ks (rs_server t) = (ks (rs_server s))(k := None)"
proof -
  obtain q' where script: "getAndDeleteScript C k (rs_server s) = (Inr (map_option fst (ks (rs_server s) k)), q')"
    "ks q' = (ks (rs_server s))(k := None)" using script_takes by blast
  obtain rg q where getdel: "r_getdel C k (rs_server s) = (rg, q)" by force
  from GETDEL[OF this] script getdel assms show ?thesis
    by (cases "rs_supportsGetDel s")
       (auto simp: redis_getAndDelete_def onServer_app catchA_def Let_def)
qed

lemma set_puts:
  assumes "redis_set C k v ttl s = (r, t)"
  shows "r = Inr () \<and> ks (rs_server t) = (ks (rs_server s))(k \<mapsto> (v, lifetime ttl))"
proof (cases "lifetime ttl")
  case None
  then have "redis_set C k v ttl s = onServer (r_set C k v) s"
    by (auto simp: redis_set_def lifetime_def split: option.splits if_splits)
  with assms None SET[of k v "rs_server s"] show ?thesis
    by (cases "r_set C k v (rs_server s)") (auto simp: onServer_app)
next
  case (Some x)
  then have "0 < x" "redis_set C k v ttl s = onServer (r_setex C k x v) s"
    by (auto simp: redis_set_def lifetime_def split: option.splits if_splits)
  with assms Some SETEX[of x k v "rs_server s"] show ?thesis
    by (cases "r_setex C k x v (rs_server s)") (auto simp: onServer_app)
qed

lemma delete_removes:
  assumes "bindA (onServer (r_del C [k])) (\<lambda>_. returnA ()) s = (r, t)"
  shows "r = Inr () \<and> ks (rs_server t) = (ks (rs_server s))(k := None)"
proof -
  obtain rn q where del: "r_del C [k] (rs_server s) = (rn, q)" by force
  then obtain n where "rn = Inr n" "ks q = (ks (rs_server s))(k := None)" by (rule DEL1)
  with del assms show ?thesis by (auto simp: bindA_def onServer_app)
qed

end

sublocale redis_client < storage: secondary_storage "redisStorage C keyPrefix"
    "redis_view ks keyPrefix" "redis_life ks keyPrefix" for keyPrefix
proof (unfold_locales, goal_cases)
  case (1 k q)
  show ?case by (simp add: onServer_app GET redis_view_def)
next
  case (2 k v ttl q r q')
  from set_puts[OF 2[unfolded redisStorage_sel]] show ?case
    by (auto simp: redis_views_upd[of ks q' q keyPrefix k])
next
  case (3 k q r q')
  from delete_removes[OF 3[unfolded redisStorage_sel]] show ?case
    by (auto simp: redis_views_upd[of ks q' q keyPrefix k])
next
  case (4 k q rv q')
  from getAndDelete_takes[OF 4[unfolded redisStorage_sel]] show ?case
    by (auto simp: redis_views_upd[of ks q' q keyPrefix k] redis_view_def)
qed

context redis_client
begin

lemma meets_contract:
  "secondary_storage (redisStorage C p) (redis_view ks p) (redis_life ks p)"
  by unfold_locales

end

section \<open>The SCAN loop\<close>

lemma scan_chain_snoc:
  "scan_chain C pat c (pre @ [(q, n, b)]) \<longleftrightarrow>
     scan_chain C pat c pre \<and> (pre = [] \<or> scan_cursor c pre \<noteq> ''0'') \<and>
     r_scan C (scan_cursor c pre) pat SCAN_COUNT q = (Inr (n, b), q)"
proof (induction pre arbitrary: c)
  case Nil
  then show ?case by (simp add: scan_cursor_def)
next
  case (Cons x pre)
  obtain q1 n1 b1 where x: "x = (q1, n1, b1)" by (cases x)
  show ?case
    using Cons[of n1] by (cases "pre = []") (auto simp: x scan_cursor_def)
qed

lemma scan_cursor_snoc [simp]: "scan_cursor c (pre @ [(q, n, b)]) = n"
  by (simp add: scan_cursor_def)

lemma returned_snoc [simp]: "returned (pre @ [(q, n, b)]) = returned pre \<union> set b"
  by (auto simp: returned_def)

lemma returned_Nil [simp]: "returned [] = {}"
  by (simp add: returned_def)

context redis_client
begin

lemma scan_loop:
  assumes "scan_chain C pat ''0'' pre" "pre = [] \<or> scan_cursor ''0'' pre \<noteq> ''0''"
    and "J pre a q" "dom (ks q) \<subseteq> dom (ks q0)" "\<forall>(q', _) \<in> set pre. dom (ks q') \<subseteq> dom (ks q0)"
    and step: "\<And>pre a q n b. J pre a q \<Longrightarrow> (\<forall>k \<in> set b. glob pat k) \<Longrightarrow>
      r_scan C (scan_cursor ''0'' pre) pat SCAN_COUNT q = (Inr (n, b), q) \<Longrightarrow>
      \<exists>a' q'. (if b \<noteq> [] then f b a else returnA a) q = (Inr a', q') \<and>
        dom (ks q') \<subseteq> dom (ks q) \<and> J (pre @ [(q, n, b)]) a' q'"
    and "bound q0 < fuel + length pre"
  shows "\<exists>steps a' q'. scanBatches fuel C pat (scan_cursor ''0'' pre) f a q = (Inr a', q') \<and>
    scan_chain C pat ''0'' steps \<and> steps \<noteq> [] \<and> scan_cursor ''0'' steps = ''0'' \<and> J steps a' q'"
  using assms(1-5) assms(7)
proof (induction fuel arbitrary: pre a q)
  case 0
  with SCAN_ends[of pat pre q0] show ?case by simp
next
  case (Suc fuel)
  from SCAN[of "scan_cursor ''0'' pre" pat q] obtain n b where
    scan: "r_scan C (scan_cursor ''0'' pre) pat SCAN_COUNT q = (Inr (n, b), q)"
    and glob: "\<forall>k \<in> set b. glob pat k" by blast
  from step[OF Suc.prems(3) glob scan] obtain a' q' where
    body: "(if b \<noteq> [] then f b a else returnA a) q = (Inr a', q')"
    and dom: "dom (ks q') \<subseteq> dom (ks q)" and J: "J (pre @ [(q, n, b)]) a' q'" by blast
  let ?pre = "pre @ [(q, n, b)]"
  have chain: "scan_chain C pat ''0'' ?pre" using Suc.prems(1,2) scan by (simp add: scan_chain_snoc)
  have run: "scanBatches (Suc fuel) C pat (scan_cursor ''0'' pre) f a q =
      (if n \<noteq> ''0'' then scanBatches fuel C pat n f a' q' else (Inr a', q'))"
    using scan body by (simp add: bindA_def)
  show ?case
  proof (cases "n = ''0''")
    case True
    with run chain J show ?thesis by (intro exI[of _ ?pre]) (auto simp del: scanBatches.simps)
  next
    case False
    have "\<exists>steps a'' q''. scanBatches fuel C pat (scan_cursor ''0'' ?pre) f a' q' = (Inr a'', q'') \<and>
      scan_chain C pat ''0'' steps \<and> steps \<noteq> [] \<and> scan_cursor ''0'' steps = ''0'' \<and> J steps a'' q''"
      using Suc.prems(4-6) dom False chain J by (intro Suc.IH) auto
    with run False show ?thesis by (simp del: scanBatches.simps)
  qed
qed

lemma scan_all:
  assumes J: "J [] a q0" and fuel: "bound q0 < fuel"
    and step: "\<And>pre a q n b. J pre a q \<Longrightarrow> \<forall>k \<in> set b. glob pat k \<Longrightarrow>
      \<exists>a' q'. (if b \<noteq> [] then f b a else returnA a) q = (Inr a', q') \<and>
        dom (ks q') \<subseteq> dom (ks q) \<and> J (pre @ [(q, n, b)]) a' q'"
  obtains steps a' q' where "scanBatches fuel C pat ''0'' f a q0 = (Inr a', q')"
    "scan_chain C pat ''0'' steps" "steps \<noteq> []" "scan_cursor ''0'' steps = ''0''" "J steps a' q'"
proof -
  have "scan_cursor ''0'' ([] :: ('q \<times> string \<times> string list) list) = ''0''"
    by (simp add: scan_cursor_def)
  with scan_loop[of pat "[]" J a q0 q0 f fuel] assms that show thesis by auto
qed

end

section \<open>Listing, clearing and counting\<close>

lemma set_set_add [simp]: "set (set_add k ks) = insert k (set ks)"
  by (auto simp: set_add_def)

lemma distinct_set_add [simp]: "distinct (set_add k ks) \<longleftrightarrow> distinct ks"
  by (simp add: set_add_def)

lemma fold_set_add:
  "set (foldl (\<lambda>ks key. set_add (f key) ks) acc xs) = set acc \<union> f ` set xs \<and>
   (distinct (foldl (\<lambda>ks key. set_add (f key) ks) acc xs) \<longleftrightarrow> distinct acc)"
  by (induction xs arbitrary: acc) auto

text \<open>A sequence of \<open>increment\<close> calls with its results.\<close>

definition increments :: "('q, 'v) redis \<Rightarrow> string \<Rightarrow> string \<Rightarrow> int list \<Rightarrow> ('q redis_state, int list) act" where
  "increments C keyPrefix key ttls =
     mapA (ss_increment (redisStorage C keyPrefix) key) ttls"

context redis_client
begin

lemma listKeys_result:
  assumes "bound (rs_server s) < fuel"
  shows "\<exists>keys. listKeys fuel C p s = (Inr keys, s) \<and> distinct keys \<and>
    set keys = {k. ks (rs_server s) (prefixKey p k) \<noteq> None}"
proof -
  let ?q = "rs_server s" and ?pat = "escapedPrefix p @ ''*''"
  let ?f = "\<lambda>batch keys. returnA (foldl (\<lambda>ks key. set_add (drop (length p) key) ks) keys batch)"
  define J where "J = (\<lambda>pre (a :: string list) q. q = ?q \<and> (\<forall>(q', _) \<in> set pre. q' = ?q) \<and> distinct a \<and>
    set a = drop (length p) ` returned pre \<and> (\<forall>k \<in> returned pre. startsWith k p))"
  have body: "\<exists>a' q'. (if b \<noteq> [] then ?f b a else returnA a) q = (Inr a', q') \<and>
      dom (ks q') \<subseteq> dom (ks q) \<and> J (pre @ [(q, n, b)]) a' q'"
    if "J pre a q" "\<forall>k \<in> set b. glob ?pat k" for pre a q n b
  proof -
    from that have "J (pre @ [(q, n, b)]) (foldl (\<lambda>ks key. set_add (drop (length p) key) ks) a b) q"
      by (auto simp: J_def fold_set_add glob_prefix)
    then show ?thesis
      by (intro exI[of _ "foldl (\<lambda>ks key. set_add (drop (length p) key) ks) a b"] exI[of _ q]) auto
  qed
  have "J [] [] ?q" by (simp add: J_def)
  from this assms body obtain steps a q where run: "scanBatches fuel C ?pat ''0'' ?f [] ?q = (Inr a, q)"
    and chain: "scan_chain C ?pat ''0'' steps" "steps \<noteq> []" "scan_cursor ''0'' steps = ''0''"
    and J: "J steps a q" by (rule scan_all)
  then have q: "q = ?q" by (simp add: J_def)
  have "returned steps = {k. ks ?q k \<noteq> None \<and> startsWith k p}"
  proof (intro equalityI subsetI CollectI conjI)
    fix k assume k: "k \<in> returned steps"
    with J show "startsWith k p" by (simp add: J_def)
    from SCAN_present[OF chain(1) k] J show "ks ?q k \<noteq> None" by (auto simp: J_def)
  next
    fix k assume "k \<in> {k. ks ?q k \<noteq> None \<and> startsWith k p}"
    then show "k \<in> returned steps"
      using J by (intro SCAN_complete[OF chain]) (auto simp: J_def glob_prefix)
  qed
  moreover have "drop (length p) ` {k. ks ?q k \<noteq> None \<and> startsWith k p} =
      {k. ks ?q (prefixKey p k) \<noteq> None}"
  proof (intro equalityI subsetI)
    fix k assume "k \<in> drop (length p) ` {k. ks ?q k \<noteq> None \<and> startsWith k p}"
    then show "k \<in> {k. ks ?q (prefixKey p k) \<noteq> None}" by (auto simp: prefixKey_def startsWith_iff)
  next
    fix k assume "k \<in> {k. ks ?q (prefixKey p k) \<noteq> None}"
    then show "k \<in> drop (length p) ` {k. ks ?q k \<noteq> None \<and> startsWith k p}"
      by (intro image_eqI[of _ _ "prefixKey p k"]) (auto simp: prefixKey_def)
  qed
  ultimately have "set a = {k. ks ?q (prefixKey p k) \<noteq> None}" using J by (simp add: J_def)
  with J run q show ?thesis by (auto simp: listKeys_def onServer_app J_def)
qed

lemma clear_result:
  assumes "bound (rs_server s) < fuel"
  shows "\<exists>t. clear fuel C p s = (Inr (), t) \<and>
    ks (rs_server t) = (\<lambda>k. if startsWith k p then None else ks (rs_server s) k)"
proof -
  let ?q = "rs_server s" and ?pat = "escapedPrefix p @ ''*''"
  let ?f = "\<lambda>batch _. bindA (r_del C batch) (\<lambda>_. returnA ())"
  define J where "J = (\<lambda>pre (_ :: unit) q.
    ks q = (\<lambda>k. if k \<in> returned pre then None else ks ?q k) \<and>
    (\<forall>(q', _) \<in> set pre. \<forall>k. k \<notin> returned pre \<longrightarrow> ks q' k = ks ?q k) \<and>
    (\<forall>k \<in> returned pre. startsWith k p))"
  have body: "\<exists>a' q'. (if b \<noteq> [] then ?f b a else returnA a) q = (Inr a', q') \<and>
      dom (ks q') \<subseteq> dom (ks q) \<and> J (pre @ [(q, n, b)]) a' q'"
    if J: "J pre a q" and glob: "\<forall>k \<in> set b. glob ?pat k" for pre a q n b
  proof (cases "b = []")
    case True
    with J show ?thesis by (intro exI[of _ "()"] exI[of _ q]) (auto simp: J_def)
  next
    case False
    obtain rn q' where del: "r_del C b q = (rn, q')" by force
    from DEL[OF del] have "(if b \<noteq> [] then ?f b a else returnA a) q = (Inr (), q')"
      using False del by (auto simp: bindA_def)
    moreover have "dom (ks q') \<subseteq> dom (ks q)" using DEL[OF del] by (auto simp: dom_def)
    moreover have "J (pre @ [(q, n, b)]) () q'"
      using J DEL[OF del] glob by (auto simp: J_def glob_prefix fun_eq_iff)
    ultimately show ?thesis by blast
  qed
  have "J [] () ?q" by (simp add: J_def)
  from this assms body obtain steps a q where run: "scanBatches fuel C ?pat ''0'' ?f () ?q = (Inr a, q)"
    and chain: "scan_chain C ?pat ''0'' steps" "steps \<noteq> []" "scan_cursor ''0'' steps = ''0''"
    and J: "J steps a q" by (rule scan_all)
  have "ks ?q k = None" if "startsWith k p" "k \<notin> returned steps" for k
  proof (rule ccontr)
    assume "ks ?q k \<noteq> None"
    with J that(2) have "\<forall>(q', _) \<in> set steps. ks q' k \<noteq> None" by (auto simp: J_def)
    from SCAN_complete[OF chain this] that show False by (simp add: glob_prefix)
  qed
  with J have "ks q = (\<lambda>k. if startsWith k p then None else ks ?q k)"
    by (auto simp: J_def fun_eq_iff)
  with run show ?thesis by (simp add: clear_def onServer_app)
qed

lemma increment_step:
  assumes "0 < ttl" and "ks (rs_server s) (prefixKey p k) = x"
    and "x = None \<or> (\<exists>n t. x = Some (of_int_text n, t) \<and> 0 < n)"
  shows "\<exists>t. ss_increment (redisStorage C p) k ttl s =
      (Inr (case x of None \<Rightarrow> 1 | Some (v, _) \<Rightarrow> the (as_int v) + 1), t) \<and>
    ks (rs_server t) (prefixKey p k) = (case x of
        None \<Rightarrow> Some (of_int_text 1, Some ttl)
      | Some (v, e) \<Rightarrow> Some (of_int_text (the (as_int v) + 1), e))"
proof -
  let ?k = "prefixKey p k"
  obtain ri q where incr: "r_incr C ?k (rs_server s) = (ri, q)" by force
  show ?thesis
  proof (cases x)
    case None
    with INCR[OF incr] assms(2) have q: "ri = Inr 1" "ks q ?k = Some (of_int_text 1, None)" by auto
    obtain r q' where ex: "r_expire C ?k ttl q = (r, q')" by force
    from EXPIRE[OF assms(1) q(2) ex] q incr ex assms(1) None show ?thesis
      by (simp add: redis_increment_def onServer_app incrementScript_def bindA_def)
  next
    case (Some y)
    with assms(3) obtain n e where "x = Some (of_int_text n, e)" "0 < n" by auto
    with INCR[OF incr] assms incr show ?thesis
      by (auto simp: int_text redis_increment_def onServer_app incrementScript_def bindA_def)
  qed
qed

lemma increments_from:
  assumes "list_all (\<lambda>t. 0 < t) ttls" and "0 < n"
    and "ks (rs_server s) (prefixKey p k) = Some (of_int_text n, e)"
  shows "\<exists>t. increments C p k ttls s = (Inr (map (\<lambda>i. n + int i) [1..<Suc (length ttls)]), t) \<and>
    ks (rs_server t) (prefixKey p k) = Some (of_int_text (n + int (length ttls)), e)"
  using assms
proof (induction ttls arbitrary: s n)
  case Nil
  then show ?case by (simp add: increments_def)
next
  case (Cons ttl ttls)
  from Cons.prems obtain u where u: "ss_increment (redisStorage C p) k ttl s = (Inr (n + 1), u)"
    "ks (rs_server u) (prefixKey p k) = Some (of_int_text (n + 1), e)"
    using increment_step[of ttl s p k "Some (of_int_text n, e)"] by (auto simp: int_text)
  from Cons.prems u(2) obtain t where t: "increments C p k ttls u =
      (Inr (map (\<lambda>i. n + 1 + int i) [1..<Suc (length ttls)]), t)"
    "ks (rs_server t) (prefixKey p k) = Some (of_int_text (n + 1 + int (length ttls)), e)"
    using Cons.IH[of "n + 1" u] by auto
  have "map (\<lambda>i. n + int i) [1..<Suc (Suc (length ttls))] =
      (n + 1) # map (\<lambda>i. n + 1 + int i) [1..<Suc (length ttls)]"
    by (simp add: upt_conv_Cons map_Suc_upt[symmetric] comp_def del: upt_Suc)
  with u(1) t show ?case
    by (simp add: increments_def bindA_def del: redisStorage_sel upt_Suc)
       (simp add: algebra_simps)
qed

end

section \<open>A reference server\<close>

text \<open>
  A keyspace as an association list, without GETDEL (a server before 6.2), answering SCAN
  with one page. It meets the documented laws, so they can hold.
\<close>

type_synonym 'v keyspace = "(string \<times> 'v \<times> int option) list"

function glob_ref :: "string \<Rightarrow> string \<Rightarrow> bool" where
  "glob_ref [] s = (s = [])"
| "glob_ref (c # p) s =
     (if c = CHR ''*'' \<and> p = [] then True
      else if c = CHR 0x5C \<and> p \<noteq> [] then s \<noteq> [] \<and> hd s = hd p \<and> glob_ref (tl p) (tl s)
      else s \<noteq> [] \<and> hd s = c \<and> glob_ref p (tl s))"
  by pat_completeness auto
termination by (relation "measure (length \<circ> fst)") auto

definition kv_redis :: "('v \<Rightarrow> int option) \<Rightarrow> (int \<Rightarrow> 'v) \<Rightarrow> ('v keyspace, 'v) redis" where
  "kv_redis as_int of_num =
     \<lparr>r_get = (\<lambda>k q. (Inr (map_option fst (map_of q k)), q)),
      r_set = (\<lambda>k v q. (Inr (), AList.update k (v, None) q)),
      r_setex = (\<lambda>k t v q. (Inr (), AList.update k (v, Some t) q)),
      r_del = (\<lambda>keys q. (Inr (length keys), filter (\<lambda>(k, _). k \<notin> set keys) q)),
      r_getdel = (\<lambda>k q. (Inl (Throw ''ERR unknown command GETDEL''), q)),
      r_incr = (\<lambda>k q. case map_of q k of
          None \<Rightarrow> (Inr 1, AList.update k (of_num 1, None) q)
        | Some (v, t) \<Rightarrow>
            (case as_int v of
               Some n \<Rightarrow> (Inr (n + 1), AList.update k (of_num (n + 1), t) q)
             | None \<Rightarrow> (Inl (Throw ''ERR value is not an integer''), q))),
      r_expire = (\<lambda>k t q. case map_of q k of
          None \<Rightarrow> (Inr (), q) | Some (v, _) \<Rightarrow> (Inr (), AList.update k (v, Some t) q)),
      r_scan = (\<lambda>cursor pat n q. (Inr (''0'', filter (glob_ref pat) (map fst q)), q))\<rparr>"

lemma ref_unknown_command: "isUnknownCommandError (Throw ''ERR unknown command GETDEL'')"
  by code_simp

lemma map_of_filter_notin:
  "map_of (filter (\<lambda>(k, _). k \<notin> K) q) = (\<lambda>k. if k \<in> K then None else map_of q k)"
  by (induction q) (auto simp: fun_eq_iff)

lemma ref_chain:
  "scan_chain (kv_redis as_int of_num) pat c steps \<Longrightarrow> steps = [] \<or>
    (\<exists>q. steps = [(q, ''0'', filter (glob_ref pat) (map fst q))])"
proof (cases steps)
  case (Cons x rest)
  assume chain: "scan_chain (kv_redis as_int of_num) pat c steps"
  obtain q n b where "x = (q, n, b)" by (cases x)
  with chain Cons show ?thesis by (auto simp: kv_redis_def)
qed simp

lemma kv_redis_client:
  assumes num: "\<And>n. as_int (of_num n) = Some n"
  shows "redis_client (kv_redis as_int of_num) map_of as_int of_num glob_ref (\<lambda>_. 1)"
proof (unfold_locales, goal_cases)
  case (9 pat q c)
  show ?case by (auto simp: kv_redis_def)
next
  case (10 pat steps k)
  from ref_chain[OF 10(1)] 10(2) show ?case by (auto simp: returned_def map_of_eq_None_iff image_iff)
next
  case (11 pat steps k)
  from ref_chain[OF 11(1)] 11(2-) show ?case
    by (auto simp: returned_def dest!: map_of_SomeD) (force simp: image_iff)
next
  case (12 pat steps q0)
  from ref_chain[OF 12(1)] show ?case by auto
next
  case (14 ch p s)
  then show ?case by (cases s) (auto simp: glob_meta_def)
next
  case (15 ch p s)
  show ?case by (cases s) auto
qed (auto simp: num kv_redis_def map_of_filter_notin update_conv' fun_eq_iff
    ref_unknown_command[simplified] split: option.splits)

text \<open>The server over column values, where an integer is its own text.\<close>

fun ref_int :: "val \<Rightarrow> int option" where
  "ref_int (Num n) = Some n"
| "ref_int _ = None"

abbreviation ref_redis :: "(val keyspace, val) redis" where
  "ref_redis \<equiv> kv_redis ref_int Num"

interpretation ref: redis_client ref_redis map_of ref_int Num glob_ref "\<lambda>_. 1"
  by (rule kv_redis_client) simp

section \<open>Properties\<close>


definition demo_redis_state :: "val keyspace redis_state" where
  "demo_redis_state = \<lparr>rs_server = [(''other:x'', Num 7, None)], rs_supportsGetDel = True\<rparr>"


text \<open>
  \<open>listKeys\<close> and \<open>clear\<close> come to an end on a documented SCAN (fuel above the server's
  bound on the pages of one iteration), however the server pages, repeats or shortens the
  answers, and whatever glob characters the prefix holds: \<open>listKeys\<close> returns every key
  under the prefix once and nothing else and changes nothing; \<open>clear\<close> deletes exactly the
  keys under the prefix.
\<close>

theorem list_and_clear_are_exact:
  assumes "redis_client C ks as_int of_int_text glob bound"
    and "bound (rs_server s) < fuel"
  shows "\<exists>keys t. listKeys fuel C p s = (Inr keys, s) \<and> distinct keys \<and>
      set keys = {k. ks (rs_server s) (p @ k) \<noteq> None} \<and>
      clear fuel C p s = (Inr (), t) \<and>
      ks (rs_server t) = (\<lambda>k. if startsWith k p then None else ks (rs_server s) k)"
  using redis_client.listKeys_result[OF assms, of p] redis_client.clear_result[OF assms, of p]
  by (auto simp: prefixKey_def)

theorem list_and_clear_are_exact_witness:
  "\<exists>keys t. listKeys 2 ref_redis ''oth*r:'' demo_redis_state = (Inr keys, demo_redis_state) \<and>
     keys = [] \<and> clear 2 ref_redis ''other:'' demo_redis_state = (Inr (), t) \<and>
     map_of (rs_server t) ''other:x'' = None"
proof -
  have fuel: "(1 :: nat) < 2" by simp
  from list_and_clear_are_exact[OF ref.redis_client_axioms fuel, of "''oth*r:''" demo_redis_state]
    list_and_clear_are_exact[OF ref.redis_client_axioms fuel, of "''other:''" demo_redis_state]
  show ?thesis by (auto simp: demo_redis_state_def)
qed

text \<open>
  A counter in Redis has a fixed window: \<open>n\<close> calls of \<open>increment\<close> on an absent key
  return 1 to \<open>n\<close>, and the key keeps the time to live of the first call, whatever the later
  calls ask for; a time to live that is not positive is refused and changes nothing.
\<close>

theorem increment_window_is_fixed:
  assumes "redis_client C ks as_int of_int_text glob bound"
    and "ks (rs_server s) (p @ k) = None"
    and "list_all (\<lambda>t. 0 < t) (ttl # ttls)"
  shows "\<exists>t. increments C p k (ttl # ttls) s = (Inr (map int [1..<length ttls + 2]), t) \<and>
      ks (rs_server t) (p @ k) = Some (of_int_text (int (length ttls) + 1), Some ttl) \<and>
      (\<forall>ttl' \<le> 0. ss_increment (redisStorage C p) k ttl' t = (Inl TypeError, t))"
proof -
  from assms obtain u where u: "ss_increment (redisStorage C p) k ttl s = (Inr 1, u)"
    "ks (rs_server u) (prefixKey p k) = Some (of_int_text 1, Some ttl)"
    using redis_client.increment_step[OF assms(1), of ttl s p k None] by (auto simp: prefixKey_def)
  from redis_client.increments_from[OF assms(1) _ _ u(2), of ttls] assms(3)
  obtain t where t: "increments C p k ttls u = (Inr (map (\<lambda>i. 1 + int i) [1..<Suc (length ttls)]), t)"
    "ks (rs_server t) (prefixKey p k) = Some (of_int_text (1 + int (length ttls)), Some ttl)"
    by auto
  have "map int [1..<length ttls + 2] = 1 # map (\<lambda>i. 1 + int i) [1..<Suc (length ttls)]"
    by (simp add: upt_conv_Cons map_Suc_upt[symmetric] comp_def del: upt_Suc)
  with u(1) t show ?thesis
    by (simp add: increments_def bindA_def redis_increment_def prefixKey_def add.commute
        del: redisStorage_sel(3) upt_Suc) (simp add: redis_increment_def)
qed

theorem increment_window_is_fixed_witness:
  "\<exists>t. increments ref_redis ''r:'' ''ip'' [10, 99, 5] demo_redis_state = (Inr [1, 2, 3], t) \<and>
     map_of (rs_server t) ''r:ip'' = Some (Num 3, Some 10)"
proof -
  have absent: "map_of (rs_server demo_redis_state) (''r:'' @ ''ip'') = None"
    by (simp add: demo_redis_state_def)
  have pos: "list_all (\<lambda>t. 0 < t) [10 :: int, 99, 5]" by simp
  from increment_window_is_fixed[OF ref.redis_client_axioms absent pos]
  show ?thesis by (auto simp: upt_rec numeral_eq_Suc)
qed

end
