(* ===== verification/RequestContext.thy ===== *)
theory RequestContext
  imports Prelude
begin

text \<open>
  The transaction context of a request, \<open>packages/core/src/context/transaction.ts\<close>:
  \<open>runWithTransaction\<close> and \<open>queueAfterTransactionHook\<close>.

  The async-local context holds whether a transaction is active and the hooks waiting for
  its commit. A hook runs after the transaction's context is gone, so it is an action on
  the store. The adapter's own \<open>transaction\<close> is given by the store it hands to the
  callback (\<open>tx_begin\<close>) and by what the commit and the rollback make of the store before
  and after the callback; only the database takes part in it. The schema check that runs
  first and \<open>runWithAdapter\<close> (which installs another adapter) are not modelled.
\<close>

section \<open>The context\<close>

record 't req =
  rq_store :: 't
  rq_als :: bool                          \<comment> \<open>async-local storage is available\<close>
  rq_tx :: bool                           \<comment> \<open>\<open>isTransactionActive\<close>\<close>
  rq_pending :: "('t, unit) act list"     \<comment> \<open>\<open>pendingHooks\<close>\<close>

record 't tx_ops =
  tx_begin :: "'t \<Rightarrow> 't"
  tx_commit :: "'t \<Rightarrow> 't \<Rightarrow> 't"
  tx_abort :: "'t \<Rightarrow> 't \<Rightarrow> 't"

definition onStore :: "('t, 'a) act \<Rightarrow> ('t req, 'a) act" where
  "onStore m s = (case m (rq_store s) of (r, t) \<Rightarrow> (r, s\<lparr>rq_store := t\<rparr>))"

text \<open>\<open>try { await hook() } catch (e) { if (!onError) throw e; await onError(e) }\<close>\<close>

definition executeHook ::
  "('t, unit) act \<Rightarrow> (err \<Rightarrow> ('t, unit) act) option \<Rightarrow> ('t, unit) act"
where
  "executeHook hook onError =
     catchA hook (\<lambda>e. case onError of None \<Rightarrow> throwA e | Some h \<Rightarrow> h e)"

definition queueAfterTransactionHook ::
  "('t, unit) act \<Rightarrow> (err \<Rightarrow> ('t, unit) act) option \<Rightarrow> ('t req, unit) act"
where
  "queueAfterTransactionHook hook onError s =
     (if \<not> rq_als s \<or> \<not> rq_tx s then onStore (executeHook hook onError) s
      else (Inr (), s\<lparr>rq_pending := rq_pending s @ [executeHook hook onError]\<rparr>))"

text \<open>The loop over the pending hooks after the commit.\<close>

fun run_hooks :: "(err \<Rightarrow> ('t, unit) act) option \<Rightarrow> ('t, unit) act list \<Rightarrow> ('t, unit) act" where
  "run_hooks onErr [] = returnA ()"
| "run_hooks onErr (hook # hooks) =
     bindA (catchA hook (\<lambda>e. case onErr of
              None \<Rightarrow> throwA e
            | Some h \<Rightarrow> catchA (h e) (\<lambda>_. returnA ())))
       (\<lambda>_. run_hooks onErr hooks)"

definition runWithTransaction ::
  "'t tx_ops \<Rightarrow> (err \<Rightarrow> ('t, unit) act) option \<Rightarrow> ('t req, 'a) act \<Rightarrow> ('t req, 'a) act"
where
  "runWithTransaction tx onErr fn s =
     (if \<not> rq_als s \<or> rq_tx s then fn s
      else
        (case fn \<lparr>rq_store = tx_begin tx (rq_store s), rq_als = rq_als s,
                  rq_tx = True, rq_pending = []\<rparr> of
           (Inl e, t) \<Rightarrow> (Inl e, s\<lparr>rq_store := tx_abort tx (rq_store s) (rq_store t)\<rparr>)
         | (Inr x, t) \<Rightarrow>
             (case run_hooks onErr (rq_pending t) (tx_commit tx (rq_store s) (rq_store t)) of
                (Inl e, u) \<Rightarrow> (Inl e, s\<lparr>rq_store := u\<rparr>)
              | (Inr _, u) \<Rightarrow> (Inr x, s\<lparr>rq_store := u\<rparr>))))"

text \<open>
  The transaction of an adapter without one (\<open>createAsIsTransaction\<close> of the adapter
  factory): the callback runs on the live store.
\<close>

definition as_is :: "'t tx_ops" where
  "as_is = \<lparr>tx_begin = (\<lambda>t. t), tx_commit = (\<lambda>_ t. t), tx_abort = (\<lambda>_ t. t)\<rparr>"

lemma as_is_sel [simp]:
  "tx_begin as_is t = t" "tx_commit as_is u t = t" "tx_abort as_is u t = t"
  by (simp_all add: as_is_def)

lemma onStore_app: "onStore m s = (fst (m (rq_store s)), s\<lparr>rq_store := snd (m (rq_store s))\<rparr>)"
  by (simp add: onStore_def split: prod.split)

lemma onStore_ok: "m (rq_store s) = (r, t) \<Longrightarrow> onStore m s = (r, s\<lparr>rq_store := t\<rparr>)"
  by (simp add: onStore_def)

section \<open>Handlers built from store steps, queued hooks and transactions\<close>

text \<open>
  A handler that runs store operations, queues hooks and opens further transactions in
  any nesting.
\<close>

datatype 't step =
    Do "('t, unit) act"
  | Queue "('t, unit) act"
  | Within "'t step list"

fun run_steps :: "'t tx_ops \<Rightarrow> 't step list \<Rightarrow> ('t req, unit) act" where
  "run_steps tx [] = returnA ()"
| "run_steps tx (Do m # ss) = bindA (onStore m) (\<lambda>_. run_steps tx ss)"
| "run_steps tx (Queue h # ss) =
     bindA (queueAfterTransactionHook h None) (\<lambda>_. run_steps tx ss)"
| "run_steps tx (Within ts # ss) =
     bindA (runWithTransaction tx None (run_steps tx ts)) (\<lambda>_. run_steps tx ss)"

text \<open>The store operations and the hooks of a handler, in program order.\<close>

fun step_ops :: "'t step list \<Rightarrow> ('t, unit) act list" where
  "step_ops [] = []"
| "step_ops (Do m # ss) = m # step_ops ss"
| "step_ops (Queue h # ss) = step_ops ss"
| "step_ops (Within ts # ss) = step_ops ts @ step_ops ss"

fun step_hooks :: "'t step list \<Rightarrow> ('t, unit) act list" where
  "step_hooks [] = []"
| "step_hooks (Do m # ss) = step_hooks ss"
| "step_hooks (Queue h # ss) = h # step_hooks ss"
| "step_hooks (Within ts # ss) = step_hooks ts @ step_hooks ss"

fun seqA :: "('t, unit) act list \<Rightarrow> ('t, unit) act" where
  "seqA [] = returnA ()"
| "seqA (m # ms) = bindA m (\<lambda>_. seqA ms)"

lemma bindA_Pair [simp]: "bindA (Pair (Inr x)) f = f x" "bindA (returnA x) f = f x"
  by (simp_all add: bindA_def fun_eq_iff)

lemma bindA_Pair_right [simp]: "bindA m (\<lambda>x. Pair (Inr x)) = m" "bindA m returnA = m"
  by (auto simp: bindA_def fun_eq_iff split: prod.split sum.split)

lemma seqA_append: "seqA (ms @ ns) = bindA (seqA ms) (\<lambda>_. seqA ns)"
  by (induction ms) (simp_all add: bindA_assoc)

lemma executeHook_None [simp]: "executeHook hook None = hook"
  by (auto simp: executeHook_def catchA_def fun_eq_iff split: prod.split sum.split)

lemma run_hooks_None: "run_hooks None hooks = seqA hooks"
  by (induction hooks) (auto simp: catchA_def bindA_def fun_eq_iff split: prod.split sum.split)

text \<open>
  Inside an active transaction a handler runs its store operations only; its hooks are
  queued in program order up to the point where an operation fails.
\<close>

lemma run_steps_active:
  assumes "rq_als s" and "rq_tx s"
  shows "\<exists>hs. run_steps tx ss s =
      (fst (seqA (step_ops ss) (rq_store s)),
       s\<lparr>rq_store := snd (seqA (step_ops ss) (rq_store s)), rq_pending := rq_pending s @ hs\<rparr>) \<and>
    (\<not> isl (fst (seqA (step_ops ss) (rq_store s))) \<longrightarrow> hs = step_hooks ss)"
  using assms
proof (induction tx ss arbitrary: s rule: run_steps.induct)
  case (1 tx)
  then show ?case by (intro exI[of _ "[]"]) simp
next
  case (2 tx m ss)
  show ?case
  proof (cases "m (rq_store s)")
    case (Pair r t)
    show ?thesis
    proof (cases r)
      case (Inl e)
      with Pair show ?thesis by (intro exI[of _ "[]"]) (simp add: bindA_def onStore_ok)
    next
      case (Inr u)
      from 2(1)[of "s\<lparr>rq_store := t\<rparr>"] 2(2,3) obtain hs where "run_steps tx ss (s\<lparr>rq_store := t\<rparr>) =
          (fst (seqA (step_ops ss) t),
           s\<lparr>rq_store := snd (seqA (step_ops ss) t), rq_pending := rq_pending s @ hs\<rparr>)"
        "\<not> isl (fst (seqA (step_ops ss) t)) \<longrightarrow> hs = step_hooks ss" by auto
      with Pair Inr show ?thesis by (intro exI[of _ hs]) (simp add: bindA_def onStore_ok)
    qed
  qed
next
  case (3 tx h ss)
  from 3(1)[of "s\<lparr>rq_pending := rq_pending s @ [h]\<rparr>"] 3(2,3) show ?case
    by (fastforce simp: bindA_def queueAfterTransactionHook_def)
next
  case (4 tx ts ss)
  from 4(1)[OF 4(3,4)] obtain hs where inner: "run_steps tx ts s =
      (fst (seqA (step_ops ts) (rq_store s)),
       s\<lparr>rq_store := snd (seqA (step_ops ts) (rq_store s)), rq_pending := rq_pending s @ hs\<rparr>)"
    and hs: "\<not> isl (fst (seqA (step_ops ts) (rq_store s))) \<longrightarrow> hs = step_hooks ts" by blast
  have nested: "runWithTransaction tx None (run_steps tx ts) s = run_steps tx ts s"
    using 4(3,4) by (simp add: runWithTransaction_def)
  show ?case
  proof (cases "fst (seqA (step_ops ts) (rq_store s))")
    case (Inl e)
    with inner nested show ?thesis
      by (cases "seqA (step_ops ts) (rq_store s)") (auto simp: bindA_def seqA_append)
  next
    case (Inr u)
    let ?s = "s\<lparr>rq_store := snd (seqA (step_ops ts) (rq_store s)), rq_pending := rq_pending s @ hs\<rparr>"
    from 4(2)[of ?s] 4(3,4) inner nested hs Inr show ?thesis
      by (cases "seqA (step_ops ts) (rq_store s)") (fastforce simp: bindA_def seqA_append)
  qed
qed

section \<open>Properties\<close>

text \<open>
  C39. After-commit hooks: a handler run in a transaction, with any nesting of further
  transactions inside, executes its store operations on the one transaction of the
  outermost call; if they all succeed the transaction commits and then every queued hook
  runs, in program order, on the committed store; if one fails the store is rolled back,
  the error is returned and no hook runs, not even those of an inner transaction that had
  finished.
\<close>

theorem hooks_wait_for_commit:
  assumes "rq_als s" and "\<not> rq_tx s"
  shows "runWithTransaction tx None (run_steps tx ss) s =
    (case seqA (step_ops ss) (tx_begin tx (rq_store s)) of
       (Inl e, t) \<Rightarrow> (Inl e, s\<lparr>rq_store := tx_abort tx (rq_store s) t\<rparr>)
     | (Inr _, t) \<Rightarrow>
         (case seqA (step_hooks ss) (tx_commit tx (rq_store s) t) of
            (r, u) \<Rightarrow> (r, s\<lparr>rq_store := u\<rparr>)))"
proof -
  let ?a = "\<lparr>rq_store = tx_begin tx (rq_store s), rq_als = rq_als s, rq_tx = True, rq_pending = []\<rparr>"
  from run_steps_active[of ?a tx ss] assms(1) obtain hs where
    body: "run_steps tx ss ?a = (fst (seqA (step_ops ss) (tx_begin tx (rq_store s))),
      ?a\<lparr>rq_store := snd (seqA (step_ops ss) (tx_begin tx (rq_store s))), rq_pending := hs\<rparr>)"
    and hs: "\<not> isl (fst (seqA (step_ops ss) (tx_begin tx (rq_store s)))) \<Longrightarrow> hs = step_hooks ss"
    by auto
  show ?thesis
    using assms body hs by (cases "seqA (step_ops ss) (tx_begin tx (rq_store s))")
      (auto simp: runWithTransaction_def run_hooks_None split: sum.splits prod.splits)
qed

definition log_op :: "string \<Rightarrow> (string list, unit) act" where
  "log_op m l = (Inr (), l @ [m])"

definition demo_steps :: "string list step list" where
  "demo_steps = [Do (log_op ''insert user''), Queue (log_op ''mail''),
     Within [Do (log_op ''insert account''), Queue (log_op ''audit'')], Do (log_op ''insert session'')]"

definition demo_req :: "string list req" where
  "demo_req = \<lparr>rq_store = [], rq_als = True, rq_tx = False, rq_pending = []\<rparr>"

theorem hooks_wait_for_commit_witness:
  "rq_store (snd (runWithTransaction as_is None (run_steps as_is demo_steps) demo_req)) =
     [''insert user'', ''insert account'', ''insert session'', ''mail'', ''audit'']"
  by (subst hooks_wait_for_commit)
     (simp_all add: demo_req_def demo_steps_def log_op_def bindA_def)

end
