(* ===== verification/WithHooks.thy ===== *)
theory WithHooks
  imports Adapter RequestContext
begin

text \<open>
  Database operations with plugin hooks, \<open>packages/cinaauth/src/db/with-hooks.ts\<close>.

  The hooks of a model are the application's: a \<open>before\<close> hook is an action that vetoes
  (\<open>false\<close>), replaces data (\<open>{ data }\<close>) or lets the operation proceed; an \<open>after\<close> hook is an
  action that is queued for the commit. The lists hold the entries of \<open>hooksEntries\<close> that
  have such a hook for the model, in order. Tracing spans are left out.
\<close>

section \<open>Hooks\<close>

datatype hook_result = Veto | Replace row | Proceed

record 't db_hooks =
  create_before :: "(row \<Rightarrow> ('t, hook_result) act) list"
  create_after :: "(row option \<Rightarrow> ('t, unit) act) list"
  update_before :: "(row \<Rightarrow> ('t, hook_result) act) list"
  update_after :: "(val \<Rightarrow> row option \<Rightarrow> ('t, unit) act) list"
  delete_before :: "(row \<Rightarrow> ('t, hook_result) act) list"
  delete_after :: "(row \<Rightarrow> ('t, unit) act) list"

definition no_hooks :: "'t db_hooks" where
  "no_hooks = \<lparr>create_before = [], create_after = [], update_before = [], update_after = [],
     delete_before = [], delete_after = []\<rparr>"

text \<open>
  The loop of \<open>createWithHooks\<close> over the before hooks: each sees the data as the previous
  ones left it. \<open>None\<close> is a veto.
\<close>

fun before_create :: "(row \<Rightarrow> ('t, hook_result) act) list \<Rightarrow> row \<Rightarrow> ('t req, row option) act" where
  "before_create [] actualData = returnA (Some actualData)"
| "before_create (h # hs) actualData =
     bindA (onStore (h actualData)) (\<lambda>r. case r of
         Veto \<Rightarrow> returnA None
       | Replace d \<Rightarrow> before_create hs (object_assign actualData d)
       | Proceed \<Rightarrow> before_create hs actualData)"

text \<open>The loop of the updates: every hook sees the data of the caller.\<close>

fun before_update ::
  "(row \<Rightarrow> ('t, hook_result) act) list \<Rightarrow> row \<Rightarrow> row \<Rightarrow> ('t req, row option) act"
where
  "before_update [] data actualData = returnA (Some actualData)"
| "before_update (h # hs) data actualData =
     bindA (onStore (h data)) (\<lambda>r. case r of
         Veto \<Rightarrow> returnA None
       | Replace d \<Rightarrow> before_update hs data (object_assign actualData d)
       | Proceed \<Rightarrow> before_update hs data actualData)"

text \<open>The loop of the deletions: \<open>False\<close> is a veto.\<close>

fun before_delete :: "(row \<Rightarrow> ('t, hook_result) act) list \<Rightarrow> row \<Rightarrow> ('t req, bool) act" where
  "before_delete [] entity = returnA True"
| "before_delete (h # hs) entity =
     bindA (onStore (h entity)) (\<lambda>r.
       if r = Veto then returnA False else before_delete hs entity)"

fun before_delete_all :: "(row \<Rightarrow> ('t, hook_result) act) list \<Rightarrow> row list \<Rightarrow> ('t req, bool) act" where
  "before_delete_all hs [] = returnA True"
| "before_delete_all hs (entity # es) =
     bindA (before_delete hs entity) (\<lambda>go.
       if go then before_delete_all hs es else returnA False)"

fun queue_all :: "('t, unit) act list \<Rightarrow> ('t req, unit) act" where
  "queue_all [] = returnA ()"
| "queue_all (h # hs) = bindA (queueAfterTransactionHook h None) (\<lambda>_. queue_all hs)"

section \<open>The operations\<close>

text \<open>
  \<open>A\<close> is the adapter of the request (\<open>getCurrentAdapter\<close>). A custom function comes with
  \<open>executeMainFn\<close>. The result \<open>None\<close> of a create or update is \<open>null\<close>.
\<close>

definition createWithHooks ::
  "'t adapter \<Rightarrow> 't db_hooks \<Rightarrow> row \<Rightarrow> string \<Rightarrow>
     ((row \<Rightarrow> ('t req, row option) act) \<times> bool) option \<Rightarrow> ('t req, row option) act"
where
  "createWithHooks A hooks data model customCreateFn =
     bindA (before_create (create_before hooks) data) (\<lambda>go.
       case go of
         None \<Rightarrow> returnA None
       | Some actualData \<Rightarrow>
           bindA (case customCreateFn of
                    Some (_, False) \<Rightarrow> returnA None
                  | _ \<Rightarrow> bindA (onStore (a_create A model actualData)) (\<lambda>r. returnA (Some r)))
             (\<lambda>main.
           bindA (case customCreateFn of
                    None \<Rightarrow> returnA main
                  | Some (fn, _) \<Rightarrow> fn (case main of Some r \<Rightarrow> r | None \<Rightarrow> actualData))
             (\<lambda>created.
           bindA (queue_all (map (\<lambda>h. h created) (create_after hooks)))
             (\<lambda>_. returnA created))))"

definition updateWithHooks ::
  "'t adapter \<Rightarrow> 't db_hooks \<Rightarrow> row \<Rightarrow> CleanedWhere list \<Rightarrow> string \<Rightarrow>
     ((row \<Rightarrow> ('t req, row option) act) \<times> bool) option \<Rightarrow> ('t req, row option) act"
where
  "updateWithHooks A hooks data ws model customUpdateFn =
     bindA (before_update (update_before hooks) data data) (\<lambda>go.
       case go of
         None \<Rightarrow> returnA None
       | Some actualData \<Rightarrow>
           bindA (case customUpdateFn of
                    Some (fn, _) \<Rightarrow> fn actualData
                  | None \<Rightarrow> returnA None)
             (\<lambda>customUpdated.
           bindA (case customUpdateFn of
                    Some (_, False) \<Rightarrow> returnA customUpdated
                  | _ \<Rightarrow> onStore (a_update A model ws actualData))
             (\<lambda>updated.
           bindA (queue_all (map (\<lambda>h. h Undef updated) (update_after hooks)))
             (\<lambda>_. returnA updated))))"

text \<open>\<open>updateManyWithHooks\<close> without a custom function; \<open>Null\<close> is a veto.\<close>

definition updateManyWithHooks ::
  "'t adapter \<Rightarrow> 't db_hooks \<Rightarrow> row \<Rightarrow> CleanedWhere list \<Rightarrow> string \<Rightarrow> ('t req, val) act"
where
  "updateManyWithHooks A hooks data ws model =
     bindA (before_update (update_before hooks) data data) (\<lambda>go.
       case go of
         None \<Rightarrow> returnA Null
       | Some actualData \<Rightarrow>
           bindA (onStore (a_updateMany A model ws actualData)) (\<lambda>n.
           bindA (queue_all (map (\<lambda>h. h (Num (int n)) None) (update_after hooks)))
             (\<lambda>_. returnA (Num (int n)))))"

text \<open>
  A custom delete function, whether the adapter's delete runs too, and whether a failed
  snapshot read is an error.
\<close>

record 't custom_delete =
  cd_fn :: "('t req, unit) act"
  cd_executeMainFn :: bool
  cd_failOnSnapshotReadError :: bool

definition deleteWithHooks ::
  "'t adapter \<Rightarrow> 't db_hooks \<Rightarrow> CleanedWhere list \<Rightarrow> string \<Rightarrow> 't custom_delete option \<Rightarrow>
     ('t req, bool) act"
where
  "deleteWithHooks A hooks ws model custom =
     bindA (catchA (bindA (onStore (a_findMany A model ws None (Some 1) None))
                     (\<lambda>es. returnA (case es of [] \<Rightarrow> None | e # _ \<Rightarrow> Some e)))
             (\<lambda>e. case custom of
                Some c \<Rightarrow> if cd_failOnSnapshotReadError c then throwA e else returnA None
              | None \<Rightarrow> returnA None))
       (\<lambda>entityToDelete.
     bindA (case entityToDelete of
              Some e \<Rightarrow> before_delete (delete_before hooks) e
            | None \<Rightarrow> returnA True)
       (\<lambda>go. if \<not> go then returnA False else
     bindA (case custom of Some c \<Rightarrow> cd_fn c | None \<Rightarrow> returnA ())
       (\<lambda>_.
     bindA (case entityToDelete of
              Some e \<Rightarrow>
                if (case custom of Some c \<Rightarrow> cd_executeMainFn c | None \<Rightarrow> True)
                then onStore (a_delete A model ws) else returnA ()
            | None \<Rightarrow> returnA ())
       (\<lambda>_.
     bindA (case entityToDelete of
              Some e \<Rightarrow> queue_all (map (\<lambda>h. h e) (delete_after hooks))
            | None \<Rightarrow> returnA ())
       (\<lambda>_. returnA True)))))"

text \<open>
  The result of \<open>deleteManyWithHooks\<close>: \<open>Null\<close> is a veto, \<open>Num n\<close> the adapter's count and
  \<open>Undef\<close> what a custom function without a value returns.
\<close>

definition deleteManyWithHooks ::
  "'t adapter \<Rightarrow> 't db_hooks \<Rightarrow> CleanedWhere list \<Rightarrow> string \<Rightarrow> (('t req, unit) act \<times> bool) option \<Rightarrow>
     ('t req, val) act"
where
  "deleteManyWithHooks A hooks ws model custom =
     bindA (catchA (onStore (a_findMany A model ws None None None)) (\<lambda>_. returnA []))
       (\<lambda>entitiesToDelete.
     bindA (before_delete_all (delete_before hooks) entitiesToDelete)
       (\<lambda>go. if \<not> go then returnA Null else
     bindA (case custom of
              Some (fn, _) \<Rightarrow> bindA fn (\<lambda>_. returnA Undef)
            | None \<Rightarrow> returnA Null)
       (\<lambda>customDeleted.
     bindA (case custom of
              Some (_, False) \<Rightarrow> returnA customDeleted
            | _ \<Rightarrow> bindA (onStore (a_deleteMany A model ws)) (\<lambda>n. returnA (Num (int n))))
       (\<lambda>deleted.
     bindA (queue_all (concat (map (\<lambda>e. map (\<lambda>h. h e) (delete_after hooks)) entitiesToDelete)))
       (\<lambda>_. returnA deleted)))))"

definition consumeOneWithHooks ::
  "'t adapter \<Rightarrow> 't db_hooks \<Rightarrow> string \<Rightarrow> CleanedWhere list \<Rightarrow> ('t req, row option) act \<Rightarrow>
     row option \<Rightarrow> ('t req, row option) act"
where
  "consumeOneWithHooks A hooks model hookWhere consumeFn preSnapshot =
     bindA (if delete_before hooks \<noteq> [] \<and> preSnapshot = None
            then catchA (bindA (onStore (a_findMany A model hookWhere None (Some 1) None))
                          (\<lambda>rows. returnA (case rows of [] \<Rightarrow> None | r # _ \<Rightarrow> Some r)))
                   (\<lambda>_. returnA None)
            else returnA preSnapshot)
       (\<lambda>snapshot.
     bindA (case snapshot of
              Some r \<Rightarrow> before_delete (delete_before hooks) r
            | None \<Rightarrow> returnA True)
       (\<lambda>go. if \<not> go then returnA None else
     bindA consumeFn (\<lambda>consumed.
       case consumed of
         None \<Rightarrow> returnA None
       | Some r \<Rightarrow>
           bindA (queue_all (map (\<lambda>h. h r) (delete_after hooks))) (\<lambda>_. returnA (Some r)))))"

section \<open>Running without hooks\<close>

lemma no_hooks_sel [simp]:
  "create_before no_hooks = []" "create_after no_hooks = []" "update_before no_hooks = []"
  "update_after no_hooks = []" "delete_before no_hooks = []" "delete_after no_hooks = []"
  by (simp_all add: no_hooks_def)

lemma before_delete_all_Nil [simp]: "before_delete_all [] es = returnA True"
  by (induction es) (auto simp: fun_eq_iff)

lemma concat_map_Nil [simp]: "concat (map (\<lambda>_. []) xs) = []"
  by (induction xs) auto

text \<open>Without hooks each operation is the adapter's.\<close>

lemma create_no_hooks:
  "createWithHooks A no_hooks data model None =
     bindA (onStore (a_create A model data)) (\<lambda>r. returnA (Some r))"
  "createWithHooks A no_hooks data model (Some (fn, False)) = fn data"
  "createWithHooks A no_hooks data model (Some (fn, True)) =
     bindA (onStore (a_create A model data)) fn"
  by (simp_all add: createWithHooks_def bindA_assoc)

lemma update_no_hooks:
  "updateWithHooks A no_hooks data ws model None = onStore (a_update A model ws data)"
  "updateWithHooks A no_hooks data ws model (Some (fn, False)) = fn data"
  "updateWithHooks A no_hooks data ws model (Some (fn, True)) =
     bindA (fn data) (\<lambda>_. onStore (a_update A model ws data))"
  by (simp_all add: updateWithHooks_def)

lemma updateMany_no_hooks:
  "updateManyWithHooks A no_hooks data ws model =
     bindA (onStore (a_updateMany A model ws data)) (\<lambda>n. returnA (Num (int n)))"
  by (auto simp: updateManyWithHooks_def bindA_assoc bindA_def fun_eq_iff split: prod.split sum.split)

lemma consume_no_hooks:
  "consumeOneWithHooks A no_hooks model ws fn snap = fn"
  by (auto simp: consumeOneWithHooks_def fun_eq_iff bindA_def split: option.splits prod.splits sum.splits)

lemma delete_no_hooks:
  assumes "a_findMany A model ws None (Some 1) None (rq_store s) = (Inr es, rq_store s)"
  shows "deleteWithHooks A no_hooks ws model None s =
    (if es = [] then (Inr True, s)
     else bindA (onStore (a_delete A model ws)) (\<lambda>_. returnA True) s)"
  using assms
  by (cases es) (auto simp: deleteWithHooks_def bindA_def catchA_def onStore_app
      split: prod.splits sum.splits)

lemma deleteMany_no_hooks:
  assumes "a_findMany A model ws None None None (rq_store s) = (Inr es, rq_store s)"
  shows "deleteManyWithHooks A no_hooks ws model None s =
      bindA (onStore (a_deleteMany A model ws)) (\<lambda>n. returnA (Num (int n))) s"
    and "deleteManyWithHooks A no_hooks ws model (Some (fn, False)) s =
      bindA fn (\<lambda>_. returnA Undef) s"
  using assms
  by (auto simp: deleteManyWithHooks_def bindA_def catchA_def onStore_app
      split: prod.splits sum.splits)

section \<open>What the before hooks decide\<close>

text \<open>Hooks that only look at the data, and the outcome of their loop.\<close>

definition looking :: "(row \<Rightarrow> hook_result) list \<Rightarrow> (row \<Rightarrow> ('t, hook_result) act) list" where
  "looking fs = map (\<lambda>f data. returnA (f data)) fs"

fun create_outcome :: "(row \<Rightarrow> hook_result) list \<Rightarrow> row \<Rightarrow> row option" where
  "create_outcome [] data = Some data"
| "create_outcome (f # fs) data =
     (case f data of
        Veto \<Rightarrow> None
      | Replace d \<Rightarrow> create_outcome fs (object_assign data d)
      | Proceed \<Rightarrow> create_outcome fs data)"

fun update_outcome :: "(row \<Rightarrow> hook_result) list \<Rightarrow> row \<Rightarrow> row \<Rightarrow> row option" where
  "update_outcome [] data acc = Some acc"
| "update_outcome (f # fs) data acc =
     (case f data of
        Veto \<Rightarrow> None
      | Replace d \<Rightarrow> update_outcome fs data (object_assign acc d)
      | Proceed \<Rightarrow> update_outcome fs data acc)"

lemma looking_simps [simp]:
  "looking [] = []" "looking (f # fs) = (\<lambda>data. returnA (f data)) # looking fs"
  "looking fs = [] \<longleftrightarrow> fs = []"
  by (simp_all add: looking_def)

lemma before_create_looking: "before_create (looking fs) data s = (Inr (create_outcome fs data), s)"
  by (induction fs arbitrary: data) (auto simp: bindA_def onStore_app split: hook_result.split)

lemma before_update_looking:
  "before_update (looking fs) data acc s = (Inr (update_outcome fs data acc), s)"
  by (induction fs arbitrary: acc) (auto simp: bindA_def onStore_app split: hook_result.split)

lemma before_delete_looking:
  "before_delete (looking fs) e s = (Inr (\<not> list_ex (\<lambda>f. f e = Veto) fs), s)"
  by (induction fs) (auto simp: bindA_def onStore_app)

lemma before_delete_all_looking:
  "before_delete_all (looking fs) es s = (Inr (\<not> list_ex (\<lambda>e. list_ex (\<lambda>f. f e = Veto) fs) es), s)"
  by (induction es) (auto simp: bindA_def before_delete_looking)

section \<open>Properties\<close>

text \<open>
  A veto of a before hook stops the operation before it writes: when the hooks only
  look at the data and one of them answers \<open>false\<close>, a create, update, delete, delete-many
  or consume returns its null result and leaves the store and the queue of after hooks as
  they were, and a custom function is not run; a delete-many is vetoed by any one of its
  rows. Without a veto a create writes the data as the hooks replaced it in turn.
\<close>

theorem veto_changes_nothing:
  assumes create: "create_before hooks = looking fc"
    and update: "update_before hooks = looking fu"
    and delete: "delete_before hooks = looking fd"
    and found: "\<And>lim. a_findMany A model ws None lim None (rq_store s) = (Inr (found lim), rq_store s)"
    and first: "found (Some 1) = e # rest"
  shows "(create_outcome fc data = None \<longrightarrow> createWithHooks A hooks data model custom s = (Inr None, s)) \<and>
    (\<forall>d. create_outcome fc data = Some d \<and> create_after hooks = [] \<longrightarrow>
       createWithHooks A hooks data model None s =
         bindA (onStore (a_create A model d)) (\<lambda>r. returnA (Some r)) s) \<and>
    (update_outcome fu data data = None \<longrightarrow>
       updateWithHooks A hooks data ws model custom s = (Inr None, s) \<and>
       updateManyWithHooks A hooks data ws model s = (Inr Null, s)) \<and>
    (list_ex (\<lambda>f. f e = Veto) fd \<longrightarrow>
       deleteWithHooks A hooks ws model customDel s = (Inr False, s) \<and>
       consumeOneWithHooks A hooks model ws fn (Some e) s = (Inr None, s) \<and>
       consumeOneWithHooks A hooks model ws fn None s = (Inr None, s)) \<and>
    (list_ex (\<lambda>r. list_ex (\<lambda>f. f r = Veto) fd) (found None) \<longrightarrow>
       deleteManyWithHooks A hooks ws model customMany s = (Inr Null, s))"
proof (intro conjI impI allI)
  assume "create_outcome fc data = None"
  then show "createWithHooks A hooks data model custom s = (Inr None, s)"
    by (simp add: createWithHooks_def create bindA_def before_create_looking)
next
  fix d assume d: "create_outcome fc data = Some d \<and> create_after hooks = []"
  then show "createWithHooks A hooks data model None s =
         bindA (onStore (a_create A model d)) (\<lambda>r. returnA (Some r)) s"
    by (auto simp: createWithHooks_def create bindA_def before_create_looking split: prod.splits sum.splits)
next
  assume "update_outcome fu data data = None"
  then show "updateWithHooks A hooks data ws model custom s = (Inr None, s)"
    and "updateManyWithHooks A hooks data ws model s = (Inr Null, s)"
    by (simp_all add: updateWithHooks_def updateManyWithHooks_def update bindA_def before_update_looking)
next
  assume veto: "list_ex (\<lambda>f. f e = Veto) fd"
  then show "deleteWithHooks A hooks ws model customDel s = (Inr False, s)"
    using first by (simp add: deleteWithHooks_def delete bindA_def catchA_def onStore_app found
        before_delete_looking)
  from veto show "consumeOneWithHooks A hooks model ws fn (Some e) s = (Inr None, s)"
    by (simp add: consumeOneWithHooks_def delete bindA_def before_delete_looking)
  from veto have "fd \<noteq> []" by auto
  with veto first show "consumeOneWithHooks A hooks model ws fn None s = (Inr None, s)"
    by (simp add: consumeOneWithHooks_def delete bindA_def catchA_def onStore_app found
        before_delete_looking)
next
  assume "list_ex (\<lambda>r. list_ex (\<lambda>f. f r = Veto) fd) (found None)"
  then show "deleteManyWithHooks A hooks ws model customMany s = (Inr Null, s)"
    by (simp add: deleteManyWithHooks_def delete bindA_def catchA_def onStore_app found
        before_delete_all_looking)
qed

definition demo_row :: row where
  "demo_row = [(''id'', Str ''u1''), (''email'', Str ''a@b'')]"

definition refuse_email :: "string \<Rightarrow> row \<Rightarrow> hook_result" where
  "refuse_email e r = (if get_field r ''email'' = Str e then Veto else Proceed)"

definition demo_db_hooks :: "row list db_hooks" where
  "demo_db_hooks = \<lparr>create_before = looking [refuse_email ''a@b''], create_after = [],
     update_before = looking [], update_after = [],
     delete_before = looking [refuse_email ''a@b''], delete_after = []\<rparr>"

text \<open>A table that is the store itself, for the witness.\<close>

definition list_adapter :: "row list adapter" where
  "list_adapter = \<lparr>a_create = (\<lambda>m r s. (Inr r, s @ [r])), a_findOne = (\<lambda>m ws s. (Inr None, s)),
     a_findMany = (\<lambda>m ws sb lim off s. (Inr s, s)), a_count = (\<lambda>m ws s. (Inr (length s), s)),
     a_update = (\<lambda>m ws u s. (Inr None, s)), a_updateMany = (\<lambda>m ws u s. (Inr 0, s)),
     a_delete = (\<lambda>m ws s. (Inr (), [])), a_deleteMany = (\<lambda>m ws s. (Inr (length s), [])),
     a_consumeOne = (\<lambda>m ws s. (Inr None, s)), a_incrementOne = (\<lambda>m ws i u s. (Inr None, s))\<rparr>"

theorem veto_changes_nothing_witness:
  "let s = \<lparr>rq_store = [demo_row], rq_als = True, rq_tx = True, rq_pending = []\<rparr> in
     createWithHooks list_adapter demo_db_hooks demo_row ''user'' None s = (Inr None, s) \<and>
     deleteWithHooks list_adapter demo_db_hooks [] ''user'' None s = (Inr False, s) \<and>
     deleteManyWithHooks list_adapter demo_db_hooks [] ''user'' None s = (Inr Null, s)"
proof -
  let ?s = "\<lparr>rq_store = [demo_row], rq_als = True, rq_tx = True, rq_pending = []\<rparr>"
  have "refuse_email ''a@b'' demo_row = Veto" by (simp add: refuse_email_def demo_row_def)
  with veto_changes_nothing[of demo_db_hooks "[refuse_email ''a@b'']" "[]" "[refuse_email ''a@b'']"
      list_adapter "''user''" "[]" ?s "\<lambda>_. [demo_row]" demo_row "[]" demo_row None None
      "returnA None" None]
  show ?thesis by (simp add: demo_db_hooks_def list_adapter_def Let_def)
qed

end
