(* ===== verification/InternalContext.thy ===== *)
theory InternalContext
  imports WithHooks SecondaryStorage Schema
begin

text \<open>
  What the closure of \<open>createInternalAdapter\<close>
  (\<open>packages/cinaauth/src/db/internal-adapter.ts\<close>) holds: the database adapter, the
  optional secondary storage, the hooks and the options its operations read. The state is
  the database and the secondary storage side by side. The three reads with a join (a
  session or an account with its user, a user with its accounts) are the adapter's
  \<open>findOne\<close> and \<open>findMany\<close> with the \<open>join\<close> that the adapter factory resolves.
\<close>

record ('s, 'q) stores =
  st_db :: 's
  st_sec :: 'q

definition on_db :: "('s, 'a) act \<Rightarrow> (('s, 'q) stores, 'a) act" where
  "on_db m s = (case m (st_db s) of (r, d) \<Rightarrow> (r, s\<lparr>st_db := d\<rparr>))"

definition on_sec :: "('q, 'a) act \<Rightarrow> (('s, 'q) stores, 'a) act" where
  "on_sec m s = (case m (st_sec s) of (r, q) \<Rightarrow> (r, s\<lparr>st_sec := q\<rparr>))"

text \<open>The adapter's operations on the database part of the state.\<close>

definition lift_adapter :: "'s adapter \<Rightarrow> ('s, 'q) stores adapter" where
  "lift_adapter A =
     \<lparr>a_create = (\<lambda>m r. on_db (a_create A m r)),
      a_findOne = (\<lambda>m ws. on_db (a_findOne A m ws)),
      a_findMany = (\<lambda>m ws sb lim off. on_db (a_findMany A m ws sb lim off)),
      a_count = (\<lambda>m ws. on_db (a_count A m ws)),
      a_update = (\<lambda>m ws u. on_db (a_update A m ws u)),
      a_updateMany = (\<lambda>m ws u. on_db (a_updateMany A m ws u)),
      a_delete = (\<lambda>m ws. on_db (a_delete A m ws)),
      a_deleteMany = (\<lambda>m ws. on_db (a_deleteMany A m ws)),
      a_consumeOne = (\<lambda>m ws. on_db (a_consumeOne A m ws)),
      a_incrementOne = (\<lambda>m ws i u. on_db (a_incrementOne A m ws i u))\<rparr>"

section \<open>Options\<close>

text \<open>\<open>StoreIdentifierOption\<close>; \<open>O_object\<close> is an object without \<open>hash\<close>.\<close>

datatype identifier_option =
    O_plain | O_hashed | O_custom "string \<Rightarrow> string" | O_object

datatype identifier_config =
    Same identifier_option
  | PerPrefix identifier_option "(string \<times> identifier_option) list"

record ('s, 'q) ictx =
  ic_adapter :: "'s adapter"
  ic_storage :: "('q, cached) sec_storage option"
  ic_hooks :: "string \<Rightarrow> ('s, 'q) stores db_hooks"
  ic_tx :: "('s, 'q) stores tx_ops"
  ic_host :: host
  ic_keyHasher :: "string \<Rightarrow> string"          \<comment> \<open>SHA-256, base64url without padding\<close>
  ic_parseDate :: "string \<Rightarrow> int option"      \<comment> \<open>\<open>new Date(text)\<close>\<close>
  ic_storeIdentifier :: "identifier_config option"
  ic_verificationInDatabase :: bool          \<comment> \<open>\<open>verification.storeInDatabase\<close>\<close>
  ic_disableCleanup :: bool
  ic_sessionInDatabase :: bool               \<comment> \<open>\<open>session.storeSessionInDatabase\<close>\<close>
  ic_preserveSession :: bool                 \<comment> \<open>\<open>session.preserveSessionInDatabase\<close>\<close>
  ic_expiresIn :: int                        \<comment> \<open>\<open>session.expiresIn\<close>, 0 when it is not set\<close>
  ic_schema :: schema_options
  ic_findOneWithUser :: "string \<Rightarrow> CleanedWhere list \<Rightarrow> ('s, (row \<times> row option) option) act"
  ic_findManyWithUser :: "string \<Rightarrow> CleanedWhere list \<Rightarrow> int option \<Rightarrow> ('s, (row \<times> row option) list) act"
  ic_findUserWithAccounts :: "CleanedWhere list \<Rightarrow> ('s, (row \<times> row list) option) act"

type_synonym ('s, 'q, 'a) iact = "(('s, 'q) stores req, 'a) act"

definition ic_db :: "('s, 'q) ictx \<Rightarrow> ('s, 'q) stores adapter" where
  "ic_db ctx = lift_adapter (ic_adapter ctx)"

text \<open>One operation of the secondary storage, as an action of the request.\<close>

definition sec :: "('q, 'a) act \<Rightarrow> ('s, 'q, 'a) iact" where
  "sec m = onStore (on_sec m)"

definition db :: "('s, 'a) act \<Rightarrow> ('s, 'q, 'a) iact" where
  "db m = onStore (on_db m)"

text \<open>\<open>expiresAt.getTime()\<close>, or the number itself.\<close>

fun date_ms :: "val \<Rightarrow> int res" where
  "date_ms (DateV _ t) = Inr t"
| "date_ms (Num n) = Inr n"
| "date_ms _ = Inl TypeError"

text \<open>
  \<open>new Date(v)\<close> with identity \<open>ref\<close>. An Invalid Date is held as \<open>Undef\<close>: like it, \<open>Undef\<close>
  makes every comparison false.
\<close>

definition new_date :: "('s, 'q) ictx \<Rightarrow> nat \<Rightarrow> val \<Rightarrow> val" where
  "new_date ctx ref v =
     (case (case v of Str text \<Rightarrow> ic_parseDate ctx text | _ \<Rightarrow> time_of v) of
        Some t \<Rightarrow> DateV ref t
      | None \<Rightarrow> Undef)"

text \<open>The work of a storage function on both stores, outside a request's context.\<close>

type_synonym ('s, 'q, 'a) sact = "(('s, 'q) stores, 'a) act"

section \<open>Lemmas\<close>

lemma on_db_app: "on_db m s = (fst (m (st_db s)), s\<lparr>st_db := snd (m (st_db s))\<rparr>)"
  by (simp add: on_db_def split: prod.split)

lemma on_sec_app: "on_sec m s = (fst (m (st_sec s)), s\<lparr>st_sec := snd (m (st_sec s))\<rparr>)"
  by (simp add: on_sec_def split: prod.split)

abbreviation rq_db :: "('s, 'q) stores req \<Rightarrow> 's" where "rq_db s \<equiv> st_db (rq_store s)"
abbreviation rq_sec :: "('s, 'q) stores req \<Rightarrow> 'q" where "rq_sec s \<equiv> st_sec (rq_store s)"

definition with_db :: "'s \<Rightarrow> ('s, 'q) stores req \<Rightarrow> ('s, 'q) stores req" where
  "with_db d s = s\<lparr>rq_store := (rq_store s)\<lparr>st_db := d\<rparr>\<rparr>"

definition with_sec :: "'q \<Rightarrow> ('s, 'q) stores req \<Rightarrow> ('s, 'q) stores req" where
  "with_sec q s = s\<lparr>rq_store := (rq_store s)\<lparr>st_sec := q\<rparr>\<rparr>"

lemma with_sel [simp]:
  "rq_db (with_db d s) = d" "rq_sec (with_db d s) = rq_sec s"
  "rq_db (with_sec q s) = rq_db s" "rq_sec (with_sec q s) = q"
  "rq_tx (with_db d s) = rq_tx s" "rq_tx (with_sec q s) = rq_tx s"
  "rq_als (with_db d s) = rq_als s" "rq_als (with_sec q s) = rq_als s"
  "rq_pending (with_db d s) = rq_pending s" "rq_pending (with_sec q s) = rq_pending s"
  "with_db (rq_db s) s = s" "with_sec (rq_sec s) s = s"
  by (simp_all add: with_db_def with_sec_def)

lemma db_run: "m (rq_db s) = (r, d) \<Longrightarrow> db m s = (r, with_db d s)"
  by (simp add: db_def onStore_app on_db_app with_db_def)

lemma sec_run: "m (rq_sec s) = (r, q) \<Longrightarrow> sec m s = (r, with_sec q s)"
  by (simp add: sec_def onStore_app on_sec_app with_sec_def)

lemma onStore_on_db: "onStore (on_db m) = db m"
  by (simp add: db_def)

lemma ic_db_sel [simp]:
  "a_create (ic_db ctx) m r = on_db (a_create (ic_adapter ctx) m r)"
  "a_findOne (ic_db ctx) m ws = on_db (a_findOne (ic_adapter ctx) m ws)"
  "a_findMany (ic_db ctx) m ws sb lim off = on_db (a_findMany (ic_adapter ctx) m ws sb lim off)"
  "a_update (ic_db ctx) m ws u = on_db (a_update (ic_adapter ctx) m ws u)"
  "a_updateMany (ic_db ctx) m ws u = on_db (a_updateMany (ic_adapter ctx) m ws u)"
  "a_delete (ic_db ctx) m ws = on_db (a_delete (ic_adapter ctx) m ws)"
  "a_deleteMany (ic_db ctx) m ws = on_db (a_deleteMany (ic_adapter ctx) m ws)"
  "a_consumeOne (ic_db ctx) m ws = on_db (a_consumeOne (ic_adapter ctx) m ws)"
  by (simp_all add: ic_db_def lift_adapter_def)

end
