(* ===== verification/VerificationStore.thy ===== *)
theory VerificationStore
  imports InternalContext
begin

text \<open>
  Verification values (one-time codes, magic links, OAuth states, replay markers):
  \<open>packages/cinaauth/src/db/verification-token-storage.ts\<close> and the verification
  operations of \<open>packages/cinaauth/src/db/internal-adapter.ts\<close>, over the database, the
  secondary storage, or both.

  The consume lock makes calls of one process on one identifier take turns; an operation
  here is one turn, and \<open>consume_latest\<close> is the part after the snapshot read, so that
  races between processes can be stated. \<open>clk\<close> gives the successive \<open>new Date()\<close> and
  \<open>Date.now()\<close> of an operation; objects parsed from a text get the identity of its first.
\<close>

section \<open>Where an identifier is stored\<close>

fun processIdentifier :: "(string \<Rightarrow> string) \<Rightarrow> string \<Rightarrow> identifier_option option \<Rightarrow> string" where
  "processIdentifier hasher identifier None = identifier"
| "processIdentifier hasher identifier (Some O_plain) = identifier"
| "processIdentifier hasher identifier (Some O_hashed) = hasher identifier"
| "processIdentifier hasher identifier (Some (O_custom hash)) = hash identifier"
| "processIdentifier hasher identifier (Some O_object) = identifier"

fun find_override :: "string \<Rightarrow> (string \<times> identifier_option) list \<Rightarrow> identifier_option option" where
  "find_override identifier [] = None"
| "find_override identifier ((prefix, opt) # rest) =
     (if startsWith identifier prefix then Some opt else find_override identifier rest)"

fun getStorageOption :: "string \<Rightarrow> identifier_config option \<Rightarrow> identifier_option option" where
  "getStorageOption identifier None = None"
| "getStorageOption identifier (Some (Same opt)) = Some opt"
| "getStorageOption identifier (Some (PerPrefix deflt overrides)) =
     (case find_override identifier overrides of Some opt \<Rightarrow> Some opt | None \<Rightarrow> Some deflt)"

definition storage_option :: "('s, 'q) ictx \<Rightarrow> string \<Rightarrow> identifier_option option" where
  "storage_option ctx identifier = getStorageOption identifier (ic_storeIdentifier ctx)"

definition stored_identifier :: "('s, 'q) ictx \<Rightarrow> string \<Rightarrow> string" where
  "stored_identifier ctx identifier =
     processIdentifier (ic_keyHasher ctx) identifier (storage_option ctx identifier)"

text \<open>\<open>storageOption && storageOption !== "plain"\<close>\<close>

definition not_plain :: "('s, 'q) ictx \<Rightarrow> string \<Rightarrow> bool" where
  "not_plain ctx identifier =
     (case storage_option ctx identifier of None \<Rightarrow> False | Some O_plain \<Rightarrow> False | Some _ \<Rightarrow> True)"

definition cache_key :: "string \<Rightarrow> string" where
  "cache_key stored = ''verification:'' @ stored"

abbreviation verification :: string where "verification \<equiv> ''verification''"

definition uses_database :: "('s, 'q) ictx \<Rightarrow> bool" where
  "uses_database ctx \<longleftrightarrow> ic_storage ctx = None \<or> ic_verificationInDatabase ctx"

definition v_hooks :: "('s, 'q) ictx \<Rightarrow> ('s, 'q) stores db_hooks" where
  "v_hooks ctx = ic_hooks ctx verification"

section \<open>Create\<close>

definition mirror_verification ::
  "('s, 'q) ictx \<Rightarrow> ('q, cached) sec_storage \<Rightarrow> int \<Rightarrow> string \<Rightarrow> row \<Rightarrow> ('s, 'q, row option) iact"
where
  "mirror_verification ctx S now stored verificationData =
     bindA (liftR (date_ms (get_field verificationData ''expiresAt''))) (\<lambda>e.
       let ttl = getTTLSeconds e now in
       bindA (if ttl > 0
              then sec (ss_set S (cache_key stored) (CVerification (stringify verificationData)) (Some ttl))
              else returnA ())
         (\<lambda>_. returnA (Some verificationData)))"

definition verification_row :: "clock \<Rightarrow> string \<Rightarrow> row \<Rightarrow> row" where
  "verification_row clk stored data =
     set_field (object_assign [(''createdAt'', date_at clk 0), (''updatedAt'', date_at clk 1)] data)
       ''identifier'' (Str stored)"

text \<open>\<open>data.identifier\<close>, a string by its type.\<close>

definition identifier_of :: "row \<Rightarrow> string" where
  "identifier_of data = (case get_field data ''identifier'' of Str i \<Rightarrow> i | _ \<Rightarrow> [])"

definition createVerificationValue ::
  "('s, 'q) ictx \<Rightarrow> clock \<Rightarrow> row \<Rightarrow> ('s, 'q, row option) iact"
where
  "createVerificationValue ctx clk data =
     (let stored = stored_identifier ctx (identifier_of data) in
      createWithHooks (ic_db ctx) (v_hooks ctx) (verification_row clk stored data) verification
        (map_option (\<lambda>S. (mirror_verification ctx S (now_ms clk 2) stored, ic_verificationInDatabase ctx))
           (ic_storage ctx)))"

section \<open>Find\<close>

text \<open>The library writes only verifications under a cache key.\<close>

fun as_verification :: "cached option \<Rightarrow> row option" where
  "as_verification (Some (CVerification r)) = Some r"
| "as_verification _ = None"

definition cached_verification ::
  "('s, 'q) ictx \<Rightarrow> ('q, cached) sec_storage \<Rightarrow> nat \<Rightarrow> string \<Rightarrow> ('s, 'q, row option) iact"
where
  "cached_verification ctx S ref key =
     bindA (sec (ss_get S key)) (\<lambda>c.
       returnA (as_verification (Option.bind c (safeJSONParse (ic_parseDate ctx) ref))))"

definition find_latest :: "('s, 'q) ictx \<Rightarrow> string \<Rightarrow> ('s, 'q, row list) iact" where
  "find_latest ctx i =
     db (a_findMany (ic_adapter ctx) verification [wh_eq ''identifier'' (Str i)]
       (Some (''createdAt'', Desc)) (Some 1) None)"

definition delete_expired_verifications :: "('s, 'q) ictx \<Rightarrow> val \<Rightarrow> ('s, 'q, val) iact" where
  "delete_expired_verifications ctx now =
     deleteManyWithHooks (ic_db ctx) (v_hooks ctx) [wh ''expiresAt'' Op_lt now] verification None"

definition find_in_database :: "('s, 'q) ictx \<Rightarrow> clock \<Rightarrow> string \<Rightarrow> ('s, 'q, row option) iact" where
  "find_in_database ctx clk identifier =
     bindA (find_latest ctx (stored_identifier ctx identifier)) (\<lambda>found.
     bindA (if found = [] \<and> not_plain ctx identifier then find_latest ctx identifier
            else returnA found) (\<lambda>rows.
     bindA (if \<not> ic_disableCleanup ctx
            then bindA (delete_expired_verifications ctx (date_at clk 1)) (\<lambda>_. returnA ())
            else returnA ()) (\<lambda>_.
       returnA (case rows of [] \<Rightarrow> None | r # _ \<Rightarrow> Some r))))"

definition findVerificationValue :: "('s, 'q) ictx \<Rightarrow> clock \<Rightarrow> string \<Rightarrow> ('s, 'q, row option) iact" where
  "findVerificationValue ctx clk identifier =
     (case ic_storage ctx of
        None \<Rightarrow> find_in_database ctx clk identifier
      | Some S \<Rightarrow>
          bindA (cached_verification ctx S (fst (clk 0)) (cache_key (stored_identifier ctx identifier)))
            (\<lambda>first. case first of
               Some r \<Rightarrow> returnA (Some r)
             | None \<Rightarrow>
                 bindA (if not_plain ctx identifier
                        then cached_verification ctx S (fst (clk 0)) (cache_key identifier)
                        else returnA None)
                   (\<lambda>plain. case plain of
                      Some r \<Rightarrow> returnA (Some r)
                    | None \<Rightarrow>
                        if \<not> ic_verificationInDatabase ctx then returnA None
                        else find_in_database ctx clk identifier)))"

section \<open>Delete\<close>

definition deleteVerificationByIdentifier :: "('s, 'q) ictx \<Rightarrow> string \<Rightarrow> ('s, 'q, unit) iact" where
  "deleteVerificationByIdentifier ctx identifier =
     (let stored = stored_identifier ctx identifier in
      bindA (case ic_storage ctx of
               Some S \<Rightarrow> sec (ss_delete S (cache_key stored))
             | None \<Rightarrow> returnA ()) (\<lambda>_.
      if uses_database ctx
      then bindA (deleteWithHooks (ic_db ctx) (v_hooks ctx) [wh_eq ''identifier'' (Str stored)]
                    verification None) (\<lambda>_. returnA ())
      else returnA ()))"

section \<open>Consume\<close>

definition identifiersToTry :: "('s, 'q) ictx \<Rightarrow> string \<Rightarrow> string list" where
  "identifiersToTry ctx identifier =
     (let stored = stored_identifier ctx identifier in
      if not_plain ctx identifier then [stored, identifier] else [stored])"

text \<open>
  \<open>hydrateCachedVerification\<close>: the parsed text with \<open>expiresAt\<close> as a date, or nothing when
  it does not parse or has no valid date.
\<close>

definition hydrateCachedVerification ::
  "('s, 'q) ictx \<Rightarrow> nat \<Rightarrow> cached option \<Rightarrow> row option"
where
  "hydrateCachedVerification ctx ref raw =
     (case as_verification (Option.bind raw (safeJSONParse (ic_parseDate ctx) ref)) of
        None \<Rightarrow> None
      | Some candidate \<Rightarrow>
          (case time_of (get_field candidate ''expiresAt'') of
             None \<Rightarrow> None
           | Some t \<Rightarrow> Some (set_field candidate ''expiresAt'' (DateV ref t))))"

definition delete_all_keys :: "('q, cached) sec_storage \<Rightarrow> string list \<Rightarrow> ('s, 'q, unit) iact" where
  "delete_all_keys S ks = promise_all (\<lambda>k. sec (ss_delete S k)) ks"

text \<open>The loop over \<open>identifiersToTry\<close> in the secondary storage.\<close>

fun consume_cached ::
  "('s, 'q) ictx \<Rightarrow> ('q, cached) sec_storage \<Rightarrow> nat \<Rightarrow> string list \<Rightarrow> string list \<Rightarrow>
     ('s, 'q, row option) iact"
where
  "consume_cached ctx S ref tries [] = returnA None"
| "consume_cached ctx S ref tries (stored # rest) =
     bindA (sec (ss_getAndDelete S (cache_key stored))) (\<lambda>raw.
       case hydrateCachedVerification ctx ref raw of
         None \<Rightarrow> consume_cached ctx S ref tries rest
       | Some c \<Rightarrow>
           bindA (delete_all_keys S (map cache_key (filter (\<lambda>i. i \<noteq> stored) tries)))
             (\<lambda>_. returnA (Some c)))"

text \<open>After the snapshot: consume the latest row, then delete the rest of the identifier.\<close>

definition consume_latest :: "('s, 'q) ictx \<Rightarrow> string \<Rightarrow> row \<Rightarrow> ('s, 'q, row option) iact" where
  "consume_latest ctx i latest =
     (let by_id = [wh_eq ''id'' (get_field latest ''id'')] in
      consumeOneWithHooks (ic_db ctx) (v_hooks ctx) verification by_id
        (bindA (db (a_consumeOne (ic_adapter ctx) verification by_id)) (\<lambda>row.
           case row of
             None \<Rightarrow> returnA None
           | Some r \<Rightarrow>
               bindA (db (a_deleteMany (ic_adapter ctx) verification [wh_eq ''identifier'' (Str i)]))
                 (\<lambda>_. returnA (Some r))))
        (Some latest))"

definition consumeByIdentifier :: "('s, 'q) ictx \<Rightarrow> string \<Rightarrow> ('s, 'q, row option) iact" where
  "consumeByIdentifier ctx i =
     runWithTransaction (ic_tx ctx) None
       (bindA (find_latest ctx i) (\<lambda>rows.
          case rows of [] \<Rightarrow> returnA None | latest # _ \<Rightarrow> consume_latest ctx i latest))"

fun consume_first :: "('s, 'q) ictx \<Rightarrow> string list \<Rightarrow> ('s, 'q, row option) iact" where
  "consume_first ctx [] = returnA None"
| "consume_first ctx (i # is) =
     bindA (consumeByIdentifier ctx i) (\<lambda>c.
       case c of Some r \<Rightarrow> returnA (Some r) | None \<Rightarrow> consume_first ctx is)"

text \<open>\<open>if (!consumed || consumed.expiresAt < new Date()) return null\<close>\<close>

definition expiry_gate :: "('s, 'q) ictx \<Rightarrow> val \<Rightarrow> row option \<Rightarrow> row option" where
  "expiry_gate ctx now consumed =
     (case consumed of
        None \<Rightarrow> None
      | Some r \<Rightarrow> if js_less (ic_host ctx) (get_field r ''expiresAt'') now then None else Some r)"

definition consumeVerificationValue ::
  "('s, 'q) ictx \<Rightarrow> clock \<Rightarrow> string \<Rightarrow> ('s, 'q, row option) iact"
where
  "consumeVerificationValue ctx clk identifier =
     (let tries = identifiersToTry ctx identifier in
      bindA (case ic_storage ctx of
               None \<Rightarrow> consume_first ctx tries
             | Some S \<Rightarrow>
                 if \<not> ic_verificationInDatabase ctx
                 then consume_cached ctx S (fst (clk 0)) tries tries
                 else bindA (consume_first ctx tries) (\<lambda>consumed.
                        bindA (if consumed \<noteq> None then delete_all_keys S (map cache_key tries)
                               else returnA ())
                          (\<lambda>_. returnA consumed)))
        (\<lambda>consumed. returnA (expiry_gate ctx (date_at clk 1) consumed)))"

section \<open>Reserve\<close>

definition reservation_id :: "('s, 'q) ictx \<Rightarrow> string \<Rightarrow> string" where
  "reservation_id ctx identifier = ic_keyHasher ctx (''reserve:'' @ identifier)"

definition not_database_backed :: err where
  "not_database_backed = Throw (''reserveVerificationValue requires database-backed verification storage. '' @
     ''Set verification.storeInDatabase to true for flows that reserve verification values.'')"

definition reserve_row :: "('s, 'q) ictx \<Rightarrow> clock \<Rightarrow> string \<Rightarrow> string \<Rightarrow> val \<Rightarrow> row" where
  "reserve_row ctx clk identifier v expiresAt =
     [(''id'', Str (reservation_id ctx identifier)),
      (''identifier'', Str (stored_identifier ctx identifier)), (''value'', Str v),
      (''expiresAt'', expiresAt), (''createdAt'', date_at clk 0), (''updatedAt'', date_at clk 1)]"

definition mirror_reservation ::
  "('s, 'q) ictx \<Rightarrow> int \<Rightarrow> string \<Rightarrow> string \<Rightarrow> val \<Rightarrow> ('s, 'q, unit) iact"
where
  "mirror_reservation ctx now identifier v expiresAt =
     (case ic_storage ctx of
        None \<Rightarrow> returnA ()
      | Some S \<Rightarrow>
          bindA (liftR (date_ms expiresAt)) (\<lambda>e.
            let ttl = getTTLSeconds e now; stored = stored_identifier ctx identifier in
            if ttl > 0
            then sec (ss_set S (cache_key stored) (CVerification (stringify
                   [(''id'', Str (reservation_id ctx identifier)), (''identifier'', Str stored),
                    (''value'', Str v), (''expiresAt'', expiresAt)])) (Some ttl))
            else returnA ()))"

definition reserveVerificationValue ::
  "('s, 'q) ictx \<Rightarrow> clock \<Rightarrow> string \<Rightarrow> string \<Rightarrow> val \<Rightarrow> ('s, 'q, bool) iact"
where
  "reserveVerificationValue ctx clk identifier v expiresAt =
     (if \<not> uses_database ctx then throwA not_database_backed
      else
        bindA (catchA (bindA (db (a_create (ic_adapter ctx) verification
                               (reserve_row ctx clk identifier v expiresAt))) (\<lambda>_. returnA True))
                 (\<lambda>e. bindA (db (a_findOne (ic_adapter ctx) verification
                               [wh_eq ''id'' (Str (reservation_id ctx identifier))]))
                        (\<lambda>existing. if existing \<noteq> None then returnA False else throwA e)))
          (\<lambda>won. if won
             then bindA (mirror_reservation ctx (now_ms clk 2) identifier v expiresAt) (\<lambda>_. returnA True)
             else returnA False))"

section \<open>Update\<close>

text \<open>The cached part: the merged value when there is one, and its rewrite.\<close>

definition update_cached ::
  "('s, 'q) ictx \<Rightarrow> ('q, cached) sec_storage \<Rightarrow> clock \<Rightarrow> string \<Rightarrow> row \<Rightarrow> ('s, 'q, row option) iact"
where
  "update_cached ctx S clk key data =
     bindA (cached_verification ctx S (fst (clk 0)) key) (\<lambda>c.
       case c of
         None \<Rightarrow> returnA None
       | Some parsed \<Rightarrow>
           let updated = object_assign parsed data;
               expiresAt = coalesce (get_field updated ''expiresAt'') (get_field parsed ''expiresAt'');
               ttl = (case time_of expiresAt of Some t \<Rightarrow> getTTLSeconds t (now_ms clk 1) | None \<Rightarrow> 0)
           in bindA (if ttl > 0
                     then sec (ss_set S key (CVerification (stringify updated)) (Some ttl))
                     else returnA ())
                (\<lambda>_. returnA (Some updated)))"

definition updateVerificationByIdentifier ::
  "('s, 'q) ictx \<Rightarrow> clock \<Rightarrow> string \<Rightarrow> row \<Rightarrow> ('s, 'q, row option) iact"
where
  "updateVerificationByIdentifier ctx clk identifier data =
     (let stored = stored_identifier ctx identifier;
          in_db = updateWithHooks (ic_db ctx) (v_hooks ctx) data
                    [wh_eq ''identifier'' (Str stored)] verification None
      in case ic_storage ctx of
           None \<Rightarrow> in_db
         | Some S \<Rightarrow>
             bindA (update_cached ctx S clk (cache_key stored) data) (\<lambda>u.
               if ic_verificationInDatabase ctx then in_db
               else case u of Some updated \<Rightarrow> returnA (Some updated) | None \<Rightarrow> returnA (Some data)))"

end
