(* ===== verification/RowRuns.thy ===== *)
theory RowRuns
  imports MemoryAdapter
begin

text \<open>
  The memory adapter's operations on the one row of an id: what a guarded write, an update,
  a consumption or a deletion of that row returns and leaves, and how it is found.
\<close>

text \<open>Row \<open>q\<close> is the only one with id \<open>i\<close>, between the rows \<open>pre\<close> and \<open>post\<close>.\<close>

definition watched :: "memdb \<Rightarrow> string \<Rightarrow> string \<Rightarrow> row list \<Rightarrow> row \<Rightarrow> row list \<Rightarrow> bool" where
  "watched d m i pre q post \<longleftrightarrow> wf_db d \<and> tables d m \<noteq> None \<and> mem_rows d m = pre @ q # post \<and>
     get_field q ''id'' = Str i \<and> (\<forall>r \<in> set pre \<union> set post. get_field r ''id'' \<noteq> Str i)"

lemma watchedD:
  assumes "watched d m i pre q post"
  shows "wf_db d" "tables d m \<noteq> None" "mem_rows d m = pre @ q # post" "get_field q ''id'' = Str i"
    "\<And>r. r \<in> set pre \<union> set post \<Longrightarrow> get_field r ''id'' \<noteq> Str i"
  using assms by (auto simp: watched_def)

lemma watched_rows: "watched d m i pre q post \<Longrightarrow> rows_with_id i (mem_rows d m) = [q]"
  by (auto simp: watched_def rows_with_id_def filter_empty_conv)

lemma split_unique:
  assumes "pre @ q # post = xs @ r # ys" and "P q" and "P r" and "\<forall>x \<in> set pre \<union> set post. \<not> P x"
  shows "xs = pre" "r = q" "ys = post"
  using assms by (auto simp: append_eq_append_conv2 append_eq_Cons_conv Cons_eq_append_conv)

lemma watched_increment:
  assumes w: "watched d m i pre q post" and g: "list_all simple_clause g" "list_all (clause_holds (hostEnv cfg) q) g"
    and keep: "get_field (apply_set u (apply_increment inc q)) ''id'' = Str i"
  obtains t where
    "a_incrementOne (mem_adapter cfg) m (wh_eq ''id'' (Str i) # g) inc u d =
       (Inr (Some (apply_set u (apply_increment inc q))), t)"
    "watched t m i pre (apply_set u (apply_increment inc q)) post" "\<And>m'. m' \<noteq> m \<Longrightarrow> mem_rows t m' = mem_rows d m'"
    "\<And>m'. tables t m' = None \<longleftrightarrow> tables d m' = None"
proof -
  let ?ws = "wh_eq ''id'' (Str i) # g"
  note w' = watchedD[OF w]
  have simple: "list_all simple_clause ?ws" and holds: "list_all (clause_holds (hostEnv cfg) q) ?ws"
    using g w'(4) by simp_all
  have "q \<in> set (mem_rows d m)" using w'(3) by simp
  with holds mem_increment_total[OF w'(2) simple, of cfg inc u] obtain r' t where
    run: "a_incrementOne (mem_adapter cfg) m ?ws inc u d = (Inr (Some r'), t)"
    by auto
  from memw.increment_by_id[OF w'(1) run g(1)] obtain xs r ys where
    d: "mem_rows d m = xs @ r # ys" and r: "get_field r ''id'' = Str i"
    and r': "r' = apply_set u (apply_increment inc r)" and t: "mem_rows t m = xs @ r' # ys" by metis
  have "xs = pre" "r = q" "ys = post"
    using split_unique[of pre q post xs r ys "\<lambda>x. get_field x ''id'' = Str i"] d r w' by auto
  moreover have frame: "wf_db t" "m' \<noteq> m \<Longrightarrow> mem_rows t m' = mem_rows d m'"
    "mem_has_table t m' \<longleftrightarrow> mem_has_table d m'" for m'
    using mem.increment_frame[OF w'(1) run] by simp_all
  then have "tables t m' = None \<longleftrightarrow> tables d m' = None" for m'
    by (metis mem_has_table_def)
  ultimately show thesis
    using run r' t w' keep frame(1,2) by (intro that[of t]) (auto simp: watched_def)
qed

text \<open>A guard that fails on the watched row matches nothing.\<close>

lemma watched_misses:
  assumes w: "watched d m i pre q post" and g: "list_all simple_clause g"
    and fails: "\<not> list_all (clause_holds (hostEnv cfg) q) g"
  shows "matching_objs cfg d m (wh_eq ''id'' (Str i) # g) = Inr []"
proof -
  note w' = watchedD[OF w]
  have simple: "list_all simple_clause (wh_eq ''id'' (Str i) # g)" using g by simp
  from w'(2) obtain os where os: "tables d m = Some os" by auto
  have "filter (\<lambda>r. list_all (clause_holds (hostEnv cfg) r) (wh_eq ''id'' (Str i) # g)) (map obj_row os) = []"
    using w' fails os by (auto simp: mem_rows_def table_of_def filter_empty_conv)
  with matching_objs_simple[OF os simple, of cfg] show ?thesis
    by (simp add: filter_map comp_def)
qed

lemma watched_increment_none:
  assumes w: "watched d m i pre q post" and g: "list_all simple_clause g"
    and fails: "\<not> list_all (clause_holds (hostEnv cfg) q) g"
  shows "a_incrementOne (mem_adapter cfg) m (wh_eq ''id'' (Str i) # g) inc u d = (Inr None, d)"
  by (simp add: mem_incrementOne_def watched_misses[OF w g fails])

lemma watched_update:
  assumes w: "watched d m i pre q post" and keep: "get_field (object_assign q up) ''id'' = Str i"
  obtains t where "a_update (mem_adapter cfg) m [wh_eq ''id'' (Str i)] up d = (Inr (Some (object_assign q up)), t)"
    "watched t m i pre (object_assign q up) post" "\<And>m'. m' \<noteq> m \<Longrightarrow> mem_rows t m' = mem_rows d m'"
    "\<And>m'. tables t m' = None \<longleftrightarrow> tables d m' = None"
proof -
  note w' = watchedD[OF w]
  from w'(2) obtain os where os: "tables d m = Some os" by auto
  let ?hits = "filter (\<lambda>ob. get_field (obj_row ob) ''id'' = Str i) os"
  have res: "matching_objs cfg d m [wh_eq ''id'' (Str i)] = Inr ?hits"
    using matching_objs_simple[OF os, of "[wh_eq ''id'' (Str i)]" cfg] by simp
  have "map obj_row ?hits = [q]"
    using watched_rows[OF w] by (simp add: rows_with_id_def mem_rows_def table_of_def os filter_map comp_def)
  then obtain ob where hits: "?hits = [ob]" and ob: "obj_row ob = q" by auto
  obtain t where run: "a_update (mem_adapter cfg) m [wh_eq ''id'' (Str i)] up d = (Inr (Some (object_assign q up)), t)"
    and tt: "t = set_table d m (update_objs (map obj_ref ?hits) (\<lambda>r. object_assign r up) (table_of d m))"
    using res hits ob by (simp add: mem_update_def)
  from mem.update_some[OF w'(1) run] have
    "mem_rows t m = map (\<lambda>r. if get_field r ''id'' = Str i then object_assign r up else r) (mem_rows d m)"
    by (simp add: mem_sat_simple)
  then have "mem_rows t m = pre @ object_assign q up # post"
    using w' by (auto simp: intro!: map_idI)
  moreover have "tables t m' = None \<longleftrightarrow> tables d m' = None" for m' using w'(2) by (simp add: tt set_table_def)
  ultimately show thesis
    using run mem.update_frame[OF w'(1) run] w' keep by (intro that[of t]) (auto simp: watched_def)
qed

lemma watched_consume:
  assumes w: "watched d m i pre q post" and g: "list_all simple_clause g" "list_all (clause_holds (hostEnv cfg) q) g"
  obtains t where "a_consumeOne (mem_adapter cfg) m (wh_eq ''id'' (Str i) # g) d = (Inr (Some q), t)"
    "wf_db t" "tables t m \<noteq> None" "mem_rows t m = pre @ post" "\<And>m'. m' \<noteq> m \<Longrightarrow> mem_rows t m' = mem_rows d m'"
proof -
  let ?ws = "wh_eq ''id'' (Str i) # g"
  note w' = watchedD[OF w]
  have simple: "list_all simple_clause ?ws" and holds: "list_all (clause_holds (hostEnv cfg) q) ?ws"
    using g w'(4) by simp_all
  from w'(2) obtain os where os: "tables d m = Some os" by auto
  obtain x t where run: "a_consumeOne (mem_adapter cfg) m ?ws d = (x, t)" by force
  have "\<not> isl x"
    using run matching_objs_simple[OF os simple, of cfg]
    by (auto simp: mem_consumeOne_def split: list.splits)
  moreover have "x \<noteq> Inr None"
    using mem.consume_none[OF w'(1), of cfg m ?ws t] run holds w'(3) simple by (auto simp: mem_sat_simple)
  ultimately obtain r where x: "x = Inr (Some r)" by (cases x) auto
  from mem.consume_some[OF w'(1) run[unfolded x]] obtain xs ys where
    d: "mem_rows d m = xs @ r # ys" and t: "mem_rows t m = xs @ ys" and sat: "mem_sat cfg ?ws r = Inr True" by metis
  have "get_field r ''id'' = Str i" using sat simple by (simp add: mem_sat_simple)
  with d w' have "xs = pre" "r = q" "ys = post"
    using split_unique[of pre q post xs r ys "\<lambda>x. get_field x ''id'' = Str i"] by auto
  with run x t show thesis
    using mem.consume_frame[OF w'(1) run] w'(2) by (intro that[of t]) (auto simp: mem_has_table_def)
qed

lemma watched_consume_none:
  assumes w: "watched d m i pre q post" and g: "list_all simple_clause g"
    and fails: "\<not> list_all (clause_holds (hostEnv cfg) q) g"
  shows "a_consumeOne (mem_adapter cfg) m (wh_eq ''id'' (Str i) # g) d = (Inr None, d)"
  by (simp add: mem_consumeOne_def watched_misses[OF w g fails])

lemma watched_delete:
  assumes w: "watched d m i pre q post"
  obtains t where "a_delete (mem_adapter cfg) m [wh_eq ''id'' (Str i)] d = (Inr (), t)"
    "wf_db t" "tables t m \<noteq> None" "mem_rows t m = pre @ post" "\<And>m'. m' \<noteq> m \<Longrightarrow> mem_rows t m' = mem_rows d m'"
proof -
  note w' = watchedD[OF w]
  obtain t where "mem_delete cfg m [wh_eq ''id'' (Str i)] d = (Inr (), t)" "wf_db t"
    "mem_rows t m = filter (\<lambda>r. get_field r ''id'' \<noteq> Str i) (mem_rows d m)"
    "\<And>m'. m' \<noteq> m \<Longrightarrow> mem_rows t m' = mem_rows d m'" "\<And>m'. tables t m' = None \<longleftrightarrow> tables d m' = None"
    by (rule mem_delete_simple[OF w'(1,2), of "[wh_eq ''id'' (Str i)]" cfg]) auto
  then show thesis using w' by (intro that[of t]) (simp_all add: filter_id_conv)
qed

lemma find_absent:
  assumes "tables d m \<noteq> None" and "list_all simple_clause ws"
    and "\<And>r. r \<in> set (mem_rows d m) \<Longrightarrow> \<not> list_all (clause_holds (hostEnv cfg) r) ws"
  shows "a_findOne (mem_adapter cfg) m ws d = (Inr None, d)"
proof -
  from assms(1) obtain os where os: "tables d m = Some os" by auto
  have "filter (\<lambda>ob. list_all (clause_holds (hostEnv cfg) (obj_row ob)) ws) os = []"
    using assms(3) by (auto simp: filter_empty_conv mem_rows_def table_of_def os)
  with matching_objs_simple[OF os assms(2), of cfg] show ?thesis by (simp add: mem_findOne_app)
qed

lemma watched_find:
  assumes w: "watched d m i pre q post" and "list_all simple_clause ws"
    and "list_all (clause_holds (hostEnv cfg) q) ws"
    and "\<And>r. r \<in> set pre \<union> set post \<Longrightarrow> \<not> list_all (clause_holds (hostEnv cfg) r) ws"
  shows "a_findOne (mem_adapter cfg) m ws d = (Inr (Some q), d)"
  using watchedD[OF w] assms(2-4) by (intro mem_findOne_unique) (auto simp: filter_empty_conv)

end
