(* ===== verification/StoreRuns.thy ===== *)
theory StoreRuns
  imports InternalContext RowRuns
begin

text \<open>
  Running the internal adapter's database steps on the memory adapter: what a step on a
  table with plain conjunctions returns and leaves, and transactions of an adapter
  without its own.
\<close>

section \<open>Stable sorting by a key\<close>

lemma insert_sorted_key:
  assumes "\<And>a b. a \<in> insert x (set ys) \<Longrightarrow> b \<in> insert x (set ys) \<Longrightarrow> cmp a b = k a - (k b :: int)"
    and "sorted_wrt (\<lambda>a b. k a \<le> k b) ys"
  shows "sorted_wrt (\<lambda>a b. k a \<le> k b) (insert_sorted cmp x ys)"
  using assms
proof (induction ys)
  case (Cons y ys)
  have IH: "sorted_wrt (\<lambda>a b. k a \<le> k b) (insert_sorted cmp x ys)"
    using Cons.prems by (intro Cons.IH) auto
  from Cons.prems(1)[of x y] have "cmp x y = k x - k y" by simp
  with Cons.prems(2) IH show ?case by auto
qed simp

lemma stable_sort_sorted:
  assumes "\<And>a b. a \<in> set xs \<Longrightarrow> b \<in> set xs \<Longrightarrow> cmp a b = k a - (k b :: int)"
  shows "sorted_wrt (\<lambda>a b. k a \<le> k b) (stable_sort cmp xs)"
proof -
  have "sorted_wrt (\<lambda>a b. k a \<le> k b) (foldl (\<lambda>acc x. insert_sorted cmp x acc) acc ys)"
    if "set acc \<union> set ys \<subseteq> set xs" "sorted_wrt (\<lambda>a b. k a \<le> k b) acc" for acc ys
    using that
  proof (induction ys arbitrary: acc)
    case (Cons y ys)
    then have "sorted_wrt (\<lambda>a b. k a \<le> k b) (insert_sorted cmp y acc)"
      by (intro insert_sorted_key) (auto intro!: assms)
    with Cons show ?case by (auto simp: set_insert_sorted)
  qed simp
  from this[of "[]" xs] show ?thesis by (simp add: stable_sort_def)
qed

section \<open>Tables\<close>

text \<open>The time of a date column.\<close>

fun date_time :: "val \<Rightarrow> int" where
  "date_time (DateV _ t) = t"
| "date_time _ = 0"

lemma compare_dates:
  assumes "get_field a f = DateV i x" "get_field b f = DateV j y" "getFieldName cfg m f = f"
  shows "compare_records cfg m (f, Desc) a b = y - x"
  using assms by (simp add: compare_records_def compare_values_def)

text \<open>The newest row that meets a conjunction.\<close>

lemma findMany_newest:
  assumes tab: "tables d m \<noteq> None" and ws: "list_all simple_clause ws"
    and dates: "\<And>r. r \<in> set (mem_rows d m) \<Longrightarrow> \<exists>i t. get_field r f = DateV i t"
    and name: "getFieldName cfg m f = f"
  shows "\<exists>rs. a_findMany (mem_adapter cfg) m ws (Some (f, Desc)) (Some 1) None d = (Inr rs, d) \<and>
    (rs = [] \<longrightarrow> (\<forall>r \<in> set (mem_rows d m). \<not> list_all (clause_holds (hostEnv cfg) r) ws)) \<and>
    (\<forall>r rest. rs = r # rest \<longrightarrow>
       r \<in> set (mem_rows d m) \<and> list_all (clause_holds (hostEnv cfg) r) ws \<and>
       (\<forall>q \<in> set (mem_rows d m). list_all (clause_holds (hostEnv cfg) q) ws \<longrightarrow>
          date_time (get_field q f) \<le> date_time (get_field r f)))"
proof -
  from tab obtain os where os: "tables d m = Some os" by auto
  let ?P = "\<lambda>r. list_all (clause_holds (hostEnv cfg) r) ws"
  let ?hits = "filter (\<lambda>ob. ?P (obj_row ob)) os"
  let ?ns = "map (\<lambda>ob. \<lparr>n_row = obj_row ob, n_joined = []\<rparr>) ?hits"
  let ?sorted = "sort_nested cfg m (Some (f, Desc)) ?ns"
  have find: "a_findMany (mem_adapter cfg) m ws (Some (f, Desc)) (Some 1) None d =
      (Inr (map n_row (take 1 ?sorted)), d)"
    by (simp add: mem_findMany_app matching_objs_simple[OF os ws] paginate_def slice_upto_def)
  have rows: "set (mem_rows d m) = obj_row ` set os" by (simp add: mem_rows_def table_of_def os)
  have elems: "n_row ` set ?sorted = {r \<in> set (mem_rows d m). ?P r}"
    unfolding rows by (force simp: image_iff)
  have srt: "sorted_wrt (\<lambda>a b. - date_time (get_field (n_row a) f) \<le> - date_time (get_field (n_row b) f)) ?sorted"
    unfolding sort_nested_def option.case
  proof (rule stable_sort_sorted)
    fix a b assume "a \<in> set ?ns" "b \<in> set ?ns"
    then have "n_row a \<in> set (mem_rows d m)" "n_row b \<in> set (mem_rows d m)"
      by (auto simp: rows intro: rev_image_eqI)
    from dates[OF this(1)] dates[OF this(2)] show "compare_records cfg m (f, Desc) (n_row a) (n_row b) =
        - date_time (get_field (n_row a) f) - - date_time (get_field (n_row b) f)"
      by (auto simp: compare_dates name)
  qed
  show ?thesis
  proof (cases ?sorted)
    case Nil
    with elems have "{r \<in> set (mem_rows d m). ?P r} = {}" by simp
    with find Nil show ?thesis by auto
  next
    case (Cons n ns)
    have "n_row n \<in> {r \<in> set (mem_rows d m). ?P r}" unfolding elems[symmetric] Cons by simp
    moreover have "date_time (get_field q f) \<le> date_time (get_field (n_row n) f)"
      if "q \<in> set (mem_rows d m)" "?P q" for q
    proof -
      from that have "q \<in> n_row ` set ?sorted" unfolding elems by simp
      with srt show ?thesis unfolding Cons by auto
    qed
    ultimately show ?thesis using find Cons by auto
  qed
qed

text \<open>Consuming by id where the id is unique.\<close>

lemma mem_consume_unique:
  assumes wf: "wf_db d" and tab: "tables d m \<noteq> None"
    and r: "r \<in> set (mem_rows d m)" "get_field r ''id'' = Str i"
    and unique: "\<And>q. q \<in> set (mem_rows d m) \<Longrightarrow> get_field q ''id'' = Str i \<Longrightarrow> q = r"
  obtains t where "mem_consumeOne cfg m [wh_eq ''id'' (Str i)] d = (Inr (Some r), t)" "wf_db t"
    "\<And>m'. set (mem_rows t m') \<subseteq> set (mem_rows d m')"
    "\<And>m'. m' \<noteq> m \<Longrightarrow> mem_rows t m' = mem_rows d m'"
    "filter (\<lambda>q. get_field q ''id'' \<noteq> Str i) (mem_rows t m) = filter (\<lambda>q. get_field q ''id'' \<noteq> Str i) (mem_rows d m)"
    "\<And>m'. tables t m' = None \<longleftrightarrow> tables d m' = None"
proof -
  let ?ws = "[wh_eq ''id'' (Str i)]"
  from tab obtain os where os: "tables d m = Some os" by auto
  obtain x t where run: "mem_consumeOne cfg m ?ws d = (x, t)" by force
  from wf run show thesis
  proof (cases rule: mem_consumeOne_cases)
    case (err e)
    with run matching_objs_simple[OF os, of ?ws cfg] show thesis
      by (auto simp: mem_consumeOne_def split: list.splits)
  next
    case none
    with r show thesis by (auto simp: mem_sat_simple)
  next
    case (some ob pre post)
    then have "get_field (obj_row ob) ''id'' = Str i" by (simp add: mem_sat_simple)
    moreover have "obj_row ob \<in> set (mem_rows d m)" using some by (simp add: mem_rows_def)
    ultimately have ob: "obj_row ob = r" using unique by blast
    show thesis
    proof (rule that)
      show "mem_consumeOne cfg m ?ws d = (Inr (Some r), t)" using run some ob by simp
      show "wf_db t" using wf run mem.consume_frame[of d cfg m ?ws x t] by simp
      show "set (mem_rows t m') \<subseteq> set (mem_rows d m')" for m'
        using some by (auto simp: mem_rows_def)
      show "m' \<noteq> m \<Longrightarrow> mem_rows t m' = mem_rows d m'" for m' using some by simp
      show "filter (\<lambda>q. get_field q ''id'' \<noteq> Str i) (mem_rows t m) =
          filter (\<lambda>q. get_field q ''id'' \<noteq> Str i) (mem_rows d m)"
        using some ob r by (simp add: mem_rows_def)
      show "tables t m' = None \<longleftrightarrow> tables d m' = None" for m'
        using some os by (auto simp: set_table_def)
    qed
  qed
qed

text \<open>Creating a row, with the id the adapter may add.\<close>

lemma create_mem:
  assumes wf: "wf_db d0" and table: "tables d0 (getModelName cfg m) \<noteq> None"
  obtains d x where "mem_create cfg m r d0 = (Inr x, d)" "wf_db d"
    "x = r \<or> (\<exists>n. x = set_field r ''id'' (Num n))" "mem_rows d m = mem_rows d0 m @ [x]"
    "tables d m \<noteq> None" "\<And>m'. m' \<noteq> m \<Longrightarrow> tables d m' = tables d0 m'"
proof -
  obtain x d where run: "mem_create cfg m r d0 = (x, d)" by force
  from wf run show thesis
  proof (cases rule: mem_create_cases)
    case (err e)
    with run table show thesis by (auto simp: mem_create_def split: if_splits option.splits)
  next
    case (ok y)
    with run have "tables d m \<noteq> None" "\<And>m'. m' \<noteq> m \<Longrightarrow> tables d m' = tables d0 m'"
      by (auto simp: mem_create_def set_table_def split: if_splits option.splits sum.splits)
    with ok run show thesis by (intro that[of y d]) auto
  qed
qed

section \<open>Reads with a join\<close>

text \<open>
  The joins of the internal adapter on the memory adapter: a session or account with the
  user its \<open>userId\<close> names, a user with its accounts.
\<close>

definition user_join :: "(string \<times> join_attr) list" where
  "user_join = [(''user'', \<lparr>on_from = ''userId'', on_to = ''id'', one_to_one = True, join_limit = None\<rparr>)]"

definition account_join :: "(string \<times> join_attr) list" where
  "account_join = [(''account'', \<lparr>on_from = ''id'', on_to = ''userId'', one_to_one = False, join_limit = None\<rparr>)]"

definition joined_user :: "mem_config \<Rightarrow> nested \<Rightarrow> row \<times> row option" where
  "joined_user cfg n = (n_row n,
     case map_of (n_joined n) (getModelName cfg ''user'') of Some (JoinOne u) \<Rightarrow> u | _ \<Rightarrow> None)"

definition mem_findOneWithUser ::
  "mem_config \<Rightarrow> string \<Rightarrow> CleanedWhere list \<Rightarrow> (memdb, (row \<times> row option) option) act"
where
  "mem_findOneWithUser cfg m ws =
     bindA (mem_findOne cfg (Some user_join) None m ws) (\<lambda>n. returnA (map_option (joined_user cfg) n))"

definition mem_findManyWithUser ::
  "mem_config \<Rightarrow> string \<Rightarrow> CleanedWhere list \<Rightarrow> int option \<Rightarrow> (memdb, (row \<times> row option) list) act"
where
  "mem_findManyWithUser cfg m ws lim =
     bindA (mem_findMany cfg (Some user_join) None m ws None lim None) (\<lambda>ns.
       returnA (map (joined_user cfg) ns))"

definition mem_findUserWithAccounts ::
  "mem_config \<Rightarrow> CleanedWhere list \<Rightarrow> (memdb, (row \<times> row list) option) act"
where
  "mem_findUserWithAccounts cfg ws =
     bindA (mem_findOne cfg (Some account_join) None ''user'' ws) (\<lambda>n.
       returnA (map_option (\<lambda>n. (n_row n, joined_rows n (getModelName cfg ''account''))) n))"

section \<open>Transactions that run on the live store\<close>

lemma as_is_transaction:
  assumes "\<And>t. rq_store t = rq_store s \<Longrightarrow> fn t = (r, t\<lparr>rq_store := st\<rparr>)"
  shows "runWithTransaction as_is onErr fn s = (r, s\<lparr>rq_store := st\<rparr>)"
  using assms by (cases r) (auto simp: runWithTransaction_def)

section \<open>A context over the memory adapter\<close>

text \<open>No plugin hooks, and transactions that run on the live store.\<close>

definition memory_ctx :: "(memdb, 'q) ictx \<Rightarrow> mem_config \<Rightarrow> bool" where
  "memory_ctx ctx cfg \<longleftrightarrow> ic_adapter ctx = mem_adapter cfg \<and> ic_hooks ctx = (\<lambda>_. no_hooks) \<and>
     ic_tx ctx = as_is \<and> ic_host ctx = hostEnv cfg \<and>
     (\<forall>m. getFieldName cfg m ''createdAt'' = ''createdAt'') \<and>
     ic_findOneWithUser ctx = mem_findOneWithUser cfg \<and> ic_findManyWithUser ctx = mem_findManyWithUser cfg \<and>
     ic_findUserWithAccounts ctx = mem_findUserWithAccounts cfg"

text \<open>The first row that meets a conjunction, with the user it names.\<close>

lemma findOneWithUser_none:
  assumes "tables d m \<noteq> None" and "list_all simple_clause ws"
    and "\<forall>r \<in> set (mem_rows d m). \<not> list_all (clause_holds (hostEnv cfg) r) ws"
  shows "mem_findOneWithUser cfg m ws d = (Inr None, d)"
proof -
  from assms(1) obtain os where os: "tables d m = Some os" by auto
  have "filter (\<lambda>ob. list_all (clause_holds (hostEnv cfg) (obj_row ob)) ws) os = []"
    using assms(3) by (auto simp: filter_empty_conv mem_rows_def table_of_def os)
  with matching_objs_simple[OF os assms(2), of cfg] show ?thesis
    by (simp add: mem_findOneWithUser_def mem_findOne_def convertWhereClause_def baseRecords_def bindA_def)
qed

lemma findOneWithUser_one:
  assumes "tables d m \<noteq> None" and "list_all simple_clause ws"
    and one: "filter (\<lambda>r. list_all (clause_holds (hostEnv cfg) r) ws) (mem_rows d m) = [x]"
    and user: "tables d (getModelName cfg ''user'') \<noteq> None"
      "filter (\<lambda>r. strict_eq (get_field r ''id'') (get_field x ''userId'')) (mem_rows d (getModelName cfg ''user'')) = [u]"
  shows "mem_findOneWithUser cfg m ws d = (Inr (Some (x, Some u)), d)"
proof -
  from assms(1) user(1) obtain os us where os: "tables d m = Some os"
    and us: "tables d (getModelName cfg ''user'') = Some us" by auto
  have "map obj_row (filter (\<lambda>ob. list_all (clause_holds (hostEnv cfg) (obj_row ob)) ws) os) = [x]"
    using one by (simp add: mem_rows_def table_of_def os filter_map comp_def)
  with matching_objs_simple[OF os assms(2), of cfg]
  have base: "baseRecords cfg d m ws None = Inr [x]"
    by (auto simp: baseRecords_def select_row_def comp_def)
  have match: "filter (\<lambda>r. strict_eq (get_field r ''id'') (get_field x ''userId'')) (map obj_row us) = [u]"
    using user(2) by (simp add: mem_rows_def table_of_def us)
  show ?thesis
    using match by (simp add: mem_findOneWithUser_def mem_findOne_def convertWhereClause_def base user_join_def
        us Let_def bindA_def joined_user_def)
qed

text \<open>Finding the watched row, or none.\<close>

lemma db_find_watched:
  assumes "memory_ctx ctx cfg" and w: "watched (rq_db s) m i pre q post" and "list_all simple_clause ws"
    and "list_all (clause_holds (hostEnv cfg) q) ws"
    and "\<And>r. r \<in> set pre \<union> set post \<Longrightarrow> \<not> list_all (clause_holds (hostEnv cfg) r) ws"
  shows "db (a_findOne (ic_adapter ctx) m ws) s = (Inr (Some q), s)"
  using db_run[of "a_findOne (mem_adapter cfg) m ws" s] watched_find[OF w assms(3-5)] assms(1)
  by (simp add: memory_ctx_def)

lemma db_find_absent:
  assumes "memory_ctx ctx cfg" and "tables (rq_db s) m \<noteq> None" and "list_all simple_clause ws"
    and "\<And>r. r \<in> set (mem_rows (rq_db s) m) \<Longrightarrow> \<not> list_all (clause_holds (hostEnv cfg) r) ws"
  shows "db (a_findOne (ic_adapter ctx) m ws) s = (Inr None, s)"
  using db_run[of "a_findOne (mem_adapter cfg) m ws" s] find_absent[OF assms(2-4)] assms(1)
  by (simp add: memory_ctx_def)

definition demo_ictx :: "('q, cached) sec_storage option \<Rightarrow> bool \<Rightarrow> (memdb, 'q) ictx" where
  "demo_ictx S in_db =
     \<lparr>ic_adapter = mem_adapter demo_cfg, ic_storage = S, ic_hooks = (\<lambda>_. no_hooks), ic_tx = as_is,
      ic_host = hostEnv demo_cfg, ic_keyHasher = (\<lambda>i. ''#'' @ i), ic_parseDate = (\<lambda>_. None),
      ic_storeIdentifier = None, ic_verificationInDatabase = in_db, ic_disableCleanup = False,
      ic_sessionInDatabase = False, ic_preserveSession = False, ic_expiresIn = 0,
      ic_schema = \<lparr>so_core = (\<lambda>_. []), so_additional = (\<lambda>_. []), so_plugins = []\<rparr>,
      ic_findOneWithUser = mem_findOneWithUser demo_cfg,
      ic_findManyWithUser = mem_findManyWithUser demo_cfg,
      ic_findUserWithAccounts = mem_findUserWithAccounts demo_cfg\<rparr>"

end
