(* ===== verification/VerificationClaims.thy ===== *)
theory VerificationClaims
  imports VerificationStore StoreRuns
begin

text \<open>
  What the verification operations guarantee: a value is consumed once, expired values are
  never handed out, created values are found, a reservation has one winner. The database is
  the memory adapter, without hooks and with transactions on the live store; the secondary
  storage is any that meets \<open>secondary_storage\<close>.
\<close>

section \<open>The database path\<close>

text \<open>
  A verification table: unique string ids, as a primary key gives, and a creation date in
  every row.
\<close>

definition verification_table :: "memdb \<Rightarrow> bool" where
  "verification_table d \<longleftrightarrow> wf_db d \<and> tables d verification \<noteq> None \<and>
     distinct (map (\<lambda>r. get_field r ''id'') (mem_rows d verification)) \<and>
     (\<forall>r \<in> set (mem_rows d verification).
        (\<exists>i. get_field r ''id'' = Str i) \<and> (\<exists>i t. get_field r ''createdAt'' = DateV i t))"

definition dated_table :: "memdb \<Rightarrow> bool" where
  "dated_table d \<longleftrightarrow> tables d verification \<noteq> None \<and>
     (\<forall>r \<in> set (mem_rows d verification). \<exists>i t. get_field r ''createdAt'' = DateV i t)"

lemma verification_table_dated: "verification_table d \<Longrightarrow> dated_table d"
  by (auto simp: verification_table_def dated_table_def)

definition has_identifier :: "string \<Rightarrow> row \<Rightarrow> bool" where
  "has_identifier i r \<longleftrightarrow> get_field r ''identifier'' = Str i"

text \<open>The newest row of an identifier: no other row of it was created later.\<close>

definition newest :: "row list \<Rightarrow> string \<Rightarrow> row \<Rightarrow> bool" where
  "newest rs i r \<longleftrightarrow> r \<in> set rs \<and> has_identifier i r \<and>
     (\<forall>q \<in> set rs. has_identifier i q \<longrightarrow>
        date_time (get_field q ''createdAt'') \<le> date_time (get_field r ''createdAt''))"

lemma find_latest_mem:
  assumes ctx: "memory_ctx ctx cfg" and tab: "dated_table d"
  obtains (none) "\<And>s. rq_db s = d \<Longrightarrow> find_latest ctx i s = (Inr [], s)"
      "\<not> (\<exists>r \<in> set (mem_rows d verification). has_identifier i r)"
  | (some) r rest where "\<And>s. rq_db s = d \<Longrightarrow> find_latest ctx i s = (Inr (r # rest), s)"
      "newest (mem_rows d verification) i r"
proof -
  have A: "ic_adapter ctx = mem_adapter cfg" and name: "getFieldName cfg verification ''createdAt'' = ''createdAt''"
    using ctx by (simp_all add: memory_ctx_def)
  have "tables d verification \<noteq> None"
    "\<And>r. r \<in> set (mem_rows d verification) \<Longrightarrow> \<exists>i t. get_field r ''createdAt'' = DateV i t"
    using tab by (auto simp: dated_table_def)
  from findMany_newest[OF this(1) _ this(2) name, of "[wh_eq ''identifier'' (Str i)]"]
  obtain rs where find: "a_findMany (mem_adapter cfg) verification [wh_eq ''identifier'' (Str i)]
      (Some (''createdAt'', Desc)) (Some 1) None d = (Inr rs, d)"
    and hit: "rs = [] \<Longrightarrow> \<not> (\<exists>r \<in> set (mem_rows d verification). has_identifier i r)"
      "\<And>r rest. rs = r # rest \<Longrightarrow> newest (mem_rows d verification) i r"
    by (auto simp: has_identifier_def newest_def)
  have run: "find_latest ctx i s = (Inr rs, s)" if "rq_db s = d" for s
  proof -
    from find that have "db (a_findMany (mem_adapter cfg) verification [wh_eq ''identifier'' (Str i)]
      (Some (''createdAt'', Desc)) (Some 1) None) s = (Inr rs, with_db (rq_db s) s)"
      by (intro db_run) simp
    then show ?thesis by (simp add: find_latest_def A)
  qed
  show thesis
  proof (cases rs)
    case Nil
    with run hit show thesis by (intro none) auto
  next
    case (Cons r rest)
    with run hit show thesis by (intro some[of r rest]) auto
  qed
qed

lemma unique_row:
  assumes "distinct (map f xs)" "x \<in> set xs" "y \<in> set xs" "f x = f y"
  shows "x = y"
  using assms by (auto simp: distinct_map dest: inj_onD)

text \<open>
  One turn of \<open>consumeByIdentifier\<close>: nothing to consume, or the newest row is returned and
  no row of the identifier is left.
\<close>

lemma consume_latest_mem:
  assumes ctx: "memory_ctx ctx cfg" and tab: "verification_table d0"
    and new: "newest (mem_rows d0 verification) i r"
  obtains d where "\<And>s. rq_db s = d0 \<Longrightarrow> consume_latest ctx i r s = (Inr (Some r), with_db d s)"
    "verification_table d"
    "mem_rows d verification = filter (\<lambda>q. \<not> has_identifier i q) (mem_rows d0 verification)"
    "\<And>m. m \<noteq> verification \<Longrightarrow> mem_rows d m = mem_rows d0 m"
proof -
  let ?rows = "mem_rows d0 verification"
  from new tab obtain j where r: "r \<in> set ?rows" "has_identifier i r" and j: "get_field r ''id'' = Str j"
    by (auto simp: newest_def verification_table_def)
  have wf: "wf_db d0" "tables d0 verification \<noteq> None"
    using tab by (auto simp: verification_table_def)
  have uniq: "q = r" if "q \<in> set ?rows" "get_field q ''id'' = Str j" for q
    using tab that r(1) j by (auto simp: verification_table_def intro: unique_row)
  obtain t where t: "mem_consumeOne cfg verification [wh_eq ''id'' (Str j)] d0 = (Inr (Some r), t)"
    "wf_db t" "\<And>m'. set (mem_rows t m') \<subseteq> set (mem_rows d0 m')"
    "\<And>m'. m' \<noteq> verification \<Longrightarrow> mem_rows t m' = mem_rows d0 m'"
    "filter (\<lambda>q. get_field q ''id'' \<noteq> Str j) (mem_rows t verification) =
       filter (\<lambda>q. get_field q ''id'' \<noteq> Str j) ?rows"
    "\<And>m'. tables t m' = None \<longleftrightarrow> tables d0 m' = None"
    by (rule mem_consume_unique[OF wf r(1) j, of cfg], erule (1) uniq, rule that)
  obtain n d where d: "mem_deleteMany cfg verification [wh_eq ''identifier'' (Str i)] t = (Inr n, d)"
    "wf_db d" "mem_rows d verification = filter (\<lambda>q. \<not> has_identifier i q) (mem_rows t verification)"
    "\<And>m'. m' \<noteq> verification \<Longrightarrow> mem_rows d m' = mem_rows t m'"
    "\<And>m'. tables d m' = None \<longleftrightarrow> tables t m' = None"
    using mem_deleteMany_simple[OF t(2), of verification "[wh_eq ''identifier'' (Str i)]" cfg] t(6) wf(2)
    by (auto simp: has_identifier_def)
  have run: "consume_latest ctx i r s = (Inr (Some r), with_db d s)" if "rq_db s = d0" for s
    using ctx t(1) d(1) that
    by (simp add: consume_latest_def memory_ctx_def v_hooks_def consume_no_hooks j bindA_def db_run
        with_db_def)
  have "has_identifier i q" if "q \<in> set ?rows" "get_field q ''id'' = Str j" for q
    using uniq[OF that] r by simp
  then have "filter (\<lambda>q. \<not> has_identifier i q) ?rows =
      filter (\<lambda>q. \<not> has_identifier i q) (filter (\<lambda>q. get_field q ''id'' \<noteq> Str j) ?rows)"
    by (auto intro!: filter_cong)
  also have "\<dots> = filter (\<lambda>q. \<not> has_identifier i q)
      (filter (\<lambda>q. get_field q ''id'' \<noteq> Str j) (mem_rows t verification))" using t(5) by simp
  also have "\<dots> = filter (\<lambda>q. \<not> has_identifier i q) (mem_rows t verification)"
    using t(3)[of verification] uniq r by (auto intro!: filter_cong)
  finally have rows: "mem_rows d verification = filter (\<lambda>q. \<not> has_identifier i q) ?rows"
    using d(3) by simp
  have "verification_table d"
    using tab rows d(2,5) t(6) wf(2) by (auto simp: verification_table_def distinct_map_filter)
  with run rows d(4) t(4) show thesis by (intro that[of d]) auto
qed

lemma consumeByIdentifier_mem:
  assumes ctx: "memory_ctx ctx cfg" and tab: "verification_table (rq_db s)"
  shows "\<exists>res d. consumeByIdentifier ctx i s = (Inr res, with_db d s) \<and> verification_table d \<and>
    mem_rows d verification =
      filter (\<lambda>q. \<not> has_identifier i q) (mem_rows (rq_db s) verification) \<and>
    (\<forall>m. m \<noteq> verification \<longrightarrow> mem_rows d m = mem_rows (rq_db s) m) \<and>
    (case res of
       None \<Rightarrow> \<not> (\<exists>q \<in> set (mem_rows (rq_db s) verification). has_identifier i q)
     | Some r \<Rightarrow> newest (mem_rows (rq_db s) verification) i r)"
proof -
  let ?fn = "bindA (find_latest ctx i) (\<lambda>rows.
      case rows of [] \<Rightarrow> returnA None | latest # _ \<Rightarrow> consume_latest ctx i latest)"
  have tx: "consumeByIdentifier ctx i s = (r, with_db d s)"
    if "\<And>t. rq_store t = rq_store s \<Longrightarrow> ?fn t = (r, with_db d t)" for r d
    using as_is_transaction[of s ?fn r "(rq_store s)\<lparr>st_db := d\<rparr>" None] that ctx
    by (simp add: with_db_def consumeByIdentifier_def memory_ctx_def)
  let ?rows = "mem_rows (rq_db s) verification"
  from ctx verification_table_dated[OF tab] show ?thesis
  proof (cases rule: find_latest_mem[where i = i])
    case none
    have "?fn t = (Inr None, with_db (rq_db s) t)" if "rq_store t = rq_store s" for t
    proof -
      from that have e: "rq_db s = rq_db t" by simp
      show ?thesis unfolding e using none(1)[OF e[symmetric]] by (simp add: bindA_def)
    qed
    from tx[OF this] tab none(2) show ?thesis
      by (intro exI[of _ None] exI[of _ "rq_db s"]) (auto simp: filter_id_conv)
  next
    case (some r rest)
    from ctx tab some(2) obtain d where d:
      "\<And>t. rq_db t = rq_db s \<Longrightarrow> consume_latest ctx i r t = (Inr (Some r), with_db d t)"
      "verification_table d" "mem_rows d verification = filter (\<lambda>q. \<not> has_identifier i q) ?rows"
      "\<And>m. m \<noteq> verification \<Longrightarrow> mem_rows d m = mem_rows (rq_db s) m"
      by (rule consume_latest_mem) blast
    have "?fn t = (Inr (Some r), with_db d t)" if "rq_store t = rq_store s" for t
      using some(1)[of t] d(1)[of t] that by (simp add: bindA_def)
    from tx[OF this] d(2-) some(2) show ?thesis
      by (intro exI[of _ "Some r"] exI[of _ d]) auto
  qed
qed

text \<open>A caller whose snapshot is no longer in the table gets nothing and changes nothing.\<close>

lemma consume_stale_mem:
  assumes ctx: "memory_ctx ctx cfg" and tab: "verification_table (rq_db s)"
    and id: "get_field r ''id'' = Str j"
    and gone: "\<not> (\<exists>q \<in> set (mem_rows (rq_db s) verification). get_field q ''id'' = Str j)"
  shows "consume_latest ctx i r s = (Inr None, s)"
proof -
  let ?ws = "[wh_eq ''id'' (Str j)]"
  from tab obtain os where os: "tables (rq_db s) verification = Some os"
    by (auto simp: verification_table_def)
  have "filter (\<lambda>ob. list_all (clause_holds (hostEnv cfg) (obj_row ob)) ?ws) os = []"
    using gone by (auto simp: filter_empty_conv mem_rows_def table_of_def os)
  with matching_objs_simple[OF os, of ?ws cfg]
  have "mem_consumeOne cfg verification ?ws (rq_db s) = (Inr None, rq_db s)"
    by (simp add: mem_consumeOne_def)
  from db_run[of "mem_consumeOne cfg verification ?ws" s, OF this] ctx show ?thesis
    by (simp add: consume_latest_def memory_ctx_def v_hooks_def consume_no_hooks id bindA_def)
qed

lemma delete_all_run:
  assumes S: "secondary_storage S view life"
  shows "\<exists>q. delete_all_keys S ks s = (Inr (), with_sec q s) \<and>
     view q = (\<lambda>k. if k \<in> set ks then None else view (rq_sec s) k)"
proof (induction ks arbitrary: s)
  case Nil
  then show ?case by (intro exI[of _ "rq_sec s"]) (simp add: delete_all_keys_def)
next
  case (Cons k ks)
  obtain q where q: "ss_delete S k (rq_sec s) = (Inr (), q)" "view q = (view (rq_sec s))(k := None)"
    by (rule secondary_storage.delete_run[OF S])
  from Cons.IH[of "with_sec q s"] obtain q' where
    "delete_all_keys S ks (with_sec q s) = (Inr (), with_sec q' (with_sec q s))"
    "view q' = (\<lambda>k'. if k' \<in> set ks then None else view (rq_sec (with_sec q s)) k')" by blast
  moreover have "with_sec q' (with_sec q s) = with_sec q' s" by (simp add: with_sec_def)
  ultimately show ?case
    using q by (intro exI[of _ q']) (auto simp: delete_all_keys_def bothA_ok sec_run fun_eq_iff)
qed


lemma with_sec_db [simp]: "with_sec q (with_db d s) = with_db d (with_sec q s)"
  by (simp add: with_sec_def with_db_def)

text \<open>
  \<open>consumeVerificationValue\<close> on a plainly stored identifier, in the database or in both:
  the result before the expiry gate and the table it leaves.
\<close>

lemma consume_plain_mem:
  assumes ctx: "memory_ctx ctx cfg" and tab: "verification_table (rq_db s)"
    and sec: "ic_storage ctx = None \<or>
      (\<exists>S. ic_storage ctx = Some S \<and> secondary_storage S view life \<and> ic_verificationInDatabase ctx)"
    and plain: "\<not> not_plain ctx identifier"
  shows "\<exists>res t. consumeVerificationValue ctx clk identifier s =
      (Inr (expiry_gate ctx (date_at clk 1) res), t) \<and> verification_table (rq_db t) \<and>
    mem_rows (rq_db t) verification =
      filter (\<lambda>q. \<not> has_identifier (stored_identifier ctx identifier) q) (mem_rows (rq_db s) verification) \<and>
    (\<forall>m. m \<noteq> verification \<longrightarrow> mem_rows (rq_db t) m = mem_rows (rq_db s) m) \<and>
    (case res of
       None \<Rightarrow> \<not> (\<exists>q \<in> set (mem_rows (rq_db s) verification). has_identifier (stored_identifier ctx identifier) q)
     | Some r \<Rightarrow> newest (mem_rows (rq_db s) verification) (stored_identifier ctx identifier) r)"
proof -
  let ?i = "stored_identifier ctx identifier"
  from consumeByIdentifier_mem[OF ctx tab, of ?i] obtain res d where
    run: "consumeByIdentifier ctx ?i s = (Inr res, with_db d s)" and d: "verification_table d"
      "mem_rows d verification = filter (\<lambda>q. \<not> has_identifier ?i q) (mem_rows (rq_db s) verification)"
      "\<forall>m. m \<noteq> verification \<longrightarrow> mem_rows d m = mem_rows (rq_db s) m"
      "case res of
         None \<Rightarrow> \<not> (\<exists>q \<in> set (mem_rows (rq_db s) verification). has_identifier ?i q)
       | Some r \<Rightarrow> newest (mem_rows (rq_db s) verification) ?i r" by blast
  have first: "consume_first ctx [?i] s = (Inr res, with_db d s)"
    using run by (cases res) (simp_all add: bindA_def)
  have tries: "identifiersToTry ctx identifier = [?i]" using plain by (simp add: identifiersToTry_def Let_def)
  have "\<exists>q. consumeVerificationValue ctx clk identifier s =
      (Inr (expiry_gate ctx (date_at clk 1) res), with_db d (with_sec q s))"
  proof (cases "ic_storage ctx")
    case None
    with first show ?thesis
      by (intro exI[of _ "rq_sec s"])
         (simp add: consumeVerificationValue_def tries Let_def bindA_def del: consume_first.simps)
  next
    case (Some S)
    with sec have S: "secondary_storage S view life" "ic_verificationInDatabase ctx" by auto
    obtain q where "delete_all_keys S [cache_key ?i] (with_db d s) = (Inr (), with_sec q (with_db d s))"
      using delete_all_run[OF S(1), of "[cache_key ?i]" "with_db d s"] by blast
    with Some S(2) first show ?thesis
      by (intro exI[of _ "if res = None then rq_sec s else q"])
         (auto simp: consumeVerificationValue_def tries Let_def bindA_def simp del: consume_first.simps)
  qed
  with d show ?thesis by auto
qed

section \<open>The secondary storage path\<close>

lemma with_sec_sec [simp]: "with_sec q' (with_sec q s) = with_sec q' s"
  by (simp add: with_sec_def)

lemma consume_cached_run:
  assumes S: "secondary_storage S view life" and sub: "set rest \<subseteq> set tries"
  shows "\<exists>res q. consume_cached ctx S ref tries rest s = (Inr res, with_sec q s) \<and>
    view q = (\<lambda>k. if k \<in> cache_key ` set (if res = None then rest else tries) then None
                   else view (rq_sec s) k) \<and>
    (\<forall>r. res = Some r \<longrightarrow>
       (\<exists>i \<in> set rest. hydrateCachedVerification ctx ref (view (rq_sec s) (cache_key i)) = Some r))"
  using sub
proof (induction rest arbitrary: s)
  case Nil
  then show ?case by (intro exI[of _ None] exI[of _ "rq_sec s"]) simp
next
  case (Cons i rest)
  let ?k = "cache_key i" and ?v = "view (rq_sec s)"
  obtain q where q: "ss_getAndDelete S ?k (rq_sec s) = (Inr (?v ?k), q)" "view q = ?v(?k := None)"
    by (rule secondary_storage.getAndDelete_run[OF S])
  have empty: "hydrateCachedVerification ctx ref None = None"
    by (simp add: hydrateCachedVerification_def)
  show ?case
  proof (cases "hydrateCachedVerification ctx ref (?v ?k)")
    case None
    from Cons.prems have "set rest \<subseteq> set tries" by simp
    from Cons.IH[OF this, of "with_sec q s"] obtain res q' where IH:
      "consume_cached ctx S ref tries rest (with_sec q s) = (Inr res, with_sec q' (with_sec q s))"
      "view q' = (\<lambda>k. if k \<in> cache_key ` set (if res = None then rest else tries) then None
                       else view (rq_sec (with_sec q s)) k)"
      "\<forall>r. res = Some r \<longrightarrow> (\<exists>i \<in> set rest.
         hydrateCachedVerification ctx ref (view (rq_sec (with_sec q s)) (cache_key i)) = Some r)"
      by blast
    have run: "consume_cached ctx S ref tries (i # rest) s = (Inr res, with_sec q' s)"
      using None q(1) IH(1) by (simp add: bindA_def sec_run)
    have "view q' = (\<lambda>k. if k \<in> cache_key ` set (if res = None then i # rest else tries) then None
        else view (rq_sec s) k)"
      using IH(2) q(2) Cons.prems by (auto simp: fun_eq_iff)
    moreover have "\<forall>r. res = Some r \<longrightarrow> (\<exists>j \<in> set (i # rest).
        hydrateCachedVerification ctx ref (view (rq_sec s) (cache_key j)) = Some r)"
    proof (intro allI impI)
      fix r assume "res = Some r"
      with IH(3) obtain j where j: "j \<in> set rest"
        "hydrateCachedVerification ctx ref (view q (cache_key j)) = Some r" by auto
      then have "cache_key j \<noteq> ?k" using empty q(2) by auto
      with j q(2) show "\<exists>j \<in> set (i # rest).
          hydrateCachedVerification ctx ref (view (rq_sec s) (cache_key j)) = Some r" by auto
    qed
    ultimately show ?thesis using run by blast
  next
    case (Some r)
    obtain q' where "delete_all_keys S (map cache_key (filter (\<lambda>j. j \<noteq> i) tries)) (with_sec q s) =
        (Inr (), with_sec q' (with_sec q s))"
      "view q' = (\<lambda>k. if k \<in> set (map cache_key (filter (\<lambda>j. j \<noteq> i) tries)) then None
                       else view (rq_sec (with_sec q s)) k)"
      using delete_all_run[OF S, of "map cache_key (filter (\<lambda>j. j \<noteq> i) tries)" "with_sec q s"] by blast
    with Some q Cons.prems show ?thesis
      by (intro exI[of _ "Some r"] exI[of _ q']) (auto simp: bindA_def sec_run fun_eq_iff)
  qed
qed

section \<open>Properties\<close>


lemma demo_ictx_facts [simp]:
  "memory_ctx (demo_ictx S in_db) demo_cfg" "ic_storage (demo_ictx S in_db) = S"
  "ic_verificationInDatabase (demo_ictx S in_db) = in_db" "\<not> not_plain (demo_ictx S in_db) i"
  "stored_identifier (demo_ictx S in_db) i = i" "ic_host (demo_ictx S in_db) = hostEnv demo_cfg"
  "ic_adapter (demo_ictx S in_db) = mem_adapter demo_cfg" "ic_hooks (demo_ictx S in_db) = (\<lambda>_. no_hooks)"
  by (simp_all add: demo_ictx_def memory_ctx_def demo_cfg_def not_plain_def stored_identifier_def
      storage_option_def)

definition demo_code :: "string \<Rightarrow> string \<Rightarrow> int \<Rightarrow> int \<Rightarrow> row" where
  "demo_code i identifier created expires =
     [(''id'', Str i), (''identifier'', Str identifier), (''value'', Str i),
      (''createdAt'', DateV 1 created), (''expiresAt'', DateV 2 expires)]"

definition demo_table :: memdb where
  "demo_table = \<lparr>tables = [verification \<mapsto>
     [(0, demo_code ''a'' ''otp'' 10 9000), (1, demo_code ''b'' ''otp'' 20 9000),
      (2, demo_code ''c'' ''other'' 15 9000)]], next_ref = 3\<rparr>"

lemma demo_table_facts:
  "verification_table demo_table"
  "mem_rows demo_table verification = [demo_code ''a'' ''otp'' 10 9000, demo_code ''b'' ''otp'' 20 9000,
     demo_code ''c'' ''other'' 15 9000]"
  by (auto simp: verification_table_def wf_db_def demo_table_def mem_rows_def table_of_def demo_code_def)

definition demo_request :: "'q \<Rightarrow> (memdb, 'q) stores req" where
  "demo_request q = \<lparr>rq_store = \<lparr>st_db = demo_table, st_sec = q\<rparr>, rq_als = True, rq_tx = False,
     rq_pending = []\<rparr>"

lemma demo_request_sel [simp]: "rq_db (demo_request q) = demo_table" "rq_sec (demo_request q) = q"
  by (simp_all add: demo_request_def)


text \<open>
  C5. A value kept only in the secondary storage is consumed once: the call empties every
  key the identifier may be under (hashed or plain), leaves the other keys and the database
  alone, and every later call returns null. What it hands out was stored under one of these
  keys and has not expired.
\<close>

theorem cached_consumed_once:
  assumes S: "secondary_storage S view life"
    and ctx: "ic_storage ctx = Some S" "\<not> ic_verificationInDatabase ctx"
  shows "\<exists>res t. consumeVerificationValue ctx clk identifier s = (Inr res, t) \<and> rq_db t = rq_db s \<and>
    view (rq_sec t) = (\<lambda>k. if k \<in> cache_key ` set (identifiersToTry ctx identifier) then None
                          else view (rq_sec s) k) \<and>
    (\<forall>r. res = Some r \<longrightarrow>
       (\<exists>i \<in> set (identifiersToTry ctx identifier).
          hydrateCachedVerification ctx (fst (clk 0)) (view (rq_sec s) (cache_key i)) = Some r) \<and>
       \<not> js_less (ic_host ctx) (get_field r ''expiresAt'') (date_at clk 1)) \<and>
    (\<forall>clk'. fst (consumeVerificationValue ctx clk' identifier t) = Inr None)"
proof -
  let ?tries = "identifiersToTry ctx identifier"
  have run: "\<exists>res q. consumeVerificationValue ctx clk identifier s =
      (Inr (expiry_gate ctx (date_at clk 1) res), with_sec q s) \<and>
    view q = (\<lambda>k. if k \<in> cache_key ` set ?tries then None else view (rq_sec s) k) \<and>
    (\<forall>r. res = Some r \<longrightarrow> (\<exists>i \<in> set ?tries.
       hydrateCachedVerification ctx (fst (clk 0)) (view (rq_sec s) (cache_key i)) = Some r))" for clk s
  proof -
    from consume_cached_run[OF S subset_refl, of ctx "fst (clk 0)" ?tries s] obtain res q where
      c: "consume_cached ctx S (fst (clk 0)) ?tries ?tries s = (Inr res, with_sec q s)"
      "view q = (\<lambda>k. if k \<in> cache_key ` set (if res = None then ?tries else ?tries) then None
         else view (rq_sec s) k)"
      "\<forall>r. res = Some r \<longrightarrow> (\<exists>i \<in> set ?tries.
         hydrateCachedVerification ctx (fst (clk 0)) (view (rq_sec s) (cache_key i)) = Some r)"
      by blast
    then show ?thesis using ctx
      by (intro exI[of _ res] exI[of _ q])
         (simp add: consumeVerificationValue_def Let_def bindA_def del: consume_cached.simps)
  qed
  from run[of clk s] obtain res q where first: "consumeVerificationValue ctx clk identifier s =
      (Inr (expiry_gate ctx (date_at clk 1) res), with_sec q s)"
    and q: "view q = (\<lambda>k. if k \<in> cache_key ` set ?tries then None else view (rq_sec s) k)"
    and res: "\<forall>r. res = Some r \<longrightarrow> (\<exists>i \<in> set ?tries.
       hydrateCachedVerification ctx (fst (clk 0)) (view (rq_sec s) (cache_key i)) = Some r)" by blast
  have again: "fst (consumeVerificationValue ctx clk' identifier (with_sec q s)) = Inr None" for clk'
  proof -
    from run[of clk' "with_sec q s"] obtain res' where
      "fst (consumeVerificationValue ctx clk' identifier (with_sec q s)) =
         Inr (expiry_gate ctx (date_at clk' 1) res')"
      "\<forall>r. res' = Some r \<longrightarrow> (\<exists>i \<in> set ?tries.
         hydrateCachedVerification ctx (fst (clk' 0)) (view q (cache_key i)) = Some r)" by auto
    then show ?thesis
      using q by (cases res') (auto simp: expiry_gate_def hydrateCachedVerification_def)
  qed
  show ?thesis
    using first q res again
    by (intro exI[of _ "expiry_gate ctx (date_at clk 1) res"] exI[of _ "with_sec q s"])
       (auto simp: expiry_gate_def split: option.splits if_splits)
qed

definition demo_entries :: "cached entries" where
  "demo_entries = [(''verification:otp'', CVerification (demo_code ''a'' ''otp'' 10 9000), Some 8),
     (''verification:old'', CVerification (demo_code ''b'' ''old'' 10 50), Some 8),
     (''session'', CText ''x'', None)]"

theorem cached_consumed_once_witness:
  "\<exists>t. consumeVerificationValue (demo_ictx (Some map_storage) False) (\<lambda>_. (2, 100)) ''otp''
        (demo_request demo_entries) = (Inr (Some (revive_row (\<lambda>_. None) 2 (demo_code ''a'' ''otp'' 10 9000))), t) \<and>
    map_view (rq_sec t) ''verification:otp'' = None \<and>
    map_view (rq_sec t) ''session'' = Some (CText ''x'') \<and>
    fst (consumeVerificationValue (demo_ictx (Some map_storage) False) (\<lambda>_. (2, 100)) ''otp'' t) = Inr None"
proof -
  let ?ctx = "demo_ictx (Some map_storage) False :: (memdb, cached entries) ictx"
    and ?s = "demo_request demo_entries"
  have tries: "identifiersToTry ?ctx ''otp'' = [''otp'']" by (simp add: identifiersToTry_def Let_def)
  have "fst (consumeVerificationValue ?ctx (\<lambda>_. (2, 100)) ''otp'' ?s) =
      Inr (Some (revive_row (\<lambda>_. None) 2 (demo_code ''a'' ''otp'' 10 9000)))"
    by code_simp
  moreover have "map_view demo_entries ''session'' = Some (CText ''x'')"
    by (simp add: map_view_def demo_entries_def)
  ultimately show ?thesis
    using cached_consumed_once[OF map_store.secondary_storage_axioms, of ?ctx "\<lambda>_. (2, 100)" "''otp''" ?s]
    by (auto simp: tries cache_key_def)
qed

section \<open>Creating and finding\<close>

text \<open>The row written for \<open>data\<close> that does not set its own creation date.\<close>

lemma verification_row_fields:
  assumes "distinct (map fst data)" and "''createdAt'' \<notin> fst ` set data"
  shows "distinct (map fst (verification_row clk stored data))"
    and "get_field (verification_row clk stored data) ''identifier'' = Str stored"
    and "get_field (verification_row clk stored data) ''createdAt'' = date_at clk 0"
    and "\<And>f. f \<notin> {''identifier'', ''createdAt'', ''updatedAt''} \<Longrightarrow>
      get_field (verification_row clk stored data) f = get_field data f"
proof -
  show "distinct (map fst (verification_row clk stored data))"
    unfolding verification_row_def by (intro distinct_set_field distinct_object_assign) simp
  show "get_field (verification_row clk stored data) ''identifier'' = Str stored"
    and "get_field (verification_row clk stored data) ''createdAt'' = date_at clk 0"
    using assms by (simp_all add: verification_row_def get_object_assign)
  show "get_field (verification_row clk stored data) f = get_field data f"
    if "f \<notin> {''identifier'', ''createdAt'', ''updatedAt''}" for f
  proof (cases "f \<in> fst ` set data")
    case False
    then have "get_field data f = Undef" by (rule get_field_notin)
    with False assms that show ?thesis by (simp add: verification_row_def get_object_assign)
  qed (use assms that in \<open>simp add: verification_row_def get_object_assign\<close>)
qed

lemma mirror_run:
  assumes S: "secondary_storage S view life" and e: "get_field x ''expiresAt'' = DateV er e"
    and ttl: "now + 1000 \<le> e"
  obtains q where "mirror_verification ctx S now stored x s = (Inr (Some x), with_sec q s)"
    "view q (cache_key stored) = Some (CVerification (stringify x))"
proof -
  obtain q where q: "ss_set S (cache_key stored) (CVerification (stringify x))
      (Some (getTTLSeconds e now)) (rq_sec s) = (Inr (), q)"
    "view q = (view (rq_sec s))(cache_key stored \<mapsto> CVerification (stringify x))"
    by (rule secondary_storage.set_run[OF S])
  show thesis
    by (rule that[of q])
       (use q ttl in \<open>simp_all add: mirror_verification_def e getTTLSeconds_pos Let_def bindA_def sec_run\<close>)
qed

lemma cached_hit:
  assumes S: "secondary_storage S view life" and hit: "view (rq_sec s) key = Some (CVerification r)"
  shows "cached_verification ctx S ref key s = (Inr (Some (revive_row (ic_parseDate ctx) ref r)), s)"
  using secondary_storage.get_view[OF S, of key "rq_sec s"] hit
  by (simp add: cached_verification_def bindA_def sec_run)

lemma cleanup_run:
  assumes ctx: "memory_ctx ctx cfg" and wf: "wf_db (rq_db s)" "tables (rq_db s) verification \<noteq> None"
  obtains n d where "delete_expired_verifications ctx (DateV i now) s = (Inr n, with_db d s)"
    "wf_db d" "tables d verification \<noteq> None"
    "mem_rows d verification =
       filter (\<lambda>r. \<not> js_less (hostEnv cfg) (get_field r ''expiresAt'') (DateV i now)) (mem_rows (rq_db s) verification)"
proof -
  let ?ws = "[wh ''expiresAt'' Op_lt (DateV i now)]"
  from wf(2) obtain os where os: "tables (rq_db s) verification = Some os" by auto
  have "\<exists>es. a_findMany (mem_adapter cfg) verification ?ws None None None (rq_db s) = (Inr es, rq_db s)"
    by (simp add: mem_findMany_app matching_objs_simple[OF os])
  then obtain es where "a_findMany (ic_db ctx) verification ?ws None None None (rq_store s) = (Inr es, rq_store s)"
    using ctx by (auto simp: memory_ctx_def on_db_app)
  note run = deleteMany_no_hooks(1)[OF this]
  obtain n d where d: "mem_deleteMany cfg verification ?ws (rq_db s) = (Inr n, d)" "wf_db d"
    "mem_rows d verification =
       filter (\<lambda>r. \<not> list_all (clause_holds (hostEnv cfg) r) ?ws) (mem_rows (rq_db s) verification)"
    "\<And>m. tables d m = None \<longleftrightarrow> tables (rq_db s) m = None"
    by (rule mem_deleteMany_simple[OF wf, of ?ws cfg]) (simp, rule that)
  have "delete_expired_verifications ctx (DateV i now) s = (Inr (Num (int n)), with_db d s)"
    using run ctx d(1)
    by (simp add: delete_expired_verifications_def v_hooks_def memory_ctx_def bindA_def onStore_on_db db_run)
  with d wf(2) show thesis by (intro that[of "Num (int n)" d]) auto
qed

text \<open>What \<open>find_in_database\<close> returns once the row is there.\<close>

lemma find_created_mem:
  assumes ctx: "memory_ctx ctx cfg" and d: "wf_db (rq_db s)" "dated_table (rq_db s)"
    and rows: "mem_rows (rq_db s) verification = old @ [x]"
    and x: "has_identifier (stored_identifier ctx i) x"
    and newer: "\<And>r. r \<in> set old \<Longrightarrow> has_identifier (stored_identifier ctx i) r \<Longrightarrow>
      date_time (get_field r ''createdAt'') < date_time (get_field x ''createdAt'')"
  obtains u where "find_in_database ctx clk i s = (Inr (Some x), u)"
proof -
  from ctx d(2) show thesis
  proof (cases rule: find_latest_mem[where i = "stored_identifier ctx i"])
    case none
    with rows x show thesis by auto
  next
    case (some r rest)
    from some(2) x newer[of r] rows have r: "r = x"
      by (auto simp: newest_def dest: spec[of _ x])
    have "tables (rq_db s) verification \<noteq> None" using d(2) by (simp add: dated_table_def)
    from cleanup_run[OF ctx d(1) this] obtain n d' where
      "delete_expired_verifications ctx (date_at clk 1) s = (Inr n, with_db d' s)"
      by (metis date_at_def)
    with some(1)[of s] r show thesis
      by (intro that[of "if ic_disableCleanup ctx then s else with_db d' s"])
         (simp add: find_in_database_def bindA_def)
  qed
qed

lemma dated_append:
  assumes "dated_table d0" and "mem_rows d verification = mem_rows d0 verification @ [x]"
    and "tables d verification \<noteq> None" and "get_field x ''createdAt'' = date_at clk n"
  shows "dated_table d"
  using assms by (auto simp: dated_table_def date_at_def)

text \<open>
  What a creation leaves: a row with the given columns, the last of its table when there
  is no secondary storage, and under the identifier's key when there is one.
\<close>

definition good_row :: "string \<Rightarrow> val \<Rightarrow> string \<Rightarrow> val \<Rightarrow> row \<Rightarrow> bool" where
  "good_row i created v e x \<longleftrightarrow> distinct (map fst x) \<and> get_field x ''identifier'' = Str i \<and>
     get_field x ''createdAt'' = created \<and> get_field x ''value'' = Str v \<and> get_field x ''expiresAt'' = e"

lemma create_verification_run:
  assumes ctx: "memory_ctx ctx cfg" and wf: "wf_db (rq_db s)"
    and table: "tables (rq_db s) (getModelName cfg verification) \<noteq> None"
    and sec: "ic_storage ctx = None \<or> (\<exists>S. ic_storage ctx = Some S \<and> secondary_storage S view life)"
    and data: "distinct (map fst data)" "''createdAt'' \<notin> fst ` set data"
      "get_field data ''identifier'' = Str i" "get_field data ''value'' = Str v"
      "get_field data ''expiresAt'' = DateV er e"
    and lives: "now_ms clk 2 + 1000 \<le> e"
  obtains x t where "createVerificationValue ctx clk data s = (Inr (Some x), t)"
    "good_row (stored_identifier ctx i) (date_at clk 0) v (DateV er e) x"
    "\<And>S. ic_storage ctx = Some S \<Longrightarrow>
       view (rq_sec t) (cache_key (stored_identifier ctx i)) = Some (CVerification (stringify x))"
    "ic_storage ctx = None \<Longrightarrow> wf_db (rq_db t) \<and> tables (rq_db t) verification \<noteq> None \<and>
       mem_rows (rq_db t) verification = mem_rows (rq_db s) verification @ [x]"
proof -
  let ?i = "stored_identifier ctx i"
  let ?row = "verification_row clk ?i data"
  let ?ok = "good_row ?i (date_at clk 0) v (DateV er e)"
  have row: "?ok ?row"
    using verification_row_fields[OF data(1,2)] data(4,5) by (simp add: good_row_def)
  then have row_id: "?ok (set_field ?row ''id'' (Num n))" for n
    by (simp add: good_row_def distinct_set_field)
  have id: "identifier_of data = i" by (simp add: identifier_of_def data)
  obtain d x where create: "mem_create cfg verification ?row (rq_db s) = (Inr x, d)" and d: "wf_db d"
    and x: "x = ?row \<or> (\<exists>n. x = set_field ?row ''id'' (Num n))"
    and rows: "mem_rows d verification = mem_rows (rq_db s) verification @ [x]"
    and t: "tables d verification \<noteq> None"
    by (rule create_mem[OF wf table])
  from x row row_id have ok: "?ok x" by blast
  have A: "ic_adapter ctx = mem_adapter cfg" and H: "v_hooks ctx = no_hooks"
    using ctx by (simp_all add: memory_ctx_def v_hooks_def)
  have stored: "onStore (a_create (ic_db ctx) verification ?row) s = (Inr x, with_db d s)"
    using db_run[of "mem_create cfg verification ?row" s, OF create] by (simp add: onStore_on_db A)
  note create = createVerificationValue_def Let_def id H create_no_hooks bindA_def
  show thesis
  proof (cases "ic_storage ctx")
    case None
    with stored ok d rows t show thesis by (intro that[of x "with_db d s"]) (simp_all add: create)
  next
    case (Some S)
    with sec have S: "secondary_storage S view life" by auto
    have mirrored: "\<exists>q. mirror_verification ctx S (now_ms clk 2) ?i y u = (Inr (Some y), with_sec q u) \<and>
        view q (cache_key ?i) = Some (CVerification (stringify y))" if "?ok y" for y u
      using that by (auto simp: good_row_def intro: mirror_run[OF S _ lives, of y er ctx ?i u])
    from mirrored[OF ok, of "with_db d s"] mirrored[OF row, of s] obtain q p where
      "mirror_verification ctx S (now_ms clk 2) ?i x (with_db d s) = (Inr (Some x), with_sec q (with_db d s))"
      "view q (cache_key ?i) = Some (CVerification (stringify x))"
      "mirror_verification ctx S (now_ms clk 2) ?i ?row s = (Inr (Some ?row), with_sec p s)"
      "view p (cache_key ?i) = Some (CVerification (stringify ?row))" by blast
    with Some stored ok row show thesis
      by (cases "ic_verificationInDatabase ctx")
        (intro that[of x "with_sec q (with_db d s)"] that[of ?row "with_sec p s"]; simp add: create del: with_sec_db)+
  qed
qed

text \<open>
  C6. A created verification value is found. In the database, the secondary storage or both,
  \<open>createVerificationValue\<close> with a value that lives at least one more second succeeds, and
  the next \<open>findVerificationValue\<close> of the identifier returns a value with the created
  value, the stored identifier and the same expiry, also when older values of the identifier
  are still there. (Texts that look like ISO dates are excluded: the cache gives them back
  as dates.)
\<close>

theorem created_value_is_found:
  assumes ctx: "memory_ctx ctx cfg" and wf: "wf_db (rq_db s)" and tab: "dated_table (rq_db s)"
    and table: "tables (rq_db s) (getModelName cfg verification) \<noteq> None"
    and sec: "ic_storage ctx = None \<or> (\<exists>S. ic_storage ctx = Some S \<and> secondary_storage S view life)"
    and data: "distinct (map fst data)" "''createdAt'' \<notin> fst ` set data"
      "get_field data ''identifier'' = Str i" "get_field data ''value'' = Str v"
      "get_field data ''expiresAt'' = DateV er e"
    and undated: "\<not> iso8601 v" "\<not> iso8601 (stored_identifier ctx i)"
    and lives: "now_ms clk 2 + 1000 \<le> e"
    and newer: "\<And>r. r \<in> set (mem_rows (rq_db s) verification) \<Longrightarrow>
      has_identifier (stored_identifier ctx i) r \<Longrightarrow> date_time (get_field r ''createdAt'') < snd (clk 0)"
  shows "\<exists>c t r u. createVerificationValue ctx clk data s = (Inr (Some c), t) \<and>
    findVerificationValue ctx clk' i t = (Inr (Some r), u) \<and>
    get_field r ''value'' = Str v \<and> get_field r ''identifier'' = Str (stored_identifier ctx i) \<and>
    time_of (get_field r ''expiresAt'') = Some e"
proof -
  let ?i = "stored_identifier ctx i"
  from create_verification_run[OF ctx wf table sec data lives] obtain x t where
    run: "createVerificationValue ctx clk data s = (Inr (Some x), t)"
    and ok: "good_row ?i (date_at clk 0) v (DateV er e) x"
    and cached: "\<And>S. ic_storage ctx = Some S \<Longrightarrow>
       view (rq_sec t) (cache_key ?i) = Some (CVerification (stringify x))"
    and db: "ic_storage ctx = None \<Longrightarrow> wf_db (rq_db t) \<and> tables (rq_db t) verification \<noteq> None \<and>
       mem_rows (rq_db t) verification = mem_rows (rq_db s) verification @ [x]" by blast
  show ?thesis
  proof (cases "ic_storage ctx")
    case None
    note db = db[OF None]
    have "dated_table (rq_db t)"
      by (rule dated_append[OF tab]) (use db ok in \<open>auto simp: good_row_def\<close>)
    moreover have "date_time (get_field r ''createdAt'') < date_time (get_field x ''createdAt'')"
      if "r \<in> set (mem_rows (rq_db s) verification)" "has_identifier ?i r" for r
      using newer[OF that] ok by (simp add: good_row_def date_at_def)
    ultimately obtain u where "find_in_database ctx clk' i t = (Inr (Some x), u)"
      using find_created_mem[OF ctx, of t "mem_rows (rq_db s) verification" x i clk'] db ok
      by (auto simp: good_row_def has_identifier_def)
    with None run ok show ?thesis by (simp add: findVerificationValue_def good_row_def)
  next
    case (Some S)
    with sec have "secondary_storage S view life" by auto
    from cached_hit[OF this cached[OF Some], of ctx "fst (clk' 0)"] Some run ok undated show ?thesis
      by (simp add: findVerificationValue_def bindA_def good_row_def get_revive_row get_stringify)
  qed
qed

theorem created_value_is_found_witness:
  "\<exists>c t r u. createVerificationValue (demo_ictx (Some map_storage) True) (\<lambda>_. (4, 1000))
        [(''identifier'', Str ''otp''), (''value'', Str ''123456''), (''expiresAt'', DateV 5 90000)]
        (demo_request demo_entries) = (Inr (Some c), t) \<and>
    findVerificationValue (demo_ictx (Some map_storage) True) (\<lambda>_. (6, 2000)) ''otp'' t = (Inr (Some r), u) \<and>
    get_field r ''value'' = Str ''123456''"
proof -
  let ?ctx = "demo_ictx (Some map_storage) True :: (memdb, cached entries) ictx"
  let ?data = "[(''identifier'', Str ''otp''), (''value'', Str ''123456''), (''expiresAt'', DateV 5 90000)]"
  have table: "tables (rq_db (demo_request demo_entries)) (getModelName demo_cfg verification) \<noteq> None"
    by (simp add: demo_cfg_def demo_table_def)
  have wf: "wf_db (rq_db (demo_request demo_entries))" "dated_table (rq_db (demo_request demo_entries))"
    using demo_table_facts(1) by (simp_all add: verification_table_def verification_table_dated)
  have plain: "\<not> iso8601 ''123456''" "\<not> iso8601 ''otp''" by code_simp+
  show ?thesis
    using created_value_is_found[of ?ctx demo_cfg "demo_request demo_entries" map_view map_life ?data
        "''otp''" "''123456''" 5 90000 "\<lambda>_. (4, 1000)" "\<lambda>_. (6, 2000)"]
      wf table plain map_store.secondary_storage_axioms
    by (fastforce simp: now_ms_def demo_table_facts demo_code_def)
qed

section \<open>Reserving\<close>

text \<open>
  What the reservation needs of a database, as every one with a primary key gives it:
  \<open>has d i\<close> says the table holds a row with id \<open>i\<close>.
\<close>

definition keyed_by_id :: "'s adapter \<Rightarrow> ('s \<Rightarrow> string \<Rightarrow> bool) \<Rightarrow> bool" where
  "keyed_by_id A has \<longleftrightarrow>
     (\<forall>r i d. get_field r ''id'' = Str i \<longrightarrow> has d i \<longrightarrow> isl (fst (a_create A verification r d))) \<and>
     (\<forall>r i d. get_field r ''id'' = Str i \<longrightarrow> \<not> isl (fst (a_create A verification r d)) \<longrightarrow>
        has (snd (a_create A verification r d)) i) \<and>
     (\<forall>r d. isl (fst (a_create A verification r d)) \<longrightarrow> snd (a_create A verification r d) = d) \<and>
     (\<forall>i d x d'. a_findOne A verification [wh_eq ''id'' (Str i)] d = (Inr x, d') \<longrightarrow>
        d' = d \<and> (x \<noteq> None \<longleftrightarrow> has d i))"

lemma keyed_by_idD:
  assumes "keyed_by_id A has"
  shows "get_field r ''id'' = Str i \<Longrightarrow> a_create A verification r d = (Inr x, d') \<Longrightarrow> \<not> has d i \<and> has d' i"
    and "a_create A verification r d = (Inl e, d') \<Longrightarrow> d' = d"
    and "a_findOne A verification [wh_eq ''id'' (Str i)] d = (Inr y, d') \<Longrightarrow> d' = d \<and> (y \<noteq> None \<longleftrightarrow> has d i)"
  using assms unfolding keyed_by_id_def by (metis fst_conv snd_conv isl_def sum.distinct(1))+

lemma mirror_reservation_db: "rq_db (snd (mirror_reservation ctx now i v e s)) = rq_db s"
  by (auto simp: mirror_reservation_def sec_def onStore_app on_sec_app bindA_def Let_def
      split: option.split prod.split sum.split)

lemma reserve_step:
  assumes key: "keyed_by_id A has" and A: "ic_adapter ctx = A" and db: "uses_database ctx"
    and run: "reserveVerificationValue ctx clk i v e s = (Inr b, t)"
  shows "b = (\<not> has (rq_db s) (reservation_id ctx i)) \<and> has (rq_db t) (reservation_id ctx i)"
proof -
  let ?R = "reservation_id ctx i" and ?row = "reserve_row ctx clk i v e"
  obtain r d where create: "a_create A verification ?row (rq_db s) = (r, d)" by force
  have id: "get_field ?row ''id'' = Str ?R" by (simp add: reserve_row_def)
  have step: "db (a_create A verification ?row) s = (r, with_db d s)"
    using db_run[of "a_create A verification ?row" s, OF create] .
  show ?thesis
  proof (cases r)
    case (Inr x)
    with keyed_by_idD(1)[OF key id] create have "\<not> has (rq_db s) ?R \<and> has d ?R" by blast
    moreover have "\<exists>m. mirror_reservation ctx (now_ms clk 2) i v e (with_db d s) = (m, t) \<and> b"
      using run db step Inr A
      by (auto simp: reserveVerificationValue_def bindA_def catchA_def split: prod.splits sum.splits)
    ultimately show ?thesis using mirror_reservation_db[of ctx "now_ms clk 2" i v e "with_db d s"] by auto
  next
    case (Inl err)
    with keyed_by_idD(2)[OF key] create have d: "d = rq_db s" by blast
    obtain x d' where find: "a_findOne A verification [wh_eq ''id'' (Str ?R)] (rq_db s) = (x, d')" by force
    from db_run[of "a_findOne A verification [wh_eq ''id'' (Str ?R)]" s, OF find] run db step Inl A d
    obtain y where "x = Inr (Some y)" "\<not> b" "t = with_db d' s"
      by (auto simp: reserveVerificationValue_def bindA_def catchA_def split: prod.splits sum.splits if_splits option.splits)
    with keyed_by_idD(3)[OF key] find show ?thesis by fastforce
  qed
qed

definition reserve_all ::
  "('s, 'q) ictx \<Rightarrow> string \<Rightarrow> (clock \<times> string \<times> val) list \<Rightarrow> ('s, 'q, bool list) iact"
where
  "reserve_all ctx i = mapA (\<lambda>(clk, v, e). reserveVerificationValue ctx clk i v e)"

text \<open>
  C7. A reservation has one winner. On a database that enforces its primary key, of any
  sequence of reservations of one identifier exactly the first succeeds, and none when the
  marker was already there; with verification kept in the secondary storage only, a
  reservation fails and changes nothing.
\<close>

theorem reservation_has_one_winner:
  assumes "keyed_by_id (ic_adapter ctx) has" and "attempts \<noteq> []"
  shows "if uses_database ctx
    then (\<forall>bs t. reserve_all ctx i attempts s = (Inr bs, t) \<longrightarrow>
      bs = (\<not> has (rq_db s) (reservation_id ctx i)) # replicate (length attempts - 1) False)
    else reserve_all ctx i attempts s = (Inl not_database_backed, s)"
proof -
  have all: "bs = replicate (length xs) False"
    if "uses_database ctx" "has (rq_db u) (reservation_id ctx i)" "reserve_all ctx i xs u = (Inr bs, t)"
    for xs bs u t
    using that
  proof (induction xs arbitrary: bs u)
    case (Cons x xs)
    obtain clk v e where x: "x = (clk, v, e)" by (cases x)
    from Cons.prems(3) obtain b bs' u' where
      "reserveVerificationValue ctx clk i v e u = (Inr b, u')" "reserve_all ctx i xs u' = (Inr bs', t)"
      "bs = b # bs'" by (auto simp: reserve_all_def x bindA_Inr_iff)
    with Cons reserve_step[OF assms(1) refl, of clk i v e u b u'] show ?case by auto
  qed (simp add: reserve_all_def)
  obtain clk v e xs where a: "attempts = (clk, v, e) # xs" using assms(2) by (cases attempts) auto
  show ?thesis
  proof (cases "uses_database ctx")
    case True
    have "bs = (\<not> has (rq_db s) (reservation_id ctx i)) # replicate (length attempts - 1) False"
      if run: "reserve_all ctx i attempts s = (Inr bs, t)" for bs t
    proof -
      from run obtain b bs' u where
        "reserveVerificationValue ctx clk i v e s = (Inr b, u)" "reserve_all ctx i xs u = (Inr bs', t)"
        "bs = b # bs'" by (auto simp: reserve_all_def a bindA_Inr_iff)
      with reserve_step[OF assms(1) refl True, of clk i v e s b u] all[OF True, of u xs bs' t]
      show ?thesis by (simp add: a)
    qed
    with True show ?thesis by simp
  next
    case False
    then show ?thesis by (simp add: reserve_all_def a bindA_def reserveVerificationValue_def)
  qed
qed

text \<open>The memory adapter behind a check of the primary key, for the witness.\<close>

definition mem_has_id :: "memdb \<Rightarrow> string \<Rightarrow> bool" where
  "mem_has_id d i \<longleftrightarrow> list_ex (\<lambda>r. get_field r ''id'' = Str i) (mem_rows d verification)"

definition keyed_adapter :: "mem_config \<Rightarrow> memdb adapter" where
  "keyed_adapter cfg = (mem_adapter cfg)
     \<lparr>a_create := \<lambda>m r d. if list_ex (\<lambda>q. get_field q ''id'' = get_field r ''id'') (mem_rows d m)
        then (Inl (Throw ''duplicate key''), d) else mem_create cfg m r d\<rparr>"

lemma keyed_adapter_keyed: "\<not> useNumberId cfg \<Longrightarrow> keyed_by_id (keyed_adapter cfg) mem_has_id"
  unfolding keyed_by_id_def
proof (intro conjI allI impI; (elim conjE)?)
  fix i d x d'
  assume "a_findOne (keyed_adapter cfg) verification [wh_eq ''id'' (Str i)] d = (Inr x, d')"
  then have run: "a_findOne (mem_adapter cfg) verification [wh_eq ''id'' (Str i)] d = (Inr x, d')"
    by (simp add: keyed_adapter_def)
  show "d' = d" by (rule mem_findOne_cases(1)[OF run])
  show "(x \<noteq> None) = mem_has_id d i"
  proof (cases x)
    case None
    with mem_findOne_cases(3)[OF run] show ?thesis by (auto simp: mem_has_id_def list_ex_iff mem_sat_simple)
  next
    case (Some r)
    with mem_findOne_cases(2)[OF run] show ?thesis by (auto simp: mem_has_id_def list_ex_iff mem_sat_simple)
  qed
qed (auto simp: keyed_adapter_def mem_create_def mem_has_id_def mem_rows_def table_of_def set_table_def
    split: if_splits)

theorem reservation_has_one_winner_witness:
  "let ctx = (demo_ictx None False)\<lparr>ic_adapter := keyed_adapter demo_cfg\<rparr>;
       a = [(\<lambda>_. (4, 1000), ''x'', DateV 5 9000), (\<lambda>_. (6, 1001), ''y'', DateV 7 9000)]
   in reserve_all ctx ''saml'' a (demo_request ()) = (Inr [True, False], snd (reserve_all ctx ''saml'' a (demo_request ())))"
proof -
  let ?ctx = "(demo_ictx None False)\<lparr>ic_adapter := keyed_adapter demo_cfg\<rparr> :: (memdb, unit) ictx"
  let ?a = "[(\<lambda>_. (4, 1000), ''x'', DateV 5 9000), (\<lambda>_. (6, 1001), ''y'', DateV 7 9000)]"
  have keyed: "keyed_by_id (ic_adapter ?ctx) mem_has_id"
    using keyed_adapter_keyed[of demo_cfg] by (simp add: demo_cfg_def)
  have "uses_database ?ctx" "\<not> mem_has_id (rq_db (demo_request ())) (reservation_id ?ctx ''saml'')"
    by (code_simp, simp add: mem_has_id_def demo_table_facts demo_code_def reservation_id_def demo_ictx_def)
  moreover have "\<not> isl (fst (reserve_all ?ctx ''saml'' ?a (demo_request ())))" by code_simp
  ultimately show ?thesis
    using reservation_has_one_winner[OF keyed, of ?a "''saml''" "demo_request ()"]
    by (cases "fst (reserve_all ?ctx ''saml'' ?a (demo_request ()))") (auto simp: Let_def prod_eq_iff)
qed

end
