(* ===== verification/SessionStore.thy ===== *)
theory SessionStore
  imports InternalContext
begin

text \<open>
  Sessions, the session operations of \<open>packages/cinaauth/src/db/internal-adapter.ts\<close>, over
  the database, the secondary storage, or both.

  In the secondary storage a session with its user is kept under its token, and the list of
  a user's active sessions (token and expiry) under \<open>active-sessions-<userId>\<close>. Under a key
  of the second kind the library writes only such lists. Functions that also run in hooks,
  after the request's context is gone, are actions on the two stores (\<open>sact\<close>); the request
  lifts them with \<open>onStore\<close>. \<open>clk\<close> gives the successive \<open>new Date()\<close> and \<open>Date.now()\<close> of an
  operation; objects parsed from a text get the identity of its first. Logging is left out.
\<close>

section \<open>Active sessions\<close>

abbreviation session :: string where "session \<equiv> ''session''"

definition active_key :: "string \<Rightarrow> string" where
  "active_key userId = ''active-sessions-'' @ userId"

type_synonym session_ref = "string \<times> int"

definition parse_cached :: "('s, 'q) ictx \<Rightarrow> nat \<Rightarrow> cached option \<Rightarrow> cached option" where
  "parse_cached ctx ref c = Option.bind c (safeJSONParse (ic_parseDate ctx) ref)"

text \<open>\<open>raw ? safeJSONParse(raw) || [] : []\<close>\<close>

definition session_refs :: "cached option \<Rightarrow> session_ref list" where
  "session_refs c = (case c of Some (CActive l) \<Rightarrow> l | _ \<Rightarrow> [])"

text \<open>The references that have not expired, without some tokens, by expiry.\<close>

definition live_refs :: "int \<Rightarrow> string list \<Rightarrow> session_ref list \<Rightarrow> session_ref list" where
  "live_refs now gone l = filter (\<lambda>(token, expiresAt). expiresAt > now \<and> token \<notin> set gone) l"

definition furthest :: "session_ref list \<Rightarrow> int option" where
  "furthest refs = (if refs = [] then None else Some (snd (last refs)))"

definition getActiveSessionReferences :: "('s, 'q) ictx \<Rightarrow> string \<Rightarrow> ('s, 'q, session_ref list) sact" where
  "getActiveSessionReferences ctx userId =
     (case ic_storage ctx of
        None \<Rightarrow> returnA []
      | Some S \<Rightarrow> bindA (on_sec (ss_get S (active_key userId))) (\<lambda>c. returnA (session_refs c)))"

fun delete_tokens :: "('q, cached) sec_storage \<Rightarrow> string list \<Rightarrow> ('s, 'q, unit) sact" where
  "delete_tokens S [] = returnA ()"
| "delete_tokens S (t # ts) = bindA (on_sec (ss_delete S t)) (\<lambda>_. delete_tokens S ts)"

text \<open>Writing the list back, or removing it when nothing is left.\<close>

definition write_refs ::
  "('q, cached) sec_storage \<Rightarrow> int \<Rightarrow> string \<Rightarrow> session_ref list \<Rightarrow> ('s, 'q, unit) sact"
where
  "write_refs S now key refs =
     (case furthest refs of
        Some e \<Rightarrow> if e \<noteq> 0 then on_sec (ss_set S key (CActive refs) (Some (getTTLSeconds e now)))
                  else on_sec (ss_delete S key)
      | None \<Rightarrow> on_sec (ss_delete S key))"

definition deleteCachedUserSessions ::
  "('s, 'q) ictx \<Rightarrow> int \<Rightarrow> string \<Rightarrow> session_ref list \<Rightarrow> ('s, 'q, unit) sact"
where
  "deleteCachedUserSessions ctx now userId sessionReferences =
     (case ic_storage ctx of
        None \<Rightarrow> returnA ()
      | Some S \<Rightarrow>
          bindA (delete_tokens S (map fst sessionReferences)) (\<lambda>_.
          bindA (getActiveSessionReferences ctx userId) (\<lambda>current.
            write_refs S now (active_key userId)
              (sort_key snd (live_refs now (map fst sessionReferences) current)))))"

text \<open>\<open>onError\<close> of the queued clean-ups: the error is logged.\<close>

definition log_error :: "err \<Rightarrow> ('s, 'q, unit) sact" where
  "log_error e = returnA ()"

definition queueCachedUserSessionDeletion ::
  "('s, 'q) ictx \<Rightarrow> int \<Rightarrow> string \<Rightarrow> session_ref list option \<Rightarrow> ('s, 'q, unit) iact"
where
  "queueCachedUserSessionDeletion ctx now userId sessionReferences =
     (if ic_storage ctx = None then returnA ()
      else
        bindA (case sessionReferences of
                 Some refs \<Rightarrow> returnA refs
               | None \<Rightarrow> onStore (getActiveSessionReferences ctx userId))
          (\<lambda>references.
             queueAfterTransactionHook (deleteCachedUserSessions ctx now userId references)
               (Some log_error)))"

section \<open>Preserved sessions\<close>

definition endPreservedSessions ::
  "('s, 'q) ictx \<Rightarrow> clock \<Rightarrow> CleanedWhere list \<Rightarrow> ('s, 'q, val) iact"
where
  "endPreservedSessions ctx clk ws =
     (let liveSessions = ws @ [wh ''expiresAt'' Op_gt (date_at clk 0)] in
      deleteManyWithHooks (ic_db ctx) (ic_hooks ctx session) liveSessions session
        (Some (bindA (db (a_updateMany (ic_adapter ctx) session liveSessions [(''expiresAt'', date_at clk 1)]))
                 (\<lambda>_. returnA ()), False)))"

section \<open>Refreshing the user in cached sessions\<close>

definition refresh_session ::
  "('s, 'q) ictx \<Rightarrow> ('q, cached) sec_storage \<Rightarrow> nat \<Rightarrow> int \<Rightarrow> row \<Rightarrow> string \<Rightarrow> ('s, 'q, unit) sact"
where
  "refresh_session ctx S ref now user token =
     bindA (on_sec (ss_get S token)) (\<lambda>cached.
       case parse_cached ctx ref cached of
         None \<Rightarrow> returnA ()
       | Some (CSession s _) \<Rightarrow>
           bindA (liftR (date_ms (get_field s ''expiresAt''))) (\<lambda>e.
             on_sec (ss_set S token (CSession (stringify s) (Some (stringify user)))
               (Some (getTTLSeconds e now))))
       | Some _ \<Rightarrow> throwA TypeError)"

definition refreshUserSessions :: "('s, 'q) ictx \<Rightarrow> clock \<Rightarrow> row option \<Rightarrow> ('s, 'q, unit) sact" where
  "refreshUserSessions ctx clk user =
     (case (ic_storage ctx, user) of
        (None, _) \<Rightarrow> returnA ()
      | (Some S, None) \<Rightarrow> throwA TypeError
      | (Some S, Some u) \<Rightarrow>
          bindA (getActiveSessionReferences ctx (js_String (ic_host ctx) (get_field u ''id''))) (\<lambda>l.
            promise_all (refresh_session ctx S (fst (clk 0)) (now_ms clk 0) u)
              (map fst (live_refs (now_ms clk 0) [] l))))"

section \<open>Creating\<close>

text \<open>
  What a creation takes from its surroundings: the client's address and user agent when the
  request has headers, the generated id and token.
\<close>

record session_env =
  se_headers :: "(string option \<times> string option) option"
  se_id :: string
  se_token :: string

definition or_empty :: "string option \<Rightarrow> val" where
  "or_empty x = Str (case x of None \<Rightarrow> [] | Some t \<Rightarrow> t)"

definition session_expiration :: "('s, 'q) ictx \<Rightarrow> int" where
  "session_expiration ctx = (if ic_expiresIn ctx = 0 then 60 * 60 * 24 * 7 else ic_expiresIn ctx)"

definition session_data ::
  "('s, 'q) ictx \<Rightarrow> clock \<Rightarrow> session_env \<Rightarrow> string \<Rightarrow> bool \<Rightarrow> row \<Rightarrow> bool \<Rightarrow> row"
where
  "session_data ctx clk env userId dontRememberMe override overrideAll =
     (let rest = filter (\<lambda>(k, _). k \<noteq> ''id'') override;
          sessionId = (if ic_storage ctx \<noteq> None \<and> \<not> ic_sessionInDatabase ctx
                       then [(''id'', Str (se_id env))] else []);
          client = (case se_headers env of
              Some (ip, ua) \<Rightarrow> [(''ipAddress'', or_empty ip), (''userAgent'', or_empty ua)]
            | None \<Rightarrow> [(''ipAddress'', Str []), (''userAgent'', Str [])]);
          span = (if dontRememberMe then 60 * 60 * 24 else session_expiration ctx);
          own = [(''expiresAt'', DateV (fst (clk 0)) (snd (clk 0) + span * 1000)),
                 (''userId'', Str userId), (''token'', Str (se_token env)),
                 (''createdAt'', date_at clk 1), (''updatedAt'', date_at clk 2)];
          data = object_assign (object_assign (object_assign (sessionId @ client) rest) own)
                   (getSessionDefaultFields (ic_schema ctx))
      in if overrideAll then object_assign data rest else data)"

text \<open>\<open>data.token\<close>, a string by its type, and \<open>data.expiresAt.getTime()\<close>.\<close>

definition token_of :: "row \<Rightarrow> string" where
  "token_of data = (case get_field data ''token'' of Str t \<Rightarrow> t | _ \<Rightarrow> [])"

fun getTime :: "val \<Rightarrow> int res" where
  "getTime (DateV _ t) = Inr t"
| "getTime _ = Inl TypeError"

definition mirrorSessionToSecondaryStorage ::
  "('s, 'q) ictx \<Rightarrow> ('q, cached) sec_storage \<Rightarrow> int \<Rightarrow> string \<Rightarrow> row \<Rightarrow> row \<Rightarrow> ('s, 'q, row) sact"
where
  "mirrorSessionToSecondaryStorage ctx S now userId data sessionData =
     bindA (getActiveSessionReferences ctx userId) (\<lambda>current.
     bindA (liftR (getTime (get_field data ''expiresAt''))) (\<lambda>expiresAt.
       let token = token_of data;
           refs = sort_key snd (live_refs now [token] current @ [(token, expiresAt)]);
           furthestTTL = getTTLSeconds (snd (last refs)) now;
           ttl = getTTLSeconds expiresAt now
       in bindA (if furthestTTL > 0
                 then on_sec (ss_set S (active_key userId) (CActive refs) (Some furthestTTL))
                 else returnA ()) (\<lambda>_.
          bindA (on_db (a_findOne (ic_adapter ctx) ''user'' [wh_eq ''id'' (Str userId)])) (\<lambda>user.
          bindA (if ttl > 0
                 then on_sec (ss_set S token
                   (CSession (stringify sessionData) (map_option stringify user)) (Some ttl))
                 else returnA ()) (\<lambda>_.
            returnA sessionData)))))"

definition createSession ::
  "('s, 'q) ictx \<Rightarrow> clock \<Rightarrow> session_env \<Rightarrow> string \<Rightarrow> bool \<Rightarrow> row \<Rightarrow> bool \<Rightarrow> bool \<Rightarrow>
     ('s, 'q, row option) iact"
where
  "createSession ctx clk env userId dontRememberMe override overrideAll deferSecondaryStorageWrites =
     (let data = session_data ctx clk env userId dontRememberMe override overrideAll;
          databaseSessionFallbackEnabled = (ic_sessionInDatabase ctx \<and> \<not> ic_preserveSession ctx);
          mirror = (\<lambda>S. mirrorSessionToSecondaryStorage ctx S (now_ms clk 3) userId data)
      in bindA (createWithHooks (ic_db ctx) (ic_hooks ctx session) data session
           (map_option (\<lambda>S.
              (\<lambda>sessionData. if deferSecondaryStorageWrites then returnA (Some sessionData)
                 else bindA (onStore (mirror S sessionData)) (\<lambda>r. returnA (Some r)),
               ic_sessionInDatabase ctx)) (ic_storage ctx)))
         (\<lambda>res.
            case (ic_storage ctx, res) of
              (Some S, Some r) \<Rightarrow>
                if deferSecondaryStorageWrites
                then bindA (queueAfterTransactionHook (bindA (mirror S r) (\<lambda>_. returnA ()))
                       (if databaseSessionFallbackEnabled then Some log_error else None))
                     (\<lambda>_. returnA res)
                else returnA res
            | _ \<Rightarrow> returnA res))"

section \<open>Finding\<close>

definition with_dates :: "('s, 'q) ictx \<Rightarrow> nat \<Rightarrow> string list \<Rightarrow> row \<Rightarrow> row" where
  "with_dates ctx ref fs r =
     object_assign r (map (\<lambda>f. (f, new_date ctx ref (get_field r f))) fs)"

text \<open>
  The session and user of a parsed text. Reading a property of \<open>null\<close> or \<open>undefined\<close> (no
  user, or a text that is not a session's) raises a \<open>TypeError\<close>.
\<close>

definition parsed_session :: "('s, 'q) ictx \<Rightarrow> nat \<Rightarrow> cached \<Rightarrow> (row \<times> row) res" where
  "parsed_session ctx ref c =
     (case c of
        CSession s (Some u) \<Rightarrow>
          Inr (parseSessionOutput (ic_schema ctx)
                 (with_dates ctx ref [''expiresAt'', ''createdAt'', ''updatedAt''] s),
               parseUserOutput (ic_schema ctx) (with_dates ctx ref [''createdAt'', ''updatedAt''] u))
      | _ \<Rightarrow> Inl TypeError)"

definition find_session_in_database ::
  "('s, 'q) ictx \<Rightarrow> string \<Rightarrow> ('s, 'q, (row \<times> row) option) iact"
where
  "find_session_in_database ctx token =
     bindA (db (ic_findOneWithUser ctx session [wh_eq ''token'' (Str token)])) (\<lambda>result.
       returnA (case result of
           Some (s, Some u) \<Rightarrow> Some (parseSessionOutput (ic_schema ctx) s, parseUserOutput (ic_schema ctx) u)
         | _ \<Rightarrow> None))"

definition findSession :: "('s, 'q) ictx \<Rightarrow> clock \<Rightarrow> string \<Rightarrow> ('s, 'q, (row \<times> row) option) iact" where
  "findSession ctx clk token =
     (case ic_storage ctx of
        None \<Rightarrow> find_session_in_database ctx token
      | Some S \<Rightarrow>
          bindA (sec (ss_get S token)) (\<lambda>stringified.
            case stringified of
              None \<Rightarrow>
                if \<not> ic_sessionInDatabase ctx \<or> ic_preserveSession ctx then returnA None
                else find_session_in_database ctx token
            | Some text \<Rightarrow>
                (case safeJSONParse (ic_parseDate ctx) (fst (clk 0)) text of
                   None \<Rightarrow> returnA None
                 | Some c \<Rightarrow>
                     bindA (liftR (parsed_session ctx (fst (clk 0)) c)) (\<lambda>r. returnA (Some r)))))"

text \<open>\<open>JSON.parse\<close> without a reviver: the dates of a text stay strings.\<close>

fun unrevived :: "val \<Rightarrow> val" where
  "unrevived (DateV _ t) = Str (toISOString t)"
| "unrevived (Arr vs) = Arr (map unrevived vs)"
| "unrevived v = v"

definition unrevived_row :: "row \<Rightarrow> row" where
  "unrevived_row r = map (\<lambda>(k, v). (k, unrevived v)) r"

text \<open>The loops over tokens; what raises inside the \<open>try\<close> is skipped.\<close>

definition found_session ::
  "('s, 'q) ictx \<Rightarrow> nat \<Rightarrow> bool \<Rightarrow> val \<Rightarrow> cached option \<Rightarrow> (row \<times> row) list"
where
  "found_session ctx ref onlyActive now c =
     (case c of
        Some (CSession s (Some u)) \<Rightarrow>
          (let s' = with_dates ctx ref [''expiresAt''] (unrevived_row s) in
           if onlyActive \<and> js_less_eq (ic_host ctx) (get_field s' ''expiresAt'') now then []
           else [(s', with_dates ctx ref [''createdAt'', ''updatedAt''] (unrevived_row u))])
      | _ \<Rightarrow> [])"

fun find_cached_sessions ::
  "('s, 'q) ictx \<Rightarrow> ('q, cached) sec_storage \<Rightarrow> nat \<Rightarrow> bool \<Rightarrow> val \<Rightarrow> string list \<Rightarrow>
     ('s, 'q, (row \<times> row) list) iact"
where
  "find_cached_sessions ctx S ref onlyActive now [] = returnA []"
| "find_cached_sessions ctx S ref onlyActive now (token # ts) =
     bindA (sec (ss_get S token)) (\<lambda>c.
     bindA (find_cached_sessions ctx S ref onlyActive now ts) (\<lambda>more.
       returnA (found_session ctx ref onlyActive now c @ more)))"

definition active_only :: "clock \<Rightarrow> bool \<Rightarrow> CleanedWhere list" where
  "active_only clk onlyActive = (if onlyActive then [wh ''expiresAt'' Op_gt (date_at clk 0)] else [])"

definition findSessions ::
  "('s, 'q) ictx \<Rightarrow> clock \<Rightarrow> string list \<Rightarrow> bool \<Rightarrow> ('s, 'q, (row \<times> row option) list) iact"
where
  "findSessions ctx clk sessionTokens onlyActive =
     (case ic_storage ctx of
        Some S \<Rightarrow>
          bindA (find_cached_sessions ctx S (fst (clk 0)) onlyActive (date_at clk 1) sessionTokens) (\<lambda>l.
            returnA (map (\<lambda>(s, u). (s, Some u)) l))
      | None \<Rightarrow>
          bindA (db (ic_findManyWithUser ctx session
                   (wh ''token'' Op_in (Arr (map Str sessionTokens)) # active_only clk onlyActive) None))
            (\<lambda>sessions. returnA (if list_ex (\<lambda>(_, u). u = None) sessions then [] else sessions)))"

definition listed_session :: "('s, 'q) ictx \<Rightarrow> nat \<Rightarrow> cached option \<Rightarrow> row list" where
  "listed_session ctx ref c =
     (case c of
        Some (CSession s _) \<Rightarrow>
          [parseSessionOutput (ic_schema ctx) (with_dates ctx ref [''expiresAt''] (unrevived_row s))]
      | _ \<Rightarrow> [])"

fun list_cached_sessions ::
  "('s, 'q) ictx \<Rightarrow> ('q, cached) sec_storage \<Rightarrow> nat \<Rightarrow> int \<Rightarrow> string list \<Rightarrow> session_ref list \<Rightarrow>
     ('s, 'q, row list) iact"
where
  "list_cached_sessions ctx S ref now seenTokens [] = returnA []"
| "list_cached_sessions ctx S ref now seenTokens ((token, expiresAt) # l) =
     (if expiresAt \<le> now \<or> token \<in> set seenTokens then list_cached_sessions ctx S ref now seenTokens l
      else
        bindA (sec (ss_get S token)) (\<lambda>c.
        bindA (list_cached_sessions ctx S ref now (token # seenTokens) l) (\<lambda>more.
          returnA (listed_session ctx ref c @ more))))"

definition listSessions :: "('s, 'q) ictx \<Rightarrow> clock \<Rightarrow> string \<Rightarrow> bool \<Rightarrow> ('s, 'q, row list) iact" where
  "listSessions ctx clk userId onlyActive =
     (case ic_storage ctx of
        Some S \<Rightarrow>
          bindA (onStore (getActiveSessionReferences ctx userId)) (\<lambda>l.
            list_cached_sessions ctx S (fst (clk 0)) (now_ms clk 0) [] l)
      | None \<Rightarrow>
          db (a_findMany (ic_adapter ctx) session
            (wh_eq ''userId'' (Str userId) # active_only clk onlyActive) None None None))"

section \<open>Updating\<close>

definition merged_session :: "('s, 'q) ictx \<Rightarrow> nat \<Rightarrow> row \<Rightarrow> row \<Rightarrow> row" where
  "merged_session ctx ref old data =
     object_assign (object_assign old data)
       [(''expiresAt'', new_date ctx ref (coalesce (get_field data ''expiresAt'') (get_field old ''expiresAt''))),
        (''createdAt'', new_date ctx ref (get_field old ''createdAt'')),
        (''updatedAt'', new_date ctx ref (coalesce (get_field data ''updatedAt'') (get_field old ''updatedAt'')))]"

text \<open>The two writes of an update: the session, then its user's list.\<close>

definition store_updated ::
  "('s, 'q) ictx \<Rightarrow> ('q, cached) sec_storage \<Rightarrow> int \<Rightarrow> string \<Rightarrow> row \<Rightarrow> row option \<Rightarrow> int \<Rightarrow> ('s, 'q, unit) sact"
where
  "store_updated ctx S now token updated user expiresMs =
     bindA (on_sec (ss_set S token (CSession (stringify updated) (map_option stringify user))
              (Some (getTTLSeconds expiresMs now)))) (\<lambda>_.
       let userId = js_String (ic_host ctx) (get_field updated ''userId'') in
       bindA (getActiveSessionReferences ctx userId) (\<lambda>l.
         let refs = sort_key snd (live_refs now [token] l @ [(token, expiresMs)]);
             furthestExp = snd (last refs)
         in if furthestExp \<noteq> 0 \<and> furthestExp > now
            then on_sec (ss_set S (active_key userId) (CActive refs) (Some (getTTLSeconds furthestExp now)))
            else on_sec (ss_delete S (active_key userId))))"

definition update_cached_session ::
  "('s, 'q) ictx \<Rightarrow> ('q, cached) sec_storage \<Rightarrow> clock \<Rightarrow> string \<Rightarrow> row \<Rightarrow> ('s, 'q, row option) sact"
where
  "update_cached_session ctx S clk token data =
     bindA (on_sec (ss_get S token)) (\<lambda>current.
       case parse_cached ctx (fst (clk 0)) current of
         None \<Rightarrow> returnA None
       | Some (CSession old user) \<Rightarrow>
           (let updated = parseSessionOutput (ic_schema ctx) (merged_session ctx (fst (clk 0)) old data);
                now = now_ms clk 1
            in case time_of (new_date ctx (fst (clk 0)) (get_field updated ''expiresAt'')) of
                 Some expiresMs \<Rightarrow>
                   bindA (if getTTLSeconds expiresMs now > 0
                          then store_updated ctx S now token updated user expiresMs else returnA ())
                     (\<lambda>_. returnA (Some updated))
               | None \<Rightarrow> returnA (Some updated))
       | Some _ \<Rightarrow> throwA TypeError)"

definition updateSession ::
  "('s, 'q) ictx \<Rightarrow> clock \<Rightarrow> string \<Rightarrow> row \<Rightarrow> ('s, 'q, row option) iact"
where
  "updateSession ctx clk sessionToken data =
     updateWithHooks (ic_db ctx) (ic_hooks ctx session) data [wh_eq ''token'' (Str sessionToken)] session
       (map_option (\<lambda>S. (\<lambda>actual. onStore (update_cached_session ctx S clk sessionToken actual),
          ic_sessionInDatabase ctx)) (ic_storage ctx))"

section \<open>Deleting\<close>

text \<open>Taking a token out of its user's list, as \<open>deleteSession\<close> does.\<close>

definition drop_ref ::
  "('s, 'q) ictx \<Rightarrow> ('q, cached) sec_storage \<Rightarrow> clock \<Rightarrow> string \<Rightarrow> string \<Rightarrow> ('s, 'q, unit) sact"
where
  "drop_ref ctx S clk userId token =
     bindA (on_sec (ss_get S (active_key userId))) (\<lambda>currentList.
       case currentList of
         None \<Rightarrow> returnA ()
       | Some _ \<Rightarrow>
           let now = now_ms clk 0;
               filtered = sort_key snd (live_refs now [token] (session_refs currentList))
           in case furthest filtered of
                Some e \<Rightarrow>
                  if e \<noteq> 0 \<and> e > now_ms clk 1
                  then on_sec (ss_set S (active_key userId) (CActive filtered) (Some (getTTLSeconds e now)))
                  else on_sec (ss_delete S (active_key userId))
              | None \<Rightarrow> on_sec (ss_delete S (active_key userId)))"

definition delete_in_database :: "('s, 'q) ictx \<Rightarrow> string \<Rightarrow> ('s, 'q, unit) iact" where
  "delete_in_database ctx token =
     bindA (deleteWithHooks (ic_db ctx) (ic_hooks ctx session) [wh_eq ''token'' (Str token)] session None)
       (\<lambda>_. returnA ())"

text \<open>What follows the secondary storage: nothing, the end of preserved rows, or a deletion.\<close>

definition after_cache ::
  "('s, 'q) ictx \<Rightarrow> clock \<Rightarrow> CleanedWhere list \<Rightarrow> ('s, 'q, unit) iact \<Rightarrow> ('s, 'q, unit) iact"
where
  "after_cache ctx clk ws delete =
     (if \<not> ic_sessionInDatabase ctx then returnA ()
      else if ic_preserveSession ctx then bindA (endPreservedSessions ctx clk ws) (\<lambda>_. returnA ())
      else delete)"

definition deleteSession :: "('s, 'q) ictx \<Rightarrow> clock \<Rightarrow> string \<Rightarrow> ('s, 'q, unit) iact" where
  "deleteSession ctx clk token =
     (case ic_storage ctx of
        None \<Rightarrow> delete_in_database ctx token
      | Some S \<Rightarrow>
          bindA (sec (ss_get S token)) (\<lambda>data.
            let finish = bindA (sec (ss_delete S token)) (\<lambda>_.
                  after_cache ctx (\<lambda>i. clk (i + 2)) [wh_eq ''token'' (Str token)] (delete_in_database ctx token))
            in case data of
                 None \<Rightarrow> finish
               | Some _ \<Rightarrow>
                   (case parse_cached ctx (fst (clk 0)) data of
                      Some (CSession s _) \<Rightarrow>
                        bindA (onStore (drop_ref ctx S clk (js_String (ic_host ctx) (get_field s ''userId'')) token))
                          (\<lambda>_. finish)
                    | _ \<Rightarrow> returnA ())))"

definition delete_many_sessions :: "('s, 'q) ictx \<Rightarrow> CleanedWhere list \<Rightarrow> ('s, 'q, val) iact" where
  "delete_many_sessions ctx ws = deleteManyWithHooks (ic_db ctx) (ic_hooks ctx session) ws session None"

definition deleteUserSessions :: "('s, 'q) ictx \<Rightarrow> clock \<Rightarrow> string \<Rightarrow> ('s, 'q, unit) iact" where
  "deleteUserSessions ctx clk userId =
     bindA (onStore (getActiveSessionReferences ctx userId)) (\<lambda>refs.
       let queue = queueCachedUserSessionDeletion ctx (now_ms clk 2) userId (Some refs);
           of_user = [wh_eq ''userId'' (Str userId)];
           unless_vetoed = (\<lambda>r. if r \<noteq> Null then queue else returnA ())
       in if ic_storage ctx \<noteq> None \<and> \<not> ic_sessionInDatabase ctx then queue
          else if ic_storage ctx \<noteq> None \<and> ic_preserveSession ctx
            then bindA (endPreservedSessions ctx clk of_user) unless_vetoed
          else bindA (delete_many_sessions ctx of_user) unless_vetoed)"

definition deleteSessions :: "('s, 'q) ictx \<Rightarrow> clock \<Rightarrow> string list \<Rightarrow> ('s, 'q, unit) iact" where
  "deleteSessions ctx clk sessionTokens =
     (let of_tokens = [wh ''token'' Op_in (Arr (map Str sessionTokens))];
          delete = bindA (delete_many_sessions ctx of_tokens) (\<lambda>_. returnA ())
      in case ic_storage ctx of
           None \<Rightarrow> delete
         | Some S \<Rightarrow>
             bindA (promise_all (\<lambda>t. sec (ss_delete S t)) sessionTokens) (\<lambda>_.
               after_cache ctx clk of_tokens delete))"

section \<open>Deleting a user\<close>

definition cascade_error :: err where
  "cascade_error = Throw ''Failed to delete user sessions''"

definition delete_user_cascade :: "('s, 'q) ictx \<Rightarrow> int \<Rightarrow> string \<Rightarrow> ('s, 'q, unit) iact" where
  "delete_user_cascade ctx now userId =
     (let of_user = [wh_eq ''userId'' (Str userId)] in
      bindA (catchA
          (bindA (onStore (getActiveSessionReferences ctx userId)) (\<lambda>refs.
           bindA (if ic_storage ctx = None \<or> ic_sessionInDatabase ctx
                  then bindA (delete_many_sessions ctx of_user) (\<lambda>_. returnA ()) else returnA ()) (\<lambda>_.
             onStore (deleteCachedUserSessions ctx now userId refs))))
          (\<lambda>_. throwA cascade_error)) (\<lambda>_.
      bindA (deleteManyWithHooks (ic_db ctx) (ic_hooks ctx ''account'') of_user ''account'' None)
        (\<lambda>_. returnA ())))"

definition deleteUser :: "('s, 'q) ictx \<Rightarrow> clock \<Rightarrow> string \<Rightarrow> ('s, 'q, unit) iact" where
  "deleteUser ctx clk userId =
     runWithTransaction (ic_tx ctx) None
       (bindA (deleteWithHooks (ic_db ctx) (ic_hooks ctx ''user'') [wh_eq ''id'' (Str userId)] ''user''
          (Some \<lparr>cd_fn = delete_user_cascade ctx (now_ms clk 0) userId, cd_executeMainFn = True,
                 cd_failOnSnapshotReadError = True\<rparr>))
         (\<lambda>_. returnA ()))"

end
