(* ===== verification/SessionCache.thy ===== *)
theory SessionCache
  imports SessionStore
begin

text \<open>
  The session operations as functions of what the secondary storage shows: each operation
  of \<open>SessionStore\<close> on a storage that meets the contract of \<open>secondary_storage\<close>, as an
  equation on \<open>view\<close>. The locale \<open>session_cache\<close> is that contract together with a context
  that uses the storage.
\<close>

abbreviation with_q :: "'q \<Rightarrow> ('s, 'q) stores \<Rightarrow> ('s, 'q) stores" where
  "with_q q s \<equiv> s\<lparr>st_sec := q\<rparr>"

lemma on_sec_run: "m (st_sec s) = (r, q) \<Longrightarrow> on_sec m s = (r, with_q q s)"
  by (simp add: on_sec_app)

lemma onStore_with_q: "m (rq_store s) = (r, with_q q (rq_store s)) \<Longrightarrow> onStore m s = (r, with_sec q s)"
  by (simp add: onStore_app with_sec_def)

lemma rq_store_with_sec [simp]: "rq_store (with_sec q s) = with_q q (rq_store s)"
  by (simp add: with_sec_def)

lemma sort_key_Nil [simp]: "sort_key k l = [] \<longleftrightarrow> l = []"
  by (metis length_0_conv length_sort)

text \<open>The list that is written, or nothing.\<close>

definition shown_refs :: "session_ref list \<Rightarrow> cached option" where
  "shown_refs l = (if l = [] \<or> snd (last l) = 0 then None else Some (CActive l))"

locale session_cache = secondary_storage S view life
  for S :: "('q, cached) sec_storage" and view life +
  fixes ctx :: "('s, 'q) ictx"
  assumes storage: "ic_storage ctx = Some S"
begin

definition refs :: "'q \<Rightarrow> string \<Rightarrow> session_ref list" where
  "refs q userId = session_refs (view q (active_key userId))"

lemma get_run: "on_sec (ss_get S k) s = (Inr (view (st_sec s) k), s)"
  using get_view by (simp add: on_sec_app)

lemma put_run:
  obtains q where "on_sec (ss_set S k v ttl) s = (Inr (), with_q q s)" "view q = (view (st_sec s))(k \<mapsto> v)"
  by (rule set_run[of k v ttl "st_sec s"]) (blast intro: that on_sec_run)

lemma remove_run:
  obtains q where "on_sec (ss_delete S k) s = (Inr (), with_q q s)" "view q = (view (st_sec s))(k := None)"
  by (rule delete_run[of k "st_sec s"]) (blast intro: that on_sec_run)

text \<open>A conditional write, as the continuation sees it.\<close>

lemma put_if_run:
  obtains q where "\<And>f. bindA (if c then on_sec (ss_set S k v ttl) else returnA ()) f s = f () (with_q q s)"
    "view q = (if c then (view (st_sec s))(k \<mapsto> v) else view (st_sec s))"
proof (cases c)
  case True
  obtain q where "on_sec (ss_set S k v ttl) s = (Inr (), with_q q s)" "view q = (view (st_sec s))(k \<mapsto> v)"
    by (rule put_run)
  with True show thesis by (intro that[of q]) (simp_all add: bindA_def)
next
  case False
  then show thesis by (intro that[of "st_sec s"]) simp_all
qed

lemma refs_run: "getActiveSessionReferences ctx userId s = (Inr (refs (st_sec s) userId), s)"
  by (simp add: getActiveSessionReferences_def storage bindA_def get_run refs_def)

lemma delete_tokens_run:
  "\<exists>q. delete_tokens S ts s = (Inr (), with_q q s) \<and>
     view q = (\<lambda>k. if k \<in> set ts then None else view (st_sec s) k)"
proof (induction ts arbitrary: s)
  case Nil
  then show ?case by (intro exI[of _ "st_sec s"]) simp
next
  case (Cons t ts)
  obtain q where q: "on_sec (ss_delete S t) s = (Inr (), with_q q s)" "view q = (view (st_sec s))(t := None)"
    by (rule remove_run)
  from Cons.IH[of "with_q q s"] obtain p where
    "delete_tokens S ts (with_q q s) = (Inr (), with_q p (with_q q s))"
    "view p = (\<lambda>k. if k \<in> set ts then None else view (st_sec (with_q q s)) k)" by blast
  with q show ?case by (intro exI[of _ p]) (auto simp: bindA_def fun_eq_iff)
qed

lemma write_refs_run:
  "\<exists>q. write_refs S now k l s = (Inr (), with_q q s) \<and> view q = (view (st_sec s))(k := shown_refs l)"
proof (cases "l = [] \<or> snd (last l) = 0")
  case True
  obtain q where "on_sec (ss_delete S k) s = (Inr (), with_q q s)" "view q = (view (st_sec s))(k := None)"
    by (rule remove_run)
  with True show ?thesis by (auto simp: write_refs_def furthest_def shown_refs_def)
next
  case False
  obtain q where "on_sec (ss_set S k (CActive l) (Some (getTTLSeconds (snd (last l)) now))) s = (Inr (), with_q q s)"
    "view q = (view (st_sec s))(k \<mapsto> CActive l)"
    by (rule put_run)
  with False show ?thesis by (auto simp: write_refs_def furthest_def shown_refs_def)
qed

text \<open>
  Revoking a set of references: their tokens are gone, the list holds what is left of the
  others.
\<close>

lemma delete_cached_run:
  assumes "active_key userId \<notin> set (map fst gone)"
  shows "\<exists>q. deleteCachedUserSessions ctx now userId gone s = (Inr (), with_q q s) \<and>
    view q = (\<lambda>k. if k = active_key userId
                  then shown_refs (sort_key snd (live_refs now (map fst gone) (refs (st_sec s) userId)))
                  else if k \<in> set (map fst gone) then None else view (st_sec s) k)"
proof -
  obtain p where p: "delete_tokens S (map fst gone) s = (Inr (), with_q p s)"
    "view p = (\<lambda>k. if k \<in> set (map fst gone) then None else view (st_sec s) k)"
    using delete_tokens_run by blast
  have same: "refs p userId = refs (st_sec s) userId" using p(2) assms by (simp add: refs_def)
  let ?l = "sort_key snd (live_refs now (map fst gone) (refs (st_sec s) userId))"
  obtain q where "write_refs S now (active_key userId) ?l (with_q p s) = (Inr (), with_q q (with_q p s))"
    "view q = (view (st_sec (with_q p s)))(active_key userId := shown_refs ?l)"
    using write_refs_run by blast
  with p same show ?thesis
    by (intro exI[of _ q])
       (auto simp: deleteCachedUserSessions_def storage bindA_def refs_run fun_eq_iff)
qed

text \<open>
  Mirroring a new session: with a second or more to live it is under its token and at its
  place in the list; if the lookup of the user fails only the list is written.
\<close>

definition added :: "int \<Rightarrow> 'q \<Rightarrow> string \<Rightarrow> string \<Rightarrow> int \<Rightarrow> session_ref list" where
  "added now q userId token e = sort_key snd (live_refs now [token] (refs q userId) @ [(token, e)])"

lemma mirror_session_run:
  assumes data: "get_field data ''expiresAt'' = DateV er e" "get_field data ''token'' = Str token"
    and user: "a_findOne (ic_adapter ctx) ''user'' [wh_eq ''id'' (Str userId)] (st_db s) = (Inr user, st_db s)"
  shows "\<exists>q. mirrorSessionToSecondaryStorage ctx S now userId data x s = (Inr x, with_q q s) \<and>
    (let l = added now (st_sec s) userId token e;
         v = (if getTTLSeconds (snd (last l)) now > 0 then (view (st_sec s))(active_key userId \<mapsto> CActive l)
              else view (st_sec s))
     in view q = (if getTTLSeconds e now > 0
                  then v(token \<mapsto> CSession (stringify x) (map_option stringify user)) else v))"
proof -
  let ?l = "added now (st_sec s) userId token e"
  let ?f = "getTTLSeconds (snd (last ?l)) now" and ?ttl = "getTTLSeconds e now"
  let ?c = "CSession (stringify x) (map_option stringify user)"
  obtain p where p: "\<And>f :: unit \<Rightarrow> (_, row) act. bindA (if ?f > 0 then on_sec (ss_set S (active_key userId) (CActive ?l) (Some ?f))
      else returnA ()) f s = f () (with_q p s)"
    "view p = (if ?f > 0 then (view (st_sec s))(active_key userId \<mapsto> CActive ?l) else view (st_sec s))"
    by (rule put_if_run[of "?f > 0" "active_key userId" "CActive ?l" "Some ?f" s]) (rule that)
  obtain q where q: "\<And>f :: unit \<Rightarrow> (_, row) act. bindA (if ?ttl > 0 then on_sec (ss_set S token ?c (Some ?ttl)) else returnA ()) f
      (with_q p s) = f () (with_q q (with_q p s))"
    "view q = (if ?ttl > 0 then (view (st_sec (with_q p s)))(token \<mapsto> ?c) else view (st_sec (with_q p s)))"
    by (rule put_if_run[of "?ttl > 0" token ?c "Some ?ttl" "with_q p s"]) (rule that)
  have lookup: "bindA (on_db (a_findOne (ic_adapter ctx) ''user'' [wh_eq ''id'' (Str userId)])) f (with_q p s) =
      f user (with_q p s)" for f :: "row option \<Rightarrow> (_, row) act"
    using user by (simp add: on_db_app bindA_def)
  have tok: "token_of data = token" by (simp add: token_of_def data)
  have "mirrorSessionToSecondaryStorage ctx S now userId data x s = (Inr x, with_q q s)"
    unfolding mirrorSessionToSecondaryStorage_def
    by (simp only: bindA_ok[OF refs_run] data tok Let_def getTime.simps bindA_lift flip: added_def,
        subst p(1), subst lookup, subst q(1), simp)
  then show ?thesis using p(2) q(2) by (intro exI[of _ q]) (simp add: Let_def)
qed

text \<open>The list with a token added holds it, and its last entry expires last.\<close>

lemma set_added: "set (added now q userId token e) = set (live_refs now [token] (refs q userId)) \<union> {(token, e)}"
  by (auto simp: added_def)

lemma last_sorted: "x \<in> set m \<Longrightarrow> sorted (map snd m) \<Longrightarrow> snd x \<le> (snd (last m) :: int)"
  by (induction m) auto

lemma last_added: "e \<le> snd (last (added now q userId token e))"
  using last_sorted[of "(token, e)" "added now q userId token e"] by (simp add: added_def)

text \<open>Writing an updated session and its place in its user's list.\<close>

lemma store_updated_run:
  assumes user: "js_String (ic_host ctx) (get_field x ''userId'') = userId" "token \<noteq> active_key userId"
    and lives: "0 \<le> now" "0 < getTTLSeconds e now"
  shows "\<exists>q. store_updated ctx S now token x u e s = (Inr (), with_q q s) \<and>
    view q = (view (st_sec s))(token \<mapsto> CSession (stringify x) (map_option stringify u),
      active_key userId \<mapsto> CActive (added now (st_sec s) userId token e))"
proof -
  let ?c = "CSession (stringify x) (map_option stringify u)"
  let ?l = "added now (st_sec s) userId token e"
  obtain p where p: "on_sec (ss_set S token ?c (Some (getTTLSeconds e now))) s = (Inr (), with_q p s)"
    "view p = (view (st_sec s))(token \<mapsto> ?c)" by (rule put_run)
  have same: "added now p userId token e = ?l" using p(2) user(2) by (simp add: added_def refs_def)
  have late: "snd (last ?l) \<noteq> 0 \<and> snd (last ?l) > now"
    using lives last_added[of e now "st_sec s" userId token] by (simp add: getTTLSeconds_pos)
  obtain q where q: "on_sec (ss_set S (active_key userId) (CActive ?l)
      (Some (getTTLSeconds (snd (last ?l)) now))) (with_q p s) = (Inr (), with_q q (with_q p s))"
    "view q = (view (st_sec (with_q p s)))(active_key userId \<mapsto> CActive ?l)" by (rule put_run)
  have "store_updated ctx S now token x u e s = (Inr (), with_q q s)"
    using p(1) q(1) late
    by (simp add: store_updated_def bindA_def user(1) refs_run same Let_def flip: added_def)
  with p(2) q(2) show ?thesis by auto
qed

lemma update_session_run:
  assumes cached: "view (st_sec s) token = Some (CSession old u)"
    and updated: "x = parseSessionOutput (ic_schema ctx)
        (merged_session ctx (fst (clk 0)) (revive_row (ic_parseDate ctx) (fst (clk 0)) old) data)"
      "get_field x ''expiresAt'' = DateV r e" "get_field x ''userId'' = Str userId"
    and token: "token \<noteq> active_key userId" and now: "0 \<le> now_ms clk 1"
  shows "\<exists>q. update_cached_session ctx S clk token data s = (Inr (Some x), with_q q s) \<and>
    view q = (if 0 < getTTLSeconds e (now_ms clk 1)
      then (view (st_sec s))(token \<mapsto> CSession (stringify x)
             (map_option stringify (map_option (revive_row (ic_parseDate ctx) (fst (clk 0))) u)),
           active_key userId \<mapsto> CActive (added (now_ms clk 1) (st_sec s) userId token e))
      else view (st_sec s))"
proof (cases "0 < getTTLSeconds e (now_ms clk 1)")
  case True
  have uid: "js_String (ic_host ctx) (get_field x ''userId'') = userId" by (simp add: updated(3))
  obtain q where "store_updated ctx S (now_ms clk 1) token x
      (map_option (revive_row (ic_parseDate ctx) (fst (clk 0))) u) e s = (Inr (), with_q q s)"
    "view q = (view (st_sec s))(token \<mapsto> CSession (stringify x)
        (map_option stringify (map_option (revive_row (ic_parseDate ctx) (fst (clk 0))) u)),
      active_key userId \<mapsto> CActive (added (now_ms clk 1) (st_sec s) userId token e))"
    using store_updated_run[OF uid token now True] by blast
  with True show ?thesis
    unfolding update_cached_session_def bindA_ok[OF get_run]
    using updated(2) by (intro exI[of _ q]) (simp add: parse_cached_def cached Let_def new_date_def bindA_def flip: updated(1))
next
  case False
  then show ?thesis
    unfolding update_cached_session_def bindA_ok[OF get_run]
    using updated(2) by (intro exI[of _ "st_sec s"])
      (simp add: parse_cached_def cached Let_def new_date_def bindA_def flip: updated(1))
qed

text \<open>Taking a token out of its user's list.\<close>

lemma drop_ref_run:
  "\<exists>q l. drop_ref ctx S clk userId token s = (Inr (), with_q q s) \<and>
     view q = (if view (st_sec s) (active_key userId) = None then view (st_sec s)
               else (view (st_sec s))(active_key userId := l)) \<and>
     (l = None \<and> (\<forall>(t, e) \<in> set (refs (st_sec s) userId). t = token \<or> e \<le> now_ms clk 0 \<or> e \<le> now_ms clk 1 \<or> e \<le> 0) \<or>
      l = Some (CActive (sort_key snd (live_refs (now_ms clk 0) [token] (refs (st_sec s) userId)))))"
proof (cases "view (st_sec s) (active_key userId)")
  case None
  then show ?thesis
    by (intro exI[of _ "st_sec s"] exI[of _ None])
       (simp add: drop_ref_def bindA_def get_run refs_def session_refs_def)
next
  case (Some c)
  let ?l = "sort_key snd (live_refs (now_ms clk 0) [token] (refs (st_sec s) userId))"
  have refs: "session_refs (Some c) = refs (st_sec s) userId" using Some by (simp add: refs_def)
  let ?keep = "?l \<noteq> [] \<and> snd (last ?l) \<noteq> 0 \<and> snd (last ?l) > now_ms clk 1"
  obtain p where p: "on_sec (ss_delete S (active_key userId)) s = (Inr (), with_q p s)"
    "view p = (view (st_sec s))(active_key userId := None)" by (rule remove_run)
  obtain q where q: "on_sec (ss_set S (active_key userId) (CActive ?l)
      (Some (getTTLSeconds (snd (last ?l)) (now_ms clk 0)))) s = (Inr (), with_q q s)"
    "view q = (view (st_sec s))(active_key userId \<mapsto> CActive ?l)" by (rule put_run)
  have run: "drop_ref ctx S clk userId token s = (Inr (), with_q (if ?keep then q else p) s)"
    using p(1) q(1) Some refs by (simp add: drop_ref_def bindA_def get_run Let_def furthest_def)
  show ?thesis
  proof (cases ?keep)
    case True
    with run q(2) Some show ?thesis by (intro exI[of _ q] exI[of _ "Some (CActive ?l)"]) simp
  next
    case False
    have "t = token \<or> e \<le> now_ms clk 0 \<or> e \<le> now_ms clk 1 \<or> e \<le> 0"
      if "(t, e) \<in> set (refs (st_sec s) userId)" for t e
    proof (rule ccontr)
      assume "\<not> ?thesis"
      with that have "(t, e) \<in> set ?l" by (auto simp: live_refs_def)
      with last_sorted[of "(t, e)" ?l] have "?l \<noteq> []" "e \<le> snd (last ?l)" by auto
      with False \<open>\<not> (t = token \<or> e \<le> now_ms clk 0 \<or> e \<le> now_ms clk 1 \<or> e \<le> 0)\<close> show False by auto
    qed
    with run p(2) Some False show ?thesis by (intro exI[of _ p] exI[of _ None]) auto
  qed
qed

text \<open>Refreshing one session replaces its user.\<close>

lemma refresh_session_run:
  assumes "\<forall>s0 u. view (st_sec s) token = Some (CSession s0 u) \<longrightarrow>
      (\<exists>r e. get_field s0 ''expiresAt'' = DateV r e)"
    and "\<forall>c. view (st_sec s) token = Some c \<longrightarrow> (\<exists>s0 u. c = CSession s0 u) \<or> (\<exists>t. c = CText t)"
  shows "\<exists>q. refresh_session ctx S ref now user token s = (Inr (), with_q q s) \<and>
    view q = (case view (st_sec s) token of
        Some (CSession s0 u) \<Rightarrow> (view (st_sec s))(token \<mapsto>
          CSession (stringify (revive_row (ic_parseDate ctx) ref s0)) (Some (stringify user)))
      | _ \<Rightarrow> view (st_sec s))"
proof (cases "view (st_sec s) token")
  case None
  then show ?thesis
    by (intro exI[of _ "st_sec s"]) (simp add: refresh_session_def bindA_def get_run parse_cached_def)
next
  case (Some c)
  with assms(2) consider s0 u where "c = CSession s0 u" | t where "c = CText t" by blast
  then show ?thesis
  proof cases
    case 1
    with assms(1) Some obtain r e where e: "get_field s0 ''expiresAt'' = DateV r e" by blast
    let ?c = "CSession (stringify (revive_row (ic_parseDate ctx) ref s0)) (Some (stringify user))"
    obtain q where "on_sec (ss_set S token ?c (Some (getTTLSeconds e now))) s = (Inr (), with_q q s)"
      "view q = (view (st_sec s))(token \<mapsto> ?c)" by (rule put_run)
    with Some 1 e show ?thesis
      by (intro exI[of _ q]) (simp add: refresh_session_def bindA_def get_run parse_cached_def get_revive_row)
  next
    case 2
    with Some show ?thesis
      by (intro exI[of _ "st_sec s"]) (simp add: refresh_session_def bindA_def get_run parse_cached_def)
  qed
qed

text \<open>A cached session is what \<open>findSession\<close> returns.\<close>

lemma find_hit:
  assumes "view (rq_sec s) token = Some (CSession x (Some u))"
  shows "findSession ctx clk token s =
    (Inr (Some
       (parseSessionOutput (ic_schema ctx) (with_dates ctx (fst (clk 0)) [''expiresAt'', ''createdAt'', ''updatedAt'']
          (revive_row (ic_parseDate ctx) (fst (clk 0)) x)),
        parseUserOutput (ic_schema ctx) (with_dates ctx (fst (clk 0)) [''createdAt'', ''updatedAt'']
          (revive_row (ic_parseDate ctx) (fst (clk 0)) u)))), s)"
proof -
  have "sec (ss_get S token) s = (Inr (view (rq_sec s) token), s)" by (subst sec_run[OF get_view]) simp
  then show ?thesis
    by (simp add: findSession_def storage bindA_def assms parsed_session_def)
qed

end

end
