(* ===== verification/SessionTracking.thy ===== *)
theory SessionTracking
  imports SessionCache
begin

text \<open>
  Sessions kept in the secondary storage only, as a state machine: every session operation
  of the library, and the entries the storage drops when their time is up, as steps of one
  relation. Its invariant is that every live session is in its user's list, so that
  revoking a user's sessions misses none.
\<close>

section \<open>The invariant\<close>

text \<open>
  A token is alphanumeric (\<open>generateId(32)\<close>), so it is never a key of an active list.
\<close>

definition is_token :: "string \<Rightarrow> bool" where
  "is_token t \<longleftrightarrow> CHR ''-'' \<notin> set t"

lemma active_key_no_token [simp]: "\<not> is_token (active_key u)"
  by (simp add: is_token_def active_key_def)

lemma token_not_active [simp]: "is_token t \<Longrightarrow> t \<noteq> active_key u" "is_token t \<Longrightarrow> active_key u \<noteq> t"
  using active_key_no_token by blast+

lemma active_key_inj [simp]: "active_key u = active_key w \<longleftrightarrow> u = w"
  by (simp add: active_key_def)

definition session_of :: "row \<Rightarrow> string \<Rightarrow> int \<Rightarrow> bool" where
  "session_of r uid e \<longleftrightarrow> distinct (map fst r) \<and> get_field r ''userId'' = Str uid \<and> \<not> iso8601 uid \<and>
     (\<exists>i. get_field r ''expiresAt'' = DateV i e)"

definition entries :: "(string \<Rightarrow> cached option) \<Rightarrow> string \<Rightarrow> session_ref list" where
  "entries v uid = session_refs (v (active_key uid))"

text \<open>A user's list: by expiry, one entry a token, tokens only.\<close>

definition list_ok :: "session_ref list \<Rightarrow> bool" where
  "list_ok l \<longleftrightarrow> sorted (map snd l) \<and> distinct (map fst l) \<and> list_all (\<lambda>(t, e). is_token t) l"

fun is_session_text :: "cached \<Rightarrow> bool" where
  "is_session_text (CSession _ _) = True"
| "is_session_text (CText _) = True"
| "is_session_text _ = False"

definition tracked :: "(string \<Rightarrow> cached option) \<Rightarrow> int \<Rightarrow> bool" where
  "tracked v now \<longleftrightarrow>
     (\<forall>k r u. v k = Some (CSession r u) \<longrightarrow> is_token k \<and>
        (\<exists>uid e. session_of r uid e \<and> (now < e \<longrightarrow> (k, e) \<in> set (entries v uid)))) \<and>
     (\<forall>uid. list_ok (entries v uid)) \<and>
     (\<forall>k c. is_token k \<longrightarrow> v k = Some c \<longrightarrow> is_session_text c)"

lemma trackedD:
  assumes "tracked v now"
  shows "v k = Some (CSession r u) \<Longrightarrow> is_token k"
    and "v k = Some (CSession r u) \<Longrightarrow> \<exists>uid e. session_of r uid e \<and> (now < e \<longrightarrow> (k, e) \<in> set (entries v uid))"
    and "list_ok (entries v uid)"
    and "is_token k \<Longrightarrow> v k = Some c \<Longrightarrow> is_session_text c"
  using assms by (auto simp: tracked_def)

lemma tracked_active: "tracked v now \<Longrightarrow> v (active_key w) \<noteq> Some (CSession r u)"
  using trackedD(1) active_key_no_token by blast

lemma session_of_unique: "session_of r uid e \<Longrightarrow> session_of r uid' e' \<Longrightarrow> uid = uid' \<and> e = e'"
  by (auto simp: session_of_def)

lemma list_ok_Nil [simp]: "list_ok []"
  by (simp add: list_ok_def)

lemma distinct_fst_unique: "distinct (map fst l) \<Longrightarrow> (t, e) \<in> set l \<Longrightarrow> (t, e') \<in> set l \<Longrightarrow> e = e'"
  by (metis eq_key_imp_eq_value)

lemma distinct_map_sort [simp]: "distinct (map f (sort_key k l)) \<longleftrightarrow> distinct (map f l)"
  by (simp add: distinct_map)

lemma list_ok_live: "list_ok l \<Longrightarrow> list_ok (sort_key snd (live_refs now gone l))"
  by (auto simp: list_ok_def live_refs_def distinct_map_filter list_all_iff)

lemma list_ok_added:
  "list_ok l \<Longrightarrow> is_token t \<Longrightarrow> list_ok (sort_key snd (live_refs now [t] l @ [(t, e)]))"
  by (auto simp: list_ok_def live_refs_def distinct_map_filter list_all_iff)

text \<open>
  What every step does to the storage: the list of one user is rewritten, keeping what is
  live of the other tokens, and some tokens are removed or hold a session of that user.
\<close>

lemma tracked_step:
  assumes inv: "tracked v n" and later: "n \<le> n'"
    and list: "list_ok (entries v' uid)"
    and keep: "\<And>t e. (t, e) \<in> set (entries v uid) \<Longrightarrow> n' < e \<Longrightarrow> t \<notin> T \<Longrightarrow> (t, e) \<in> set (entries v' uid)"
    and tokens: "\<And>t. t \<in> T \<Longrightarrow> is_token t"
    and other: "\<And>k. k \<noteq> active_key uid \<Longrightarrow> k \<notin> T \<Longrightarrow> v' k = v k"
    and new: "\<And>t c. t \<in> T \<Longrightarrow> v' t = Some c \<Longrightarrow>
      \<exists>r u e. c = CSession r u \<and> session_of r uid e \<and> (n' < e \<longrightarrow> (t, e) \<in> set (entries v' uid))"
    and active: "\<And>r u. v' (active_key uid) \<noteq> Some (CSession r u)"
  shows "tracked v' n'"
proof -
  have lists: "entries v' w = entries v w" if "w \<noteq> uid" for w
  proof -
    have "active_key w \<notin> T" using tokens active_key_no_token by blast
    with other[of "active_key w"] that show ?thesis by (simp add: entries_def)
  qed
  have "is_token k \<and> (\<exists>w e. session_of r w e \<and> (n' < e \<longrightarrow> (k, e) \<in> set (entries v' w)))"
    if k: "v' k = Some (CSession r u)" for k r u
  proof (cases "k \<in> T")
    case True
    with new[OF True k] tokens show ?thesis by auto
  next
    case False
    with k active other[of k] have old: "v k = Some (CSession r u)" by metis
    from trackedD(2)[OF inv old] obtain w e where
      "session_of r w e" "n < e \<longrightarrow> (k, e) \<in> set (entries v w)" by blast
    with keep[of k e] False lists[of w] later trackedD(1)[OF inv old] show ?thesis
      by (metis order.strict_trans1)
  qed
  moreover have "is_session_text c" if "is_token k" "v' k = Some c" for k c
  proof (cases "k \<in> T")
    case True
    with new[OF True that(2)] show ?thesis by auto
  next
    case False
    with that other[of k] show ?thesis using trackedD(4)[OF inv] by simp
  qed
  moreover have "list_ok (entries v' w)" for w
    using lists[of w] list trackedD(3)[OF inv] by (cases "w = uid") auto
  ultimately show ?thesis unfolding tracked_def by blast
qed

lemma tracked_later: "tracked v n \<Longrightarrow> n \<le> n' \<Longrightarrow> tracked v n'"
  unfolding tracked_def by (meson order.strict_trans1)

section \<open>Sessions in the secondary storage only\<close>

text \<open>
  No plugin hooks, sessions not kept in the database, and a schema that returns the
  columns a session cannot do without.
\<close>

locale session_only = session_cache S view life ctx
  for S :: "('q, cached) sec_storage" and view life and ctx :: "('s, 'q) ictx" +
  assumes no_db: "\<not> ic_sessionInDatabase ctx"
    and hooks: "ic_hooks ctx = (\<lambda>_. no_hooks)"
    and returned: "\<not> hidden (getFields (ic_schema ctx) session Mode_output) ''userId''"
      "\<not> hidden (getFields (ic_schema ctx) session Mode_output) ''expiresAt''"

text \<open>The readings of a step's clock lie between the time before and the time after.\<close>

definition between :: "int \<Rightarrow> clock \<Rightarrow> int \<Rightarrow> bool" where
  "between n clk n' \<longleftrightarrow> 0 \<le> n \<and> n \<le> n' \<and> (\<forall>i. n \<le> now_ms clk i \<and> now_ms clk i \<le> n')"

lemma betweenD:
  "between n clk n' \<Longrightarrow> 0 \<le> now_ms clk i" "between n clk n' \<Longrightarrow> now_ms clk i \<le> n'"
  "between n clk n' \<Longrightarrow> n \<le> now_ms clk i" "between n clk n' \<Longrightarrow> n \<le> n'" "between n clk n' \<Longrightarrow> 0 \<le> n'"
  unfolding between_def by (meson order.trans)+

lemma distinct_stringify: "distinct (map fst r) \<Longrightarrow> distinct (map fst (stringify r))"
proof -
  have "map fst (stringify r) = map fst (filter (\<lambda>(_, v). v \<noteq> Undef) r)"
    by (induction r) (auto simp: stringify_def)
  then show "distinct (map fst r) \<Longrightarrow> ?thesis" by (simp add: distinct_map_filter)
qed

lemma map_fst_revive [simp]: "map fst (revive_row parse ref r) = map fst r"
  by (induction r) (auto simp: revive_row_def)

lemma session_of_stringify:
  "distinct (map fst r) \<Longrightarrow> get_field r ''userId'' = Str uid \<Longrightarrow> \<not> iso8601 uid \<Longrightarrow>
     get_field r ''expiresAt'' = DateV i e \<Longrightarrow> session_of (stringify r) uid e"
  by (simp add: session_of_def distinct_stringify get_stringify)

lemma session_of_revive:
  "session_of r uid e \<Longrightarrow> distinct (map fst (revive_row parse ref r)) \<and>
     get_field (revive_row parse ref r) ''userId'' = Str uid \<and>
     get_field (revive_row parse ref r) ''expiresAt'' = DateV ref e"
  by (auto simp: session_of_def get_revive_row)

lemma entries_upd:
  "entries (v(active_key uid := c)) w = (if w = uid then session_refs c else entries v w)"
  "is_token t \<Longrightarrow> entries (v(t := c)) w = entries v w"
  by (simp_all add: entries_def)

lemma session_refs_simps [simp]: "session_refs None = []" "session_refs (Some (CActive l)) = l"
  by (simp_all add: session_refs_def)

text \<open>An update that leaves the owner alone and sets no odd expiry.\<close>

definition good_update :: "row \<Rightarrow> bool" where
  "good_update data \<longleftrightarrow> distinct (map fst data) \<and> ''userId'' \<notin> fst ` set data \<and>
     (nullish (get_field data ''expiresAt'') \<or> (\<exists>i e. get_field data ''expiresAt'' = DateV i e))"

context session_only
begin

lemma refs_entries: "refs q uid = entries (view q) uid"
  by (simp add: refs_def entries_def)

text \<open>Creating a session.\<close>

lemma create_session_run:
  assumes data: "data = session_data ctx clk env uid dm ov oa" "get_field data ''token'' = Str (se_token env)"
      "get_field data ''expiresAt'' = DateV i e"
    and user: "a_findOne (ic_adapter ctx) ''user'' [wh_eq ''id'' (Str uid)] (rq_db s) = (Inr user, rq_db s)"
  shows "\<exists>q. createSession ctx clk env uid dm ov oa False s = (Inr (Some data), with_sec q s) \<and>
    (let now = now_ms clk 3; t = se_token env; l = added now (rq_sec s) uid t e;
         v = (if getTTLSeconds (snd (last l)) now > 0 then (view (rq_sec s))(active_key uid \<mapsto> CActive l)
              else view (rq_sec s))
     in view q = (if getTTLSeconds e now > 0
                  then v(t \<mapsto> CSession (stringify data) (map_option stringify user)) else v))"
proof -
  from mirror_session_run[OF data(3,2) user, of "now_ms clk 3" data] obtain q where
    run: "mirrorSessionToSecondaryStorage ctx S (now_ms clk 3) uid data data (rq_store s) =
      (Inr data, with_q q (rq_store s))"
    and q: "let l = added (now_ms clk 3) (rq_sec s) uid (se_token env) e;
         v = (if getTTLSeconds (snd (last l)) (now_ms clk 3) > 0
              then (view (rq_sec s))(active_key uid \<mapsto> CActive l) else view (rq_sec s))
     in view q = (if getTTLSeconds e (now_ms clk 3) > 0
                  then v(se_token env \<mapsto> CSession (stringify data) (map_option stringify user)) else v)"
    by blast
  have "createSession ctx clk env uid dm ov oa False s = (Inr (Some data), with_sec q s)"
    using onStore_with_q[of "mirrorSessionToSecondaryStorage ctx S (now_ms clk 3) uid data data" s, OF run]
    by (simp add: createSession_def Let_def storage no_db hooks create_no_hooks bindA_def flip: data(1))
  with q show ?thesis by (auto simp: Let_def)
qed

lemma create_tracked:
  assumes inv: "tracked (view (rq_sec s)) n" and clk: "between n clk n'"
    and data: "data = session_data ctx clk env uid dm ov oa" "get_field data ''token'' = Str (se_token env)"
      "get_field data ''userId'' = Str uid" "get_field data ''expiresAt'' = DateV i e"
    and fresh: "is_token (se_token env)" "view (rq_sec s) (se_token env) = None" "\<not> iso8601 uid"
    and user: "a_findOne (ic_adapter ctx) ''user'' [wh_eq ''id'' (Str uid)] (rq_db s) = (Inr user, rq_db s)"
  shows "\<exists>q. createSession ctx clk env uid dm ov oa False s = (Inr (Some data), with_sec q s) \<and> tracked (view q) n'"
proof -
  let ?t = "se_token env" and ?now = "now_ms clk 3" and ?v = "view (rq_sec s)"
  let ?l = "added ?now (rq_sec s) uid ?t e"
  obtain q where run: "createSession ctx clk env uid dm ov oa False s = (Inr (Some data), with_sec q s)"
    and q: "view q = (let v = (if getTTLSeconds (snd (last ?l)) ?now > 0 then ?v(active_key uid \<mapsto> CActive ?l) else ?v)
      in if getTTLSeconds e ?now > 0 then v(?t \<mapsto> CSession (stringify data) (map_option stringify user)) else v)"
    using create_session_run[OF data(1,2,4) user] by (auto simp: Let_def)
  have dist: "distinct (map fst data)"
  proof -
    have "distinct (map fst (session_data ctx clk env uid dm ov oa))"
      unfolding session_data_def Let_def
      by (auto intro!: distinct_object_assign split: option.split)
    then show ?thesis by (simp add: data(1))
  qed
  have "tracked (view q) n'"
  proof (cases "getTTLSeconds (snd (last ?l)) ?now > 0")
    case False
    with last_added[of e ?now "rq_sec s" uid ?t] have "\<not> getTTLSeconds e ?now > 0"
      by (simp add: getTTLSeconds_pos)
    with False q have "view q = ?v" by (simp add: Let_def)
    with tracked_later[OF inv] betweenD(4)[OF clk] show ?thesis by simp
  next
    case True
    have ent: "entries (view q) uid = ?l" using True q fresh(1) by (simp add: Let_def entries_upd)
    show ?thesis
    proof (rule tracked_step[where T = "{?t}" and uid = uid, OF inv betweenD(4)[OF clk]])
      show "list_ok (entries (view q) uid)"
        unfolding ent added_def using list_ok_added[OF _ fresh(1)] trackedD(3)[OF inv] by (simp add: refs_entries)
    next
      fix t e' assume "(t, e') \<in> set (entries ?v uid)" "n' < e'" "t \<notin> {?t}"
      with betweenD(2)[OF clk, of 3] show "(t, e') \<in> set (entries (view q) uid)"
        unfolding ent set_added by (auto simp: refs_entries live_refs_def)
    next
      fix t c assume "t \<in> {?t}" "view q t = Some c"
      with q fresh(1,2) have "t = ?t" "c = CSession (stringify data) (map_option stringify user)"
        by (auto simp: Let_def split: if_splits)
      with session_of_stringify[OF dist data(3) fresh(3) data(4)] show "\<exists>r u e. c = CSession r u \<and>
          session_of r uid e \<and> (n' < e \<longrightarrow> (t, e) \<in> set (entries (view q) uid))"
        by (intro exI[of _ "stringify data"] exI[of _ "map_option stringify user"] exI[of _ e])
          (simp add: ent set_added)
    qed (use fresh(1) True q in \<open>auto simp: Let_def split: if_splits\<close>)
  qed
  with run show ?thesis by blast
qed

text \<open>Updating a session.\<close>

lemma update_only: "updateSession ctx clk t data = onStore (update_cached_session ctx S clk t data)"
  by (simp add: updateSession_def storage no_db hooks update_no_hooks)

lemma updated_row:
  assumes "session_of r uid e" and "good_update data"
    and x_def: "x = parseSessionOutput (ic_schema ctx) (merged_session ctx ref (revive_row parse ref r) data)"
  shows "distinct (map fst x)" and "get_field x ''userId'' = Str uid"
    and "\<exists>e. get_field x ''expiresAt'' = DateV ref e"
proof -
  let ?old = "revive_row parse ref r"
  have old: "distinct (map fst ?old)" "get_field ?old ''userId'' = Str uid" "get_field ?old ''expiresAt'' = DateV ref e"
    using session_of_revive[OF assms(1)] by blast+
  have data: "distinct (map fst data)" "''userId'' \<notin> fst ` set data" using assms(2) by (auto simp: good_update_def)
  have "distinct (map fst (merged_session ctx ref ?old data))"
    unfolding merged_session_def using old(1) by (intro distinct_object_assign)
  then show "distinct (map fst x)"
    by (simp add: x_def parseSessionOutput_def filterOutputFields_def Let_def distinct_map_filter)
  show "get_field x ''userId'' = Str uid"
    using old(2) data by (simp add: x_def parseSessionOutput_def get_filterOutputFields returned
        merged_session_def get_object_assign)
  show "\<exists>e. get_field x ''expiresAt'' = DateV ref e"
    using old(3) assms(2) by (auto simp: x_def parseSessionOutput_def get_filterOutputFields returned
        merged_session_def get_object_assign good_update_def coalesce_def new_date_def)
qed

lemma update_tracked:
  assumes inv: "tracked (view (rq_sec s)) n" and clk: "between n clk n'"
    and t: "is_token t" and data: "good_update data"
  shows "\<exists>x q. updateSession ctx clk t data s = (Inr x, with_sec q s) \<and> tracked (view q) n'"
proof -
  let ?v = "view (rq_sec s)" and ?now = "now_ms clk 1"
  show ?thesis
  proof (cases "\<exists>r u. ?v t = Some (CSession r u)")
    case False
    then have "parse_cached ctx (fst (clk 0)) (?v t) = None"
      using trackedD(4)[OF inv t] by (cases "?v t"; cases "the (?v t)") (auto simp: parse_cached_def)
    then have "update_cached_session ctx S clk t data (rq_store s) = (Inr None, rq_store s)"
      by (simp add: update_cached_session_def bindA_def get_run)
    then have "updateSession ctx clk t data s = (Inr None, with_sec (rq_sec s) s)"
      by (simp add: update_only onStore_app)
    with tracked_later[OF inv betweenD(4)[OF clk]] show ?thesis by blast
  next
    case True
    then obtain r u where cached: "?v t = Some (CSession r u)" by blast
    with trackedD(2)[OF inv] obtain uid e0 where r: "session_of r uid e0" by blast
    define x where "x = parseSessionOutput (ic_schema ctx)
      (merged_session ctx (fst (clk 0)) (revive_row (ic_parseDate ctx) (fst (clk 0)) r) data)"
    obtain e where x: "distinct (map fst x)" "get_field x ''userId'' = Str uid"
      "get_field x ''expiresAt'' = DateV (fst (clk 0)) e"
      using updated_row[OF r data x_def] by blast
    let ?l = "added ?now (rq_sec s) uid t e"
    obtain q y where run: "update_cached_session ctx S clk t data (rq_store s) = (Inr (Some x), with_q q (rq_store s))"
      and q: "view q = (if 0 < getTTLSeconds e ?now
        then ?v(t \<mapsto> CSession (stringify x) y, active_key uid \<mapsto> CActive ?l) else ?v)"
      using update_session_run[OF cached x_def x(3,2) _ betweenD(1)[OF clk]] t by auto
    have "tracked (view q) n'"
    proof (cases "0 < getTTLSeconds e ?now")
      case False
      with q tracked_later[OF inv betweenD(4)[OF clk]] show ?thesis by simp
    next
      case True
      have ent: "entries (view q) uid = ?l" using True q by (simp add: entries_upd)
      have uid: "\<not> iso8601 uid" using r by (simp add: session_of_def)
      show ?thesis
      proof (rule tracked_step[where T = "{t}" and uid = uid, OF inv betweenD(4)[OF clk]])
        show "list_ok (entries (view q) uid)"
          unfolding ent added_def using list_ok_added[OF _ t] trackedD(3)[OF inv] by (simp add: refs_entries)
      next
        fix k e' assume "(k, e') \<in> set (entries ?v uid)" "n' < e'" "k \<notin> {t}"
        with betweenD(2)[OF clk, of 1] show "(k, e') \<in> set (entries (view q) uid)"
          unfolding ent set_added by (auto simp: refs_entries live_refs_def)
      next
        fix k c assume "k \<in> {t}" "view q k = Some c"
        with q True t have "k = t" "c = CSession (stringify x) y" by auto
        with session_of_stringify[OF x(1,2) uid x(3)] show "\<exists>r u e. c = CSession r u \<and>
            session_of r uid e \<and> (n' < e \<longrightarrow> (k, e) \<in> set (entries (view q) uid))"
          by (intro exI[of _ "stringify x"] exI[of _ y] exI[of _ e]) (simp add: ent set_added)
      qed (use True q t in auto)
    qed
    moreover have "updateSession ctx clk t data s = (Inr (Some x), with_sec q s)"
      using onStore_with_q[of "update_cached_session ctx S clk t data" s, OF run] by (simp add: update_only)
    ultimately show ?thesis by blast
  qed
qed

text \<open>Removing tokens leaves the invariant, whatever the lists still name.\<close>

lemma tracked_removed:
  assumes "tracked (view q) n" and "n \<le> n'" and "\<And>t. t \<in> T \<Longrightarrow> is_token t"
  shows "tracked (\<lambda>k. if k \<in> T then None else view q k) n'"
proof -
  have out: "active_key w \<notin> T" for w using assms(3) active_key_no_token by blast
  then have same: "entries (\<lambda>k. if k \<in> T then None else view q k) w = entries (view q) w" for w
    by (simp add: entries_def)
  show ?thesis
    by (rule tracked_step[where T = T and uid = "[]", OF assms(1,2)])
       (use assms(3) out trackedD(3)[OF assms(1)] tracked_active[OF assms(1)] in \<open>simp_all add: same\<close>)
qed

text \<open>Deleting a session.\<close>

lemma delete_finish:
  "\<exists>p. bindA (sec (ss_delete S t)) (\<lambda>_. after_cache ctx c ws d) s = (Inr (), with_sec p s) \<and>
     view p = (view (rq_sec s))(t := None)"
proof -
  obtain p where "ss_delete S t (rq_sec s) = (Inr (), p)" "view p = (view (rq_sec s))(t := None)"
    by (rule delete_run)
  then show ?thesis by (intro exI[of _ p]) (simp add: bindA_def sec_run after_cache_def no_db)
qed

lemma get_sec: "sec (ss_get S k) s = (Inr (view (rq_sec s) k), s)"
  by (subst sec_run[OF get_view]) simp

text \<open>What a deletion leaves, by what the token held.\<close>

lemma delete_run_cases:
  obtains (corrupt) c where "view (rq_sec s) t = Some c" "\<And>r u. c \<noteq> CSession r u"
      "deleteSession ctx clk t s = (Inr (), s)"
  | (absent) q where "view (rq_sec s) t = None" "deleteSession ctx clk t s = (Inr (), with_sec q s)"
      "view q = (view (rq_sec s))(t := None)"
  | (present) r u uid q l where "view (rq_sec s) t = Some (CSession r u)"
      "uid = js_String (ic_host ctx) (get_field (revive_row (ic_parseDate ctx) (fst (clk 0)) r) ''userId'')"
      "deleteSession ctx clk t s = (Inr (), with_sec q s)"
      "view q = (if view (rq_sec s) (active_key uid) = None then view (rq_sec s)
                 else (view (rq_sec s))(active_key uid := l))(t := None)"
      "l = None \<and> (\<forall>(t', e) \<in> set (refs (rq_sec s) uid). t' = t \<or> e \<le> now_ms clk 0 \<or> e \<le> now_ms clk 1 \<or> e \<le> 0) \<or>
       l = Some (CActive (sort_key snd (live_refs (now_ms clk 0) [t] (refs (rq_sec s) uid))))"
proof (cases "view (rq_sec s) t")
  case None
  obtain q where "bindA (sec (ss_delete S t)) (\<lambda>_. after_cache ctx (\<lambda>i. clk (i + 2)) [wh_eq ''token'' (Str t)]
      (delete_in_database ctx t)) s = (Inr (), with_sec q s)" "view q = (view (rq_sec s))(t := None)"
    using delete_finish by blast
  with None show thesis
    by (intro absent) (simp_all add: deleteSession_def storage bindA_ok[OF get_sec] Let_def)
next
  case (Some c)
  show thesis
  proof (cases "\<exists>r u. c = CSession r u")
    case False
    then have "deleteSession ctx clk t s = (Inr (), s)"
      using Some by (cases c) (simp_all add: deleteSession_def storage bindA_ok[OF get_sec] Let_def parse_cached_def)
    with Some False show thesis by (intro corrupt) auto
  next
    case True
    then obtain r u where c: "c = CSession r u" by blast
    define uid where "uid = js_String (ic_host ctx) (get_field (revive_row (ic_parseDate ctx) (fst (clk 0)) r) ''userId'')"
    obtain q l where drop: "drop_ref ctx S clk uid t (rq_store s) = (Inr (), with_q q (rq_store s))"
      and q: "view q = (if view (rq_sec s) (active_key uid) = None then view (rq_sec s)
               else (view (rq_sec s))(active_key uid := l))"
      and l: "l = None \<and> (\<forall>(t', e) \<in> set (refs (rq_sec s) uid). t' = t \<or> e \<le> now_ms clk 0 \<or> e \<le> now_ms clk 1 \<or> e \<le> 0) \<or>
        l = Some (CActive (sort_key snd (live_refs (now_ms clk 0) [t] (refs (rq_sec s) uid))))"
      using drop_ref_run by blast
    from onStore_with_q[of "drop_ref ctx S clk uid t" s, OF drop]
    have drop': "onStore (drop_ref ctx S clk uid t) s = (Inr (), with_sec q s)" .
    obtain p where p: "bindA (sec (ss_delete S t)) (\<lambda>_. after_cache ctx (\<lambda>i. clk (i + 2)) [wh_eq ''token'' (Str t)]
        (delete_in_database ctx t)) (with_sec q s) = (Inr (), with_sec p (with_sec q s))"
      "view p = (view (rq_sec (with_sec q s)))(t := None)"
      using delete_finish by blast
    have "deleteSession ctx clk t s = (Inr (), with_sec p s)"
      using Some c drop' p(1)
      by (simp add: deleteSession_def storage bindA_ok[OF get_sec] Let_def parse_cached_def
          bindA_def[of "onStore _"] with_sec_def flip: uid_def)
    with Some c q l p(2) show thesis by (intro present[of r u uid p l]) (simp_all add: uid_def)
  qed
qed

lemma delete_tracked:
  assumes inv: "tracked (view (rq_sec s)) n" and clk: "between n clk n'" and t: "is_token t"
  shows "\<exists>q. deleteSession ctx clk t s = (Inr (), with_sec q s) \<and> tracked (view q) n'"
proof (cases rule: delete_run_cases[of s t clk])
  case (corrupt c)
  then have "deleteSession ctx clk t s = (Inr (), with_sec (rq_sec s) s)" by simp
  with tracked_later[OF inv betweenD(4)[OF clk]] show ?thesis by blast
next
  case (absent q)
  have "view q = (\<lambda>k. if k \<in> {t} then None else view (rq_sec s) k)" using absent(3) by auto
  with tracked_removed[OF inv betweenD(4)[OF clk], of "{t}"] t absent(2) show ?thesis by auto
next
  case (present r u uid q l)
  let ?v = "view (rq_sec s)"
  have refs: "refs (rq_sec s) uid = entries ?v uid" by (rule refs_entries)
  have ent: "entries (view q) uid = (if ?v (active_key uid) = None then [] else session_refs l)"
    using present(4) t by (auto simp: entries_def)
  have none: "?v (active_key uid) = None \<Longrightarrow> entries ?v uid = []" by (simp add: entries_def)
  have "tracked (view q) n'"
  proof (rule tracked_step[where T = "{t}" and uid = uid, OF inv betweenD(4)[OF clk]])
    show "list_ok (entries (view q) uid)"
      using present(5) list_ok_live[OF trackedD(3)[OF inv]] by (auto simp: ent refs)
  next
    fix k e assume "(k, e) \<in> set (entries ?v uid)" "n' < e" "k \<notin> {t}"
    with present(5) betweenD(1,2)[OF clk, of 0] betweenD(2)[OF clk, of 1] none
    show "(k, e) \<in> set (entries (view q) uid)" by (fastforce simp: ent refs live_refs_def)
  next
    fix r' u' show "view q (active_key uid) \<noteq> Some (CSession r' u')"
      using present(4,5) t by auto
  qed (use present(4) t in auto)
  with present(3) show ?thesis by blast
qed

text \<open>Revoking all sessions of a user, outside a transaction.\<close>

lemma revoke_run:
  assumes inv: "tracked (view (rq_sec s)) n" and out: "\<not> rq_tx s"
  shows "\<exists>q l. deleteUserSessions ctx clk uid s = (Inr (), with_sec q s) \<and>
    view q = (\<lambda>k. if k = active_key uid then l
                  else if k \<in> set (map fst (entries (view (rq_sec s)) uid)) then None
                  else view (rq_sec s) k) \<and>
    list_ok (session_refs l) \<and> (\<forall>r u. l \<noteq> Some (CSession r u))"
proof -
  let ?v = "view (rq_sec s)" and ?gone = "refs (rq_sec s) uid" and ?now = "now_ms clk 2"
  have gone: "?gone = entries ?v uid" by (rule refs_entries)
  have "list_ok ?gone" using trackedD(3)[OF inv] by (simp add: gone)
  then have "active_key uid \<notin> set (map fst ?gone)"
    using active_key_no_token by (auto simp: list_ok_def list_all_iff)
  from delete_cached_run[OF this, of ?now "rq_store s"] obtain q where
    run: "deleteCachedUserSessions ctx ?now uid ?gone (rq_store s) = (Inr (), with_q q (rq_store s))"
    and q: "view q = (\<lambda>k. if k = active_key uid
        then shown_refs (sort_key snd (live_refs ?now (map fst ?gone) ?gone))
        else if k \<in> set (map fst ?gone) then None else ?v k)" by blast
  have "executeHook (deleteCachedUserSessions ctx ?now uid ?gone) (Some log_error) (rq_store s) =
      (Inr (), with_q q (rq_store s))" using run by (simp add: executeHook_def catchA_def)
  then have "queueCachedUserSessionDeletion ctx ?now uid (Some ?gone) s = (Inr (), with_sec q s)"
    using out by (simp add: queueCachedUserSessionDeletion_def storage queueAfterTransactionHook_def
        onStore_app with_sec_def)
  then have "deleteUserSessions ctx clk uid s = (Inr (), with_sec q s)"
    using refs_run[of uid "rq_store s"]
    by (simp add: deleteUserSessions_def Let_def storage no_db bindA_def onStore_app)
  moreover have "list_ok (session_refs (shown_refs (sort_key snd (live_refs ?now (map fst ?gone) ?gone))))"
    using list_ok_live[OF \<open>list_ok ?gone\<close>] by (simp add: shown_refs_def)
  moreover have "shown_refs l \<noteq> Some (CSession r u)" for l r u by (simp add: shown_refs_def)
  ultimately show ?thesis
    by (intro exI[of _ q] exI[of _ "shown_refs (sort_key snd (live_refs ?now (map fst ?gone) ?gone))"])
       (use q in \<open>auto simp: gone fun_eq_iff\<close>)
qed

lemma revoke_tracked:
  assumes inv: "tracked (view (rq_sec s)) n" and clk: "between n clk n'" and out: "\<not> rq_tx s"
  shows "\<exists>q. deleteUserSessions ctx clk uid s = (Inr (), with_sec q s) \<and> tracked (view q) n'"
proof -
  let ?T = "set (map fst (entries (view (rq_sec s)) uid))"
  obtain q l where run: "deleteUserSessions ctx clk uid s = (Inr (), with_sec q s)"
    and q: "view q = (\<lambda>k. if k = active_key uid then l else if k \<in> ?T then None else view (rq_sec s) k)"
    and l: "list_ok (session_refs l)" "\<And>r u. l \<noteq> Some (CSession r u)"
    using revoke_run[OF inv out] by blast
  have T: "\<And>t. t \<in> ?T \<Longrightarrow> is_token t"
    using trackedD(3)[OF inv, of uid] by (auto simp: list_ok_def list_all_iff)
  have "tracked (view q) n'"
    by (rule tracked_step[where T = ?T and uid = uid, OF inv betweenD(4)[OF clk] _ _ T])
       (use q l T in \<open>auto simp: entries_def intro: rev_image_eqI\<close>)
  with run show ?thesis by blast
qed

text \<open>Deleting some tokens.\<close>

lemma delete_all_sec:
  "\<exists>q. promise_all (\<lambda>t. sec (ss_delete S t)) ts s = (Inr (), with_sec q s) \<and>
     view q = (\<lambda>k. if k \<in> set ts then None else view (rq_sec s) k)"
proof (induction ts arbitrary: s)
  case Nil
  then show ?case by (intro exI[of _ "rq_sec s"]) simp
next
  case (Cons t ts)
  obtain q where q: "ss_delete S t (rq_sec s) = (Inr (), q)" "view q = (view (rq_sec s))(t := None)"
    by (rule delete_run)
  from Cons.IH[of "with_sec q s"] obtain p where
    "promise_all (\<lambda>t. sec (ss_delete S t)) ts (with_sec q s) = (Inr (), with_sec p (with_sec q s))"
    "view p = (\<lambda>k. if k \<in> set ts then None else view (rq_sec (with_sec q s)) k)" by blast
  with q show ?case
    by (intro exI[of _ p]) (auto simp: bothA_ok sec_run fun_eq_iff with_sec_def)
qed

lemma delete_many_tracked:
  assumes inv: "tracked (view (rq_sec s)) n" and clk: "between n clk n'" and ts: "list_all is_token ts"
  shows "\<exists>q. deleteSessions ctx clk ts s = (Inr (), with_sec q s) \<and> tracked (view q) n'"
proof -
  obtain q where q: "promise_all (\<lambda>t. sec (ss_delete S t)) ts s = (Inr (), with_sec q s)"
    "view q = (\<lambda>k. if k \<in> set ts then None else view (rq_sec s) k)"
    using delete_all_sec by blast
  have "deleteSessions ctx clk ts s = (Inr (), with_sec q s)"
    using q(1) by (simp add: deleteSessions_def Let_def storage bindA_def after_cache_def no_db)
  moreover have "tracked (view q) n'"
    unfolding q(2) by (rule tracked_removed[OF inv betweenD(4)[OF clk]]) (use ts in \<open>simp add: list_all_iff\<close>)
  ultimately show ?thesis by blast
qed

text \<open>Refreshing the user in cached sessions.\<close>

lemma refresh_tracked:
  assumes inv: "tracked (view (st_sec s)) n" and t: "is_token t"
  shows "\<exists>q. refresh_session ctx S ref now user t s = (Inr (), with_q q s) \<and> tracked (view q) n \<and>
    entries (view q) = entries (view (st_sec s))"
proof -
  let ?v = "view (st_sec s)"
  have dates: "\<forall>s0 u. ?v t = Some (CSession s0 u) \<longrightarrow> (\<exists>r e. get_field s0 ''expiresAt'' = DateV r e)"
    using trackedD(2)[OF inv] by (auto simp: session_of_def) metis
  have texts: "\<forall>c. ?v t = Some c \<longrightarrow> (\<exists>s0 u. c = CSession s0 u) \<or> (\<exists>t. c = CText t)"
    using trackedD(4)[OF inv t] by (metis is_session_text.elims(2))
  obtain q where run: "refresh_session ctx S ref now user t s = (Inr (), with_q q s)"
    and q: "view q = (case ?v t of
        Some (CSession s0 u) \<Rightarrow> ?v(t \<mapsto>
          CSession (stringify (revive_row (ic_parseDate ctx) ref s0)) (Some (stringify user)))
      | _ \<Rightarrow> ?v)"
    using refresh_session_run[OF dates texts] by blast
  show ?thesis
  proof (cases "\<exists>r u. ?v t = Some (CSession r u)")
    case False
    then have "view q = ?v" using q by (auto split: option.splits cached.splits)
    with inv run show ?thesis by auto
  next
    case True
    then obtain r u where old: "?v t = Some (CSession r u)" by blast
    with trackedD(2)[OF inv] obtain uid e where r: "session_of r uid e" "n < e \<longrightarrow> (t, e) \<in> set (entries ?v uid)"
      by blast
    let ?r = "stringify (revive_row (ic_parseDate ctx) ref r)"
    have q': "view q = ?v(t \<mapsto> CSession ?r (Some (stringify user)))" using q old by simp
    have same: "entries (view q) w = entries ?v w" for w using q' t by (simp add: entries_def)
    have r': "session_of ?r uid e"
      using session_of_revive[OF r(1), of "ic_parseDate ctx" ref] r(1)
      by (intro session_of_stringify) (auto simp: session_of_def)
    have "tracked (view q) n"
      by (rule tracked_step[where T = "{t}" and uid = uid, OF inv])
         (use q' t r r' trackedD(3)[OF inv] tracked_active[OF inv] same in auto)
    with run same show ?thesis by auto
  qed
qed

lemma refresh_all_tracked:
  assumes "tracked (view (st_sec s)) n" and "list_all is_token ts"
  shows "\<exists>q. promise_all (refresh_session ctx S ref now user) ts s = (Inr (), with_q q s) \<and> tracked (view q) n"
  using assms
proof (induction ts arbitrary: s)
  case Nil
  then show ?case by (intro exI[of _ "st_sec s"]) simp
next
  case (Cons t ts)
  then obtain q where q: "refresh_session ctx S ref now user t s = (Inr (), with_q q s)" "tracked (view q) n"
    using refresh_tracked[of s n t ref now user] by auto
  from Cons.IH[of "with_q q s"] q(2) Cons.prems(2) obtain p where
    "promise_all (refresh_session ctx S ref now user) ts (with_q q s) = (Inr (), with_q p (with_q q s))"
    "tracked (view p) n" by auto
  with q(1) show ?case by (intro exI[of _ p]) (simp add: bothA_ok)
qed

lemma refresh_user_tracked:
  assumes inv: "tracked (view (rq_sec s)) n" and clk: "between n clk n'"
  shows "\<exists>q. onStore (refreshUserSessions ctx clk (Some user)) s = (Inr (), with_sec q s) \<and> tracked (view q) n'"
proof -
  define uid where "uid = js_String (ic_host ctx) (get_field user ''id'')"
  let ?ts = "map fst (live_refs (now_ms clk 0) [] (refs (rq_sec s) uid))"
  have "list_all is_token ?ts"
    using trackedD(3)[OF inv, of uid] by (auto simp: refs_entries list_ok_def live_refs_def list_all_iff)
  from refresh_all_tracked[OF inv this, of "fst (clk 0)" "now_ms clk 0" user] obtain q where
    "promise_all (refresh_session ctx S (fst (clk 0)) (now_ms clk 0) user) ?ts (rq_store s) =
      (Inr (), with_q q (rq_store s))" "tracked (view q) n" by blast
  moreover from this(1) have "refreshUserSessions ctx clk (Some user) (rq_store s) = (Inr (), with_q q (rq_store s))"
    using refs_run[of uid "rq_store s"] by (simp add: refreshUserSessions_def storage bindA_def flip: uid_def)
  then have "onStore (refreshUserSessions ctx clk (Some user)) s = (Inr (), with_sec q s)"
    by (rule onStore_with_q)
  ultimately show ?thesis using tracked_later[OF _ betweenD(4)[OF clk]] by blast
qed

end

section \<open>The steps\<close>

text \<open>
  Every operation on sessions, run to its end, and the two ways the storage drops an entry:
  a session at any time, a list when all it names has expired. (A list lives whole seconds
  counted from its last write, so it may go up to one second before its last session.) A new
  session belongs to the user it is created for and its token is fresh.
\<close>

inductive session_step ::
  "('s, 'q) ictx \<Rightarrow> ('q \<Rightarrow> string \<Rightarrow> cached option) \<Rightarrow>
     int \<times> ('s, 'q) stores req \<Rightarrow> int \<times> ('s, 'q) stores req \<Rightarrow> bool"
  for ctx view
where
  create_step: "between n clk n' \<Longrightarrow> data = session_data ctx clk env uid dm ov oa \<Longrightarrow>
     get_field data ''token'' = Str (se_token env) \<Longrightarrow> get_field data ''userId'' = Str uid \<Longrightarrow>
     get_field data ''expiresAt'' = DateV i e \<Longrightarrow> is_token (se_token env) \<Longrightarrow>
     view (rq_sec s) (se_token env) = None \<Longrightarrow> \<not> iso8601 uid \<Longrightarrow>
     a_findOne (ic_adapter ctx) ''user'' [wh_eq ''id'' (Str uid)] (rq_db s) = (Inr user, rq_db s) \<Longrightarrow>
     session_step ctx view (n, s) (n', snd (createSession ctx clk env uid dm ov oa False s))"
| update_step: "between n clk n' \<Longrightarrow> is_token t \<Longrightarrow> good_update data \<Longrightarrow>
     session_step ctx view (n, s) (n', snd (updateSession ctx clk t data s))"
| refresh_step: "between n clk n' \<Longrightarrow>
     session_step ctx view (n, s) (n', snd (onStore (refreshUserSessions ctx clk (Some user)) s))"
| delete_step: "between n clk n' \<Longrightarrow> is_token t \<Longrightarrow>
     session_step ctx view (n, s) (n', snd (deleteSession ctx clk t s))"
| delete_many_step: "between n clk n' \<Longrightarrow> list_all is_token ts \<Longrightarrow>
     session_step ctx view (n, s) (n', snd (deleteSessions ctx clk ts s))"
| revoke_step: "between n clk n' \<Longrightarrow>
     session_step ctx view (n, s) (n', snd (deleteUserSessions ctx clk uid s))"
| drop_session_step: "n \<le> n' \<Longrightarrow> is_token t \<Longrightarrow> view q = (view (rq_sec s))(t := None) \<Longrightarrow>
     session_step ctx view (n, s) (n', with_sec q s)"
| drop_list_step: "n \<le> n' \<Longrightarrow> list_all (\<lambda>(t, e). e \<le> n) (entries (view (rq_sec s)) uid) \<Longrightarrow>
     view q = (view (rq_sec s))(active_key uid := None) \<Longrightarrow>
     session_step ctx view (n, s) (n', with_sec q s)"

context session_only
begin

lemma step_tracked:
  assumes "session_step ctx view p p'" and "tracked (view (rq_sec (snd p))) (fst p)" and "\<not> rq_tx (snd p)"
  shows "tracked (view (rq_sec (snd p'))) (fst p') \<and> \<not> rq_tx (snd p')"
  using assms
proof (cases rule: session_step.cases)
  case (create_step n clk n' data env uid dm ov oa i e s user)
  with assms(2,3) create_tracked[of s n clk n' data env uid dm ov oa i e user] show ?thesis by auto
next
  case (update_step n clk n' t data s)
  with assms(2,3) update_tracked[of s n clk n' t data] show ?thesis by auto
next
  case (refresh_step n clk n' s user)
  with assms(2,3) refresh_user_tracked[of s n clk n' user] show ?thesis by auto
next
  case (delete_step n clk n' t s)
  with assms(2,3) delete_tracked[of s n clk n' t] show ?thesis by auto
next
  case (delete_many_step n clk n' ts s)
  with assms(2,3) delete_many_tracked[of s n clk n' ts] show ?thesis by auto
next
  case (revoke_step n clk n' s uid)
  with assms(2,3) revoke_tracked[of s n clk n' uid] show ?thesis by auto
next
  case (drop_session_step n n' t q s)
  have "view q = (\<lambda>k. if k \<in> {t} then None else view (rq_sec s) k)" using drop_session_step(5) by auto
  with drop_session_step assms(2,3) tracked_removed[of "rq_sec s" n n' "{t}"] show ?thesis by auto
next
  case (drop_list_step n n' s uid q)
  have "tracked (view q) n'"
    by (rule tracked_step[where T = "{}" and uid = uid, of "view (rq_sec s)" n])
       (use drop_list_step assms(2) in \<open>auto simp: entries_upd list_all_iff\<close>)
  with drop_list_step assms(3) show ?thesis by simp
qed

lemma steps_tracked:
  assumes "(session_step ctx view)\<^sup>*\<^sup>* p p'" and "tracked (view (rq_sec (snd p))) (fst p)" and "\<not> rq_tx (snd p)"
  shows "tracked (view (rq_sec (snd p'))) (fst p') \<and> \<not> rq_tx (snd p')"
  using assms
proof (induction rule: rtranclp_induct)
  case (step p' p'')
  then show ?case using step_tracked[of p' p''] by blast
qed blast

text \<open>What \<open>findSession\<close> returns was stored under the token, with its owner and expiry.\<close>

lemma find_only:
  "findSession ctx clk k s = (case parse_cached ctx (fst (clk 0)) (view (rq_sec s) k) of
     None \<Rightarrow> (Inr None, s)
   | Some c \<Rightarrow> (case parsed_session ctx (fst (clk 0)) c of Inl e \<Rightarrow> Inl e | Inr r \<Rightarrow> Inr (Some r), s))"
proof (cases "view (rq_sec s) k")
  case None
  then show ?thesis
    by (simp add: findSession_def storage no_db bindA_ok[OF get_sec] parse_cached_def)
next
  case (Some c)
  show ?thesis
    by (cases "parsed_session ctx (fst (clk 0)) (the (safeJSONParse (ic_parseDate ctx) (fst (clk 0)) c))")
       (auto simp: findSession_def storage bindA_ok[OF get_sec] Some parse_cached_def bindA_def
         split: option.split sum.split)
qed

lemma found_session_stored:
  assumes "fst (findSession ctx clk k s) = Inr (Some (r, u))"
  obtains r0 u0 where "view (rq_sec s) k = Some (CSession r0 u0)"
    "\<And>w e. session_of r0 w e \<Longrightarrow> get_field r ''userId'' = Str w \<and> (\<exists>i. get_field r ''expiresAt'' = DateV i e)"
proof -
  from assms obtain c where c: "parse_cached ctx (fst (clk 0)) (view (rq_sec s) k) = Some c"
    "parsed_session ctx (fst (clk 0)) c = Inr (r, u)"
    by (auto simp: find_only split: option.splits sum.splits)
  then obtain s1 u1 where s1: "c = CSession s1 (Some u1)"
    "r = parseSessionOutput (ic_schema ctx) (with_dates ctx (fst (clk 0)) [''expiresAt'', ''createdAt'', ''updatedAt''] s1)"
    by (auto simp: parsed_session_def split: cached.splits option.splits)
  with c(1) obtain r0 u0 where r0: "view (rq_sec s) k = Some (CSession r0 u0)"
    "s1 = revive_row (ic_parseDate ctx) (fst (clk 0)) r0"
    by (cases "view (rq_sec s) k"; cases "the (view (rq_sec s) k)") (auto simp: parse_cached_def)
  show thesis
  proof (rule that[OF r0(1)])
    fix w e assume "session_of r0 w e"
    from session_of_revive[OF this, of "ic_parseDate ctx" "fst (clk 0)"]
    show "get_field r ''userId'' = Str w \<and> (\<exists>i. get_field r ''expiresAt'' = DateV i e)"
      by (simp add: s1(2) r0(2) parseSessionOutput_def get_filterOutputFields returned with_dates_def
          get_object_assign new_date_def)
  qed
qed

text \<open>After a revocation the user has no live session.\<close>

lemma revoked:
  assumes inv: "tracked (view (rq_sec s)) n" and out: "\<not> rq_tx s"
  shows "\<exists>t. deleteUserSessions ctx clk uid s = (Inr (), t) \<and>
    (\<forall>k clk' r u. fst (findSession ctx clk' k t) = Inr (Some (r, u)) \<longrightarrow> get_field r ''userId'' = Str uid \<longrightarrow>
       (\<exists>i e. get_field r ''expiresAt'' = DateV i e \<and> e \<le> n)) \<and>
    (\<forall>k. k \<noteq> active_key uid \<longrightarrow> k \<notin> fst ` set (entries (view (rq_sec s)) uid) \<longrightarrow>
       view (rq_sec t) k = view (rq_sec s) k)"
proof -
  let ?gone = "set (map fst (entries (view (rq_sec s)) uid))"
  from revoke_run[OF inv out] obtain q l where run: "deleteUserSessions ctx clk uid s = (Inr (), with_sec q s)"
    and q: "view q = (\<lambda>k. if k = active_key uid then l else if k \<in> ?gone then None else view (rq_sec s) k)"
    and l: "\<forall>r u. l \<noteq> Some (CSession r u)" by blast
  have "\<exists>i e. get_field r ''expiresAt'' = DateV i e \<and> e \<le> n"
    if found: "fst (findSession ctx clk' k (with_sec q s)) = Inr (Some (r, u))" "get_field r ''userId'' = Str uid"
    for k clk' r u
  proof -
    from found(1) obtain r0 u0 where k: "view q k = Some (CSession r0 u0)"
      and r: "\<And>w e. session_of r0 w e \<Longrightarrow> get_field r ''userId'' = Str w \<and> (\<exists>i. get_field r ''expiresAt'' = DateV i e)"
      by (rule found_session_stored) simp
    from k q l have old: "view (rq_sec s) k = Some (CSession r0 u0)" "k \<notin> ?gone" by (auto split: if_splits)
    from trackedD(2)[OF inv old(1)] obtain w e where w: "session_of r0 w e"
      "n < e \<longrightarrow> (k, e) \<in> set (entries (view (rq_sec s)) w)" by blast
    from r[OF w(1)] found(2) w(2) old(2) show ?thesis by (force simp: not_less)
  qed
  with run q show ?thesis by (intro exI[of _ "with_sec q s"]) auto
qed

end

end
