(* ===== verification/UserStore.thy ===== *)
theory UserStore
  imports SessionStore
begin

text \<open>
  Users and accounts: the remaining operations of
  \<open>packages/cinaauth/src/db/internal-adapter.ts\<close> and the gate on new users of
  \<open>packages/cinaauth/src/utils/validate-user-info.ts\<close>. The application's \<open>validateUserInfo\<close>
  is a parameter: from the user and the source to an error code, if any.
\<close>

abbreviation user_model :: string where "user_model \<equiv> ''user''"
abbreviation account_model :: string where "account_model \<equiv> ''account''"

section \<open>The gate on new users\<close>

record user_source =
  us_method :: string                \<comment> \<open>empty when it is missing\<close>
  us_oauthProvider :: string
  us_ssoProvider :: string

definition validation_source_missing :: err where
  "validation_source_missing = APIError ''FORBIDDEN'' ''validation_source_missing''"

definition assertValidUserInfoSource :: "user_source \<Rightarrow> unit res" where
  "assertValidUserInfoSource source =
     (if us_method source = [] then Inl validation_source_missing
      else if us_method source = ''oauth'' \<and> us_oauthProvider source = [] then Inl validation_source_missing
      else if us_method source \<in> {''sso-oidc'', ''sso-saml''} \<and> us_ssoProvider source = []
        then Inl validation_source_missing
      else Inr ())"

type_synonym user_gate = "row \<Rightarrow> user_source \<Rightarrow> string option res"

definition assertValidUserInfo :: "user_gate option \<Rightarrow> row \<Rightarrow> user_source \<Rightarrow> unit res" where
  "assertValidUserInfo gate user source =
     (case gate of
        None \<Rightarrow> Inr ()
      | Some validate \<Rightarrow>
          bindR (assertValidUserInfoSource source) (\<lambda>_.
            case validate user source of
              Inl _ \<Rightarrow> Inl (APIError ''FORBIDDEN'' ''validation_failed'')
            | Inr (Some code) \<Rightarrow> if code \<noteq> [] then Inl (APIError ''FORBIDDEN'' code) else Inr ()
            | Inr None \<Rightarrow> Inr ()))"

section \<open>Creating\<close>

text \<open>\<open>user.email?.toLowerCase()\<close>\<close>

fun lower_email :: "val \<Rightarrow> val" where
  "lower_email (Str e) = Str (toLowerCase e)"
| "lower_email _ = Undef"

definition dated :: "clock \<Rightarrow> row" where
  "dated clk = [(''createdAt'', date_at clk 0), (''updatedAt'', date_at clk 1)]"

definition user_data :: "clock \<Rightarrow> row \<Rightarrow> row" where
  "user_data clk user =
     set_field (object_assign (dated clk) user) ''email'' (lower_email (get_field user ''email''))"

definition create_user_row :: "('s, 'q) ictx \<Rightarrow> row \<Rightarrow> ('s, 'q, row option) iact" where
  "create_user_row ctx data =
     createWithHooks (ic_db ctx) (ic_hooks ctx user_model) data user_model None"

definition create_account_row :: "('s, 'q) ictx \<Rightarrow> row \<Rightarrow> ('s, 'q, row option) iact" where
  "create_account_row ctx data =
     createWithHooks (ic_db ctx) (ic_hooks ctx account_model) data account_model None"

definition createUser ::
  "('s, 'q) ictx \<Rightarrow> clock \<Rightarrow> user_gate option \<Rightarrow> bool \<Rightarrow> row \<Rightarrow> user_source \<Rightarrow> ('s, 'q, row option) iact"
where
  "createUser ctx clk gate has_endpoint_context user source =
     (let data = user_data clk user in
      bindA (if gate = None then returnA ()
             else
               bindA (liftR (assertValidUserInfoSource source)) (\<lambda>_.
                 if \<not> has_endpoint_context
                 then throwA (APIError ''FORBIDDEN'' ''validation_context_missing'')
                 else liftR (assertValidUserInfo gate data source)))
        (\<lambda>_. create_user_row ctx data))"

definition createAccount :: "('s, 'q) ictx \<Rightarrow> clock \<Rightarrow> row \<Rightarrow> ('s, 'q, row option) iact" where
  "createAccount ctx clk account = create_account_row ctx (object_assign (dated clk) account)"

definition linkAccount :: "('s, 'q) ictx \<Rightarrow> clock \<Rightarrow> row \<Rightarrow> ('s, 'q, row option) iact" where
  "linkAccount ctx clk account = create_account_row ctx (object_assign (dated clk) account)"

definition createOAuthUser ::
  "('s, 'q) ictx \<Rightarrow> clock \<Rightarrow> row \<Rightarrow> row \<Rightarrow> ('s, 'q, row \<times> row option) iact"
where
  "createOAuthUser ctx clk user account =
     runWithTransaction (ic_tx ctx) None
       (bindA (create_user_row ctx (user_data clk user)) (\<lambda>createdUser.
          case createdUser of
            None \<Rightarrow> throwA (APIError ''BAD_REQUEST'' ''Failed to create user'')
          | Some u \<Rightarrow>
              bindA (create_account_row ctx
                       (object_assign account
                          [(''userId'', get_field u ''id''), (''createdAt'', date_at clk 2),
                           (''updatedAt'', date_at clk 3)]))
                (\<lambda>createdAccount. returnA (u, createdAccount))))"

section \<open>Finding\<close>

definition listUsers ::
  "('s, 'q) ictx \<Rightarrow> int option \<Rightarrow> int option \<Rightarrow> (string \<times> direction) option \<Rightarrow> CleanedWhere list \<Rightarrow>
     ('s, 'q, row list) iact"
where
  "listUsers ctx limit offset sortBy ws = db (a_findMany (ic_adapter ctx) user_model ws sortBy limit offset)"

definition countTotalUsers :: "('s, 'q) ictx \<Rightarrow> CleanedWhere list option \<Rightarrow> ('s, 'q, nat) iact" where
  "countTotalUsers ctx ws = db (a_count (ic_adapter ctx) user_model ws)"

definition findUserById :: "('s, 'q) ictx \<Rightarrow> string \<Rightarrow> ('s, 'q, row option) iact" where
  "findUserById ctx userId =
     (if userId = [] then returnA None
      else db (a_findOne (ic_adapter ctx) user_model [wh_eq ''id'' (Str userId)]))"

definition findUserByEmail ::
  "('s, 'q) ictx \<Rightarrow> string \<Rightarrow> bool \<Rightarrow> ('s, 'q, (row \<times> row list) option) iact"
where
  "findUserByEmail ctx email includeAccounts =
     (let by_email = [wh_eq ''email'' (Str (toLowerCase email))] in
      if includeAccounts then db (ic_findUserWithAccounts ctx by_email)
      else bindA (db (a_findOne (ic_adapter ctx) user_model by_email)) (\<lambda>u.
             returnA (map_option (\<lambda>u. (u, [])) u)))"

definition of_user :: "string \<Rightarrow> CleanedWhere list" where
  "of_user userId = [wh_eq ''userId'' (Str userId)]"

definition findAccounts :: "('s, 'q) ictx \<Rightarrow> string \<Rightarrow> ('s, 'q, row list) iact" where
  "findAccounts ctx userId = db (a_findMany (ic_adapter ctx) account_model (of_user userId) None None None)"

definition findAccountByUserId :: "('s, 'q) ictx \<Rightarrow> string \<Rightarrow> ('s, 'q, row list) iact" where
  "findAccountByUserId ctx userId =
     db (a_findMany (ic_adapter ctx) account_model (of_user userId) None None None)"

definition credential_of :: "string \<Rightarrow> CleanedWhere list" where
  "credential_of userId =
     [wh_eq ''userId'' (Str userId), wh_eq ''providerId'' (Str ''credential''), wh_eq ''accountId'' (Str userId)]"

definition findCredentialAccount :: "('s, 'q) ictx \<Rightarrow> string \<Rightarrow> ('s, 'q, row option) iact" where
  "findCredentialAccount ctx userId = db (a_findOne (ic_adapter ctx) account_model (credential_of userId))"

definition account_key :: "string \<Rightarrow> string \<Rightarrow> CleanedWhere list" where
  "account_key providerId accountId =
     [wh_eq ''providerId'' (Str providerId), wh_eq ''accountId'' (Str accountId)]"

text \<open>The provider is quoted as \<open>JSON.stringify\<close> does for a text without characters to escape.\<close>

definition ambiguous_account :: "string \<Rightarrow> err" where
  "ambiguous_account providerId = Throw (''Multiple accounts match the same accountId for provider '' @
     ''\"'' @ providerId @ ''\"'' @ ''. Resolve duplicate account identities before continuing.'')"

definition findAccountByKey ::
  "('s, 'q) ictx \<Rightarrow> string \<Rightarrow> string \<Rightarrow> ('s, 'q, row option) iact"
where
  "findAccountByKey ctx providerId accountId =
     bindA (db (a_findMany (ic_adapter ctx) account_model (account_key providerId accountId) None (Some 2) None))
       (\<lambda>accounts. case accounts of
          [] \<Rightarrow> returnA None
        | [a] \<Rightarrow> returnA (Some a)
        | _ \<Rightarrow> throwA (ambiguous_account providerId))"

datatype account_owner = Owned row row | Orphaned row

definition findAccountOwnerByKey ::
  "('s, 'q) ictx \<Rightarrow> string \<Rightarrow> string \<Rightarrow> ('s, 'q, account_owner option) iact"
where
  "findAccountOwnerByKey ctx providerId accountId =
     bindA (db (ic_findManyWithUser ctx account_model (account_key providerId accountId) (Some 2)))
       (\<lambda>accounts. case accounts of
          [] \<Rightarrow> returnA None
        | [(account, Some user)] \<Rightarrow> returnA (Some (Owned user account))
        | [(account, None)] \<Rightarrow> returnA (Some (Orphaned account))
        | _ \<Rightarrow> throwA (ambiguous_account providerId))"

section \<open>Updating\<close>

definition user_update :: "row \<Rightarrow> row" where
  "user_update data =
     (if truthy (get_field data ''email'')
      then set_field data ''email'' (lower_email (get_field data ''email'')) else data)"

text \<open>The user is refreshed in the cached sessions once the transaction has committed.\<close>

definition update_user_where ::
  "('s, 'q) ictx \<Rightarrow> clock \<Rightarrow> CleanedWhere list \<Rightarrow> row \<Rightarrow> ('s, 'q, row option) iact"
where
  "update_user_where ctx clk ws data =
     bindA (updateWithHooks (ic_db ctx) (ic_hooks ctx user_model) (user_update data) ws user_model None) (\<lambda>user.
     bindA (queueAfterTransactionHook (refreshUserSessions ctx clk user) (Some log_error)) (\<lambda>_.
       returnA user))"

definition updateUser :: "('s, 'q) ictx \<Rightarrow> clock \<Rightarrow> string \<Rightarrow> row \<Rightarrow> ('s, 'q, row option) iact" where
  "updateUser ctx clk userId data = update_user_where ctx clk [wh_eq ''id'' (Str userId)] data"

definition updateUserByEmail :: "('s, 'q) ictx \<Rightarrow> clock \<Rightarrow> string \<Rightarrow> row \<Rightarrow> ('s, 'q, row option) iact" where
  "updateUserByEmail ctx clk email data =
     update_user_where ctx clk [wh_eq ''email'' (Str (toLowerCase email))] data"

definition updatePassword :: "('s, 'q) ictx \<Rightarrow> string \<Rightarrow> string \<Rightarrow> ('s, 'q, unit) iact" where
  "updatePassword ctx userId password =
     bindA (updateManyWithHooks (ic_db ctx) (ic_hooks ctx account_model) [(''password'', Str password)]
              (credential_of userId) account_model)
       (\<lambda>_. returnA ())"

definition updateAccount :: "('s, 'q) ictx \<Rightarrow> string \<Rightarrow> row \<Rightarrow> ('s, 'q, row option) iact" where
  "updateAccount ctx accountId data =
     updateWithHooks (ic_db ctx) (ic_hooks ctx account_model) data [wh_eq ''id'' (Str accountId)] account_model None"

section \<open>Deleting\<close>

definition deleteAccounts :: "('s, 'q) ictx \<Rightarrow> string \<Rightarrow> ('s, 'q, unit) iact" where
  "deleteAccounts ctx userId =
     bindA (deleteManyWithHooks (ic_db ctx) (ic_hooks ctx account_model) (of_user userId) account_model None)
       (\<lambda>_. returnA ())"

definition deleteAccount :: "('s, 'q) ictx \<Rightarrow> string \<Rightarrow> ('s, 'q, unit) iact" where
  "deleteAccount ctx accountId =
     bindA (deleteWithHooks (ic_db ctx) (ic_hooks ctx account_model) [wh_eq ''id'' (Str accountId)] account_model None)
       (\<lambda>_. returnA ())"

end
