(* ===== verification/DeviceAuth.thy ===== *)
theory DeviceAuth
  imports UserStore "HOL-Library.Word"
begin

text \<open>
  Device authorization (RFC 8628), \<open>packages/cinaauth/src/plugins/device-authorization\<close>
  (\<open>routes.ts\<close>, \<open>index.ts\<close>). A device asks for a device code and a user code; a signed-in
  user opens the user code, which binds the request to that user, and approves or denies
  it; the device polls with its device code until it is given a session.

  An error carries its status and its \<open>error\<close> field; descriptions, response headers and the
  verification links are left out. Durations are in milliseconds, as \<open>ms\<close> gives them. The
  application's callbacks, the token grant that extends the flow and what a database error
  object shows are fields of \<open>device_opts\<close>; the session of a request is an argument.
\<close>

abbreviation deviceCode_model :: string where "deviceCode_model \<equiv> ''deviceCode''"

definition bad_request :: "string \<Rightarrow> err" where
  "bad_request error = APIError ''BAD_REQUEST'' error"

definition server_error :: err where
  "server_error = APIError ''INTERNAL_SERVER_ERROR'' ''server_error''"

section \<open>Codes\<close>

definition defaultCharset :: string where
  "defaultCharset = ''ABCDEFGHJKLMNPQRSTUVWXYZ23456789''"

definition DEVICE_AUTHORIZATION_CODE_MAX_LENGTH :: nat where
  "DEVICE_AUTHORIZATION_CODE_MAX_LENGTH = 191"

text \<open>The random bytes are given.\<close>

definition defaultGenerateUserCode :: "8 word list \<Rightarrow> string" where
  "defaultGenerateUserCode bytes = map (\<lambda>b. defaultCharset ! (unat b mod length defaultCharset)) bytes"

definition validateGeneratedCode :: "val \<Rightarrow> string res" where
  "validateGeneratedCode code =
     (case code of
        Str c \<Rightarrow> if length c > DEVICE_AUTHORIZATION_CODE_MAX_LENGTH then Inl (bad_request ''invalid_request'')
                 else Inr c
      | _ \<Rightarrow> Inl (bad_request ''invalid_request''))"

definition is_alnum :: "char \<Rightarrow> bool" where
  "is_alnum c \<longleftrightarrow> (let n = of_char c :: nat in
     48 \<le> n \<and> n \<le> 57 \<or> 65 \<le> n \<and> n \<le> 90 \<or> 97 \<le> n \<and> n \<le> 122)"

definition normalizeUserCode :: "string \<Rightarrow> string" where
  "normalizeUserCode userCode = toUpperCase (filter is_alnum userCode)"

text \<open>\<open>/^[charset]+$/i\<close>\<close>

definition defaultUserCodePattern :: "string \<Rightarrow> bool" where
  "defaultUserCodePattern s \<longleftrightarrow> s \<noteq> [] \<and> list_all (\<lambda>c. upper_char c \<in> set defaultCharset) s"

definition findByUserCode :: "('s, 'q) ictx \<Rightarrow> string \<Rightarrow> ('s, 'q, row option) iact" where
  "findByUserCode ctx userCode =
     bindA (db (a_findOne (ic_adapter ctx) deviceCode_model [wh_eq ''userCode'' (Str userCode)])) (\<lambda>found.
       returnA (case found of
           Some r \<Rightarrow> if get_field r ''userCode'' = Str userCode then Some r else None
         | None \<Rightarrow> None))"

definition findDeviceCodeByUserCode :: "('s, 'q) ictx \<Rightarrow> string \<Rightarrow> ('s, 'q, row option) iact" where
  "findDeviceCodeByUserCode ctx userCode =
     bindA (findByUserCode ctx userCode) (\<lambda>exact.
       case exact of
         Some r \<Rightarrow> returnA (Some r)
       | None \<Rightarrow>
           (let normalized = normalizeUserCode userCode in
            if normalized = userCode \<or> \<not> defaultUserCodePattern normalized then returnA None
            else findByUserCode ctx normalized))"

section \<open>Errors of a unique index\<close>

definition UNIQUE_CONSTRAINT_ERROR_IDENTIFIERS :: "string list" where
  "UNIQUE_CONSTRAINT_ERROR_IDENTIFIERS =
     [''11000'', ''1062'', ''2067'', ''23505'', ''2601'', ''2627'', ''ER_DUP_ENTRY'', ''P2002'',
      ''SQLITE_CONSTRAINT_UNIQUE'']"

text \<open>\<open>None\<close> is an error that is not an object.\<close>

definition isUniqueConstraintError :: "host \<Rightarrow> row option \<Rightarrow> bool" where
  "isUniqueConstraintError h error =
     (case error of
        None \<Rightarrow> False
      | Some details \<Rightarrow>
          list_ex (\<lambda>f. js_String h (get_field details f) \<in> set UNIQUE_CONSTRAINT_ERROR_IDENTIFIERS)
            [''code'', ''errcode'', ''errno'', ''number''] \<or>
          (case get_field details ''message'' of
             Str message \<Rightarrow>
               list_ex (str_includes (toLowerCase message))
                 [''unique constraint'', ''unique key constraint'', ''duplicate entry'', ''duplicate key'', ''e11000'']
           | _ \<Rightarrow> False))"

section \<open>Options\<close>

record ('s, 'q) device_grant =
  dg_authorizeRequest :: "row \<Rightarrow> ('s, 'q, (string \<times> row) option) iact"
  dg_assertSessionRedemption :: "row \<Rightarrow> ('s, 'q, unit) iact"
  dg_getVerificationContext :: "row \<Rightarrow> row"

record ('s, 'q) device_opts =
  do_grant :: "('s, 'q) device_grant option"
  do_deviceCodes :: "nat \<Rightarrow> val"              \<comment> \<open>the device code generated at each attempt\<close>
  do_generateUserCode :: "(nat \<Rightarrow> val) option"
  do_bytes :: "nat \<Rightarrow> 8 word list"            \<comment> \<open>random bytes, as many as \<open>userCodeLength\<close>\<close>
  do_validateClient :: "(string \<Rightarrow> ('s, 'q, bool) iact) option"
  do_onDeviceAuthRequest :: "(string \<Rightarrow> val \<Rightarrow> ('s, 'q, unit) iact) option"
  do_expiresIn :: int
  do_interval :: int
  do_errorObject :: "err \<Rightarrow> row option"

definition generateDeviceCode :: "('s, 'q) device_opts \<Rightarrow> nat \<Rightarrow> string res" where
  "generateDeviceCode opts attempt = validateGeneratedCode (do_deviceCodes opts attempt)"

definition generateUserCode :: "('s, 'q) device_opts \<Rightarrow> nat \<Rightarrow> string res" where
  "generateUserCode opts attempt =
     validateGeneratedCode (case do_generateUserCode opts of
         Some g \<Rightarrow> g attempt
       | None \<Rightarrow> Str (defaultGenerateUserCode (do_bytes opts attempt)))"

text \<open>A grant may only add fields; the three lists are those of \<open>grant\<close>.\<close>

definition device_code_fields :: "string list" where
  "device_code_fields = [''deviceCode'', ''userCode'', ''userId'', ''expiresAt'', ''status'', ''lastPolledAt'',
     ''pollingInterval'', ''clientId'', ''scope'']"

definition conflicts :: "string list \<Rightarrow> string list \<Rightarrow> string \<Rightarrow> unit res" where
  "conflicts reserved given message =
     (let clash = filter (\<lambda>f. f \<in> set reserved) given in
      if length clash > 0 then Inl (Throw (message @ join_with '', '' clash)) else Inr ())"

definition assertGrantFieldsAreAdditional :: "string list \<Rightarrow> string list \<Rightarrow> string list \<Rightarrow> unit res" where
  "assertGrantFieldsAreAdditional deviceCodeSchemaFields requestSchemaFields verificationOpenAPIProperties =
     bindR (conflicts device_code_fields deviceCodeSchemaFields
       ''Device authorization grant fields must be additional and cannot redefine deviceCode fields: '') (\<lambda>_.
     bindR (conflicts [''client_id'', ''user_id'', ''scope''] requestSchemaFields
       ''Device authorization grant request fields must be additional and cannot redefine request fields: '') (\<lambda>_.
     conflicts [''user_code'', ''status'', ''client_id'', ''scope''] verificationOpenAPIProperties
       ''Device authorization grant verification fields must be additional and cannot redefine response fields: ''))"

section \<open>Asking for a code\<close>

text \<open>
  An empty field of the body counts as omitted. For a form request, \<open>form\<close> holds the
  parameters of the text in order; a field repeated there is an error.
\<close>

definition base_fields :: "string list" where
  "base_fields = [''client_id'', ''user_id'', ''scope'']"

fun form_fields :: "(string \<times> string) list \<Rightarrow> string list \<Rightarrow> row \<Rightarrow> row res" where
  "form_fields params [] body = Inr body"
| "form_fields params (f # fs) body =
     (case filter (\<lambda>v. length v > 0) (map snd (filter (\<lambda>(k, _). k = f) params)) of
        [] \<Rightarrow> form_fields params fs (set_field body f Undef)
      | [v] \<Rightarrow> form_fields params fs (set_field body f (Str v))
      | _ \<Rightarrow> Inl (bad_request ''invalid_request''))"

definition normalizeDeviceAuthorizationBaseRequestParameters ::
  "(string \<times> string) list option \<Rightarrow> row \<Rightarrow> row res"
where
  "normalizeDeviceAuthorizationBaseRequestParameters form body =
     (let body' = foldl (\<lambda>b f. if get_field b f = Str [] then set_field b f Undef else b) body base_fields in
      case form of None \<Rightarrow> Inr body' | Some params \<Rightarrow> form_fields params base_fields body')"

text \<open>The client that asks, checked by the grant or by \<open>validateClient\<close>.\<close>

definition require_client :: "('s, 'q) device_opts \<Rightarrow> row \<Rightarrow> ('s, 'q, unit) iact" where
  "require_client opts request =
     (if \<not> truthy (get_field request ''client_id'') then throwA (bad_request ''invalid_request'')
      else case do_validateClient opts of
             None \<Rightarrow> if do_grant opts \<noteq> None then throwA (bad_request ''invalid_client'') else returnA ()
           | Some validate \<Rightarrow>
               bindA (validate (case get_field request ''client_id'' of Str c \<Rightarrow> c | _ \<Rightarrow> [])) (\<lambda>isValid.
                 if isValid then returnA () else throwA (bad_request ''invalid_client'')))"

record device_answer =
  da_device_code :: string
  da_user_code :: string
  da_expires_in :: int
  da_interval :: int

text \<open>One attempt; \<open>False\<close> when the code was already taken.\<close>

definition device_row :: "('s, 'q) device_opts \<Rightarrow> row \<Rightarrow> row \<Rightarrow> val \<Rightarrow> val \<Rightarrow> string \<Rightarrow> string \<Rightarrow> row" where
  "device_row opts grant_fields request clientId expiresAt deviceCode userCode =
     object_assign grant_fields
       [(''deviceCode'', Str deviceCode), (''userCode'', Str userCode),
        (''userId'', if truthy (get_field request ''user_id'') then get_field request ''user_id'' else Null),
        (''expiresAt'', expiresAt), (''status'', Str ''pending''),
        (''pollingInterval'', Num (do_interval opts)), (''clientId'', clientId),
        (''scope'', get_field request ''scope'')]"

definition create_device_row ::
  "('s, 'q) ictx \<Rightarrow> ('s, 'q) device_opts \<Rightarrow> row \<Rightarrow> ('s, 'q, bool) iact"
where
  "create_device_row ctx opts r =
     catchA (bindA (db (a_create (ic_adapter ctx) deviceCode_model r)) (\<lambda>_. returnA True))
       (\<lambda>e. if isUniqueConstraintError (ic_host ctx) (do_errorObject opts e) then returnA False else throwA e)"

fun try_device_codes ::
  "('s, 'q) ictx \<Rightarrow> ('s, 'q) device_opts \<Rightarrow> row \<Rightarrow> row \<Rightarrow> val \<Rightarrow> val \<Rightarrow> nat list \<Rightarrow> ('s, 'q, device_answer) iact"
where
  "try_device_codes ctx opts grant_fields request clientId expiresAt [] = throwA server_error"
| "try_device_codes ctx opts grant_fields request clientId expiresAt (attempt # later) =
     bindA (liftR (generateDeviceCode opts attempt)) (\<lambda>deviceCode.
     bindA (liftR (generateUserCode opts attempt)) (\<lambda>userCode.
     bindA (create_device_row ctx opts (device_row opts grant_fields request clientId expiresAt deviceCode userCode))
       (\<lambda>created.
          if created
          then returnA \<lparr>da_device_code = deviceCode, da_user_code = userCode,
                 da_expires_in = do_expiresIn opts div 1000, da_interval = do_interval opts div 1000\<rparr>
          else try_device_codes ctx opts grant_fields request clientId expiresAt later)))"

definition MAX_DEVICE_CODE_GENERATION_ATTEMPTS :: nat where
  "MAX_DEVICE_CODE_GENERATION_ATTEMPTS = 3"

definition deviceCode ::
  "('s, 'q) ictx \<Rightarrow> ('s, 'q) device_opts \<Rightarrow> clock \<Rightarrow> (string \<times> string) list option \<Rightarrow> row \<Rightarrow>
     ('s, 'q, device_answer) iact"
where
  "deviceCode ctx opts clk form body =
     bindA (liftR (normalizeDeviceAuthorizationBaseRequestParameters form body)) (\<lambda>request.
     bindA (case do_grant opts of
              None \<Rightarrow> returnA None
            | Some g \<Rightarrow> dg_authorizeRequest g request) (\<lambda>grantAuthorization.
     bindA (if grantAuthorization = None then require_client opts request else returnA ()) (\<lambda>_.
       let clientId = (case grantAuthorization of Some (c, _) \<Rightarrow> Str c | None \<Rightarrow> get_field request ''client_id'');
           grant_fields = (case grantAuthorization of Some (_, fs) \<Rightarrow> fs | None \<Rightarrow> [])
       in if \<not> truthy clientId then throwA (bad_request ''invalid_request'')
          else
            bindA (case do_onDeviceAuthRequest opts of
                     None \<Rightarrow> returnA ()
                   | Some f \<Rightarrow> f (case clientId of Str c \<Rightarrow> c | _ \<Rightarrow> []) (get_field request ''scope'')) (\<lambda>_.
              try_device_codes ctx opts grant_fields request clientId
                (DateV (fst (clk 0)) (snd (clk 0) + do_expiresIn opts))
                [0..<MAX_DEVICE_CODE_GENERATION_ATTEMPTS]))))"

section \<open>Polling\<close>

text \<open>The writes of the flow, each one atomic step of the database.\<close>

definition claim_op :: "'s adapter \<Rightarrow> val \<Rightarrow> val \<Rightarrow> ('s, row option) act" where
  "claim_op A i user =
     a_incrementOne A deviceCode_model
       [wh_eq ''id'' i, wh_eq ''status'' (Str ''pending''), wh_eq ''userId'' Null] [] (Some [(''userId'', user)])"

definition decide_op :: "'s adapter \<Rightarrow> val \<Rightarrow> val \<Rightarrow> string \<Rightarrow> ('s, row option) act" where
  "decide_op A i user status =
     a_incrementOne A deviceCode_model
       [wh_eq ''id'' i, wh_eq ''status'' (Str ''pending''), wh_eq ''userId'' user] [] (Some [(''status'', Str status)])"

definition poll_op :: "'s adapter \<Rightarrow> val \<Rightarrow> val \<Rightarrow> ('s, row option) act" where
  "poll_op A i now = a_update A deviceCode_model [wh_eq ''id'' i] [(''lastPolledAt'', now)]"

definition drop_op :: "'s adapter \<Rightarrow> val \<Rightarrow> ('s, unit) act" where
  "drop_op A i = a_delete A deviceCode_model [wh_eq ''id'' i]"

definition redeem_op :: "'s adapter \<Rightarrow> val \<Rightarrow> CleanedWhere \<Rightarrow> ('s, row option) act" where
  "redeem_op A i ownership =
     a_consumeOne A deviceCode_model [wh_eq ''id'' i, ownership, wh_eq ''status'' (Str ''approved'')]"

definition polled_too_often :: "int \<Rightarrow> row \<Rightarrow> bool" where
  "polled_too_often now r \<longleftrightarrow>
     truthy (get_field r ''lastPolledAt'') \<and> truthy (get_field r ''pollingInterval'') \<and>
     (case (time_of (get_field r ''lastPolledAt''), get_field r ''pollingInterval'') of
        (Some lastPoll, Num interval) \<Rightarrow> now - lastPoll < interval
      | _ \<Rightarrow> False)"

text \<open>The claim of an approved code, then what a poll that was not too early is answered.\<close>

definition claim_device_code ::
  "('s, 'q) ictx \<Rightarrow> row \<Rightarrow> CleanedWhere \<Rightarrow> 'a \<Rightarrow> 'r \<Rightarrow> row \<Rightarrow> ('s, 'q, row \<times> 'a \<times> 'r \<times> row) iact"
where
  "claim_device_code ctx r ownershipWhere context prepared user =
     bindA (db (redeem_op (ic_adapter ctx) (get_field r ''id'') ownershipWhere)) (\<lambda>claimed.
       case claimed of
         None \<Rightarrow> throwA (bad_request ''invalid_grant'')
       | Some c \<Rightarrow>
           if truthy (get_field c ''userId'') then returnA (c, context, prepared, user)
           else throwA (bad_request ''invalid_grant''))"

definition answer_poll ::
  "('s, 'q) ictx \<Rightarrow> val \<Rightarrow> row \<Rightarrow> CleanedWhere \<Rightarrow> 'a \<Rightarrow> (row \<Rightarrow> 'a \<Rightarrow> ('s, 'q, 'r) iact) \<Rightarrow>
     ('s, 'q, row \<times> 'a \<times> 'r \<times> row) iact"
where
  "answer_poll ctx now r ownershipWhere context prepareRedemption =
     (let drop = db (drop_op (ic_adapter ctx) (get_field r ''id'')) in
      if js_less (ic_host ctx) (get_field r ''expiresAt'') now
      then bindA drop (\<lambda>_. throwA (bad_request ''expired_token''))
      else if get_field r ''status'' = Str ''pending'' then throwA (bad_request ''authorization_pending'')
      else if get_field r ''status'' = Str ''denied''
      then bindA drop (\<lambda>_. throwA (bad_request ''access_denied''))
      else if get_field r ''status'' \<noteq> Str ''approved'' \<or> \<not> truthy (get_field r ''userId'')
      then throwA server_error
      else
        bindA (prepareRedemption r context) (\<lambda>prepared.
        bindA (findUserById ctx (js_String (ic_host ctx) (get_field r ''userId''))) (\<lambda>user.
          case user of
            None \<Rightarrow> throwA server_error
          | Some u \<Rightarrow> claim_device_code ctx r ownershipWhere context prepared u)))"

definition redeemDeviceCode ::
  "('s, 'q) ictx \<Rightarrow> clock \<Rightarrow> string \<Rightarrow> (row \<Rightarrow> ('s, 'q, CleanedWhere \<times> 'a) iact) \<Rightarrow>
     (row \<Rightarrow> 'a \<Rightarrow> ('s, 'q, 'r) iact) \<Rightarrow> ('s, 'q, row \<times> 'a \<times> 'r \<times> row) iact"
where
  "redeemDeviceCode ctx clk code authorizeRedemption prepareRedemption =
     bindA (db (a_findOne (ic_adapter ctx) deviceCode_model [wh_eq ''deviceCode'' (Str code)])) (\<lambda>found.
       case found of
         None \<Rightarrow> throwA (bad_request ''invalid_grant'')
       | Some r \<Rightarrow>
           bindA (authorizeRedemption r) (\<lambda>(ownershipWhere, context).
             if polled_too_often (now_ms clk 0) r then throwA (bad_request ''slow_down'')
             else
               bindA (db (poll_op (ic_adapter ctx) (get_field r ''id'') (date_at clk 1))) (\<lambda>_.
                 answer_poll ctx (date_at clk 2) r ownershipWhere context prepareRedemption)))"

text \<open>
  The session endpoint: the code is redeemed by its own client, then a session is created
  for the user and, with a secondary storage, stored there once more.
\<close>

definition session_redemption ::
  "('s, 'q) device_opts \<Rightarrow> string \<Rightarrow> row \<Rightarrow> ('s, 'q, CleanedWhere \<times> unit) iact"
where
  "session_redemption opts client_id r =
     (if truthy (get_field r ''clientId'') \<and> get_field r ''clientId'' \<noteq> Str client_id
      then throwA (bad_request ''invalid_grant'')
      else
        bindA (case do_grant opts of None \<Rightarrow> returnA () | Some g \<Rightarrow> dg_assertSessionRedemption g r) (\<lambda>_.
          returnA (wh_eq ''clientId'' (Str client_id), ())))"

text \<open>\<open>Math.floor((new Date(v).getTime() - now) / 1000)\<close>; \<open>None\<close> is NaN, which sets no TTL.\<close>

definition seconds_left :: "('s, 'q) ictx \<Rightarrow> val \<Rightarrow> int \<Rightarrow> int option" where
  "seconds_left ctx v now = map_option (\<lambda>t. (t - now) div 1000) (time_of (new_date ctx 0 v))"

record token_answer =
  ta_access_token :: val
  ta_expires_in :: "int option"
  ta_scope :: val

definition redeem_for_session ::
  "('s, 'q) ictx \<Rightarrow> ('s, 'q) device_opts \<Rightarrow> clock \<Rightarrow> string \<Rightarrow> string \<Rightarrow>
     ('s, 'q, row \<times> unit \<times> unit \<times> row) iact"
where
  "redeem_for_session ctx opts clk device_code client_id =
     bindA (case do_validateClient opts of None \<Rightarrow> returnA True | Some validate \<Rightarrow> validate client_id) (\<lambda>isValid.
       if \<not> isValid then throwA (bad_request ''invalid_grant'')
       else redeemDeviceCode ctx clk device_code (session_redemption opts client_id) (\<lambda>_ _. returnA ()))"

definition deviceToken ::
  "('s, 'q) ictx \<Rightarrow> ('s, 'q) device_opts \<Rightarrow> clock \<Rightarrow> session_env \<Rightarrow> string \<Rightarrow> string \<Rightarrow> ('s, 'q, token_answer) iact"
where
  "deviceToken ctx opts clk env device_code client_id =
     bindA (redeem_for_session ctx opts clk device_code client_id) (\<lambda>(claimed, _, _, user).
     bindA (createSession ctx (\<lambda>i. clk (i + 3)) env (js_String (ic_host ctx) (get_field user ''id'')) False []
              False False) (\<lambda>session.
       case session of
         None \<Rightarrow> throwA server_error
       | Some s \<Rightarrow>
           bindA (case ic_storage ctx of
                    None \<Rightarrow> returnA ()
                  | Some S \<Rightarrow> sec (ss_set S (token_of s) (CSession (stringify s) (Some (stringify user)))
                                (seconds_left ctx (get_field s ''expiresAt'') (now_ms clk 7)))) (\<lambda>_.
             returnA \<lparr>ta_access_token = get_field s ''token'',
               ta_expires_in = seconds_left ctx (get_field s ''expiresAt'') (now_ms clk 8),
               ta_scope = (if truthy (get_field claimed ''scope'') then get_field claimed ''scope'' else Str [])\<rparr>)))"

section \<open>The user's side\<close>

text \<open>\<open>user\<close> is the user of the request's session. Opening a pending code that nobody claimed claims it.\<close>

definition deviceVerify ::
  "('s, 'q) ictx \<Rightarrow> ('s, 'q) device_opts \<Rightarrow> clock \<Rightarrow> row option \<Rightarrow> string \<Rightarrow> ('s, 'q, row) iact"
where
  "deviceVerify ctx opts clk user user_code =
     bindA (findDeviceCodeByUserCode ctx user_code) (\<lambda>found.
       case found of
         None \<Rightarrow> throwA (bad_request ''invalid_request'')
       | Some r \<Rightarrow>
           if js_less (ic_host ctx) (get_field r ''expiresAt'') (date_at clk 0)
           then throwA (bad_request ''expired_token'')
           else
             let userId = (case user of Some u \<Rightarrow> get_field u ''id'' | None \<Rightarrow> Undef) in
             bindA (if truthy userId \<and> \<not> truthy (get_field r ''userId'') \<and> get_field r ''status'' = Str ''pending''
                    then bindA (db (claim_op (ic_adapter ctx) (get_field r ''id'') userId)) (\<lambda>claimed.
                      returnA (if claimed \<noteq> None then set_field r ''userId'' userId else r))
                    else returnA r) (\<lambda>r.
               let canReviewRequest = (userId \<noteq> Undef \<and> strict_eq (get_field r ''userId'') userId)
               in returnA (object_assign
                    (object_assign
                      (if canReviewRequest
                       then (case do_grant opts of Some g \<Rightarrow> dg_getVerificationContext g r | None \<Rightarrow> []) else [])
                      [(''user_code'', Str user_code), (''status'', get_field r ''status'')])
                    (if canReviewRequest
                     then [(''client_id'', get_field r ''clientId''), (''scope'', get_field r ''scope'')] else []))))"

text \<open>What \<open>deviceApprove\<close> and \<open>deviceDeny\<close> do, up to the status they set.\<close>

definition device_decision ::
  "('s, 'q) ictx \<Rightarrow> clock \<Rightarrow> string \<Rightarrow> row option \<Rightarrow> string \<Rightarrow> ('s, 'q, unit) iact"
where
  "device_decision ctx clk status user userCode =
     (case user of
        None \<Rightarrow> throwA (APIError ''UNAUTHORIZED'' ''unauthorized'')
      | Some u \<Rightarrow>
          bindA (findDeviceCodeByUserCode ctx userCode) (\<lambda>found.
            case found of
              None \<Rightarrow> throwA (bad_request ''invalid_request'')
            | Some r \<Rightarrow>
                if js_less (ic_host ctx) (get_field r ''expiresAt'') (date_at clk 0)
                then throwA (bad_request ''expired_token'')
                else if get_field r ''status'' \<noteq> Str ''pending'' then throwA (bad_request ''invalid_request'')
                else if \<not> truthy (get_field r ''userId'') then throwA (bad_request ''invalid_request'')
                else if \<not> strict_eq (get_field r ''userId'') (get_field u ''id'')
                then throwA (APIError ''FORBIDDEN'' ''access_denied'')
                else
                  bindA (db (decide_op (ic_adapter ctx) (get_field r ''id'') (get_field u ''id'') status)) (\<lambda>decided.
                    if decided = None then throwA (bad_request ''invalid_request'') else returnA ())))"

definition deviceApprove :: "('s, 'q) ictx \<Rightarrow> clock \<Rightarrow> row option \<Rightarrow> string \<Rightarrow> ('s, 'q, unit) iact" where
  "deviceApprove ctx clk user userCode = device_decision ctx clk ''approved'' user userCode"

definition deviceDeny :: "('s, 'q) ictx \<Rightarrow> clock \<Rightarrow> row option \<Rightarrow> string \<Rightarrow> ('s, 'q, unit) iact" where
  "deviceDeny ctx clk user userCode = device_decision ctx clk ''denied'' user userCode"

end
