(* ===== verification/DeviceRuns.thy ===== *)
theory DeviceRuns
  imports DeviceAuth StoreRuns
begin

text \<open>
  Concurrent requests of the device flow: the interleaving of their writes on the table of
  device codes, what every interleaving keeps of a code's row, and that each request is a
  sequence of these writes.
\<close>

section \<open>The writes of concurrent requests\<close>

text \<open>
  \<open>dr_decision\<close> and \<open>dr_issued\<close> are ghosts of the code with id \<open>i\<close>: the user whose approval
  or denial was written, with the status, and the users a redemption of the code returned.
\<close>

record 's device_run =
  dr_store :: 's
  dr_decision :: "(string \<times> string) option"
  dr_issued :: "val list"

inductive device_step ::
  "'s adapter \<Rightarrow> ('s \<Rightarrow> string \<Rightarrow> row list) \<Rightarrow> ('s \<Rightarrow> bool) \<Rightarrow> string \<Rightarrow> 's device_run \<Rightarrow> 's device_run \<Rightarrow> bool"
  for A rows ok i
where
  claimed: "claim_op A k (Str u) (dr_store r) = (x, t) \<Longrightarrow>
     device_step A rows ok i r (r\<lparr>dr_store := t\<rparr>)"
| decided: "decide_op A k (Str u) status (dr_store r) = (x, t) \<Longrightarrow> status \<in> {''approved'', ''denied''} \<Longrightarrow>
     device_step A rows ok i r (r\<lparr>dr_store := t, dr_decision :=
       (if k = Str i \<and> (\<exists>q. x = Inr (Some q)) then Some (u, status) else dr_decision r)\<rparr>)"
| polled: "poll_op A k now (dr_store r) = (x', t) \<Longrightarrow>
     device_step A rows ok i r (r\<lparr>dr_store := t\<rparr>)"
| dropped: "drop_op A k (dr_store r) = (y, t) \<Longrightarrow>
     device_step A rows ok i r (r\<lparr>dr_store := t\<rparr>)"
| redeemed: "redeem_op A k w (dr_store r) = (x, t) \<Longrightarrow> simple_clause w \<Longrightarrow>
     device_step A rows ok i r (r\<lparr>dr_store := t, dr_issued := dr_issued r @
       (case x of Inr (Some q) \<Rightarrow>
          if get_field q ''id'' = Str i \<and> truthy (get_field q ''userId'') then [get_field q ''userId''] else [] | _ \<Rightarrow> [])\<rparr>)"
| created: "a_create A deviceCode_model d (dr_store r) = (Inr q, t) \<Longrightarrow> get_field q ''id'' \<noteq> Str i \<Longrightarrow>
     device_step A rows ok i r (r\<lparr>dr_store := t\<rparr>)"
| elsewhere: "ok t \<Longrightarrow> rows t deviceCode_model = rows (dr_store r) deviceCode_model \<Longrightarrow>
     device_step A rows ok i r (r\<lparr>dr_store := t\<rparr>)"

abbreviation device_steps ::
  "'s adapter \<Rightarrow> ('s \<Rightarrow> string \<Rightarrow> row list) \<Rightarrow> ('s \<Rightarrow> bool) \<Rightarrow> string \<Rightarrow> 's device_run \<Rightarrow> 's device_run \<Rightarrow> bool"
where
  "device_steps A rows ok i \<equiv> (device_step A rows ok i)\<^sup>*\<^sup>*"

section \<open>What every interleaving keeps\<close>

text \<open>
  The life of a code: pending until a decision is written, then its status is the decision
  of the user it is bound to; once it is redeemed there is no row any more. A code bound
  to a user when it was created stays bound to that user.
\<close>

definition decision_matches :: "(string \<times> string) option \<Rightarrow> row \<Rightarrow> bool" where
  "decision_matches d q =
     (case d of
        None \<Rightarrow> get_field q ''status'' = Str ''pending''
      | Some (u, status) \<Rightarrow> get_field q ''status'' = Str status \<and> get_field q ''userId'' = Str u)"

definition bound_to :: "string option \<Rightarrow> val \<Rightarrow> bool" where
  "bound_to b v = (case b of None \<Rightarrow> True | Some u \<Rightarrow> v = Str u)"

definition life_ok :: "string option \<Rightarrow> row list \<Rightarrow> (string \<times> string) option \<Rightarrow> val list \<Rightarrow> bool" where
  "life_ok b here d issued \<longleftrightarrow>
     (\<forall>u st. d = Some (u, st) \<longrightarrow> st \<in> {''approved'', ''denied''} \<and> bound_to b (Str u)) \<and>
     (here = [] \<and> (issued = [] \<or> (\<exists>u. d = Some (u, ''approved'') \<and> issued = [Str u])) \<or>
      (\<exists>q. here = [q] \<and> issued = [] \<and> decision_matches d q \<and> bound_to b (get_field q ''userId'')))"

definition device_life ::
  "('s \<Rightarrow> string \<Rightarrow> row list) \<Rightarrow> ('s \<Rightarrow> bool) \<Rightarrow> string \<Rightarrow> string option \<Rightarrow> 's device_run \<Rightarrow> bool"
where
  "device_life rows ok i b r \<longleftrightarrow> ok (dr_store r) \<and>
     life_ok b (rows_with_id i (rows (dr_store r) deviceCode_model)) (dr_decision r) (dr_issued r)"

lemma life_ok_few:
  assumes "life_ok b here d issued"
  obtains q where "here = [] \<or> here = [q]"
  using assms by (auto simp: life_ok_def)

lemma life_ok_gone: "life_ok b here d issued \<Longrightarrow> life_ok b [] d issued"
  by (auto simp: life_ok_def)

lemma life_ok_claimed:
  assumes "life_ok b [q] d issued" and "nullish (get_field q ''userId'')"
  shows "life_ok b [set_field q ''userId'' v] d issued"
  using assms by (auto simp: life_ok_def decision_matches_def bound_to_def split: option.splits)

lemma life_ok_decided:
  assumes "life_ok b [q] d issued" and "get_field q ''status'' = Str ''pending''"
    and "get_field q ''userId'' = Str u" and "status \<in> {''approved'', ''denied''}"
  shows "life_ok b [set_field q ''status'' (Str status)] (Some (u, status)) issued"
  using assms by (auto simp: life_ok_def decision_matches_def bound_to_def split: option.splits)

lemma life_ok_polled:
  assumes "life_ok b here d issued"
  shows "life_ok b (map (\<lambda>q. object_assign q [(''lastPolledAt'', v)]) here) d issued"
  using assms by (auto simp: life_ok_def decision_matches_def row_simps split: option.splits)

lemma life_ok_redeemed:
  assumes "life_ok b [q] d issued" and "get_field q ''status'' = Str ''approved''"
  shows "life_ok b [] d (issued @ (if truthy (get_field q ''userId'') then [get_field q ''userId''] else []))"
  using assms by (auto simp: life_ok_def decision_matches_def split: option.splits)

context delete_store
begin

lemma poll_rows:
  assumes ok: "ok s" and run: "poll_op A k now s = (x, t)"
  shows "rows_with_id i (rows t deviceCode_model) = rows_with_id i (rows s deviceCode_model) \<or>
    rows_with_id i (rows t deviceCode_model) =
      map (\<lambda>q. object_assign q [(''lastPolledAt'', now)]) (rows_with_id i (rows s deviceCode_model))"
  using update_by_id_rows[OF ok run[unfolded poll_op_def], of i] by (auto simp: row_simps map_idI)

lemma drop_rows:
  assumes ok: "ok s" and run: "drop_op A k s = (y, t)"
  shows "rows_with_id i (rows t deviceCode_model) = rows_with_id i (rows s deviceCode_model) \<or>
    rows_with_id i (rows t deviceCode_model) = []"
proof (cases y)
  case (Inl e)
  have "t = s" using delete_error[OF ok run[unfolded drop_op_def Inl]] .
  then show ?thesis by simp
next
  case (Inr u)
  have t: "rows t deviceCode_model = filter (\<lambda>q. sat [wh_eq ''id'' k] q \<noteq> Inr True) (rows s deviceCode_model)"
    using delete_rows[OF ok] run by (simp add: drop_op_def Inr)
  let ?c = "clause_holds h [(''id'', Str i)] (wh_eq ''id'' k)"
  have sat: "sat [wh_eq ''id'' k] q = Inr ?c" if "q \<in> set (rows_with_id i (rows s deviceCode_model))" for q
    using that by (simp add: sat_simple clause_holds_def wh_eq_def rows_with_id_def)
  have "rows_with_id i (rows t deviceCode_model) = filter (\<lambda>_. \<not> ?c) (rows_with_id i (rows s deviceCode_model))"
    unfolding t rows_with_id_filter by (rule filter_cong[OF refl]) (simp add: sat)
  then show ?thesis by (cases ?c) simp_all
qed

lemma redeem_rows:
  assumes ok: "ok s" and run: "redeem_op A k w s = (x, t)" and w: "simple_clause w"
    and few: "rows_with_id i (rows s deviceCode_model) = [] \<or> rows_with_id i (rows s deviceCode_model) = [q]"
  obtains (miss) "rows_with_id i (rows t deviceCode_model) = rows_with_id i (rows s deviceCode_model)"
      "\<And>p. x = Inr (Some p) \<Longrightarrow> get_field p ''id'' \<noteq> Str i"
  | (hit) "rows_with_id i (rows s deviceCode_model) = [q]" "rows_with_id i (rows t deviceCode_model) = []"
      "x = Inr (Some q)" "get_field q ''status'' = Str ''approved''" "get_field q ''id'' = Str i"
proof (cases "\<exists>p. x = Inr (Some p)")
  case False
  have "t = s"
  proof (cases x)
    case (Inl e)
    then show ?thesis using consume_error[OF ok run[unfolded redeem_op_def Inl]] by simp
  next
    case (Inr y)
    with False have "y = None" by (cases y) auto
    with Inr run show ?thesis using consume_none[OF ok] by (auto simp: redeem_op_def)
  qed
  with False show thesis by (intro miss) auto
next
  case True
  then obtain p where x: "x = Inr (Some p)" by blast
  from consume_some[OF ok run[unfolded redeem_op_def x]] obtain pre post where
    s: "rows s deviceCode_model = pre @ p # post" and t: "rows t deviceCode_model = pre @ post"
    and sat: "sat [wh_eq ''id'' k, w, wh_eq ''status'' (Str ''approved'')] p = Inr True" by blast
  from sat w have status: "get_field p ''status'' = Str ''approved''" by (simp add: sat_simple)
  show thesis
  proof (cases "get_field p ''id'' = Str i")
    case False
    then show thesis by (intro miss) (auto simp: s t x rows_with_id_def)
  next
    case True
    with few have "p = q" "rows_with_id i (rows s deviceCode_model) = [q]" "rows_with_id i (pre @ post) = []"
      unfolding s by (auto simp: rows_with_id_def filter_eq_Cons_iff append_eq_Cons_conv)
    with True x status t show thesis by (intro hit) auto
  qed
qed

lemma device_step_life:
  assumes step: "device_step A rows ok i r v" and life: "device_life rows ok i b r"
  shows "device_life rows ok i b v"
proof -
  let ?here = "\<lambda>s. rows_with_id i (rows s deviceCode_model)"
  have ok: "ok (dr_store r)" and lr: "life_ok b (?here (dr_store r)) (dr_decision r) (dr_issued r)"
    using life by (simp_all add: device_life_def)
  obtain q where few: "?here (dr_store r) = [] \<or> ?here (dr_store r) = [q]"
    using life_ok_few[OF lr] .
  from step show ?thesis
  proof cases
    case (claimed k u x t)
    have okt: "ok t" using increment_frame[OF ok claimed(2)[unfolded claim_op_def]] by simp
    have "life_ok b (?here t) (dr_decision r) (dr_issued r)"
      by (rule guarded_rows_write[OF ok claimed(2)[unfolded claim_op_def] _ _ few])
         (use lr life_ok_claimed[of b q] in \<open>simp_all add: row_simps\<close>)
    with okt claimed(1) show ?thesis by (simp add: device_life_def)
  next
    case (decided k u status x t)
    have okt: "ok t" using increment_frame[OF ok decided(2)[unfolded decide_op_def]] by simp
    have "life_ok b (?here t) (if k = Str i \<and> (\<exists>q. x = Inr (Some q)) then Some (u, status) else dr_decision r)
        (dr_issued r)"
    proof (rule guarded_rows_write[OF ok decided(2)[unfolded decide_op_def] _ _ few], goal_cases)
      case 3
      then have "\<not> (k = Str i \<and> (\<exists>q. x = Inr (Some q)))" by auto
      with 3 lr show ?case by (simp only: if_False)
    next
      case 4
      then show ?case using lr life_ok_decided[of b q _ _ u status] decided(3) by (simp add: row_simps)
    qed (simp_all add: row_simps)
    with okt decided(1) show ?thesis by (simp add: device_life_def)
  next
    case (polled k now x' t)
    have okt: "ok t" using update_frame[OF ok polled(2)[unfolded poll_op_def]] by simp
    from poll_rows[OF ok polled(2), of i] have "life_ok b (?here t) (dr_decision r) (dr_issued r)"
      using lr life_ok_polled[OF lr] by auto
    with okt polled(1) show ?thesis by (simp add: device_life_def)
  next
    case (dropped k y t)
    have okt: "ok t" using delete_frame[OF ok dropped(2)[unfolded drop_op_def]] by simp
    from drop_rows[OF ok dropped(2), of i] have "life_ok b (?here t) (dr_decision r) (dr_issued r)"
      using lr life_ok_gone[OF lr] by auto
    with okt dropped(1) show ?thesis by (simp add: device_life_def)
  next
    case (redeemed k w x t)
    have okt: "ok t" using consume_frame[OF ok redeemed(2)[unfolded redeem_op_def]] by simp
    have "life_ok b (?here t) (dr_decision r) (dr_issued r @
       (case x of Inr (Some q) \<Rightarrow>
          if get_field q ''id'' = Str i \<and> truthy (get_field q ''userId'') then [get_field q ''userId''] else [] | _ \<Rightarrow> []))"
      by (rule redeem_rows[OF ok redeemed(2,3) few])
         (use lr life_ok_redeemed[of b q] in \<open>auto split: sum.splits option.splits\<close>)
    with okt redeemed(1) show ?thesis by (simp add: device_life_def)
  next
    case (created d q' t)
    have "ok t" using create_frame[OF ok created(2)] by simp
    moreover have "?here t = ?here (dr_store r)"
      using create_row[OF ok created(2)] created(3) by (simp add: rows_with_id_def)
    ultimately show ?thesis using life created(1) by (simp add: device_life_def)
  next
    case (elsewhere t)
    with life show ?thesis by (simp add: device_life_def)
  qed
qed

lemma device_steps_life:
  assumes "device_steps A rows ok i r v" and "device_life rows ok i b r"
  shows "device_life rows ok i b v"
  using assms by (induction rule: rtranclp_induct) (blast intro: device_step_life)+

end

section \<open>A request as a sequence of writes\<close>

text \<open>
  The requests that act on a code that exists, with the user of their session. Only a
  redemption has an answer that matters here: the claimed row.
\<close>

datatype device_call =
    Open "row option" string
  | Approve "row option" string
  | Deny "row option" string
  | Redeem string string

fun serve ::
  "('s, 'q) ictx \<Rightarrow> ('s, 'q) device_opts \<Rightarrow> clock \<Rightarrow> device_call \<Rightarrow> ('s, 'q, row option) iact"
where
  "serve ctx opts clk (Open user code) = bindA (deviceVerify ctx opts clk user code) (\<lambda>_. returnA None)"
| "serve ctx opts clk (Approve user code) = bindA (deviceApprove ctx clk user code) (\<lambda>_. returnA None)"
| "serve ctx opts clk (Deny user code) = bindA (deviceDeny ctx clk user code) (\<lambda>_. returnA None)"
| "serve ctx opts clk (Redeem device_code client_id) =
     bindA (redeem_for_session ctx opts clk device_code client_id) (\<lambda>(c, _). returnA (Some c))"

fun call_user :: "device_call \<Rightarrow> row option" where
  "call_user (Open user _) = user"
| "call_user (Approve user _) = user"
| "call_user (Deny user _) = user"
| "call_user (Redeem _ _) = None"

fun call_status :: "device_call \<Rightarrow> string option" where
  "call_status (Approve _ _) = Some ''approved''"
| "call_status (Deny _ _) = Some ''denied''"
| "call_status _ = None"

definition typed_user :: "row option \<Rightarrow> bool" where
  "typed_user user \<longleftrightarrow> (\<forall>u. user = Some u \<longrightarrow> (\<exists>i. get_field u ''id'' = Str i))"

text \<open>The callbacks leave the stores alone.\<close>

definition quiet :: "('s, 'q) device_opts \<Rightarrow> bool" where
  "quiet opts \<longleftrightarrow> (\<forall>f c s. do_validateClient opts = Some f \<longrightarrow> snd (f c s) = s) \<and>
     (\<forall>g r s. do_grant opts = Some g \<longrightarrow> snd (dg_assertSessionRedemption g r s) = s)"

definition accounted :: "string \<Rightarrow> device_call \<Rightarrow> row option res \<Rightarrow> 's device_run \<Rightarrow> 's device_run \<Rightarrow> bool" where
  "accounted i call x r v \<longleftrightarrow>
     dr_issued v = dr_issued r @ (case x of
       Inr (Some c) \<Rightarrow> if get_field c ''id'' = Str i then [get_field c ''userId''] else [] | _ \<Rightarrow> []) \<and>
     (dr_decision v = dr_decision r \<or>
      (\<exists>u usr st. dr_decision v = Some (u, st) \<and> call_user call = Some usr \<and> get_field usr ''id'' = Str u \<and>
         call_status call = Some st))"

lemma accounted_refl: "(\<nexists>c. x = Inr (Some c)) \<Longrightarrow> accounted i call x r (r\<lparr>dr_store := s\<rparr>)"
  by (auto simp: accounted_def split: sum.splits option.splits)

context delete_store
begin

lemma db_find_pure:
  assumes "ok (rq_db s)" and "db (a_findOne A m ws) s = (x, t)"
  shows "t = s"
proof -
  obtain y d where run: "a_findOne A m ws (rq_db s) = (y, d)" by force
  with findOne_pure[OF assms(1)] have "d = rq_db s" by blast
  with db_run[of "a_findOne A m ws" s] run assms(2) show ?thesis by simp
qed

lemma find_code_pure:
  assumes A: "ic_adapter ctx = A" and ok: "ok (rq_db s)" and run: "findDeviceCodeByUserCode ctx c s = (x, t)"
  shows "t = s"
proof -
  have one: "u = s" if "findByUserCode ctx c s = (y, u)" for c y u
    using that db_find_pure[OF ok] unfolding findByUserCode_def A
    by (auto elim!: bindA_cases)
  from run show ?thesis
    unfolding findDeviceCodeByUserCode_def Let_def
    by (auto elim!: bindA_cases dest!: one split: option.splits if_splits)
qed

lemma find_user_pure:
  assumes "ic_adapter ctx = A" and "ok (rq_db s)" and "findUserById ctx i s = (x, t)"
  shows "t = s"
  using assms db_find_pure[of s] by (auto simp: findUserById_def split: if_splits)

text \<open>One write of a request, as one step.\<close>

lemma db_step:
  assumes "db m s = (x, t)" and "dr_store r = rq_db s"
    and "\<And>y d. m (dr_store r) = (y, d) \<Longrightarrow> device_step A rows ok i r (f y d)"
  shows "device_steps A rows ok i r (f x (rq_db t))"
proof -
  obtain y d where run: "m (rq_db s) = (y, d)" by force
  with db_run[of m s] assms(1) have "x = y" "rq_db t = d" by auto
  with assms(2,3) run show ?thesis by auto
qed

lemma stay_step:
  assumes "dr_store r = rq_db s" and "\<nexists>c. x = Inr (Some c)"
  shows "\<exists>v. device_steps A rows ok i r v \<and> dr_store v = rq_db s \<and> accounted i call x r v"
  using assms by (intro exI[of _ r]) (auto simp: accounted_def split: sum.splits option.splits)

lemma open_steps:
  assumes A: "ic_adapter ctx = A" and ok: "ok (rq_db s)" and st: "dr_store r = rq_db s"
    and user: "typed_user (call_user (Open user code))" and run: "serve ctx opts clk (Open user code) s = (x, t)"
  shows "\<exists>v. device_steps A rows ok i r v \<and> dr_store v = rq_db t \<and> accounted i (Open user code) x r v"
proof -
  have none: "\<nexists>c. x = Inr (Some c)"
    using run by (auto elim!: bindA_cases)
  show ?thesis
  proof (cases "t = s")
    case True
    with stay_step[OF st none] show ?thesis by simp
  next
    case False
    obtain k u y where claim: "db (claim_op A k u) s = (y, t)" and u: "user \<noteq> None" "u = get_field (the user) ''id''"
      using False run unfolding serve.simps deviceVerify_def A Let_def
      by (auto elim!: bindA_cases dest!: find_code_pure[OF A ok] split: option.splits if_splits)
    from user u obtain w where "u = Str w" by (auto simp: typed_user_def)
    with claim have "db (claim_op A k (Str w)) s = (y, t)" by simp
    then have "device_steps A rows ok i r (r\<lparr>dr_store := rq_db t\<rparr>)"
      using st by (rule db_step) (rule device_step.claimed)
    with accounted_refl[OF none] show ?thesis by (intro exI[of _ "r\<lparr>dr_store := rq_db t\<rparr>"]) simp
  qed
qed

lemma decision_steps:
  assumes A: "ic_adapter ctx = A" and ok: "ok (rq_db s)" and st: "dr_store r = rq_db s"
    and user: "typed_user (call_user call)" and status: "call_status call = Some status"
    and run: "bindA (device_decision ctx clk status (call_user call) code) (\<lambda>_. returnA None) s = (x, t)"
  shows "\<exists>v. device_steps A rows ok i r v \<and> dr_store v = rq_db t \<and> accounted i call x r v"
proof -
  have none: "\<nexists>c. x = Inr (Some c)"
    using run by (auto elim!: bindA_cases)
  show ?thesis
  proof (cases "t = s")
    case True
    with stay_step[OF st none] show ?thesis by simp
  next
    case False
    obtain k u y where decide: "db (decide_op A k u status) s = (y, t)"
      and u: "call_user call \<noteq> None" "u = get_field (the (call_user call)) ''id''"
      using False run unfolding device_decision_def A
      by (auto elim!: bindA_cases dest!: find_code_pure[OF A ok] split: option.splits if_splits)
    from user u obtain w where w: "u = Str w" by (auto simp: typed_user_def)
    let ?f = "\<lambda>x d. r\<lparr>dr_store := d, dr_decision :=
       (if k = Str i \<and> (\<exists>q. x = Inr (Some q)) then Some (w, status) else dr_decision r)\<rparr>"
    have "status \<in> {''approved'', ''denied''}" using status by (cases call) auto
    then have "device_steps A rows ok i r (?f y (rq_db t))"
      by (intro db_step[OF decide[unfolded w] st, of i ?f] device_step.decided)
    moreover have "accounted i call x r (?f y (rq_db t))"
      using none u w status by (auto simp: accounted_def split: sum.splits option.splits)
    moreover have "dr_store (?f y (rq_db t)) = rq_db t" by simp
    ultimately show ?thesis by blast
  qed
qed

text \<open>A redemption: at most a poll, then a deletion or the claim.\<close>

lemma session_redemption_pure:
  assumes quiet: "quiet opts" and run: "session_redemption opts client_id r s = (y, u)"
  shows "u = s \<and> (\<forall>w a. y = Inr (w, a) \<longrightarrow> w = wh_eq ''clientId'' (Str client_id))"
proof (cases "do_grant opts")
  case None
  with run show ?thesis by (auto simp: session_redemption_def split: if_splits)
next
  case (Some g)
  obtain z where "dg_assertSessionRedemption g r s = (z, s)"
    using quiet Some unfolding quiet_def by (metis prod.collapse)
  with Some run show ?thesis by (cases z) (auto simp: session_redemption_def bindA_def split: if_splits)
qed

text \<open>A redemption is at most a poll, then a deletion or the claim.\<close>

definition issued_by :: "string \<Rightarrow> (row \<times> unit \<times> unit \<times> row) res \<Rightarrow> val list" where
  "issued_by i x = (case x of
     Inr (c, _) \<Rightarrow> if get_field c ''id'' = Str i then [get_field c ''userId''] else [] | _ \<Rightarrow> [])"

lemma claim_code_steps:
  assumes A: "ic_adapter ctx = A" and st: "dr_store r = rq_db s" and w: "simple_clause w"
    and run: "claim_device_code ctx q w () () u s = (x, t)"
  shows "\<exists>v. device_steps A rows ok i r v \<and> dr_store v = rq_db t \<and> dr_decision v = dr_decision r \<and>
    dr_issued v = dr_issued r @ issued_by i x"
proof -
  let ?f = "\<lambda>x d. r\<lparr>dr_store := d, dr_issued := dr_issued r @
       (case x of Inr (Some q) \<Rightarrow>
          if get_field q ''id'' = Str i \<and> truthy (get_field q ''userId'') then [get_field q ''userId''] else [] | _ \<Rightarrow> [])\<rparr>"
  obtain y s1 where redeem: "db (redeem_op A (get_field q ''id'') w) s = (y, s1)" by force
  have "device_steps A rows ok i r (?f y (rq_db s1))"
    using redeem st by (rule db_step[of _ _ _ _ _ _ ?f]) (rule device_step.redeemed[OF _ w])
  moreover have "t = s1" "dr_issued (?f y (rq_db s1)) = dr_issued r @ issued_by i x"
    using run redeem unfolding claim_device_code_def A
    by (auto simp: bindA_def issued_by_def split: sum.splits option.splits if_splits)
  ultimately show ?thesis by (intro exI[of _ "?f y (rq_db s1)"]) simp
qed

lemma drop_code_steps:
  assumes "dr_store r = rq_db s" and "bindA (db (drop_op A k)) (\<lambda>_. throwA e) s = (x, t)"
  shows "\<exists>v. device_steps A rows ok i r v \<and> dr_store v = rq_db t \<and> dr_decision v = dr_decision r \<and>
    dr_issued v = dr_issued r @ issued_by i x"
proof -
  obtain y where drop: "db (drop_op A k) s = (y, t)" "isl x"
    using assms(2) by (auto elim!: bindA_cases)
  have "device_steps A rows ok i r (r\<lparr>dr_store := rq_db t\<rparr>)"
    using drop(1) assms(1) by (rule db_step) (rule device_step.dropped)
  with drop(2) show ?thesis
    by (intro exI[of _ "r\<lparr>dr_store := rq_db t\<rparr>"]) (auto simp: issued_by_def isl_def)
qed

lemma answer_poll_steps:
  assumes A: "ic_adapter ctx = A" and ok: "ok (rq_db s)" and st: "dr_store r = rq_db s" and w: "simple_clause w"
    and run: "answer_poll ctx now q w () (\<lambda>_ _. returnA ()) s = (x, t)"
  shows "\<exists>v. device_steps A rows ok i r v \<and> dr_store v = rq_db t \<and> dr_decision v = dr_decision r \<and>
    dr_issued v = dr_issued r @ issued_by i x"
proof -
  have stay: ?thesis if "t = s" "isl x"
    using that st by (intro exI[of _ r]) (auto simp: issued_by_def isl_def)
  consider (drop) e where "bindA (db (drop_op A (get_field q ''id''))) (\<lambda>_. throwA e) s = (x, t)"
    | (stay) "t = s" "isl x"
    | (claim) u where "claim_device_code ctx q w () () u s = (x, t)"
    using run unfolding answer_poll_def Let_def A
    by (auto elim!: bindA_cases dest!: find_user_pure[OF A ok] split: if_splits option.splits)
  then show ?thesis
  proof cases
    case (drop e)
    with st show ?thesis by (rule drop_code_steps)
  next
    case (claim u)
    with A st w show ?thesis by (rule claim_code_steps)
  qed (rule stay)
qed

lemma redeem_steps:
  assumes A: "ic_adapter ctx = A" and ok: "ok (rq_db s)" and st: "dr_store r = rq_db s" and quiet: "quiet opts"
    and run: "redeemDeviceCode ctx clk code (session_redemption opts client_id) (\<lambda>_ _. returnA ()) s = (x, t)"
  shows "\<exists>v. device_steps A rows ok i r v \<and> dr_store v = rq_db t \<and> dr_decision v = dr_decision r \<and>
    dr_issued v = dr_issued r @ issued_by i x"
proof -
  let ?w = "wh_eq ''clientId'' (Str client_id)"
  consider (stay) "t = s" "isl x"
    | (poll) q y s1 where "db (poll_op A (get_field q ''id'') (date_at clk 1)) s = (y, s1)"
        "t = s1 \<and> isl x \<or> answer_poll ctx (date_at clk 2) q ?w () (\<lambda>_ _. returnA ()) s1 = (x, t)"
    using run unfolding redeemDeviceCode_def A
    by (auto elim!: bindA_cases dest!: db_find_pure[OF ok] session_redemption_pure[OF quiet]
        split: option.splits if_splits prod.splits)
  then show ?thesis
  proof cases
    case stay
    with st show ?thesis by (intro exI[of _ r]) (auto simp: issued_by_def isl_def)
  next
    case (poll q y s1)
    let ?v = "r\<lparr>dr_store := rq_db s1\<rparr>"
    have one: "device_steps A rows ok i r ?v"
      using poll(1) st by (rule db_step) (rule device_step.polled)
    obtain y' where "poll_op A (get_field q ''id'') (date_at clk 1) (rq_db s) = (y', rq_db s1)"
      using poll(1) db_run[of "poll_op A (get_field q ''id'') (date_at clk 1)" s] by (metis prod.collapse snd_conv with_sel(1))
    then have ok1: "ok (rq_db s1)" using update_frame[OF ok] unfolding poll_op_def by blast
    from poll(2) show ?thesis
    proof
      assume "t = s1 \<and> isl x"
      with one show ?thesis by (intro exI[of _ ?v]) (auto simp: issued_by_def isl_def)
    next
      assume "answer_poll ctx (date_at clk 2) q ?w () (\<lambda>_ _. returnA ()) s1 = (x, t)"
      from answer_poll_steps[OF A ok1 _ simple_wh(2) this, of ?v i] obtain v where
        "device_steps A rows ok i ?v v" "dr_store v = rq_db t" "dr_decision v = dr_decision r"
        "dr_issued v = dr_issued r @ issued_by i x" by auto
      with one show ?thesis by (intro exI[of _ v]) auto
    qed
  qed
qed

text \<open>Every request is a sequence of the accounted writes.\<close>

lemma serve_steps:
  assumes A: "ic_adapter ctx = A" and ok: "ok (rq_db s)" and st: "dr_store r = rq_db s" and quiet: "quiet opts"
    and user: "typed_user (call_user call)" and run: "serve ctx opts clk call s = (x, t)"
  shows "\<exists>v. device_steps A rows ok i r v \<and> dr_store v = rq_db t \<and> accounted i call x r v"
proof (cases call)
  case (Open u c)
  from open_steps[OF A ok st user[unfolded Open] run[unfolded Open]] show ?thesis unfolding Open .
next
  case (Approve u c)
  with A ok st user run show ?thesis
    by (intro decision_steps[of ctx s r call "''approved''" clk c]) (auto simp: deviceApprove_def)
next
  case (Deny u c)
  with A ok st user run show ?thesis
    by (intro decision_steps[of ctx s r call "''denied''" clk c]) (auto simp: deviceDeny_def)
next
  case (Redeem d c)
  obtain b s1 where valid: "(case do_validateClient opts of None \<Rightarrow> returnA True | Some f \<Rightarrow> f c) s = (b, s1)"
    by force
  with quiet have s1: "s1 = s" unfolding quiet_def
    by (cases "do_validateClient opts") (auto, metis snd_conv)
  let ?redeem = "redeemDeviceCode ctx clk d (session_redemption opts c) (\<lambda>_ _. returnA ())"
  obtain y s2 where y: "?redeem s = (y, s2)" by force
  from run Redeem valid s1 y consider "t = s" "isl x"
    | "t = s2" "x = (case y of Inl e \<Rightarrow> Inl e | Inr (q, _) \<Rightarrow> Inr (Some q))"
    by (auto simp: redeem_for_session_def bindA_def split: sum.splits if_splits)
  then show ?thesis
  proof cases
    case 1
    then show ?thesis using stay_step[OF st, of x] by (auto simp: isl_def)
  next
    case 2
    obtain v where "device_steps A rows ok i r v" "dr_store v = rq_db s2" "dr_decision v = dr_decision r"
      "dr_issued v = dr_issued r @ issued_by i y"
      using redeem_steps[OF A ok st quiet y, of i] by blast
    with 2 show ?thesis
      by (intro exI[of _ v]) (auto simp: accounted_def issued_by_def split: sum.splits)
  qed
qed

end

end
