(* ===== verification/DeviceClaims.thy ===== *)
theory DeviceClaims
  imports DeviceRuns
begin

text \<open>
  What the device flow guarantees: a session is only issued for a code its bound user
  approved, once; requests are sequences of the writes this is proved for; a final answer
  is final; an approved device is served; a user code may be typed in any spelling.
\<close>

section \<open>Runs on the memory adapter\<close>

lemma find_code_run:
  assumes "memory_ctx ctx cfg" and w: "watched (rq_db s) deviceCode_model i pre q post"
    and "get_field q ''userCode'' = Str code"
    and "\<And>r. r \<in> set pre \<union> set post \<Longrightarrow> get_field r ''userCode'' \<noteq> Str code"
  shows "findByUserCode ctx code s = (Inr (Some q), s)"
  using db_find_watched[OF assms(1) w, of "[wh_eq ''userCode'' (Str code)]"] assms(3,4)
  by (simp add: findByUserCode_def bindA_def)

lemma find_no_code_run:
  assumes "memory_ctx ctx cfg" and "tables (rq_db s) deviceCode_model \<noteq> None"
    and "\<And>r. r \<in> set (mem_rows (rq_db s) deviceCode_model) \<Longrightarrow> get_field r ''userCode'' \<noteq> Str code"
  shows "findByUserCode ctx code s = (Inr None, s)"
  using db_find_absent[OF assms(1,2), of "[wh_eq ''userCode'' (Str code)]"] assms(3)
  by (simp add: findByUserCode_def bindA_def)

text \<open>The user a row names, and the deletion of the watched code.\<close>

lemma find_user_run:
  assumes "memory_ctx ctx cfg" and "tables (rq_db s) ''user'' \<noteq> None"
  obtains u where "findUserById ctx i s = (Inr u, s)"
proof -
  from assms(2) obtain os where os: "tables (rq_db s) ''user'' = Some os" by auto
  obtain u where "a_findOne (ic_adapter ctx) ''user'' [wh_eq ''id'' (Str i)] (rq_db s) = (Inr u, rq_db s)"
    using assms(1) matching_objs_simple[OF os, of "[wh_eq ''id'' (Str i)]" cfg]
    by (simp add: memory_ctx_def mem_findOne_app)
  from db_run[of "a_findOne (ic_adapter ctx) ''user'' [wh_eq ''id'' (Str i)]" s, OF this] that show thesis
    by (cases "i = []") (auto simp: findUserById_def)
qed

definition without_code :: "row list \<Rightarrow> row list \<Rightarrow> (memdb, 'q) stores req \<Rightarrow> bool" where
  "without_code pre post t \<longleftrightarrow>
     mem_rows (rq_db t) deviceCode_model = pre @ post \<and> tables (rq_db t) deviceCode_model \<noteq> None"

lemma drop_run:
  assumes "memory_ctx ctx cfg" and w: "watched (rq_db s) deviceCode_model i pre q post"
  obtains t where "db (drop_op (ic_adapter ctx) (Str i)) s = (Inr (), t)" "without_code pre post t"
proof -
  obtain d where "a_delete (mem_adapter cfg) deviceCode_model [wh_eq ''id'' (Str i)] (rq_db s) = (Inr (), d)"
    "tables d deviceCode_model \<noteq> None" "mem_rows d deviceCode_model = pre @ post"
    by (rule watched_delete[OF w])
  with assms(1) db_run[of "drop_op (ic_adapter ctx) (Str i)" s "Inr ()" d] show thesis
    by (intro that[of "with_db d s"]) (simp_all add: memory_ctx_def drop_op_def without_code_def)
qed

definition final_answer :: "'a res \<Rightarrow> bool" where
  "final_answer x \<longleftrightarrow>
     \<not> isl x \<or> x \<in> {Inl (bad_request ''expired_token''), Inl (bad_request ''access_denied'')}"

lemma not_final [simp]:
  "\<not> final_answer (Inl server_error)" "\<not> final_answer (Inl (bad_request ''invalid_grant''))"
  "\<not> final_answer (Inl (bad_request ''authorization_pending''))" "\<not> final_answer (Inl (bad_request ''slow_down''))"
  by (simp_all add: final_answer_def server_error_def bad_request_def)

lemma answer_poll_final:
  assumes ctx: "memory_ctx ctx cfg" and w: "watched (rq_db s) deviceCode_model i pre q' post"
    and users: "tables (rq_db s) ''user'' \<noteq> None" and id: "get_field q ''id'' = Str i"
    and own: "simple_clause own"
    and run: "answer_poll ctx now q own () (\<lambda>_ _. returnA ()) s = (x, t)" and final: "final_answer x"
  shows "without_code pre post t"
proof -
  obtain t1 where drop: "db (drop_op (ic_adapter ctx) (Str i)) s = (Inr (), t1)" "without_code pre post t1"
    by (rule drop_run[OF ctx w])
  obtain u where u: "findUserById ctx (js_String (ic_host ctx) (get_field q ''userId'')) s = (Inr u, s)"
    by (rule find_user_run[OF ctx users])
  let ?g = "[own, wh_eq ''status'' (Str ''approved'')]"
  have claim: "without_code pre post t" if c: "claim_device_code ctx q own () () v s = (x, t)" for v
  proof (cases "list_all (clause_holds (hostEnv cfg) q') ?g")
    case True
    obtain d where d: "a_consumeOne (mem_adapter cfg) deviceCode_model (wh_eq ''id'' (Str i) # ?g) (rq_db s) =
        (Inr (Some q'), d)" "tables d deviceCode_model \<noteq> None" "mem_rows d deviceCode_model = pre @ post"
      by (rule watched_consume[OF w _ True]) (use own in auto)
    then have "db (redeem_op (ic_adapter ctx) (Str i) own) s = (Inr (Some q'), with_db d s)"
      using ctx by (intro db_run) (simp add: memory_ctx_def redeem_op_def)
    with c d id show ?thesis
      by (auto simp: claim_device_code_def bindA_def without_code_def split: if_splits)
  next
    case False
    have "a_consumeOne (mem_adapter cfg) deviceCode_model (wh_eq ''id'' (Str i) # ?g) (rq_db s) = (Inr None, rq_db s)"
      using own by (intro watched_consume_none[OF w _ False]) simp
    then have "db (redeem_op (ic_adapter ctx) (Str i) own) s = (Inr None, with_db (rq_db s) s)"
      using ctx by (intro db_run) (simp add: memory_ctx_def redeem_op_def)
    with c id final show ?thesis by (auto simp: claim_device_code_def bindA_def)
  qed
  show ?thesis
    using run drop final u claim unfolding answer_poll_def Let_def id
    by (auto simp: bindA_def split: if_splits option.splits)
qed

text \<open>The three requests of a flow that succeeds, run on a code's row.\<close>

definition same_users :: "(memdb, 'q) stores req \<Rightarrow> (memdb, 'q) stores req \<Rightarrow> bool" where
  "same_users s t \<longleftrightarrow> mem_rows (rq_db t) ''user'' = mem_rows (rq_db s) ''user'' \<and>
     (tables (rq_db t) ''user'' = None \<longleftrightarrow> tables (rq_db s) ''user'' = None)"

lemma find_typed_run:
  assumes "memory_ctx ctx cfg" and "watched (rq_db s) deviceCode_model i pre q post"
    and "get_field q ''userCode'' = Str code"
    and "\<And>r. r \<in> set pre \<union> set post \<Longrightarrow> get_field r ''userCode'' \<noteq> Str code"
  shows "findDeviceCodeByUserCode ctx code s = (Inr (Some q), s)"
  using find_code_run[OF assms] by (simp add: findDeviceCodeByUserCode_def bindA_def)

lemma guarded_db_run:
  assumes ctx: "memory_ctx ctx cfg" and w: "watched (rq_db s) deviceCode_model i pre q post"
    and g: "list_all simple_clause g" "list_all (clause_holds (hostEnv cfg) q) g" and f: "f \<noteq> ''id''"
  obtains t where
    "db (a_incrementOne (ic_adapter ctx) deviceCode_model (wh_eq ''id'' (Str i) # g) [] (Some [(f, v)])) s =
       (Inr (Some (set_field q f v)), t)"
    "watched (rq_db t) deviceCode_model i pre (set_field q f v) post" "same_users s t"
proof -
  obtain d where d: "a_incrementOne (mem_adapter cfg) deviceCode_model (wh_eq ''id'' (Str i) # g) [] (Some [(f, v)])
      (rq_db s) = (Inr (Some (apply_set (Some [(f, v)]) (apply_increment [] q))), d)"
    "watched d deviceCode_model i pre (apply_set (Some [(f, v)]) (apply_increment [] q)) post"
    "\<And>m'. m' \<noteq> deviceCode_model \<Longrightarrow> mem_rows d m' = mem_rows (rq_db s) m'"
    "\<And>m'. tables d m' = None \<longleftrightarrow> tables (rq_db s) m' = None"
    by (rule watched_increment[OF w g, of "Some [(f, v)]" "[]"]) (use f watchedD(4)[OF w] in \<open>auto simp: row_simps\<close>)
  let ?op = "a_incrementOne (ic_adapter ctx) deviceCode_model (wh_eq ''id'' (Str i) # g) [] (Some [(f, v)])"
  have "db ?op s = (Inr (Some (set_field q f v)), with_db d s)"
    using d(1) ctx by (intro db_run) (simp add: memory_ctx_def row_simps)
  with d show thesis by (intro that[of "with_db d s"]) (simp_all add: row_simps same_users_def)
qed

lemma open_run:
  assumes ctx: "memory_ctx ctx cfg" and w: "watched (rq_db s) deviceCode_model i pre q post"
    and q: "get_field q ''userCode'' = Str code" "get_field q ''status'' = Str ''pending''"
      "nullish (get_field q ''userId'')" "get_field q ''expiresAt'' = DateV k e" "now_ms clk 0 \<le> e"
    and others: "\<And>r. r \<in> set pre \<union> set post \<Longrightarrow> get_field r ''userCode'' \<noteq> Str code"
    and user: "get_field usr ''id'' = Str uid" "uid \<noteq> []"
  obtains t a where "deviceVerify ctx opts clk (Some usr) code s = (Inr a, t)"
    "get_field a ''client_id'' = get_field q ''clientId''"
    "watched (rq_db t) deviceCode_model i pre (set_field q ''userId'' (Str uid)) post" "same_users s t"
proof -
  obtain t where claim: "db (claim_op (ic_adapter ctx) (Str i) (Str uid)) s = (Inr (Some (set_field q ''userId'' (Str uid))), t)"
    and t: "watched (rq_db t) deviceCode_model i pre (set_field q ''userId'' (Str uid)) post" "same_users s t"
    unfolding claim_op_def
    by (rule guarded_db_run[OF ctx w, of "[wh_eq ''status'' (Str ''pending''), wh_eq ''userId'' Null]" "''userId''" "Str uid"])
       (use q in auto)
  have "\<not> truthy (get_field q ''userId'')" using q(3) by auto
  with claim find_typed_run[OF ctx w q(1) others] q user watchedD(4)[OF w] show thesis
    by (intro that[of _ t, OF _ _ t])
       (auto simp: deviceVerify_def Let_def bindA_def date_at_def now_ms_def row_simps)
qed

lemma approve_run:
  assumes ctx: "memory_ctx ctx cfg" and w: "watched (rq_db s) deviceCode_model i pre q post"
    and q: "get_field q ''userCode'' = Str code" "get_field q ''status'' = Str ''pending''"
      "get_field q ''userId'' = Str uid" "get_field q ''expiresAt'' = DateV k e" "now_ms clk 0 \<le> e"
    and others: "\<And>r. r \<in> set pre \<union> set post \<Longrightarrow> get_field r ''userCode'' \<noteq> Str code"
    and user: "get_field usr ''id'' = Str uid" "uid \<noteq> []"
  obtains t where "deviceApprove ctx clk (Some usr) code s = (Inr (), t)"
    "watched (rq_db t) deviceCode_model i pre (set_field q ''status'' (Str ''approved'')) post" "same_users s t"
proof -
  obtain t where decide: "db (decide_op (ic_adapter ctx) (Str i) (Str uid) ''approved'') s =
      (Inr (Some (set_field q ''status'' (Str ''approved''))), t)"
    and t: "watched (rq_db t) deviceCode_model i pre (set_field q ''status'' (Str ''approved'')) post" "same_users s t"
    unfolding decide_op_def
    by (rule guarded_db_run[OF ctx w, of "[wh_eq ''status'' (Str ''pending''), wh_eq ''userId'' (Str uid)]" "''status''"
          "Str ''approved''"]) (use q in auto)
  with find_typed_run[OF ctx w q(1) others] q user watchedD(4)[OF w] show thesis
    by (intro that[of t, OF _ t])
       (auto simp: deviceApprove_def device_decision_def bindA_def date_at_def now_ms_def)
qed

lemma redeem_run:
  assumes ctx: "memory_ctx ctx cfg" and w: "watched (rq_db s) deviceCode_model i pre q post"
    and grant: "do_grant opts = None"
    and q: "get_field q ''deviceCode'' = Str code" "get_field q ''status'' = Str ''approved''"
      "get_field q ''userId'' = Str uid" "uid \<noteq> []" "get_field q ''clientId'' = Str client_id"
      "get_field q ''expiresAt'' = DateV k e" "now_ms clk 2 \<le> e" "nullish (get_field q ''lastPolledAt'')"
    and others: "\<And>r. r \<in> set pre \<union> set post \<Longrightarrow> get_field r ''deviceCode'' \<noteq> Str code"
    and user: "tables (rq_db s) ''user'' \<noteq> None" "filter (\<lambda>r. get_field r ''id'' = Str uid) (mem_rows (rq_db s) ''user'') = [u]"
  obtains c t where "redeemDeviceCode ctx clk code (session_redemption opts client_id) (\<lambda>_ _. returnA ()) s =
      (Inr (c, (), (), u), t)" "get_field c ''userId'' = Str uid" "without_code pre post t"
proof -
  have found: "db (a_findOne (ic_adapter ctx) deviceCode_model [wh_eq ''deviceCode'' (Str code)]) s = (Inr (Some q), s)"
    using q(1) others by (intro db_find_watched[OF ctx w]) auto
  let ?up = "[(''lastPolledAt'', date_at clk 1)]" and ?c = "object_assign q [(''lastPolledAt'', date_at clk 1)]"
  obtain d1 where poll: "a_update (mem_adapter cfg) deviceCode_model [wh_eq ''id'' (Str i)] ?up (rq_db s) = (Inr (Some ?c), d1)"
    and w1: "watched d1 deviceCode_model i pre ?c post"
    and d1: "\<And>m'. m' \<noteq> deviceCode_model \<Longrightarrow> mem_rows d1 m' = mem_rows (rq_db s) m'"
      "\<And>m'. tables d1 m' = None \<longleftrightarrow> tables (rq_db s) m' = None"
    by (rule watched_update[OF w, of ?up cfg]) (use watchedD(4)[OF w] in \<open>auto simp: row_simps\<close>)
  let ?s1 = "with_db d1 s"
  have poll_run: "db (poll_op (ic_adapter ctx) (Str i) (date_at clk 1)) s = (Inr (Some ?c), ?s1)"
    using poll ctx by (intro db_run) (simp add: poll_op_def memory_ctx_def)
  have "a_findOne (ic_adapter ctx) ''user'' [wh_eq ''id'' (Str uid)] (rq_db ?s1) = (Inr (Some u), rq_db ?s1)"
    using ctx user d1 by (simp add: memory_ctx_def mem_findOne_unique del: mem_adapter_sel)
  from db_run[of "a_findOne (ic_adapter ctx) ''user'' [wh_eq ''id'' (Str uid)]" ?s1, OF this] q(4)
  have find_user: "findUserById ctx uid ?s1 = (Inr (Some u), ?s1)" by (simp add: findUserById_def)
  let ?g = "[wh_eq ''clientId'' (Str client_id), wh_eq ''status'' (Str ''approved'')]"
  obtain d2 where d2: "a_consumeOne (mem_adapter cfg) deviceCode_model (wh_eq ''id'' (Str i) # ?g) d1 = (Inr (Some ?c), d2)"
    "tables d2 deviceCode_model \<noteq> None" "mem_rows d2 deviceCode_model = pre @ post"
    by (rule watched_consume[OF w1, of ?g cfg]) (use q in \<open>auto simp: row_simps\<close>)
  then have "db (redeem_op (ic_adapter ctx) (Str i) (wh_eq ''clientId'' (Str client_id))) ?s1 =
      (Inr (Some ?c), with_db d2 ?s1)"
    using ctx by (intro db_run) (simp add: memory_ctx_def redeem_op_def)
  moreover have "\<not> truthy (get_field q ''lastPolledAt'')" using q(8) by auto
  ultimately show thesis
    using found poll_run find_user q grant watchedD(4)[OF w] d2(2,3)
    by (intro that[of ?c "with_db d2 ?s1"])
       (simp_all add: redeemDeviceCode_def session_redemption_def answer_poll_def claim_device_code_def
          polled_too_often_def without_code_def bindA_def date_at_def now_ms_def row_simps)
qed

text \<open>A pending code, claimed by nobody, and the user who approves it.\<close>

definition demo_code :: row where
  "demo_code = [(''id'', Str ''d1''), (''deviceCode'', Str ''dev''), (''userCode'', Str ''ABCD2345''),
     (''userId'', Null), (''expiresAt'', DateV 3 1000), (''status'', Str ''pending''),
     (''pollingInterval'', Num 5), (''clientId'', Str ''tv''), (''scope'', Undef)]"

definition device_user :: row where
  "device_user = [(''id'', Str ''u1''), (''email'', Str ''a@b'')]"

definition device_db :: memdb where
  "device_db = \<lparr>tables = [''user'' \<mapsto> [(0, device_user)], deviceCode_model \<mapsto> [(1, demo_code)]], next_ref = 2\<rparr>"

definition device_request :: "(memdb, nat) stores req" where
  "device_request = \<lparr>rq_store = \<lparr>st_db = device_db, st_sec = 0\<rparr>, rq_als = True, rq_tx = False, rq_pending = []\<rparr>"

abbreviation device_ctx :: "(memdb, nat) ictx" where
  "device_ctx \<equiv> demo_ictx None False"

definition device_demo_opts :: "(memdb, nat) device_opts" where
  "device_demo_opts = \<lparr>do_grant = None, do_deviceCodes = (\<lambda>_. Str ''dev''), do_generateUserCode = None,
     do_bytes = (\<lambda>_. []), do_validateClient = None, do_onDeviceAuthRequest = None,
     do_expiresIn = 1800000, do_interval = 5000, do_errorObject = (\<lambda>_. None)\<rparr>"

lemma demo_code_fields:
  "get_field demo_code ''id'' = Str ''d1''" "get_field demo_code ''deviceCode'' = Str ''dev''"
  "get_field demo_code ''userCode'' = Str ''ABCD2345''" "get_field demo_code ''userId'' = Null"
  "get_field demo_code ''expiresAt'' = DateV 3 1000" "get_field demo_code ''status'' = Str ''pending''"
  "get_field demo_code ''clientId'' = Str ''tv''" "get_field demo_code ''lastPolledAt'' = Undef"
  by (simp_all add: demo_code_def)

lemma device_ctx_memory: "memory_ctx device_ctx demo_cfg"
  by (simp add: memory_ctx_def demo_ictx_def demo_cfg_def)

lemma device_watched: "watched (rq_db device_request) deviceCode_model ''d1'' [] demo_code []"
  by (auto simp: watched_def device_request_def device_db_def mem_rows_def table_of_def wf_db_def demo_code_fields)

lemma device_users:
  "tables (rq_db device_request) ''user'' \<noteq> None"
  "filter (\<lambda>r. get_field r ''id'' = Str ''u1'') (mem_rows (rq_db device_request) ''user'') = [device_user]"
  by (simp_all add: device_request_def device_db_def mem_rows_def table_of_def device_user_def)

lemma demo_opts_plain: "do_grant device_demo_opts = None" "quiet device_demo_opts"
  by (simp_all add: device_demo_opts_def quiet_def)

section \<open>Properties\<close>

text \<open>
  C10. A device is granted a session only after the user it is bound to approved it. Take a
  pending code and any interleaving of the writes of concurrent requests on it: at most one
  redemption ever returns the code, it returns the user who approved it, and if the code
  was bound to a user from the start, that is the user.
\<close>

theorem device_grant_needs_approval:
  assumes steps: "device_steps (mem_adapter cfg) mem_rows wf_db i r0 r" and wf: "wf_db (dr_store r0)"
    and row: "rows_with_id i (mem_rows (dr_store r0) deviceCode_model) = [q]"
    and pending: "get_field q ''status'' = Str ''pending''" and fresh: "dr_decision r0 = None" "dr_issued r0 = []"
  shows "dr_issued r = [] \<or>
    (\<exists>u. dr_issued r = [Str u] \<and> dr_decision r = Some (u, ''approved'') \<and>
       (\<forall>w. get_field q ''userId'' = Str w \<longrightarrow> u = w))"
proof -
  let ?b = "case get_field q ''userId'' of Str w \<Rightarrow> Some w | _ \<Rightarrow> None"
  have "device_life mem_rows wf_db i ?b r0"
    using wf row pending fresh
    by (auto simp: device_life_def life_ok_def decision_matches_def bound_to_def split: val.splits)
  from memd.device_steps_life[OF steps this] show ?thesis
    by (auto simp: device_life_def life_ok_def bound_to_def split: val.splits)
qed

definition demo_run :: "memdb \<Rightarrow> memdb device_run" where
  "demo_run d = \<lparr>dr_store = d, dr_decision = None, dr_issued = []\<rparr>"

lemma demo_run_steps:
  "\<exists>r. device_steps (mem_adapter demo_cfg) mem_rows wf_db ''d1'' (demo_run (one_row deviceCode_model demo_code)) r \<and>
     dr_issued r = [Str ''u1'']"
proof -
  let ?A = "mem_adapter demo_cfg" and ?m = deviceCode_model
  let ?q1 = "set_field demo_code ''userId'' (Str ''u1'')"
  let ?q2 = "set_field ?q1 ''status'' (Str ''approved'')"
  let ?r0 = "demo_run (one_row ?m demo_code)" and ?r1 = "demo_run (one_row ?m ?q1)"
  let ?r2 = "(demo_run (one_row ?m ?q2))\<lparr>dr_decision := Some (''u1'', ''approved'')\<rparr>"
  have "claim_op ?A (Str ''d1'') (Str ''u1'') (dr_store ?r0) = (Inr (Some ?q1), dr_store ?r1)"
    by (simp add: claim_op_def demo_run_def demo_code_fields row_simps)
  from device_step.claimed[OF this, of mem_rows wf_db "''d1''"]
  have one: "device_step ?A mem_rows wf_db ''d1'' ?r0 ?r1" by (simp add: demo_run_def)
  have "decide_op ?A (Str ''d1'') (Str ''u1'') ''approved'' (dr_store ?r1) = (Inr (Some ?q2), dr_store ?r2)"
    by (simp add: decide_op_def demo_run_def demo_code_fields row_simps)
  from device_step.decided[OF this, of mem_rows wf_db "''d1''"]
  have two: "device_step ?A mem_rows wf_db ''d1'' ?r1 ?r2" by (simp add: demo_run_def)
  have "watched (dr_store ?r2) ?m ''d1'' [] ?q2 []"
    by (auto simp: watched_def demo_run_def demo_code_fields)
  then obtain t where "redeem_op ?A (Str ''d1'') (wh_eq ''clientId'' (Str ''tv'')) (dr_store ?r2) = (Inr (Some ?q2), t)"
    unfolding redeem_op_def by (rule watched_consume) (auto simp: demo_code_fields)
  from device_step.redeemed[OF this, of mem_rows wf_db "''d1''"]
  have "device_step ?A mem_rows wf_db ''d1'' ?r2 (?r2\<lparr>dr_store := t, dr_issued := [Str ''u1'']\<rparr>)"
    by (simp add: demo_run_def demo_code_fields)
  with one two show ?thesis by (intro exI[of _ "?r2\<lparr>dr_store := t, dr_issued := [Str ''u1'']\<rparr>"]) auto
qed

theorem device_grant_needs_approval_witness:
  "\<exists>r. device_steps (mem_adapter demo_cfg) mem_rows wf_db ''d1'' (demo_run (one_row deviceCode_model demo_code)) r \<and>
     dr_issued r = [Str ''u1''] \<and> dr_decision r = Some (''u1'', ''approved'')"
proof -
  from demo_run_steps obtain r where
    r: "device_steps (mem_adapter demo_cfg) mem_rows wf_db ''d1'' (demo_run (one_row deviceCode_model demo_code)) r"
    "dr_issued r = [Str ''u1'']" by blast
  from device_grant_needs_approval[OF r(1), of demo_code] r(2)
  have "dr_decision r = Some (''u1'', ''approved'')"
    by (auto simp: demo_run_def rows_with_id_def demo_code_fields)
  with r show ?thesis by blast
qed

text \<open>
  C11. Every request of the flow is a sequence of these writes. Opening, approving, denying
  and redeeming a code change the table of codes only by the guarded writes; a redemption
  that returns a code is accounted as issued, and a decision is written only by a request
  of the user it names, with the status of that endpoint.
\<close>

theorem device_requests_are_writes:
  assumes "ic_adapter ctx = mem_adapter cfg" and "wf_db (rq_db s)" and "dr_store r = rq_db s" and "quiet opts"
    and "typed_user (call_user call)" and "serve ctx opts clk call s = (x, t)"
  shows "\<exists>v. device_steps (mem_adapter cfg) mem_rows wf_db i r v \<and> dr_store v = rq_db t \<and> accounted i call x r v"
  using assms by (rule memd.serve_steps)

theorem device_requests_are_writes_witness:
  "\<exists>v. device_steps (mem_adapter demo_cfg) mem_rows wf_db ''d1'' (demo_run device_db) v \<and>
    accounted ''d1'' (Open (Some device_user) ''ABCD2345'')
      (fst (serve device_ctx device_demo_opts (\<lambda>_. (9, 500)) (Open (Some device_user) ''ABCD2345'') device_request))
      (demo_run device_db) v"
proof -
  obtain x t where run: "serve device_ctx device_demo_opts (\<lambda>_. (9, 500)) (Open (Some device_user) ''ABCD2345'')
      device_request = (x, t)" by force
  have "wf_db (rq_db device_request)" using device_watched by (simp add: watched_def)
  from device_requests_are_writes[OF _ this _ demo_opts_plain(2) _ run, of demo_cfg "demo_run device_db" "''d1''"]
  show ?thesis
    unfolding run by (auto simp: demo_ictx_def demo_run_def device_request_def typed_user_def device_user_def)
qed

text \<open>
  A user code may be typed in any spelling: letters in either case, with spaces, dashes
  or other separators anywhere. If the normalized text is a stored code of the default
  alphabet, and no other row has the typed text as its own code, that row is found.
\<close>

theorem user_code_any_spelling:
  assumes ctx: "memory_ctx ctx cfg" and w: "watched (rq_db s) deviceCode_model i pre q post"
    and code: "get_field q ''userCode'' = Str (normalizeUserCode typed)"
    and default: "defaultUserCodePattern (normalizeUserCode typed)"
    and others: "\<And>r. r \<in> set pre \<union> set post \<Longrightarrow> get_field r ''userCode'' \<notin> {Str typed, Str (normalizeUserCode typed)}"
  shows "findDeviceCodeByUserCode ctx typed s = (Inr (Some q), s)"
proof (cases "normalizeUserCode typed = typed")
  case True
  with find_code_run[OF ctx w, of typed] code others show ?thesis
    by (simp add: findDeviceCodeByUserCode_def bindA_def)
next
  case False
  have "findByUserCode ctx typed s = (Inr None, s)"
    using False code others watchedD[OF w] by (intro find_no_code_run[OF ctx]) auto
  moreover have "findByUserCode ctx (normalizeUserCode typed) s = (Inr (Some q), s)"
    using code others by (intro find_code_run[OF ctx w]) auto
  ultimately show ?thesis
    using False default by (simp add: findDeviceCodeByUserCode_def bindA_def)
qed

theorem user_code_any_spelling_witness:
  "findDeviceCodeByUserCode device_ctx ''abcd-2345'' device_request = (Inr (Some demo_code), device_request)"
proof -
  have "normalizeUserCode ''abcd-2345'' = ''ABCD2345''" "defaultUserCodePattern ''ABCD2345''" by code_simp+
  with user_code_any_spelling[OF device_ctx_memory device_watched, of "''abcd-2345''"] show ?thesis
    by (simp add: demo_code_fields)
qed

text \<open>
  A final answer is final. Once polling a code was answered with its user, with
  \<open>expired_token\<close> or with \<open>access_denied\<close>, every later poll of that code, by any client and
  at any time, is answered \<open>invalid_grant\<close> and changes nothing.
\<close>

theorem final_answers_are_final:
  assumes ctx: "memory_ctx ctx cfg" and w: "watched (rq_db s) deviceCode_model i pre q post"
    and users: "tables (rq_db s) ''user'' \<noteq> None"
    and others: "\<And>r. r \<in> set pre \<union> set post \<Longrightarrow> get_field r ''deviceCode'' \<noteq> Str code"
    and grant: "do_grant opts = None"
    and run: "redeemDeviceCode ctx clk code (session_redemption opts client_id) (\<lambda>_ _. returnA ()) s = (x, t)"
    and final: "final_answer x"
  shows "redeemDeviceCode ctx clk' code authorize prepare t = (Inl (bad_request ''invalid_grant''), t)"
proof -
  note w' = watchedD[OF w]
  have adapter: "ic_adapter ctx = mem_adapter cfg" using ctx by (simp add: memory_ctx_def)
  let ?find = "db (a_findOne (ic_adapter ctx) deviceCode_model [wh_eq ''deviceCode'' (Str code)])"
  have code: "get_field q ''deviceCode'' = Str code"
  proof (rule ccontr)
    assume "get_field q ''deviceCode'' \<noteq> Str code"
    then have "?find s = (Inr None, s)" using w' others by (intro db_find_absent[OF ctx]) auto
    with run final show False by (auto simp: redeemDeviceCode_def bindA_def)
  qed
  then have found: "?find s = (Inr (Some q), s)" using others by (intro db_find_watched[OF ctx w]) auto
  let ?up = "[(''lastPolledAt'', date_at clk 1)]"
  obtain d1 where poll: "a_update (mem_adapter cfg) deviceCode_model [wh_eq ''id'' (Str i)] ?up (rq_db s) =
      (Inr (Some (object_assign q ?up)), d1)" and w1: "watched d1 deviceCode_model i pre (object_assign q ?up) post"
    and t1: "\<And>m'. tables d1 m' = None \<longleftrightarrow> tables (rq_db s) m' = None"
    by (rule watched_update[OF w, of ?up cfg]) (use w' in \<open>auto simp: row_simps\<close>)
  have "db (poll_op (ic_adapter ctx) (Str i) (date_at clk 1)) s = (Inr (Some (object_assign q ?up)), with_db d1 s)"
    using poll by (intro db_run) (simp add: poll_op_def adapter)
  with run final found w'(4) grant have
    "answer_poll ctx (date_at clk 2) q (wh_eq ''clientId'' (Str client_id)) () (\<lambda>_ _. returnA ()) (with_db d1 s) = (x, t)"
    by (auto simp: redeemDeviceCode_def session_redemption_def bindA_def split: if_splits)
  from answer_poll_final[OF ctx _ _ w'(4) simple_wh(2) this final, of pre _ post] w1 t1 users
  have gone: "without_code pre post t" by auto
  then have "db (a_findOne (ic_adapter ctx) deviceCode_model [wh_eq ''deviceCode'' (Str code)]) t = (Inr None, t)"
    using others by (intro db_find_absent[OF ctx]) (auto simp: without_code_def)
  then show ?thesis by (simp add: redeemDeviceCode_def bindA_def)
qed

theorem final_answers_are_final_witness:
  "redeemDeviceCode device_ctx (\<lambda>_. (9, 1007)) ''dev'' (session_redemption device_demo_opts ''tv'') (\<lambda>_ _. returnA ())
      (snd (redeemDeviceCode device_ctx (\<lambda>_. (9, 1001)) ''dev'' (session_redemption device_demo_opts ''tv'')
         (\<lambda>_ _. returnA ()) device_request)) =
   (Inl (bad_request ''invalid_grant''),
    snd (redeemDeviceCode device_ctx (\<lambda>_. (9, 1001)) ''dev'' (session_redemption device_demo_opts ''tv'')
         (\<lambda>_ _. returnA ()) device_request))"
proof -
  obtain x t where run: "redeemDeviceCode device_ctx (\<lambda>_. (9, 1001)) ''dev''
      (session_redemption device_demo_opts ''tv'') (\<lambda>_ _. returnA ()) device_request = (x, t)" by force
  have "fst (redeemDeviceCode device_ctx (\<lambda>_. (9, 1001)) ''dev'' (session_redemption device_demo_opts ''tv'')
      (\<lambda>_ _. returnA ()) device_request) = Inl (bad_request ''expired_token'')"
    by code_simp
  with run have "final_answer x" by (simp add: final_answer_def)
  from final_answers_are_final[OF device_ctx_memory device_watched device_users(1) _ demo_opts_plain(1) run this]
  show ?thesis unfolding run by simp
qed



end
