(* ===== verification/TwoFactor.thy ===== *)
theory TwoFactor
  imports UserStore VerificationStore "HOL-Library.Word"
begin

unbundle bit_operations_syntax

text \<open>
  Two-factor authentication, \<open>packages/cinaauth/src/plugins/two-factor\<close>: the challenge of a
  sign-in with its attempt budget, the lockout of an account (\<open>verify-two-factor.ts\<close>),
  one-time codes (\<open>otp\<close>), authenticator codes (\<open>totp\<close>), backup codes (\<open>backup-codes\<close>), and
  the endpoints and the sign-in hook of \<open>index.ts\<close>.

  An error carries its status and the key of its message. Encryption, hashing, the HMAC, the
  check of an authenticator code, password hashing and JSON parsing are the functions of
  \<open>two_factor_crypto\<close>, as one request sees them (two requests may encrypt with different
  nonces). The session of a request, its signed cookies and what it draws at random are the
  fields of \<open>two_factor_request\<close>. Cookies that are only set or expired are left out.
\<close>

abbreviation twoFactor_model :: string where "twoFactor_model \<equiv> ''twoFactor''"

definition unauthorized :: "string \<Rightarrow> err" where
  "unauthorized code = APIError ''UNAUTHORIZED'' code"

definition bad_code :: "string \<Rightarrow> err" where
  "bad_code code = APIError ''BAD_REQUEST'' code"

definition INVALID_TWO_FACTOR_COOKIE :: err where
  "INVALID_TWO_FACTOR_COOKIE = unauthorized ''INVALID_TWO_FACTOR_COOKIE''"

definition TRUST_DEVICE_COOKIE_MAX_AGE :: int where
  "TRUST_DEVICE_COOKIE_MAX_AGE = 30 * 24 * 60 * 60"

definition DEFAULT_TWO_FACTOR_ALLOWED_ATTEMPTS :: int where
  "DEFAULT_TWO_FACTOR_ALLOWED_ATTEMPTS = 5"

definition DEFAULT_ACCOUNT_LOCKOUT_MAX_FAILED_ATTEMPTS :: int where
  "DEFAULT_ACCOUNT_LOCKOUT_MAX_FAILED_ATTEMPTS = 10"

definition DEFAULT_ACCOUNT_LOCKOUT_DURATION_SECONDS :: int where
  "DEFAULT_ACCOUNT_LOCKOUT_DURATION_SECONDS = 15 * 60"

section \<open>Options and requests\<close>

datatype otp_storage =
    Otp_plain | Otp_hashed | Otp_encrypted
  | Otp_hash "string \<Rightarrow> string res"
  | Otp_encrypt "string \<Rightarrow> string res" "string \<Rightarrow> string res"

datatype backup_storage =
    Backup_plain | Backup_encrypted
  | Backup_encrypt "string \<Rightarrow> string res" "string \<Rightarrow> string res"

text \<open>Durations in seconds, but \<open>to_period\<close> in minutes; 0 for a number that is not set.\<close>

record ('s, 'q) two_factor_opts =
  to_lockoutEnabled :: "bool option"
  to_maxFailedAttempts :: "int option"
  to_durationSeconds :: "int option"
  to_allowedAttempts :: int
  to_period :: int
  to_storeOTP :: otp_storage
  to_sendOTP :: "(row \<Rightarrow> string \<Rightarrow> ('s, 'q, unit) iact) option"
  to_storeBackupCodes :: backup_storage
  to_totpDisabled :: bool
  to_skipVerification :: bool
  to_trustDeviceMaxAge :: "int option"
  to_cookieMaxAge :: "int option"
  to_allowPasswordless :: bool
  to_requireFresh :: bool

record two_factor_crypto =
  tc_encrypt :: "string \<Rightarrow> string res"            \<comment> \<open>\<open>symmetricEncrypt\<close> with the server's secret\<close>
  tc_decrypt :: "string \<Rightarrow> string res"
  tc_keyHasher :: "string \<Rightarrow> string"
  tc_hmac :: "string \<Rightarrow> string"                  \<comment> \<open>HMAC-SHA-256 with the server's secret\<close>
  tc_totp :: "string \<Rightarrow> string \<Rightarrow> bool res"       \<comment> \<open>\<open>createOTP(secret).verify(code)\<close> now\<close>
  tc_passwordMatches :: "string \<Rightarrow> string \<Rightarrow> bool res"
  tc_parseCodes :: "string \<Rightarrow> string list option" \<comment> \<open>\<open>safeJSONParse\<close>\<close>
  tc_uri :: "string \<Rightarrow> string"                   \<comment> \<open>\<open>createOTP(secret).url(...)\<close>\<close>

record ('s, 'q) two_factor_request =
  tq_session :: "(row \<times> row) option"            \<comment> \<open>the session and its user\<close>
  tq_freshSession :: "('s, 'q, row \<times> row) iact"  \<comment> \<open>\<open>getFreshSessionFromCtx\<close>\<close>
  tq_cookie :: "string option"                  \<comment> \<open>the signed \<open>two_factor\<close> cookie\<close>
  tq_trustCookie :: "string option"             \<comment> \<open>the signed \<open>trust_device\<close> cookie\<close>
  tq_dontRemember :: bool
  tq_trustDevice :: bool
  tq_disableSession :: bool
  tq_code :: string
  tq_password :: "string option"
  tq_random :: string                           \<comment> \<open>the random text of the identifier it creates\<close>
  tq_env :: session_env

section \<open>The challenge\<close>

text \<open>Who is being verified: a signed-in user, or the user of a sign-in's challenge cookie.\<close>

datatype challenge =
    Reverify row row
  | SignIn string val row bool

fun ch_user :: "challenge \<Rightarrow> row" where
  "ch_user (Reverify s u) = u"
| "ch_user (SignIn cookie e u d) = u"

fun ch_session :: "challenge \<Rightarrow> row option" where
  "ch_session (Reverify s u) = Some s"
| "ch_session (SignIn cookie e u d) = None"

fun ch_key :: "host \<Rightarrow> challenge \<Rightarrow> string" where
  "ch_key h (Reverify s u) = js_String h (get_field u ''id'') @ ''!'' @ js_String h (get_field s ''id'')"
| "ch_key h (SignIn cookie e u d) = cookie"

definition isSignIn :: "challenge \<Rightarrow> bool" where
  "isSignIn c \<longleftrightarrow> ch_session c = None"

text \<open>A string column.\<close>

definition text_of :: "val \<Rightarrow> string" where
  "text_of v = (case v of Str t \<Rightarrow> t | _ \<Rightarrow> [])"

definition verifyTwoFactor ::
  "('s, 'q) ictx \<Rightarrow> clock \<Rightarrow> ('s, 'q) two_factor_request \<Rightarrow> ('s, 'q, challenge) iact"
where
  "verifyTwoFactor ctx clk rq =
     (case tq_session rq of
        Some (s, u) \<Rightarrow> returnA (Reverify s u)
      | None \<Rightarrow>
          (case tq_cookie rq of
             None \<Rightarrow> throwA INVALID_TWO_FACTOR_COOKIE
           | Some cookie \<Rightarrow>
               if cookie = [] then throwA INVALID_TWO_FACTOR_COOKIE
               else
                 bindA (findVerificationValue ctx clk cookie) (\<lambda>found.
                   case found of
                     None \<Rightarrow> throwA INVALID_TWO_FACTOR_COOKIE
                   | Some token \<Rightarrow>
                       bindA (findUserById ctx (text_of (get_field token ''value''))) (\<lambda>user.
                         case user of
                           None \<Rightarrow> throwA INVALID_TWO_FACTOR_COOKIE
                         | Some u \<Rightarrow>
                             returnA (SignIn cookie (get_field token ''expiresAt'') u (tq_dontRemember rq))))))"

subsection \<open>The attempt budget\<close>

definition attempts_key :: "string \<Rightarrow> string" where
  "attempts_key cookie = ''2fa-attempts-'' @ cookie"

text \<open>The attempts a counter's text says; a corrupt counter is spent.\<close>

definition attempts_used :: "host \<Rightarrow> int \<Rightarrow> row \<Rightarrow> int" where
  "attempts_used h allowedAttempts r =
     (case to_number h (get_field r ''value'') of
        Some n \<Rightarrow> if n \<ge> 0 then n else allowedAttempts
      | None \<Rightarrow> allowedAttempts)"

definition take_counter :: "('s, 'q) ictx \<Rightarrow> clock \<Rightarrow> string \<Rightarrow> ('s, 'q, row option) iact" where
  "take_counter ctx clk cookie =
     catchA (consumeVerificationValue ctx clk (attempts_key cookie)) (\<lambda>_. returnA None)"

definition cancel_challenge :: "('s, 'q) ictx \<Rightarrow> clock \<Rightarrow> string \<Rightarrow> ('s, 'q, unit) iact" where
  "cancel_challenge ctx clk cookie =
     catchA (bindA (consumeVerificationValue ctx clk cookie) (\<lambda>_. returnA ()))
       (\<lambda>_. throwA (APIError ''INTERNAL_SERVER_ERROR'' ''FAILED_TO_INVALIDATE_TWO_FACTOR_CHALLENGE''))"

text \<open>The attempts used before this one, on a sign-in; a re-verification has no budget.\<close>

definition beginAttempt ::
  "('s, 'q) ictx \<Rightarrow> clock \<Rightarrow> challenge \<Rightarrow> int \<Rightarrow> ('s, 'q, int) iact"
where
  "beginAttempt ctx clk c allowedAttempts =
     (case c of
        Reverify s u \<Rightarrow> returnA 0
      | SignIn cookie e u d \<Rightarrow>
          bindA (take_counter ctx clk cookie) (\<lambda>consumed.
            case consumed of
              None \<Rightarrow> throwA INVALID_TWO_FACTOR_COOKIE
            | Some r \<Rightarrow>
                let attempts = attempts_used (ic_host ctx) allowedAttempts r in
                if attempts \<ge> allowedAttempts
                then bindA (cancel_challenge ctx (\<lambda>i. clk (i + 2)) cookie) (\<lambda>_.
                       throwA (bad_code ''TOO_MANY_ATTEMPTS_REQUEST_NEW_CODE''))
                else returnA attempts))"

definition counter_data :: "string \<Rightarrow> val \<Rightarrow> int \<Rightarrow> row" where
  "counter_data cookie expiresAt count =
     [(''value'', Str (int_to_str count)), (''identifier'', Str (attempts_key cookie)), (''expiresAt'', expiresAt)]"

text \<open>\<open>recordFailure\<close> re-arms with one attempt more, \<open>restore\<close> with the same; errors are swallowed.\<close>

definition rearm :: "('s, 'q) ictx \<Rightarrow> clock \<Rightarrow> challenge \<Rightarrow> int \<Rightarrow> ('s, 'q, unit) iact" where
  "rearm ctx clk c count =
     (case c of
        Reverify s u \<Rightarrow> returnA ()
      | SignIn cookie e u d \<Rightarrow>
          catchA (bindA (createVerificationValue ctx clk (counter_data cookie e count)) (\<lambda>_. returnA ()))
            (\<lambda>_. returnA ()))"

subsection \<open>The end of a verification\<close>

record two_factor_answer =
  tfa_token :: val
  tfa_user :: "row option"
  tfa_trust :: "string option"     \<comment> \<open>the value of the trusted-device cookie it sets\<close>

definition trust_max_age :: "('s, 'q) two_factor_opts \<Rightarrow> int" where
  "trust_max_age opts = (case to_trustDeviceMaxAge opts of Some m \<Rightarrow> m | None \<Rightarrow> TRUST_DEVICE_COOKIE_MAX_AGE)"

text \<open>A trusted device: a verification value of the user, and the cookie that names it.\<close>

definition trust_device ::
  "('s, 'q) ictx \<Rightarrow> ('s, 'q) two_factor_opts \<Rightarrow> two_factor_crypto \<Rightarrow> clock \<Rightarrow> val \<Rightarrow> string \<Rightarrow>
     ('s, 'q, string) iact"
where
  "trust_device ctx opts cr clk userId random =
     (let trustIdentifier = ''trust-device-'' @ random;
          token = tc_hmac cr (js_String (ic_host ctx) userId @ ''!'' @ trustIdentifier)
      in bindA (createVerificationValue ctx (\<lambda>i. clk (i + 1))
              [(''value'', userId), (''identifier'', Str trustIdentifier),
               (''expiresAt'', DateV (fst (clk 0)) (snd (clk 0) + trust_max_age opts * 1000))])
           (\<lambda>_. returnA (token @ ''!'' @ trustIdentifier)))"

text \<open>The challenge is burnt before a session is issued for it.\<close>

definition sign_in_valid ::
  "('s, 'q) ictx \<Rightarrow> ('s, 'q) two_factor_opts \<Rightarrow> two_factor_crypto \<Rightarrow> clock \<Rightarrow> ('s, 'q) two_factor_request \<Rightarrow>
     string \<Rightarrow> row \<Rightarrow> bool \<Rightarrow> ('s, 'q, two_factor_answer) iact"
where
  "sign_in_valid ctx opts cr clk rq cookie user dontRememberMe =
     bindA (consumeVerificationValue ctx clk cookie) (\<lambda>consumed.
       case consumed of
         None \<Rightarrow> throwA INVALID_TWO_FACTOR_COOKIE
       | Some r \<Rightarrow>
           if \<not> strict_eq (get_field r ''value'') (get_field user ''id'') then throwA INVALID_TWO_FACTOR_COOKIE
           else
             bindA (createSession ctx (\<lambda>i. clk (i + 2)) (tq_env rq) (text_of (get_field r ''value''))
                      dontRememberMe [] False False) (\<lambda>created.
               case created of
                 None \<Rightarrow> throwA (APIError ''INTERNAL_SERVER_ERROR'' ''FAILED_TO_CREATE_SESSION'')
               | Some s \<Rightarrow>
                   bindA (if tq_trustDevice rq
                          then bindA (trust_device ctx opts cr (\<lambda>i. clk (i + 6)) (get_field user ''id'') (tq_random rq))
                                 (\<lambda>t. returnA (Some t))
                          else returnA None) (\<lambda>trust.
                     returnA \<lparr>tfa_token = get_field s ''token'',
                       tfa_user = Some (parseUserOutput (ic_schema ctx) user), tfa_trust = trust\<rparr>)))"

definition valid ::
  "('s, 'q) ictx \<Rightarrow> ('s, 'q) two_factor_opts \<Rightarrow> two_factor_crypto \<Rightarrow> clock \<Rightarrow> ('s, 'q) two_factor_request \<Rightarrow>
     challenge \<Rightarrow> ('s, 'q, two_factor_answer) iact"
where
  "valid ctx opts cr clk rq c =
     (case c of
        Reverify s u \<Rightarrow>
          returnA \<lparr>tfa_token = get_field s ''token'', tfa_user = Some (parseUserOutput (ic_schema ctx) u),
            tfa_trust = None\<rparr>
      | SignIn cookie e u d \<Rightarrow> sign_in_valid ctx opts cr clk rq cookie u d)"

section \<open>Lockout of an account\<close>

record lockout_config =
  lc_enabled :: bool
  lc_maxFailedAttempts :: int
  lc_durationMs :: int

definition resolveAccountLockoutConfig :: "('s, 'q) two_factor_opts \<Rightarrow> lockout_config" where
  "resolveAccountLockoutConfig opts =
     \<lparr>lc_enabled = (case to_lockoutEnabled opts of Some b \<Rightarrow> b | None \<Rightarrow> True),
      lc_maxFailedAttempts = (case to_maxFailedAttempts opts of
          Some m \<Rightarrow> m | None \<Rightarrow> DEFAULT_ACCOUNT_LOCKOUT_MAX_FAILED_ATTEMPTS),
      lc_durationMs = (case to_durationSeconds opts of
          Some d \<Rightarrow> d | None \<Rightarrow> DEFAULT_ACCOUNT_LOCKOUT_DURATION_SECONDS) * 1000\<rparr>"

text \<open>The writes of the lockout, each one atomic step of the database.\<close>

definition lockout_reset :: row where
  "lockout_reset = [(''failedVerificationCount'', Num 0), (''lockedUntil'', Null)]"

definition clear_op :: "'s adapter \<Rightarrow> val \<Rightarrow> val \<Rightarrow> ('s, row option) act" where
  "clear_op A i now =
     a_incrementOne A twoFactor_model [wh_eq ''id'' i, wh ''lockedUntil'' Op_lte now] [] (Some lockout_reset)"

definition fail_op :: "'s adapter \<Rightarrow> val \<Rightarrow> ('s, row option) act" where
  "fail_op A i = a_incrementOne A twoFactor_model [wh_eq ''id'' i] [(''failedVerificationCount'', 1)] None"

definition lock_op :: "'s adapter \<Rightarrow> val \<Rightarrow> int \<Rightarrow> val \<Rightarrow> ('s, row option) act" where
  "lock_op A i maxFailed until =
     a_incrementOne A twoFactor_model
       [wh_eq ''id'' i, wh ''failedVerificationCount'' Op_gte (Num maxFailed)] [] (Some [(''lockedUntil'', until)])"

definition reset_op :: "'s adapter \<Rightarrow> val \<Rightarrow> ('s, row option) act" where
  "reset_op A i = a_update A twoFactor_model [wh_eq ''id'' i] lockout_reset"

definition assertTwoFactorNotLocked ::
  "('s, 'q) ictx \<Rightarrow> ('s, 'q) two_factor_opts \<Rightarrow> clock \<Rightarrow> row \<Rightarrow> ('s, 'q, unit) iact"
where
  "assertTwoFactorNotLocked ctx opts clk r =
     (if \<not> lc_enabled (resolveAccountLockoutConfig opts) \<or> \<not> truthy (get_field r ''lockedUntil'') then returnA ()
      else if (case time_of (new_date ctx 0 (get_field r ''lockedUntil'')) of
                 Some lockedUntil \<Rightarrow> lockedUntil > now_ms clk 0 | None \<Rightarrow> False)
      then throwA (APIError ''TOO_MANY_REQUESTS'' ''ACCOUNT_TEMPORARILY_LOCKED'')
      else bindA (db (clear_op (ic_adapter ctx) (get_field r ''id'') (date_at clk 1))) (\<lambda>_. returnA ()))"

text \<open>\<open>(updated?.failedVerificationCount ?? 0) >= maxFailedAttempts\<close>\<close>

definition budget_spent :: "host \<Rightarrow> int \<Rightarrow> row option \<Rightarrow> bool" where
  "budget_spent h maxFailed updated =
     js_less_eq h (Num maxFailed)
       (case updated of Some r \<Rightarrow> coalesce (get_field r ''failedVerificationCount'') (Num 0) | None \<Rightarrow> Num 0)"

definition recordTwoFactorFailure ::
  "('s, 'q) ictx \<Rightarrow> ('s, 'q) two_factor_opts \<Rightarrow> clock \<Rightarrow> row \<Rightarrow> ('s, 'q, unit) iact"
where
  "recordTwoFactorFailure ctx opts clk r =
     (let cfg = resolveAccountLockoutConfig opts; A = ic_adapter ctx; i = get_field r ''id'' in
      if \<not> lc_enabled cfg then returnA ()
      else
        bindA (db (fail_op A i)) (\<lambda>updated.
          if budget_spent (ic_host ctx) (lc_maxFailedAttempts cfg) updated
          then bindA (db (lock_op A i (lc_maxFailedAttempts cfg)
                 (DateV (fst (clk 0)) (snd (clk 0) + lc_durationMs cfg)))) (\<lambda>_. returnA ())
          else returnA ()))"

definition resetTwoFactorFailures ::
  "('s, 'q) ictx \<Rightarrow> ('s, 'q) two_factor_opts \<Rightarrow> row \<Rightarrow> ('s, 'q, unit) iact"
where
  "resetTwoFactorFailures ctx opts r =
     (if \<not> lc_enabled (resolveAccountLockoutConfig opts) then returnA ()
      else bindA (db (reset_op (ic_adapter ctx) (get_field r ''id''))) (\<lambda>_. returnA ()))"

section \<open>One-time codes\<close>

definition storeOTP :: "otp_storage \<Rightarrow> two_factor_crypto \<Rightarrow> string \<Rightarrow> string res" where
  "storeOTP st cr otp =
     (case st of
        Otp_hashed \<Rightarrow> Inr (tc_keyHasher cr otp)
      | Otp_hash hash \<Rightarrow> hash otp
      | Otp_encrypt encrypt decrypt \<Rightarrow> encrypt otp
      | Otp_encrypted \<Rightarrow> tc_encrypt cr otp
      | Otp_plain \<Rightarrow> Inr otp)"

definition decryptOrHashForComparison ::
  "otp_storage \<Rightarrow> two_factor_crypto \<Rightarrow> string \<Rightarrow> string \<Rightarrow> (string \<times> string) res"
where
  "decryptOrHashForComparison st cr storedOtp userInput =
     (case st of
        Otp_hashed \<Rightarrow> Inr (storedOtp, tc_keyHasher cr userInput)
      | Otp_encrypted \<Rightarrow> bindR (tc_decrypt cr storedOtp) (\<lambda>d. Inr (d, userInput))
      | Otp_encrypt encrypt decrypt \<Rightarrow> bindR (decrypt storedOtp) (\<lambda>d. Inr (d, userInput))
      | Otp_hash hash \<Rightarrow> bindR (hash userInput) (\<lambda>i. Inr (storedOtp, i))
      | Otp_plain \<Rightarrow> Inr (storedOtp, userInput))"

text \<open>
  \<open>constantTimeEqual\<close> (\<open>crypto/buffer.ts\<close>) on the bytes of two texts: the lengths and the
  bytes are compared with \<open>^\<close> and collected with \<open>|=\<close>, on 32-bit integers; a missing byte is 0.
\<close>

definition byte_at :: "string \<Rightarrow> nat \<Rightarrow> 32 word" where
  "byte_at s i = (if i < length s then word_of_nat (of_char (s ! i)) else 0)"

definition constantTimeEqual :: "string \<Rightarrow> string \<Rightarrow> bool" where
  "constantTimeEqual a b \<longleftrightarrow>
     foldl (\<lambda>c i. c OR (byte_at a i XOR byte_at b i)) (word_of_nat (length a) XOR word_of_nat (length b))
       [0..<max (length a) (length b)] = 0"

definition otp_key :: "string \<Rightarrow> string" where
  "otp_key key = ''2fa-otp-'' @ key"

text \<open>The row of a code: its stored text, a colon and the number of wrong guesses.\<close>

definition otp_value :: "string \<Rightarrow> int \<Rightarrow> string" where
  "otp_value otp attempts = otp @ '':'' @ int_to_str attempts"

definition otp_data :: "string \<Rightarrow> string \<Rightarrow> int \<Rightarrow> val \<Rightarrow> row" where
  "otp_data key otp attempts expiresAt =
     [(''value'', Str (otp_value otp attempts)), (''identifier'', Str (otp_key key)), (''expiresAt'', expiresAt)]"

definition send2FaOTP ::
  "('s, 'q) ictx \<Rightarrow> ('s, 'q) two_factor_opts \<Rightarrow> two_factor_crypto \<Rightarrow> clock \<Rightarrow> ('s, 'q) two_factor_request \<Rightarrow>
     ('s, 'q, unit) iact"
where
  "send2FaOTP ctx opts cr clk rq =
     (case to_sendOTP opts of
        None \<Rightarrow> throwA (bad_code ''OTP_NOT_CONFIGURED'')
      | Some sendOTP \<Rightarrow>
          bindA (verifyTwoFactor ctx clk rq) (\<lambda>c.
          let code = tq_random rq; period = (if to_period opts = 0 then 3 else to_period opts) * 60 * 1000 in
          bindA (liftR (storeOTP (to_storeOTP opts) cr code)) (\<lambda>hashedCode.
          bindA (createVerificationValue ctx (\<lambda>i. clk (i + 3))
                   (otp_data (ch_key (ic_host ctx) c) hashedCode 0 (DateV (fst (clk 2)) (snd (clk 2) + period)))) (\<lambda>_.
            catchA (sendOTP (ch_user c) code) (\<lambda>_. returnA ())))))"

text \<open>\<open>const [otp, counter] = consumed.value?.split(":") ?? []\<close> and \<open>parseInt(counter, 10) || 0\<close>.\<close>

definition otp_parts :: "row \<Rightarrow> string \<times> int" where
  "otp_parts r =
     (let parts = split_on CHR '':'' (text_of (get_field r ''value'')) in
      (hd parts, case tl parts of [] \<Rightarrow> 0
         | counter # _ \<Rightarrow> (case js_parseInt counter of Some n \<Rightarrow> n | None \<Rightarrow> 0)))"

definition otp_allowed :: "('s, 'q) two_factor_opts \<Rightarrow> int" where
  "otp_allowed opts = (if to_allowedAttempts opts = 0 then 5 else to_allowedAttempts opts)"

text \<open>The account's row of a sign-in, after the lockout check.\<close>

definition find_two_factor :: "('s, 'q) ictx \<Rightarrow> row \<Rightarrow> ('s, 'q, row option) iact" where
  "find_two_factor ctx user =
     db (a_findOne (ic_adapter ctx) twoFactor_model [wh_eq ''userId'' (get_field user ''id'')])"

definition otp_account ::
  "('s, 'q) ictx \<Rightarrow> ('s, 'q) two_factor_opts \<Rightarrow> clock \<Rightarrow> challenge \<Rightarrow> ('s, 'q, row option) iact"
where
  "otp_account ctx opts clk c =
     (if isSignIn c then
        bindA (find_two_factor ctx (ch_user c)) (\<lambda>found.
          case found of
            None \<Rightarrow> returnA None
          | Some r \<Rightarrow> bindA (assertTwoFactorNotLocked ctx opts clk r) (\<lambda>_. returnA (Some r)))
      else returnA None)"

text \<open>The guess: the row is consumed, then compared if its budget is not spent.\<close>

record otp_guess =
  og_otp :: string
  og_attempts :: int
  og_expiresAt :: val
  og_right :: bool

definition guess_otp ::
  "('s, 'q) ictx \<Rightarrow> ('s, 'q) two_factor_opts \<Rightarrow> two_factor_crypto \<Rightarrow> clock \<Rightarrow> string \<Rightarrow> string \<Rightarrow>
     ('s, 'q, otp_guess) iact"
where
  "guess_otp ctx opts cr clk key code =
     bindA (consumeVerificationValue ctx clk (otp_key key)) (\<lambda>consumed.
       case consumed of
         None \<Rightarrow> throwA (bad_code ''OTP_HAS_EXPIRED'')
       | Some r \<Rightarrow>
           let (otp, attempts) = otp_parts r in
           if attempts \<ge> otp_allowed opts then throwA (bad_code ''TOO_MANY_ATTEMPTS_REQUEST_NEW_CODE'')
           else
             bindA (liftR (decryptOrHashForComparison (to_storeOTP opts) cr otp code)) (\<lambda>(storedValue, inputValue).
               returnA \<lparr>og_otp = otp, og_attempts = attempts, og_expiresAt = get_field r ''expiresAt'',
                 og_right = constantTimeEqual storedValue inputValue\<rparr>))"

section \<open>Verifying a one-time code\<close>

text \<open>
  The session a change of the user gives: a new one like the old, whose token is then
  revoked. A missing new session, or no old one, is a property read of \<open>null\<close>.
\<close>

definition renew_session ::
  "('s, 'q) ictx \<Rightarrow> clock \<Rightarrow> session_env \<Rightarrow> string \<Rightarrow> row option \<Rightarrow> ('s, 'q, row) iact"
where
  "renew_session ctx clk env userId old =
     bindA (createSession ctx clk env userId False (case old of Some s \<Rightarrow> s | None \<Rightarrow> []) False False) (\<lambda>created.
       case (created, old) of
         (Some s, Some s0) \<Rightarrow> bindA (deleteSession ctx (\<lambda>i. clk (i + 4)) (token_of s0)) (\<lambda>_. returnA s)
       | _ \<Rightarrow> throwA TypeError)"

definition set_enabled :: "('s, 'q) ictx \<Rightarrow> clock \<Rightarrow> string \<Rightarrow> bool \<Rightarrow> ('s, 'q, row option) iact" where
  "set_enabled ctx clk userId b = updateUser ctx clk userId [(''twoFactorEnabled'', BoolV b)]"

text \<open>The first verified code of a user turns two-factor on, and needs a session.\<close>

definition otp_enroll ::
  "('s, 'q) ictx \<Rightarrow> clock \<Rightarrow> session_env \<Rightarrow> challenge \<Rightarrow> ('s, 'q, two_factor_answer) iact"
where
  "otp_enroll ctx clk env c =
     (case ch_session c of
        None \<Rightarrow> throwA (bad_code ''FAILED_TO_CREATE_SESSION'')
      | Some s \<Rightarrow>
          let userId = text_of (get_field (ch_user c) ''id'') in
          bindA (set_enabled ctx clk userId True) (\<lambda>updatedUser.
          bindA (renew_session ctx (\<lambda>i. clk (i + 1)) env userId (Some s)) (\<lambda>newSession.
            returnA \<lparr>tfa_token = get_field newSession ''token'',
              tfa_user = map_option (parseUserOutput (ic_schema ctx)) updatedUser, tfa_trust = None\<rparr>)))"

text \<open>A wrong code within its budget: the row comes back with one guess more and its first expiry.\<close>

definition wrong_otp ::
  "('s, 'q) ictx \<Rightarrow> ('s, 'q) two_factor_opts \<Rightarrow> clock \<Rightarrow> string \<Rightarrow> row option \<Rightarrow> otp_guess \<Rightarrow>
     ('s, 'q, two_factor_answer) iact"
where
  "wrong_otp ctx opts clk key account g =
     bindA (createVerificationValue ctx clk (otp_data key (og_otp g) (og_attempts g + 1) (og_expiresAt g))) (\<lambda>_.
     bindA (case account of Some r \<Rightarrow> recordTwoFactorFailure ctx opts (\<lambda>i. clk (i + 3)) r | None \<Rightarrow> returnA ()) (\<lambda>_.
       throwA (unauthorized ''INVALID_CODE'')))"

definition right_otp ::
  "('s, 'q) ictx \<Rightarrow> ('s, 'q) two_factor_opts \<Rightarrow> two_factor_crypto \<Rightarrow> clock \<Rightarrow> ('s, 'q) two_factor_request \<Rightarrow>
     challenge \<Rightarrow> row option \<Rightarrow> ('s, 'q, two_factor_answer) iact"
where
  "right_otp ctx opts cr clk rq c account =
     bindA (case account of Some r \<Rightarrow> resetTwoFactorFailures ctx opts r | None \<Rightarrow> returnA ()) (\<lambda>_.
       if \<not> truthy (get_field (ch_user c) ''twoFactorEnabled'') then otp_enroll ctx clk (tq_env rq) c
       else valid ctx opts cr clk rq c)"

definition verifyOTP ::
  "('s, 'q) ictx \<Rightarrow> ('s, 'q) two_factor_opts \<Rightarrow> two_factor_crypto \<Rightarrow> clock \<Rightarrow> ('s, 'q) two_factor_request \<Rightarrow>
     ('s, 'q, two_factor_answer) iact"
where
  "verifyOTP ctx opts cr clk rq =
     bindA (verifyTwoFactor ctx clk rq) (\<lambda>c.
     bindA (otp_account ctx opts (\<lambda>i. clk (i + 2)) c) (\<lambda>account.
     bindA (guess_otp ctx opts cr (\<lambda>i. clk (i + 4)) (ch_key (ic_host ctx) c) (tq_code rq)) (\<lambda>g.
       if og_right g then right_otp ctx opts cr (\<lambda>i. clk (i + 6)) rq c account
       else wrong_otp ctx opts (\<lambda>i. clk (i + 6)) (ch_key (ic_host ctx) c) account g)))"

section \<open>The comparison in constant time\<close>

text \<open>It is equality, of texts shorter than 2^32.\<close>

lemma or_zero: "(x :: 'a::len word) OR y = 0 \<longleftrightarrow> x = 0 \<and> y = 0"
  by (auto simp: bit_eq_iff bit_or_iff)

lemma xor_zero: "(x :: 'a::len word) XOR y = 0 \<longleftrightarrow> x = y"
  by (auto simp: bit_eq_iff bit_xor_iff)

lemma foldl_or_zero: "foldl (\<lambda>c i. c OR f i) c xs = (0 :: 'a::len word) \<longleftrightarrow> c = 0 \<and> (\<forall>i \<in> set xs. f i = 0)"
  by (induction xs arbitrary: c) (auto simp: or_zero)

lemma of_nat_inj: "m < 2 ^ 32 \<Longrightarrow> n < 2 ^ 32 \<Longrightarrow> (word_of_nat m :: 32 word) = word_of_nat n \<longleftrightarrow> m = n"
  by (auto simp: word_of_nat_eq_iff take_bit_nat_eq_self)

lemma byte_at_inj: "i < length a \<Longrightarrow> i < length b \<Longrightarrow> byte_at a i = byte_at b i \<longleftrightarrow> a ! i = b ! i"
proof -
  have "(of_char c :: nat) < 2 ^ 32" for c :: char
    using nat_of_char_less_256[of c] by (rule less_trans) simp
  then show "i < length a \<Longrightarrow> i < length b \<Longrightarrow> byte_at a i = byte_at b i \<longleftrightarrow> a ! i = b ! i"
    by (simp add: byte_at_def of_nat_inj)
qed

lemma constant_time_is_equality:
  assumes "length a < 2 ^ 32" "length b < 2 ^ 32"
  shows "constantTimeEqual a b \<longleftrightarrow> a = b"
  using assms by (auto simp: constantTimeEqual_def foldl_or_zero xor_zero of_nat_inj byte_at_inj intro: nth_equalityI)

end
