(* ===== verification/TwoFactorRoutes.thy ===== *)
theory TwoFactorRoutes
  imports TwoFactor
begin

text \<open>
  Two-factor authentication, continued: authenticator codes (\<open>totp/index.ts\<close>), backup codes
  (\<open>backup-codes/index.ts\<close>), turning two-factor on and off, and the hook that holds a sign-in
  back until its second factor is verified (\<open>index.ts\<close>).
\<close>

section \<open>The account of a verification\<close>

text \<open>
  What the endpoints of authenticator and backup codes share: the account's row, the lockout
  check and the attempt budget of a sign-in. \<open>missing\<close> is the error without a row, and
  \<open>usable\<close> what the endpoint asks of it.
\<close>

definition open_attempt ::
  "('s, 'q) ictx \<Rightarrow> ('s, 'q) two_factor_opts \<Rightarrow> clock \<Rightarrow> string \<Rightarrow> (row \<Rightarrow> bool) \<Rightarrow> challenge \<Rightarrow>
     ('s, 'q, row \<times> int) iact"
where
  "open_attempt ctx opts clk missing usable c =
     bindA (find_two_factor ctx (ch_user c)) (\<lambda>found.
       case found of
         None \<Rightarrow> throwA (bad_code missing)
       | Some r \<Rightarrow>
           if isSignIn c \<and> \<not> usable r then throwA (bad_code missing)
           else
             bindA (if isSignIn c then assertTwoFactorNotLocked ctx opts clk r else returnA ()) (\<lambda>_.
             bindA (if isSignIn c
                    then beginAttempt ctx (\<lambda>i. clk (i + 2)) c DEFAULT_TWO_FACTOR_ALLOWED_ATTEMPTS
                    else returnA 0) (\<lambda>attempts.
               returnA (r, attempts))))"

text \<open>A server error before the code is checked gives the slot back.\<close>

definition check_or_restore ::
  "('s, 'q) ictx \<Rightarrow> clock \<Rightarrow> challenge \<Rightarrow> int \<Rightarrow> 'a res \<Rightarrow> ('s, 'q, 'a) iact"
where
  "check_or_restore ctx clk c attempts check =
     (case check of
        Inl e \<Rightarrow> bindA (rearm ctx clk c attempts) (\<lambda>_. throwA e)
      | Inr x \<Rightarrow> returnA x)"

definition failed_attempt ::
  "('s, 'q) ictx \<Rightarrow> ('s, 'q) two_factor_opts \<Rightarrow> clock \<Rightarrow> challenge \<Rightarrow> row \<Rightarrow> int \<Rightarrow> err \<Rightarrow> ('s, 'q, 'a) iact"
where
  "failed_attempt ctx opts clk c r attempts e =
     bindA (rearm ctx clk c (attempts + 1)) (\<lambda>_.
     bindA (if isSignIn c then recordTwoFactorFailure ctx opts (\<lambda>i. clk (i + 3)) r else returnA ()) (\<lambda>_.
       throwA e))"

definition passed_attempt ::
  "('s, 'q) ictx \<Rightarrow> ('s, 'q) two_factor_opts \<Rightarrow> challenge \<Rightarrow> row \<Rightarrow> ('s, 'q, unit) iact"
where
  "passed_attempt ctx opts c r = (if isSignIn c then resetTwoFactorFailures ctx opts r else returnA ())"

section \<open>Authenticator codes\<close>

definition check_totp :: "two_factor_crypto \<Rightarrow> row \<Rightarrow> string \<Rightarrow> bool res" where
  "check_totp cr r code =
     bindR (tc_decrypt cr (text_of (get_field r ''secret''))) (\<lambda>secret. tc_totp cr secret code)"

text \<open>An enrolment ends here: the user is switched on first, the row is marked verified last.\<close>

definition totp_enroll ::
  "('s, 'q) ictx \<Rightarrow> clock \<Rightarrow> session_env \<Rightarrow> challenge \<Rightarrow> row \<Rightarrow> ('s, 'q, unit) iact"
where
  "totp_enroll ctx clk env c r =
     (let userId = text_of (get_field (ch_user c) ''id'') in
      bindA (if \<not> truthy (get_field (ch_user c) ''twoFactorEnabled'')
             then bindA (set_enabled ctx clk userId True) (\<lambda>_.
                  bindA (renew_session ctx (\<lambda>i. clk (i + 1)) env userId (ch_session c)) (\<lambda>_. returnA ()))
             else returnA ()) (\<lambda>_.
      bindA (db (a_update (ic_adapter ctx) twoFactor_model [wh_eq ''id'' (get_field r ''id'')]
               [(''verified'', BoolV True)])) (\<lambda>_. returnA ())))"

definition verifyTOTP ::
  "('s, 'q) ictx \<Rightarrow> ('s, 'q) two_factor_opts \<Rightarrow> two_factor_crypto \<Rightarrow> clock \<Rightarrow> ('s, 'q) two_factor_request \<Rightarrow>
     ('s, 'q, two_factor_answer) iact"
where
  "verifyTOTP ctx opts cr clk rq =
     (if to_totpDisabled opts then throwA (bad_code ''TOTP_NOT_CONFIGURED'')
      else
        bindA (verifyTwoFactor ctx clk rq) (\<lambda>c.
        bindA (open_attempt ctx opts (\<lambda>i. clk (i + 2)) ''TOTP_NOT_ENABLED''
                 (\<lambda>r. get_field r ''verified'' \<noteq> BoolV False) c) (\<lambda>(r, attempts).
        bindA (check_or_restore ctx (\<lambda>i. clk (i + 8)) c attempts (check_totp cr r (tq_code rq))) (\<lambda>status.
          if \<not> status
          then failed_attempt ctx opts (\<lambda>i. clk (i + 8)) c r attempts (unauthorized ''INVALID_CODE'')
          else
            bindA (passed_attempt ctx opts c r) (\<lambda>_.
            bindA (if get_field r ''verified'' \<noteq> BoolV True
                   then totp_enroll ctx (\<lambda>i. clk (i + 8)) (tq_env rq) c r else returnA ()) (\<lambda>_.
              valid ctx opts cr (\<lambda>i. clk (i + 16)) rq c))))))"

definition generateTOTP :: "('s, 'q) two_factor_opts \<Rightarrow> (string \<Rightarrow> string) \<Rightarrow> string \<Rightarrow> string res" where
  "generateTOTP opts totp secret =
     (if to_totpDisabled opts then Inl (bad_code ''TOTP_NOT_CONFIGURED'') else Inr (totp secret))"

section \<open>Passwords\<close>

text \<open>\<open>utils/password.ts\<close>; hashing a password nobody has, to take as long, is left out.\<close>

definition stored_password :: "row option \<Rightarrow> string" where
  "stored_password account = (case account of Some a \<Rightarrow> text_of (get_field a ''password'') | None \<Rightarrow> [])"

definition validatePassword ::
  "('s, 'q) ictx \<Rightarrow> two_factor_crypto \<Rightarrow> string \<Rightarrow> string \<Rightarrow> ('s, 'q, bool) iact"
where
  "validatePassword ctx cr userId password =
     bindA (findCredentialAccount ctx userId) (\<lambda>credentialAccount.
       let currentPassword = stored_password credentialAccount in
       if currentPassword = [] then returnA False
       else liftR (tc_passwordMatches cr currentPassword password))"

definition INVALID_PASSWORD :: err where
  "INVALID_PASSWORD = bad_code ''INVALID_PASSWORD''"

definition checkPassword ::
  "('s, 'q) ictx \<Rightarrow> two_factor_crypto \<Rightarrow> string \<Rightarrow> string \<Rightarrow> ('s, 'q, unit) iact"
where
  "checkPassword ctx cr userId password =
     bindA (findCredentialAccount ctx userId) (\<lambda>credentialAccount.
       let currentPassword = stored_password credentialAccount in
       if currentPassword = [] \<or> password = [] then throwA INVALID_PASSWORD
       else
         bindA (liftR (tc_passwordMatches cr currentPassword password)) (\<lambda>matches.
           if matches then returnA () else throwA INVALID_PASSWORD))"

definition shouldRequirePassword :: "('s, 'q) ictx \<Rightarrow> string \<Rightarrow> bool \<Rightarrow> ('s, 'q, bool) iact" where
  "shouldRequirePassword ctx userId allowPasswordless =
     (if \<not> allowPasswordless then returnA True
      else bindA (findCredentialAccount ctx userId) (\<lambda>a. returnA (stored_password a \<noteq> [])))"

text \<open>The session of a managing request, authoritative and fresh where no password can be asked.\<close>

definition enforceFreshPasswordlessSession ::
  "('s, 'q) two_factor_request \<Rightarrow> row \<times> row \<Rightarrow> bool \<Rightarrow> bool \<Rightarrow> ('s, 'q, row \<times> row) iact"
where
  "enforceFreshPasswordlessSession rq current requirePassword requireFresh =
     (if \<not> requirePassword \<and> requireFresh then tq_freshSession rq else returnA current)"

text \<open>The start of a managing request: whether a password is needed, the session and its user.\<close>

definition manage_session ::
  "('s, 'q) ictx \<Rightarrow> ('s, 'q) two_factor_request \<Rightarrow> bool \<Rightarrow> bool \<Rightarrow> ('s, 'q, bool \<times> row \<times> row) iact"
where
  "manage_session ctx rq allowPasswordless requireFresh =
     (case tq_session rq of
        None \<Rightarrow> throwA (unauthorized ''UNAUTHORIZED'')
      | Some (s, u) \<Rightarrow>
          bindA (shouldRequirePassword ctx (text_of (get_field u ''id'')) allowPasswordless) (\<lambda>requirePassword.
          bindA (enforceFreshPasswordlessSession rq (s, u) requirePassword requireFresh) (\<lambda>current.
            returnA (requirePassword, current))))"

text \<open>\<open>validatePassword\<close> guards the switches, \<open>checkPassword\<close> the endpoints that show secrets.\<close>

definition password_validated ::
  "('s, 'q) ictx \<Rightarrow> two_factor_crypto \<Rightarrow> bool \<Rightarrow> row \<Rightarrow> string option \<Rightarrow> ('s, 'q, unit) iact"
where
  "password_validated ctx cr requirePassword user password =
     (if \<not> requirePassword then returnA ()
      else case password of
          None \<Rightarrow> throwA INVALID_PASSWORD
        | Some pw \<Rightarrow>
            if pw = [] then throwA INVALID_PASSWORD
            else bindA (validatePassword ctx cr (text_of (get_field user ''id'')) pw) (\<lambda>isPasswordValid.
              if isPasswordValid then returnA () else throwA INVALID_PASSWORD))"

definition password_checked ::
  "('s, 'q) ictx \<Rightarrow> two_factor_crypto \<Rightarrow> bool \<Rightarrow> row \<Rightarrow> string option \<Rightarrow> ('s, 'q, unit) iact"
where
  "password_checked ctx cr requirePassword user password =
     (if \<not> requirePassword then returnA ()
      else case password of
          None \<Rightarrow> throwA INVALID_PASSWORD
        | Some pw \<Rightarrow>
            if pw = [] then throwA INVALID_PASSWORD
            else checkPassword ctx cr (text_of (get_field user ''id'')) pw)"

text \<open>The enrolment link, for who has a session and, where there is one, the password.\<close>

definition getTOTPURI ::
  "('s, 'q) ictx \<Rightarrow> ('s, 'q) two_factor_opts \<Rightarrow> two_factor_crypto \<Rightarrow> ('s, 'q) two_factor_request \<Rightarrow>
     ('s, 'q, string) iact"
where
  "getTOTPURI ctx opts cr rq =
     (if to_totpDisabled opts then throwA (bad_code ''TOTP_NOT_CONFIGURED'')
      else
        bindA (manage_session ctx rq (to_allowPasswordless opts) (to_requireFresh opts)) (\<lambda>(requirePassword, _, user).
        bindA (password_checked ctx cr requirePassword user (tq_password rq)) (\<lambda>_.
        bindA (find_two_factor ctx user) (\<lambda>found.
          case found of
            None \<Rightarrow> throwA (bad_code ''TOTP_NOT_ENABLED'')
          | Some r \<Rightarrow>
              bindA (liftR (tc_decrypt cr (text_of (get_field r ''secret'')))) (\<lambda>secret. returnA (tc_uri cr secret))))))"

section \<open>Backup codes\<close>

text \<open>\<open>JSON.stringify\<close> of a list of texts.\<close>

definition json_char :: "char \<Rightarrow> string" where
  "json_char c =
     (let n = of_char c :: nat in
      if c = CHR 0x22 then [CHR 0x5C, CHR 0x22]
      else if c = CHR 0x5C then [CHR 0x5C, CHR 0x5C]
      else if n = 8 then [CHR 0x5C, CHR ''b''] else if n = 9 then [CHR 0x5C, CHR ''t'']
      else if n = 10 then [CHR 0x5C, CHR ''n''] else if n = 12 then [CHR 0x5C, CHR ''f'']
      else if n = 13 then [CHR 0x5C, CHR ''r'']
      else if n < 32 then [CHR 0x5C] @ ''u'' @ padStart 4 CHR ''0'' (digits_of 16 n)
      else [c])"

definition json_codes :: "string list \<Rightarrow> string" where
  "json_codes codes =
     ''['' @ join_with '','' (map (\<lambda>s. [CHR 0x22] @ concat (map json_char s) @ [CHR 0x22]) codes) @ '']''"

definition encodeBackupCodes :: "backup_storage \<Rightarrow> two_factor_crypto \<Rightarrow> string list \<Rightarrow> string res" where
  "encodeBackupCodes st cr codes =
     (case st of
        Backup_encrypted \<Rightarrow> tc_encrypt cr (json_codes codes)
      | Backup_encrypt encrypt decrypt \<Rightarrow> encrypt (json_codes codes)
      | Backup_plain \<Rightarrow> Inr (json_codes codes))"

definition getBackupCodes :: "backup_storage \<Rightarrow> two_factor_crypto \<Rightarrow> string \<Rightarrow> string list option res" where
  "getBackupCodes st cr backupCodes =
     (case st of
        Backup_encrypted \<Rightarrow> bindR (tc_decrypt cr backupCodes) (\<lambda>d. Inr (tc_parseCodes cr d))
      | Backup_encrypt encrypt decrypt \<Rightarrow> bindR (decrypt backupCodes) (\<lambda>d. Inr (tc_parseCodes cr d))
      | Backup_plain \<Rightarrow> Inr (tc_parseCodes cr backupCodes))"

text \<open>The random texts are given; a code shows a dash after five characters.\<close>

definition generateBackupCodesFn :: "string list \<Rightarrow> string list" where
  "generateBackupCodesFn random = map (\<lambda>code. take 5 code @ ''-'' @ drop 5 code) random"

definition generateBackupCodes ::
  "backup_storage \<Rightarrow> string list option \<Rightarrow> two_factor_crypto \<Rightarrow> string list \<Rightarrow> (string list \<times> string) res"
where
  "generateBackupCodes st custom cr random =
     (let backupCodes = (case custom of Some codes \<Rightarrow> codes | None \<Rightarrow> generateBackupCodesFn random) in
      bindR (encodeBackupCodes st cr backupCodes) (\<lambda>encoded. Inr (backupCodes, encoded)))"

definition verifyBackupCode ::
  "backup_storage \<Rightarrow> two_factor_crypto \<Rightarrow> string \<Rightarrow> string \<Rightarrow> (bool \<times> string list option) res"
where
  "verifyBackupCode st cr backupCodes code =
     bindR (getBackupCodes st cr backupCodes) (\<lambda>codes.
       Inr (case codes of
          None \<Rightarrow> (False, None)
        | Some cs \<Rightarrow> (code \<in> set cs, Some (filter (\<lambda>c. c \<noteq> code) cs))))"

text \<open>The write that uses a code up: the codes must still be the ones that were read.\<close>

definition burn_op :: "'s adapter \<Rightarrow> row \<Rightarrow> string \<Rightarrow> ('s, row option) act" where
  "burn_op A r updatedBackupCodes =
     a_incrementOne A twoFactor_model
       [wh_eq ''id'' (get_field r ''id''), wh_eq ''backupCodes'' (get_field r ''backupCodes'')] []
       (Some [(''backupCodes'', Str updatedBackupCodes)])"

definition CONFLICT :: err where
  "CONFLICT = APIError ''CONFLICT'' ''Failed to verify backup code. Please try again.''"

definition use_backup_code ::
  "('s, 'q) ictx \<Rightarrow> ('s, 'q) two_factor_opts \<Rightarrow> two_factor_crypto \<Rightarrow> row \<Rightarrow> string list \<Rightarrow> ('s, 'q, unit) iact"
where
  "use_backup_code ctx opts cr r remaining =
     bindA (liftR (encodeBackupCodes (to_storeBackupCodes opts) cr remaining)) (\<lambda>encoded.
     bindA (db (burn_op (ic_adapter ctx) r encoded)) (\<lambda>updated.
       if updated = None then throwA CONFLICT else returnA ()))"

definition backup_answer ::
  "('s, 'q) ictx \<Rightarrow> ('s, 'q) two_factor_opts \<Rightarrow> two_factor_crypto \<Rightarrow> clock \<Rightarrow> ('s, 'q) two_factor_request \<Rightarrow>
     challenge \<Rightarrow> ('s, 'q, two_factor_answer) iact"
where
  "backup_answer ctx opts cr clk rq c =
     (if \<not> tq_disableSession rq then valid ctx opts cr clk rq c
      else returnA \<lparr>tfa_token = (case ch_session c of Some s \<Rightarrow> get_field s ''token'' | None \<Rightarrow> Undef),
        tfa_user = Some (parseUserOutput (ic_schema ctx) (ch_user c)), tfa_trust = None\<rparr>)"

definition verifyBackupCodeEndpoint ::
  "('s, 'q) ictx \<Rightarrow> ('s, 'q) two_factor_opts \<Rightarrow> two_factor_crypto \<Rightarrow> clock \<Rightarrow> ('s, 'q) two_factor_request \<Rightarrow>
     ('s, 'q, two_factor_answer) iact"
where
  "verifyBackupCodeEndpoint ctx opts cr clk rq =
     bindA (verifyTwoFactor ctx clk rq) (\<lambda>c.
     bindA (open_attempt ctx opts (\<lambda>i. clk (i + 2)) ''BACKUP_CODES_NOT_ENABLED'' (\<lambda>_. True) c) (\<lambda>(r, attempts).
     bindA (check_or_restore ctx (\<lambda>i. clk (i + 8)) c attempts
              (verifyBackupCode (to_storeBackupCodes opts) cr (text_of (get_field r ''backupCodes'')) (tq_code rq)))
       (\<lambda>(status, remaining).
         if \<not> status \<or> remaining = None
         then failed_attempt ctx opts (\<lambda>i. clk (i + 8)) c r attempts (unauthorized ''INVALID_BACKUP_CODE'')
         else
           bindA (use_backup_code ctx opts cr r (case remaining of Some cs \<Rightarrow> cs | None \<Rightarrow> [])) (\<lambda>_.
           bindA (passed_attempt ctx opts c r) (\<lambda>_.
             backup_answer ctx opts cr (\<lambda>i. clk (i + 8)) rq c)))))"

text \<open>New codes replace the old ones, for who has a session and, where there is one, the password.\<close>

definition generateBackupCodesEndpoint ::
  "('s, 'q) ictx \<Rightarrow> ('s, 'q) two_factor_opts \<Rightarrow> two_factor_crypto \<Rightarrow> string list option \<Rightarrow> string list \<Rightarrow>
     ('s, 'q) two_factor_request \<Rightarrow> ('s, 'q, string list) iact"
where
  "generateBackupCodesEndpoint ctx opts cr custom random rq =
     bindA (manage_session ctx rq (to_allowPasswordless opts) (to_requireFresh opts)) (\<lambda>(requirePassword, _, user).
       if \<not> truthy (get_field user ''twoFactorEnabled'') then throwA (bad_code ''TWO_FACTOR_NOT_ENABLED'')
       else
         bindA (password_checked ctx cr requirePassword user (tq_password rq)) (\<lambda>_.
         bindA (find_two_factor ctx user) (\<lambda>found.
           case found of
             None \<Rightarrow> throwA (bad_code ''TWO_FACTOR_NOT_ENABLED'')
           | Some r \<Rightarrow>
               bindA (liftR (generateBackupCodes (to_storeBackupCodes opts) custom cr random)) (\<lambda>(codes, encoded).
               bindA (db (a_update (ic_adapter ctx) twoFactor_model [wh_eq ''id'' (get_field r ''id'')]
                        [(''backupCodes'', Str encoded)])) (\<lambda>_. returnA codes)))))"

definition viewBackupCodes ::
  "('s, 'q) ictx \<Rightarrow> ('s, 'q) two_factor_opts \<Rightarrow> two_factor_crypto \<Rightarrow> string \<Rightarrow> ('s, 'q, string list) iact"
where
  "viewBackupCodes ctx opts cr userId =
     bindA (db (a_findOne (ic_adapter ctx) twoFactor_model [wh_eq ''userId'' (Str userId)])) (\<lambda>found.
       case found of
         None \<Rightarrow> throwA (bad_code ''BACKUP_CODES_NOT_ENABLED'')
       | Some r \<Rightarrow>
           bindA (liftR (getBackupCodes (to_storeBackupCodes opts) cr (text_of (get_field r ''backupCodes''))))
             (\<lambda>codes. case codes of
                None \<Rightarrow> throwA (bad_code ''INVALID_BACKUP_CODE'')
              | Some cs \<Rightarrow> returnA cs))"

section \<open>Turning two-factor on and off\<close>

datatype enable_method = Enable_otp | Enable_totp

datatype enable_answer = Otp_enabled | Totp_pending string "string list"

definition switch_user ::
  "('s, 'q) ictx \<Rightarrow> clock \<Rightarrow> session_env \<Rightarrow> row \<Rightarrow> string \<Rightarrow> ('s, 'q, row) iact"
where
  "switch_user ctx clk env s userId =
     bindA (set_enabled ctx clk userId True) (\<lambda>updatedUser.
       case updatedUser of
         None \<Rightarrow> throwA TypeError
       | Some u \<Rightarrow> renew_session ctx (\<lambda>i. clk (i + 1)) env (text_of (get_field u ''id'')) (Some s))"

text \<open>The row of an enrolment: a new one, or the unverified one of an abandoned enrolment rewritten.\<close>

definition store_totp ::
  "('s, 'q) ictx \<Rightarrow> ('s, 'q) two_factor_opts \<Rightarrow> row option \<Rightarrow> val \<Rightarrow> string \<Rightarrow> string \<Rightarrow> ('s, 'q, unit) iact"
where
  "store_totp ctx opts existing userId encryptedSecret encryptedCodes =
     (let totpData = [(''secret'', Str encryptedSecret), (''backupCodes'', Str encryptedCodes),
        (''verified'', BoolV (to_skipVerification opts))] in
      case existing of
        Some r \<Rightarrow>
          bindA (db (a_update (ic_adapter ctx) twoFactor_model [wh_eq ''id'' (get_field r ''id'')] totpData))
            (\<lambda>_. returnA ())
      | None \<Rightarrow>
          bindA (db (a_create (ic_adapter ctx) twoFactor_model (totpData @ [(''userId'', userId)])))
            (\<lambda>_. returnA ()))"

definition enable_totp ::
  "('s, 'q) ictx \<Rightarrow> ('s, 'q) two_factor_opts \<Rightarrow> two_factor_crypto \<Rightarrow> clock \<Rightarrow> string list option \<Rightarrow> string list \<Rightarrow>
     ('s, 'q) two_factor_request \<Rightarrow> row \<Rightarrow> row \<Rightarrow> ('s, 'q, enable_answer) iact"
where
  "enable_totp ctx opts cr clk custom random rq s user =
     bindA (find_two_factor ctx user) (\<lambda>existing.
       if (case existing of Some r \<Rightarrow> get_field r ''verified'' \<noteq> BoolV False | None \<Rightarrow> False)
       then throwA (bad_code ''TOTP_ALREADY_ENABLED'')
       else
         bindA (liftR (generateBackupCodes (to_storeBackupCodes opts) custom cr random)) (\<lambda>(codes, encoded).
         bindA (liftR (tc_encrypt cr (tq_random rq))) (\<lambda>encryptedSecret.
         bindA (if to_skipVerification opts
                then bindA (switch_user ctx clk (tq_env rq) s (text_of (get_field user ''id''))) (\<lambda>_. returnA ())
                else returnA ()) (\<lambda>_.
         bindA (store_totp ctx opts existing (get_field user ''id'') encryptedSecret encoded) (\<lambda>_.
           returnA (Totp_pending (tc_uri cr (tq_random rq)) codes))))))"

definition enableTwoFactor ::
  "('s, 'q) ictx \<Rightarrow> ('s, 'q) two_factor_opts \<Rightarrow> two_factor_crypto \<Rightarrow> clock \<Rightarrow> string list option \<Rightarrow> string list \<Rightarrow>
     enable_method \<Rightarrow> ('s, 'q) two_factor_request \<Rightarrow> ('s, 'q, enable_answer) iact"
where
  "enableTwoFactor ctx opts cr clk custom random method rq =
     bindA (manage_session ctx rq (to_allowPasswordless opts) (to_requireFresh opts)) (\<lambda>(requirePassword, s, user).
     bindA (password_validated ctx cr requirePassword user (tq_password rq)) (\<lambda>_.
       if method = Enable_otp \<and> to_sendOTP opts = None then throwA (bad_code ''OTP_NOT_CONFIGURED'')
       else if method = Enable_totp \<and> to_totpDisabled opts then throwA (bad_code ''TOTP_NOT_CONFIGURED'')
       else if method = Enable_otp
       then bindA (switch_user ctx clk (tq_env rq) s (text_of (get_field user ''id''))) (\<lambda>_. returnA Otp_enabled)
       else enable_totp ctx opts cr clk custom random rq s user))"

text \<open>
  The device's trust goes with the second factor. The signed cookie is split at its
  exclamation marks; the second part names the verification value.
\<close>

definition trust_parts :: "string option \<Rightarrow> string \<times> string" where
  "trust_parts cookie =
     (case cookie of
        None \<Rightarrow> ([], [])
      | Some v \<Rightarrow> (case split_on CHR ''!'' v of token # identifier # _ \<Rightarrow> (token, identifier) | _ \<Rightarrow> (v, [])))"

definition forget_trusted_device :: "('s, 'q) ictx \<Rightarrow> string option \<Rightarrow> ('s, 'q, unit) iact" where
  "forget_trusted_device ctx cookie =
     (let trustId = snd (trust_parts cookie) in
      if trustId \<noteq> [] then deleteVerificationByIdentifier ctx trustId else returnA ())"

definition disableTwoFactor ::
  "('s, 'q) ictx \<Rightarrow> ('s, 'q) two_factor_opts \<Rightarrow> two_factor_crypto \<Rightarrow> clock \<Rightarrow> ('s, 'q) two_factor_request \<Rightarrow>
     ('s, 'q, unit) iact"
where
  "disableTwoFactor ctx opts cr clk rq =
     bindA (manage_session ctx rq (to_allowPasswordless opts) (to_requireFresh opts)) (\<lambda>(requirePassword, s, user).
     bindA (password_validated ctx cr requirePassword user (tq_password rq)) (\<lambda>_.
     bindA (set_enabled ctx clk (text_of (get_field user ''id'')) False) (\<lambda>updatedUser.
       case updatedUser of
         None \<Rightarrow> throwA TypeError
       | Some u \<Rightarrow>
           bindA (db (a_delete (ic_adapter ctx) twoFactor_model [wh_eq ''userId'' (get_field u ''id'')])) (\<lambda>_.
           bindA (renew_session ctx (\<lambda>i. clk (i + 1)) (tq_env rq) (text_of (get_field u ''id'')) (Some s)) (\<lambda>_.
             forget_trusted_device ctx (tq_trustCookie rq))))))"

section \<open>The sign-in hook\<close>

definition DEFAULT_TWO_FACTOR_SIGN_IN_ENDPOINTS :: "string list" where
  "DEFAULT_TWO_FACTOR_SIGN_IN_ENDPOINTS = [''/sign-in/email'', ''/sign-in/username'', ''/sign-in/phone-number'']"

text \<open>\<open>/^\/sign-in\/[a-z0-9._~-]+(?:\/[a-z0-9._~-]+)*$/iu\<close>, on the segments between the slashes.\<close>

definition path_char :: "char \<Rightarrow> bool" where
  "path_char c \<longleftrightarrow> (let n = of_char (lower_char c) :: nat in 97 \<le> n \<and> n \<le> 122) \<or> is_digit c \<or>
     c \<in> {CHR ''.'', CHR ''_'', CHR ''~'', CHR ''-''}"

definition path_segment :: "string \<Rightarrow> bool" where
  "path_segment s \<longleftrightarrow> s \<noteq> [] \<and> list_all path_char s"

definition STATIC_SIGN_IN_ENDPOINT_PATTERN :: "string \<Rightarrow> bool" where
  "STATIC_SIGN_IN_ENDPOINT_PATTERN endpoint =
     (case split_on CHR ''/'' endpoint of
        first # second # s # segments \<Rightarrow>
          first = [] \<and> toLowerCase second = ''sign-in'' \<and> list_all path_segment (s # segments)
      | _ \<Rightarrow> False)"

fun getTwoFactorSignInEndpoints :: "string list \<Rightarrow> string list res" where
  "getTwoFactorSignInEndpoints [] = Inr DEFAULT_TWO_FACTOR_SIGN_IN_ENDPOINTS"
| "getTwoFactorSignInEndpoints (endpoint # rest) =
     (let segments = drop 2 (split_on CHR ''/'' endpoint) in
      if length endpoint > 256 \<or> \<not> STATIC_SIGN_IN_ENDPOINT_PATTERN endpoint \<or>
         list_ex (\<lambda>s. s = ''.'' \<or> s = ''..'') segments
      then Inl TypeError
      else bindR (getTwoFactorSignInEndpoints rest) (\<lambda>set. Inr (List.insert endpoint set)))"

text \<open>What becomes of a sign-in: nothing, a device still trusted, or a challenge with its methods.\<close>

datatype hook_answer =
    Passed
  | Trusted string
  | Challenged string "string list"

definition trusted_record ::
  "('s, 'q) ictx \<Rightarrow> two_factor_crypto \<Rightarrow> clock \<Rightarrow> string option \<Rightarrow> row \<Rightarrow> ('s, 'q, bool) iact"
where
  "trusted_record ctx cr clk cookie user =
     (let (token, trustIdentifier) = trust_parts cookie in
      if token = [] \<or> trustIdentifier = [] \<or>
         token \<noteq> tc_hmac cr (js_String (ic_host ctx) (get_field user ''id'') @ ''!'' @ trustIdentifier)
      then returnA False
      else
        bindA (findVerificationValue ctx clk trustIdentifier) (\<lambda>found.
          returnA (case found of
              None \<Rightarrow> False
            | Some r \<Rightarrow> strict_eq (get_field r ''value'') (get_field user ''id'') \<and>
                js_less (ic_host ctx) (date_at clk 2) (get_field r ''expiresAt''))))"

definition challenge_sign_in ::
  "('s, 'q) ictx \<Rightarrow> ('s, 'q) two_factor_opts \<Rightarrow> clock \<Rightarrow> string \<Rightarrow> row \<Rightarrow> row \<Rightarrow> ('s, 'q, hook_answer) iact"
where
  "challenge_sign_in ctx opts clk random s user =
     (let identifier = ''2fa-'' @ random;
          maxAge = (case to_cookieMaxAge opts of Some m \<Rightarrow> m | None \<Rightarrow> 10 * 60);
          expiresAt = DateV (fst (clk 3)) (snd (clk 3) + maxAge * 1000)
      in bindA (deleteSession ctx clk (token_of s)) (\<lambda>_.
         bindA (createVerificationValue ctx (\<lambda>i. clk (i + 4))
                  [(''value'', get_field user ''id''), (''identifier'', Str identifier), (''expiresAt'', expiresAt)]) (\<lambda>_.
         bindA (createVerificationValue ctx (\<lambda>i. clk (i + 7)) (counter_data identifier expiresAt 0)) (\<lambda>_.
         bindA (if to_totpDisabled opts then returnA None else find_two_factor ctx user) (\<lambda>found.
           returnA (Challenged identifier
             ((case found of Some r \<Rightarrow> if get_field r ''verified'' \<noteq> BoolV False then [''totp''] else [] | None \<Rightarrow> []) @
              (if to_sendOTP opts \<noteq> None then [''otp''] else []))))))))"

definition sign_in_hook ::
  "('s, 'q) ictx \<Rightarrow> ('s, 'q) two_factor_opts \<Rightarrow> two_factor_crypto \<Rightarrow> clock \<Rightarrow> ('s, 'q) two_factor_request \<Rightarrow>
     (row \<times> row) option \<Rightarrow> ('s, 'q, hook_answer) iact"
where
  "sign_in_hook ctx opts cr clk rq newSession =
     (case newSession of
        None \<Rightarrow> returnA Passed
      | Some (s, user) \<Rightarrow>
          if \<not> truthy (get_field user ''twoFactorEnabled'') then returnA Passed
          else
            bindA (trusted_record ctx cr clk (tq_trustCookie rq) user) (\<lambda>trusted.
              if trusted
              then
                bindA (deleteVerificationByIdentifier ctx (snd (trust_parts (tq_trustCookie rq)))) (\<lambda>_.
                bindA (trust_device ctx opts cr (\<lambda>i. clk (i + 3)) (get_field user ''id'') (tq_random rq)) (\<lambda>cookie.
                  returnA (Trusted cookie)))
              else challenge_sign_in ctx opts (\<lambda>i. clk (i + 3)) (tq_random rq) s user))"

end
