(* ===== verification/TwoFactorAttempts.thy ===== *)
theory TwoFactorAttempts
  imports TwoFactorRoutes VerificationClaims
begin

text \<open>
  The attempt budgets of two-factor authentication: the guesses of a one-time code and the
  attempts of a challenge are counted in a verification value that a request takes, and puts
  back with one more. Here the values are kept in a secondary storage only.
\<close>

section \<open>Taking and putting a value\<close>

text \<open>Values in the secondary storage \<open>S\<close> only, no plugin hooks, identifiers as they are.\<close>

definition cached_ctx ::
  "('s, 'q) ictx \<Rightarrow> ('q, cached) sec_storage \<Rightarrow> ('q \<Rightarrow> string \<Rightarrow> cached option) \<Rightarrow>
     ('q \<Rightarrow> string \<Rightarrow> int option) \<Rightarrow> bool"
where
  "cached_ctx ctx S view life \<longleftrightarrow> ic_storage ctx = Some S \<and> secondary_storage S view life \<and>
     \<not> ic_verificationInDatabase ctx \<and> ic_hooks ctx = (\<lambda>_. no_hooks) \<and> ic_storeIdentifier ctx = None"

lemma cached_ctxD:
  assumes "cached_ctx ctx S view life"
  shows "ic_storage ctx = Some S" "secondary_storage S view life" "\<not> ic_verificationInDatabase ctx"
    "v_hooks ctx = no_hooks" "stored_identifier ctx i = i" "\<not> not_plain ctx i" "identifiersToTry ctx i = [i]"
  using assms by (simp_all add: cached_ctx_def v_hooks_def stored_identifier_def storage_option_def not_plain_def
      identifiersToTry_def)

text \<open>What a request that takes the value of an identifier is given, and what it leaves.\<close>

definition taken :: "('s, 'q) ictx \<Rightarrow> clock \<Rightarrow> cached option \<Rightarrow> row option" where
  "taken ctx clk c = expiry_gate ctx (date_at clk 1) (hydrateCachedVerification ctx (fst (clk 0)) c)"

lemma take_run:
  assumes ctx: "cached_ctx ctx S view life"
  obtains q where "consumeVerificationValue ctx clk i s =
      (Inr (taken ctx clk (view (rq_sec s) (cache_key i))), with_sec q s)"
    "view q = (view (rq_sec s))(cache_key i := None)"
proof -
  note c = cached_ctxD[OF ctx]
  obtain q where q: "ss_getAndDelete S (cache_key i) (rq_sec s) = (Inr (view (rq_sec s) (cache_key i)), q)"
    "view q = (view (rq_sec s))(cache_key i := None)"
    by (rule secondary_storage.getAndDelete_run[OF c(2)])
  show thesis
    by (rule that[of q])
       (use c q in \<open>auto simp: consumeVerificationValue_def taken_def bindA_def sec_run delete_all_keys_def Let_def
          split: option.splits\<close>)
qed

lemma taken_value:
  assumes "taken ctx clk c = Some r"
  obtains v where "c = Some (CVerification v)"
    "get_field r ''value'' = reviveDates (ic_parseDate ctx) (fst (clk 0)) (get_field v ''value'')"
proof (cases c)
  case None
  with assms show thesis by (simp add: taken_def hydrateCachedVerification_def expiry_gate_def)
next
  case (Some x)
  with assms show thesis
    by (cases x) (auto simp: taken_def hydrateCachedVerification_def expiry_gate_def row_simps
        split: option.splits if_splits intro!: that)
qed

text \<open>A value is put under its key or, without time to live, not at all.\<close>

lemma put_value_run:
  assumes ctx: "cached_ctx ctx S view life" and run: "createVerificationValue ctx clk data s = (x, t)"
    and i: "get_field data ''identifier'' = Str i"
  shows "rq_db t = rq_db s"
    and "view (rq_sec t) = view (rq_sec s) \<or>
      view (rq_sec t) = (view (rq_sec s))(cache_key i \<mapsto> CVerification (stringify (verification_row clk i data)))"
proof -
  note c = cached_ctxD[OF ctx]
  let ?row = "verification_row clk i data"
  have id: "identifier_of data = i" using i by (simp add: identifier_of_def)
  have run: "mirror_verification ctx S (now_ms clk 2) i ?row s = (x, t)"
    using run c by (simp add: createVerificationValue_def create_no_hooks id)
  have "rq_db t = rq_db s \<and> (view (rq_sec t) = view (rq_sec s) \<or>
      view (rq_sec t) = (view (rq_sec s))(cache_key i \<mapsto> CVerification (stringify ?row)))"
  proof (cases "date_ms (get_field ?row ''expiresAt'')")
    case (Inl e)
    with run show ?thesis by (simp add: mirror_verification_def bindA_def)
  next
    case (Inr e)
    obtain q where q: "ss_set S (cache_key i) (CVerification (stringify ?row)) (Some (getTTLSeconds e (now_ms clk 2)))
        (rq_sec s) = (Inr (), q)" "view q = (view (rq_sec s))(cache_key i \<mapsto> CVerification (stringify ?row))"
      by (rule secondary_storage.set_run[OF c(2)])
    with Inr run show ?thesis
      by (auto simp: mirror_verification_def bindA_def Let_def sec_run split: if_splits)
  qed
  then show "rq_db t = rq_db s" and "view (rq_sec t) = view (rq_sec s) \<or>
      view (rq_sec t) = (view (rq_sec s))(cache_key i \<mapsto> CVerification (stringify ?row))" by simp_all
qed

section \<open>Counters\<close>

text \<open>The counter of a challenge, named by its cookie, and of a one-time code with its stored text.\<close>

datatype counter =
    Attempt_counter string
  | Otp_counter string string

fun counter_id :: "counter \<Rightarrow> string" where
  "counter_id (Attempt_counter cookie) = attempts_key cookie"
| "counter_id (Otp_counter key otp) = otp_key key"

fun counter_text :: "counter \<Rightarrow> int \<Rightarrow> string" where
  "counter_text (Attempt_counter cookie) n = int_to_str n"
| "counter_text (Otp_counter key otp) n = otp_value otp n"

fun counter_row :: "counter \<Rightarrow> int \<Rightarrow> val \<Rightarrow> row" where
  "counter_row (Attempt_counter cookie) n e = counter_data cookie e n"
| "counter_row (Otp_counter key otp) n e = otp_data key otp n e"

text \<open>What the code reads off the row it has taken.\<close>

fun counter_read :: "host \<Rightarrow> int \<Rightarrow> counter \<Rightarrow> row \<Rightarrow> int" where
  "counter_read h allowed (Attempt_counter cookie) r = attempts_used h allowed r"
| "counter_read h allowed (Otp_counter key otp) r = snd (otp_parts r)"

text \<open>The stored text of a code is cut at its first colon.\<close>

fun clean_counter :: "counter \<Rightarrow> bool" where
  "clean_counter (Attempt_counter cookie) = True"
| "clean_counter (Otp_counter key otp) = (CHR '':'' \<notin> set otp)"

lemma counter_row_fields [simp]:
  "get_field (counter_row k n e) ''identifier'' = Str (counter_id k)"
  "get_field (counter_row k n e) ''value'' = Str (counter_text k n)"
  by (cases k; simp add: counter_data_def otp_data_def)+

lemma otp_parts_value:
  assumes "get_field r ''value'' = Str (otp_value otp n)" "CHR '':'' \<notin> set otp" "0 \<le> n"
  shows "otp_parts r = (otp, n)"
proof -
  have "CHR '':'' \<notin> set (int_to_str n)"
    using int_to_str_digits[OF assms(3)] by (auto simp: list_all_iff is_digit_def Let_def)
  then have "split_on CHR '':'' (otp_value otp n) = [otp, int_to_str n]"
    using assms(2) by (simp add: otp_value_def split_on_append split_on_no_sep)
  with assms show ?thesis by (simp add: otp_parts_def text_of_def Let_def js_parseInt_int_to_str)
qed

lemma counter_read_text:
  assumes "get_field r ''value'' = Str (counter_text k n)" "clean_counter k" "0 \<le> n"
  shows "counter_read h allowed k r = n"
  using assms by (cases k) (simp_all add: attempts_used_def str_to_number_int_to_str otp_parts_value)

lemma ends_in_digit:
  assumes "0 \<le> n"
  shows "counter_text k n \<noteq> []" "is_digit (last (counter_text k n))"
  using int_to_str_digits[OF assms] by (cases k; simp add: otp_value_def list_all_iff)+

lemma iso_ends_in_Z: "iso8601 s \<Longrightarrow> last s = CHR ''Z''"
proof -
  assume iso: "iso8601 s"
  then have d: "drop 19 s \<noteq> []" by (auto simp: iso8601_def Let_def)
  then have "last s = last (drop 19 s)" by (simp add: last_drop)
  moreover have "last (drop 19 s) = CHR ''Z''" using iso by (auto simp: iso8601_def Let_def)
  ultimately show ?thesis by simp
qed

lemma counter_not_iso: "0 \<le> n \<Longrightarrow> \<not> iso8601 (counter_text k n)"
  using ends_in_digit[of n k] iso_ends_in_Z[of "counter_text k n"] by (auto simp: is_digit_def Let_def)

text \<open>A storage entry that holds the counter at \<open>n\<close>.\<close>

definition holds_counter :: "counter \<Rightarrow> int \<Rightarrow> cached option \<Rightarrow> bool" where
  "holds_counter k n c \<longleftrightarrow> (\<exists>v. c = Some (CVerification v) \<and> get_field v ''value'' = Str (counter_text k n))"

lemma holds_put:
  "holds_counter k n (Some (CVerification (stringify (verification_row clk (counter_id k) (counter_row k n e)))))"
proof -
  have d: "distinct (map fst (counter_row k n e))" "''createdAt'' \<notin> fst ` set (counter_row k n e)"
    by (cases k; auto simp: counter_data_def otp_data_def)+
  note f = verification_row_fields[OF d]
  show ?thesis by (simp add: holds_counter_def get_stringify f)
qed

lemma taken_counter:
  assumes "taken ctx clk c = Some r" "holds_counter k n c" "0 \<le> n"
  shows "get_field r ''value'' = Str (counter_text k n)"
proof -
  from assms(2) obtain v where v: "c = Some (CVerification v)" "get_field v ''value'' = Str (counter_text k n)"
    by (auto simp: holds_counter_def)
  from taken_value[OF assms(1)] v(1) have
    "get_field r ''value'' = reviveDates (ic_parseDate ctx) (fst (clk 0)) (get_field v ''value'')" by force
  with v(2) counter_not_iso[OF assms(3), of k] show ?thesis by simp
qed

section \<open>Concurrent requests on one counter\<close>

definition stored_counter :: "('q \<Rightarrow> string \<Rightarrow> cached option) \<Rightarrow> counter \<Rightarrow> ('s, 'q) stores req \<Rightarrow> cached option" where
  "stored_counter view k s = view (rq_sec s) (cache_key (counter_id k))"

text \<open>
  \<open>ar_held\<close> are the requests that hold the counter: the number they read, and whether they
  have compared their code since. \<open>ar_guesses\<close> counts the comparisons.
\<close>

record ('s, 'q) attempt_run =
  ar_state :: "('s, 'q) stores req"
  ar_held :: "(int \<times> bool) list"
  ar_guesses :: int

inductive attempt_step ::
  "('s, 'q) ictx \<Rightarrow> ('q \<Rightarrow> string \<Rightarrow> cached option) \<Rightarrow> int \<Rightarrow> counter \<Rightarrow>
     ('s, 'q) attempt_run \<Rightarrow> ('s, 'q) attempt_run \<Rightarrow> bool"
  for ctx view allowed k
where
  took: "consumeVerificationValue ctx clk (counter_id k) (ar_state r) = (Inr (Some c), t) \<Longrightarrow>
     counter_read (ic_host ctx) allowed k c = n \<Longrightarrow> n < allowed \<Longrightarrow>
     attempt_step ctx view allowed k r (r\<lparr>ar_state := t, ar_held := (n, False) # ar_held r\<rparr>)"
| missed: "consumeVerificationValue ctx clk (counter_id k) (ar_state r) = (x, t) \<Longrightarrow>
     attempt_step ctx view allowed k r (r\<lparr>ar_state := t\<rparr>)"
| compared: "ar_held r = xs @ (n, False) # ys \<Longrightarrow>
     attempt_step ctx view allowed k r (r\<lparr>ar_held := xs @ (n, True) # ys, ar_guesses := ar_guesses r + 1\<rparr>)"
| finished: "ar_held r = xs @ h # ys \<Longrightarrow>
     attempt_step ctx view allowed k r (r\<lparr>ar_held := xs @ ys\<rparr>)"
| rearmed: "ar_held r = xs @ (n, b) # ys \<Longrightarrow>
     createVerificationValue ctx clk (counter_row k (n + of_bool b) e) (ar_state r) = (x, t) \<Longrightarrow>
     attempt_step ctx view allowed k r (r\<lparr>ar_state := t, ar_held := xs @ ys\<rparr>)"
| elsewhere: "stored_counter view k t \<in> {None, stored_counter view k (ar_state r)} \<Longrightarrow>
     attempt_step ctx view allowed k r (r\<lparr>ar_state := t\<rparr>)"

abbreviation attempt_steps ::
  "('s, 'q) ictx \<Rightarrow> ('q \<Rightarrow> string \<Rightarrow> cached option) \<Rightarrow> int \<Rightarrow> counter \<Rightarrow>
     ('s, 'q) attempt_run \<Rightarrow> ('s, 'q) attempt_run \<Rightarrow> bool"
where
  "attempt_steps ctx view allowed k \<equiv> (attempt_step ctx view allowed k)\<^sup>*\<^sup>*"

text \<open>
  Either the counter is stored and says how many codes were compared, or one request holds
  it and knows, or it is lost.
\<close>

definition counter_life :: "counter \<Rightarrow> int \<Rightarrow> cached option \<Rightarrow> (int \<times> bool) list \<Rightarrow> int \<Rightarrow> bool" where
  "counter_life k allowed here held guesses \<longleftrightarrow> 0 \<le> guesses \<and> guesses \<le> allowed \<and>
     (held = [] \<and> (here = None \<or> holds_counter k guesses here) \<or>
      (\<exists>n b. held = [(n, b)] \<and> here = None \<and> n < allowed \<and> guesses = n + of_bool b))"

definition attempt_life ::
  "('q \<Rightarrow> string \<Rightarrow> cached option) \<Rightarrow> int \<Rightarrow> counter \<Rightarrow> ('s, 'q) attempt_run \<Rightarrow> bool"
where
  "attempt_life view allowed k r \<longleftrightarrow>
     counter_life k allowed (stored_counter view k (ar_state r)) (ar_held r) (ar_guesses r)"

lemma counter_life_gone: "counter_life k allowed here held g \<Longrightarrow> counter_life k allowed None held g"
  unfolding counter_life_def by blast

lemma counter_life_took:
  assumes "counter_life k allowed here held g" and "holds_counter k g here \<Longrightarrow> n = g" and "here \<noteq> None" and "n < allowed"
  shows "counter_life k allowed None ((n, False) # held) g"
  using assms by (auto simp: counter_life_def)

lemma single_split: "xs @ h # ys = [p] \<longleftrightarrow> xs = [] \<and> ys = [] \<and> h = p"
  by (cases xs) auto

lemma counter_life_compared:
  assumes "counter_life k allowed here (xs @ (n, False) # ys) g"
  shows "counter_life k allowed here (xs @ (n, True) # ys) (g + 1)"
proof -
  from assms have "xs = []" "ys = []" "here = None" "n < allowed" "g = n" "0 \<le> g"
    unfolding counter_life_def by (auto simp only: single_split) simp_all
  then show ?thesis unfolding counter_life_def by (simp add: exI[of _ True])
qed

lemma counter_life_finished:
  assumes "counter_life k allowed here (xs @ h # ys) g"
  shows "counter_life k allowed here (xs @ ys) g"
  using assms by (auto simp: counter_life_def single_split)

lemma counter_life_rearmed:
  assumes "counter_life k allowed here (xs @ (n, b) # ys) g" and "here' = here \<or> holds_counter k (n + of_bool b) here'"
  shows "counter_life k allowed here' (xs @ ys) g"
proof -
  from assms(1) have "xs = []" "ys = []" "here = None" "g = n + of_bool b" "0 \<le> g" "g \<le> allowed"
    by (auto simp: counter_life_def single_split)
  with assms(2) show ?thesis unfolding counter_life_def by blast
qed

text \<open>Taking the counter, whoever takes it.\<close>

lemma take_counter_run:
  assumes ctx: "cached_ctx ctx S view life" and run: "consumeVerificationValue ctx clk (counter_id k) s = (x, t)"
  shows "x = Inr (taken ctx clk (stored_counter view k s))" "stored_counter view k t = None" "rq_db t = rq_db s"
proof -
  obtain q where "consumeVerificationValue ctx clk (counter_id k) s =
      (Inr (taken ctx clk (view (rq_sec s) (cache_key (counter_id k)))), with_sec q s)"
    "view q = (view (rq_sec s))(cache_key (counter_id k) := None)"
    by (rule take_run[OF ctx])
  with run show "x = Inr (taken ctx clk (stored_counter view k s))" "stored_counter view k t = None"
    "rq_db t = rq_db s" by (auto simp: stored_counter_def)
qed

lemma counter_life_read:
  assumes life: "counter_life k allowed here held g" and c: "taken ctx clk here = Some c" and k: "clean_counter k"
  shows "held = []" "get_field c ''value'' = Str (counter_text k g)" "counter_read h allowed k c = g"
proof -
  from taken_value[OF c] have "here \<noteq> None" by auto
  with life have "holds_counter k g here" "0 \<le> g" "held = []" by (auto simp: counter_life_def)
  with taken_counter[OF c] k show "held = []" "get_field c ''value'' = Str (counter_text k g)"
    "counter_read h allowed k c = g" by (simp_all add: counter_read_text)
qed

lemma rearm_run:
  assumes ctx: "cached_ctx ctx S view life" and run: "createVerificationValue ctx clk (counter_row k n e) s = (x, t)"
  shows "stored_counter view k t = stored_counter view k s \<or> holds_counter k n (stored_counter view k t)"
  using put_value_run(2)[OF ctx run counter_row_fields(1)] holds_put[of k n clk e] by (auto simp: stored_counter_def)

lemma attempt_step_life:
  assumes ctx: "cached_ctx ctx S view life" and k: "clean_counter k"
    and step: "attempt_step ctx view allowed k r r'" and life: "attempt_life view allowed k r"
  shows "attempt_life view allowed k r'"
  using step
proof cases
  case (took clk c t n)
  note take = take_counter_run[OF ctx took(2)]
  from take(1) have c: "taken ctx clk (stored_counter view k (ar_state r)) = Some c" by simp
  note read = counter_life_read[OF life[unfolded attempt_life_def] c k]
  have "stored_counter view k (ar_state r) \<noteq> None" using taken_value[OF c] by auto
  with counter_life_took[OF life[unfolded attempt_life_def], of n] read(3) took take(2) show ?thesis
    by (simp add: attempt_life_def)
next
  case (missed clk x t)
  with counter_life_gone[OF life[unfolded attempt_life_def]] take_counter_run(2)[OF ctx missed(2)] show ?thesis
    by (simp add: attempt_life_def)
next
  case (compared xs n ys)
  with life counter_life_compared show ?thesis by (simp add: attempt_life_def)
next
  case (finished xs h ys)
  with life counter_life_finished show ?thesis by (simp add: attempt_life_def)
next
  case (rearmed xs n b ys clk e x t)
  have "counter_life k allowed (stored_counter view k t) (xs @ ys) (ar_guesses r)"
    by (rule counter_life_rearmed[OF _ rearm_run[OF ctx rearmed(3)]])
       (use life rearmed(2) in \<open>simp add: attempt_life_def\<close>)
  with rearmed(1) show ?thesis by (simp add: attempt_life_def)
next
  case (elsewhere t)
  with life counter_life_gone show ?thesis by (auto simp: attempt_life_def)
qed

lemma attempt_steps_life:
  assumes "attempt_steps ctx view allowed k r r'" and "cached_ctx ctx S view life" "clean_counter k"
    and "attempt_life view allowed k r"
  shows "attempt_life view allowed k r'"
  using assms by (induction rule: rtranclp_induct) (auto intro: attempt_step_life)

section \<open>Actions that leave the storage alone\<close>

abbreviation same_sec :: "'q \<Rightarrow> ('s, 'q) stores req \<Rightarrow> bool" where
  "same_sec q s \<equiv> rq_sec s = q"

lemma db_same_sec [intro]: "keeps (same_sec q) (db m)"
  by (rule keepsI) (simp add: db_def onStore_app on_db_app)

lemma get_same_sec:
  assumes "secondary_storage S view life"
  shows "keeps (same_sec q) (sec (ss_get S k))"
  using secondary_storage.get_view[OF assms] by (intro keepsI) (simp add: sec_def onStore_app on_sec_app)

lemma find_value_same_sec:
  assumes "cached_ctx ctx S view life"
  shows "keeps (same_sec q) (findVerificationValue ctx clk i)"
proof -
  note c = cached_ctxD[OF assms]
  have "keeps (same_sec q) (cached_verification ctx S ref key)" for ref key
    unfolding cached_verification_def by (intro keeps_intros get_same_sec[OF c(2)])
  then show ?thesis
    unfolding findVerificationValue_def c(1) option.case using c(3) by (intro keeps_intros) simp_all
qed

lemma find_user_same_sec: "keeps (same_sec q) (findUserById ctx i)"
  unfolding findUserById_def by (intro keeps_intros db_same_sec)

lemma find_two_factor_same_sec: "keeps (same_sec q) (find_two_factor ctx u)"
  unfolding find_two_factor_def by (rule db_same_sec)

lemma verifyTwoFactor_same_sec:
  assumes "cached_ctx ctx S view life"
  shows "keeps (same_sec q) (verifyTwoFactor ctx clk rq)"
  unfolding verifyTwoFactor_def by (intro keeps_intros find_value_same_sec[OF assms] find_user_same_sec)

lemma not_locked_same_sec: "keeps (same_sec q) (assertTwoFactorNotLocked ctx opts clk r)"
  unfolding assertTwoFactorNotLocked_def by (intro keeps_intros db_same_sec)

lemma failure_same_sec: "keeps (same_sec q) (recordTwoFactorFailure ctx opts clk r)"
  unfolding recordTwoFactorFailure_def Let_def by (intro keeps_intros db_same_sec)

lemma otp_account_same_sec: "keeps (same_sec q) (otp_account ctx opts clk c)"
  unfolding otp_account_def by (intro keeps_intros find_two_factor_same_sec not_locked_same_sec)

text \<open>Such an action is a step elsewhere.\<close>

lemma elsewhere_run:
  assumes "keeps (same_sec (rq_sec (ar_state r))) m" and "m (ar_state r) = (x, t)"
  shows "attempt_step ctx view allowed k r (r\<lparr>ar_state := t\<rparr>)"
proof (rule attempt_step.elsewhere)
  have "rq_sec t = rq_sec (ar_state r)" using keepsD[OF assms(1) refl assms(2)] .
  then show "stored_counter view k t \<in> {None, stored_counter view k (ar_state r)}"
    by (simp add: stored_counter_def)
qed

lemma verified_key:
  assumes "verifyTwoFactor ctx clk rq s = (Inr c, t)"
  shows "(\<exists>a u. tq_session rq = Some (a, u) \<and> c = Reverify a u) \<or>
    (\<exists>cookie e u d. tq_session rq = None \<and> tq_cookie rq = Some cookie \<and> c = SignIn cookie e u d)"
  using assms unfolding verifyTwoFactor_def
  by (auto simp: bindA_Inr_iff split: option.splits if_splits)

text \<open>The key of a request's one-time code.\<close>

definition request_key :: "host \<Rightarrow> ('s, 'q) two_factor_request \<Rightarrow> string" where
  "request_key h rq =
     (case tq_session rq of
        Some (a, u) \<Rightarrow> ch_key h (Reverify a u)
      | None \<Rightarrow> (case tq_cookie rq of Some cookie \<Rightarrow> cookie | None \<Rightarrow> []))"

lemma verified_request_key: "verifyTwoFactor ctx clk rq s = (Inr c, t) \<Longrightarrow> ch_key h c = request_key h rq"
  using verified_key[of ctx clk rq s c t] by (auto simp: request_key_def)

section \<open>A guess at a one-time code\<close>

lemma attempt_steps_two: "attempt_step ctx view allowed k a b \<Longrightarrow> attempt_step ctx view allowed k b c \<Longrightarrow>
    attempt_steps ctx view allowed k a c"
  by (meson converse_rtranclp_into_rtranclp r_into_rtranclp)

lemma guess_steps:
  assumes ctx: "cached_ctx ctx S view life" and k: "CHR '':'' \<notin> set otp"
    and life: "attempt_life view (otp_allowed opts) (Otp_counter key otp) r"
    and run: "guess_otp ctx opts cr clk key code (ar_state r) = (x, t)"
  obtains (no) e where "x = Inl e"
      "attempt_steps ctx view (otp_allowed opts) (Otp_counter key otp) r (r\<lparr>ar_state := t\<rparr>)"
  | (guessed) g a b where "x = Inr g" "og_otp g = otp" "ar_held r = []"
      "attempt_steps ctx view (otp_allowed opts) (Otp_counter key otp) r
         (r\<lparr>ar_state := t, ar_held := [(og_attempts g, True)], ar_guesses := ar_guesses r + 1\<rparr>)"
      "decryptOrHashForComparison (to_storeOTP opts) cr otp code = Inr (a, b)" "og_right g = constantTimeEqual a b"
proof -
  let ?k = "Otp_counter key otp" and ?steps = "attempt_steps ctx view (otp_allowed opts) (Otp_counter key otp)"
  obtain y u where take: "consumeVerificationValue ctx clk (counter_id ?k) (ar_state r) = (y, u)" by force
  have y: "y = Inr (taken ctx clk (stored_counter view ?k (ar_state r)))" using take_counter_run(1)[OF ctx take] .
  have miss: "?steps r (r\<lparr>ar_state := u\<rparr>)" using attempt_step.missed[OF take] by (rule r_into_rtranclp)
  show thesis
  proof (cases "taken ctx clk (stored_counter view ?k (ar_state r))")
    case None
    with run take y miss show thesis by (intro no) (auto simp: guess_otp_def bindA_def)
  next
    case (Some c)
    note read = counter_life_read[OF life[unfolded attempt_life_def] Some]
    have parts: "otp_parts c = (otp, ar_guesses r)" and held: "ar_held r = []"
      using read k life otp_parts_value[of c otp "ar_guesses r"]
      by (auto simp: attempt_life_def counter_life_def)
    show thesis
    proof (cases "ar_guesses r \<ge> otp_allowed opts")
      case True
      with run take y Some parts miss show thesis by (intro no) (auto simp: guess_otp_def bindA_def)
    next
      case False
      have took: "attempt_step ctx view (otp_allowed opts) ?k r
          (r\<lparr>ar_state := u, ar_held := (ar_guesses r, False) # ar_held r\<rparr>)"
        by (rule attempt_step.took) (use take y Some parts False in auto)
      show thesis
      proof (cases "decryptOrHashForComparison (to_storeOTP opts) cr otp code")
        case (Inl e)
        have "attempt_step ctx view (otp_allowed opts) ?k (r\<lparr>ar_state := u, ar_held := (ar_guesses r, False) # ar_held r\<rparr>)
            (r\<lparr>ar_state := u\<rparr>)"
          using attempt_step.finished[of "r\<lparr>ar_state := u, ar_held := (ar_guesses r, False) # ar_held r\<rparr>" "[]"] by simp
        with took have "?steps r (r\<lparr>ar_state := u\<rparr>)" by (rule attempt_steps_two)
        with Inl run take y Some parts False show thesis by (intro no) (auto simp: guess_otp_def bindA_def)
      next
        case (Inr ab)
        obtain a b where ab: "ab = (a, b)" by force
        have "attempt_step ctx view (otp_allowed opts) ?k (r\<lparr>ar_state := u, ar_held := [(ar_guesses r, False)]\<rparr>)
            (r\<lparr>ar_state := u, ar_held := [(ar_guesses r, True)], ar_guesses := ar_guesses r + 1\<rparr>)"
          using attempt_step.compared[of "r\<lparr>ar_state := u, ar_held := [(ar_guesses r, False)]\<rparr>" "[]" "ar_guesses r" "[]"]
          by simp
        with took held have "?steps r
            (r\<lparr>ar_state := u, ar_held := [(ar_guesses r, True)], ar_guesses := ar_guesses r + 1\<rparr>)"
          using attempt_steps_two by fastforce
        with Inr ab held run take y Some parts False show thesis
          by (intro guessed[of "\<lparr>og_otp = otp, og_attempts = ar_guesses r, og_expiresAt = get_field c ''expiresAt'',
                og_right = constantTimeEqual a b\<rparr>" a b]) (auto simp: guess_otp_def bindA_def)
      qed
    qed
  qed
qed

text \<open>A wrong guess puts the counter back with one guess more.\<close>

lemma rearm_steps:
  assumes run: "createVerificationValue ctx clk (counter_row k (n + of_bool b) e) s = (x, t)"
    and r: "ar_state r = s" "ar_held r = [(n, b)]"
  shows "attempt_steps ctx view allowed k r (r\<lparr>ar_state := t, ar_held := []\<rparr>)"
  using attempt_step.rearmed[of r "[]" n b "[]" ctx clk k e x t view allowed] run r by auto

lemma keeps_state: "keeps (same_sec (rq_sec s)) m \<Longrightarrow> m s = (x, t) \<Longrightarrow>
    attempt_steps ctx view allowed k (r\<lparr>ar_state := s\<rparr>) (r\<lparr>ar_state := t\<rparr>)"
  using elsewhere_run[of "r\<lparr>ar_state := s\<rparr>" m x t ctx view allowed k] by auto

lemma keeps_state': "keeps (same_sec (rq_sec (ar_state r))) m \<Longrightarrow> m (ar_state r) = (x, t) \<Longrightarrow>
    attempt_steps ctx view allowed k r (r\<lparr>ar_state := t\<rparr>)"
  using elsewhere_run[of r m x t ctx view allowed k] by auto

lemma held_then_state: "r\<lparr>ar_held := h, ar_state := s\<rparr> = r\<lparr>ar_state := s, ar_held := h\<rparr>"
  by simp

lemma wrong_otp_steps:
  assumes run: "wrong_otp ctx opts clk key account g (ar_state r) = (x, t)"
    and held: "ar_held r = [(og_attempts g, True)]"
  shows "isl x \<and> attempt_steps ctx view allowed (Otp_counter key (og_otp g)) r (r\<lparr>ar_state := t, ar_held := []\<rparr>)"
  using run unfolding wrong_otp_def
proof (cases rule: bindA_cases)
  case (err e)
  then show ?thesis using rearm_steps[OF _ refl held] by simp
next
  case (ok y u)
  let ?m = "case account of Some r \<Rightarrow> recordTwoFactorFailure ctx opts (\<lambda>i. clk (i + 3)) r | None \<Rightarrow> returnA ()"
  have keep: "keeps (same_sec (rq_sec u)) ?m" by (intro keeps_intros failure_same_sec)
  obtain z v where m: "?m u = (z, v)" by force
  with ok(2) have "t = v" "isl x" by (cases z; auto simp: bindA_def)+
  moreover have "attempt_steps ctx view allowed (Otp_counter key (og_otp g)) r (r\<lparr>ar_state := u, ar_held := []\<rparr>)"
    using rearm_steps[OF _ refl held] ok(1) by simp
  moreover have "attempt_steps ctx view allowed (Otp_counter key (og_otp g)) (r\<lparr>ar_state := u, ar_held := []\<rparr>)
      (r\<lparr>ar_state := v, ar_held := []\<rparr>)"
    using keeps_state'[of "r\<lparr>ar_state := u, ar_held := []\<rparr>", OF _ _, of ?m z v] keep m by (simp add: held_then_state)
  ultimately show ?thesis by auto
qed

lemma life_elsewhere:
  assumes "attempt_life view allowed k r" and "keeps (same_sec (rq_sec (ar_state r))) m" and "m (ar_state r) = (x, t)"
  shows "attempt_life view allowed k (r\<lparr>ar_state := t\<rparr>)"
  using keepsD[OF assms(2) refl assms(3)] assms(1) by (simp add: attempt_life_def stored_counter_def)

text \<open>Whether a run got as far as a comparison: one that ended without an error.\<close>

definition compared_in :: "('s, 'a) act \<Rightarrow> 's \<Rightarrow> int" where
  "compared_in m s = (if isl (fst (m s)) then 0 else 1)"

lemma compared_in_bind: "m s = (Inr x, t) \<Longrightarrow> compared_in (bindA m f) s = compared_in (f x) t"
  by (simp add: compared_in_def bindA_def)

lemma compared_in_err: "m s = (Inl e, t) \<Longrightarrow> compared_in (bindA m f) s = 0"
  by (simp add: compared_in_def bindA_def)

lemma guess_turn_steps:
  assumes ctx: "cached_ctx ctx S view life" and k: "CHR '':'' \<notin> set otp"
    and life: "attempt_life view (otp_allowed opts) (Otp_counter key otp) r"
    and wrong: "\<And>a b. decryptOrHashForComparison (to_storeOTP opts) cr otp code = Inr (a, b) \<Longrightarrow> \<not> constantTimeEqual a b"
    and run: "bindA (guess_otp ctx opts cr clk key code) (\<lambda>g. if og_right g then good g
       else wrong_otp ctx opts clk' key account g) (ar_state r) = (x, t)"
  shows "isl x \<and> attempt_steps ctx view (otp_allowed opts) (Otp_counter key otp) r
      (r\<lparr>ar_state := t, ar_guesses := ar_guesses r + compared_in (guess_otp ctx opts cr clk key code) (ar_state r)\<rparr>)"
proof -
  let ?steps = "attempt_steps ctx view (otp_allowed opts) (Otp_counter key otp)"
  obtain y u where g: "guess_otp ctx opts cr clk key code (ar_state r) = (y, u)" by force
  from ctx k life g show ?thesis
  proof (cases rule: guess_steps)
    case (no e)
    with g run have "isl x" "t = u" by (auto simp: bindA_def)
    with no g show ?thesis by (simp add: compared_in_def)
  next
    case (guessed g' a b)
    let ?r = "r\<lparr>ar_state := u, ar_held := [(og_attempts g', True)], ar_guesses := ar_guesses r + 1\<rparr>"
    from guessed(5,6) wrong have "\<not> og_right g'" by simp
    with g guessed(1) run have "wrong_otp ctx opts clk' key account g' (ar_state ?r) = (x, t)"
      by (simp add: bindA_def)
    from wrong_otp_steps[OF this] guessed(2) have
      "isl x" "?steps ?r (?r\<lparr>ar_state := t, ar_held := []\<rparr>)" by simp_all
    moreover have "?r\<lparr>ar_state := t, ar_held := []\<rparr> = r\<lparr>ar_state := t, ar_guesses := ar_guesses r + 1\<rparr>"
      using guessed(3) by simp
    ultimately show ?thesis using guessed(1,4) g by (simp add: compared_in_def)
  qed
qed

section \<open>An attempt at a challenge\<close>

lemma cookie_not_counter: "attempts_key cookie \<noteq> cookie"
proof
  assume "attempts_key cookie = cookie"
  then have "length (attempts_key cookie) = length cookie" by simp
  then show False by (simp add: attempts_key_def)
qed

lemma cancel_elsewhere:
  assumes ctx: "cached_ctx ctx S view life" and run: "cancel_challenge ctx clk cookie s = (x, t)"
  shows "stored_counter view (Attempt_counter cookie) t = stored_counter view (Attempt_counter cookie) s"
proof -
  obtain q where "consumeVerificationValue ctx clk cookie s =
      (Inr (taken ctx clk (view (rq_sec s) (cache_key cookie))), with_sec q s)"
    "view q = (view (rq_sec s))(cache_key cookie := None)" by (rule take_run[OF ctx])
  with run cookie_not_counter[of cookie] show ?thesis
    by (auto simp: cancel_challenge_def catchA_def bindA_def stored_counter_def cache_key_def)
qed

text \<open>Beginning an attempt takes the counter, or ends without it.\<close>

lemma begin_steps:
  assumes ctx: "cached_ctx ctx S view life" and life: "attempt_life view allowed (Attempt_counter cookie) r"
    and run: "beginAttempt ctx clk (SignIn cookie e u d) allowed (ar_state r) = (x, t)"
  obtains (no) err where "x = Inl err"
      "attempt_steps ctx view allowed (Attempt_counter cookie) r (r\<lparr>ar_state := t\<rparr>)"
  | (begun) n where "x = Inr n" "ar_held r = []"
      "attempt_steps ctx view allowed (Attempt_counter cookie) r (r\<lparr>ar_state := t, ar_held := [(n, False)]\<rparr>)"
proof -
  let ?k = "Attempt_counter cookie"
  obtain y v where take: "consumeVerificationValue ctx clk (counter_id ?k) (ar_state r) = (y, v)" by force
  have y: "y = Inr (taken ctx clk (stored_counter view ?k (ar_state r)))" using take_counter_run(1)[OF ctx take] .
  have tc: "take_counter ctx clk cookie (ar_state r) = (y, v)"
    using take y by (simp add: take_counter_def catchA_def)
  have miss: "attempt_step ctx view allowed ?k r (r\<lparr>ar_state := v\<rparr>)" using attempt_step.missed[OF take] .
  show thesis
  proof (cases "taken ctx clk (stored_counter view ?k (ar_state r))")
    case None
    with run tc y miss show thesis by (intro no) (auto simp: beginAttempt_def bindA_def)
  next
    case (Some c)
    note read = counter_life_read[OF life[unfolded attempt_life_def] Some]
    have tc': "take_counter ctx clk cookie (ar_state r) = (Inr (Some c), v)" using tc y Some by simp
    have used: "attempts_used (ic_host ctx) allowed c = ar_guesses r" and held: "ar_held r = []"
      using read(3)[of "ic_host ctx"] read(1) by simp_all
    show thesis
    proof (cases "ar_guesses r \<ge> allowed")
      case True
      obtain z w where cancel: "cancel_challenge ctx (\<lambda>i. clk (i + 2)) cookie v = (z, w)" by force
      from cancel_elsewhere[OF ctx cancel] have "attempt_step ctx view allowed ?k (r\<lparr>ar_state := v\<rparr>) (r\<lparr>ar_state := w\<rparr>)"
        using attempt_step.elsewhere[where r = "r\<lparr>ar_state := v\<rparr>" and t = w and view = view and k = ?k] by simp
      with miss have "attempt_steps ctx view allowed ?k r (r\<lparr>ar_state := w\<rparr>)" by (rule attempt_steps_two)
      moreover have "t = w" "isl x"
        using run tc' used True cancel by (cases z; auto simp: beginAttempt_def bindA_def)+
      ultimately show thesis using no by (cases x) auto
    next
      case False
      have "attempt_step ctx view allowed ?k r (r\<lparr>ar_state := v, ar_held := (ar_guesses r, False) # ar_held r\<rparr>)"
        by (rule attempt_step.took) (use take y Some used False in auto)
      then have "attempt_steps ctx view allowed ?k r (r\<lparr>ar_state := v, ar_held := [(ar_guesses r, False)]\<rparr>)"
        unfolding held by (rule r_into_rtranclp)
      moreover have "x = Inr (ar_guesses r)" "t = v"
        using run tc' used False by (auto simp: beginAttempt_def bindA_def)
      ultimately show thesis using begun[of "ar_guesses r"] held by simp
    qed
  qed
qed

lemma rearm_challenge_steps:
  assumes run: "rearm ctx clk (SignIn cookie e u d) (n + of_bool b) (ar_state r) = (x, t)"
    and held: "ar_held r = [(n, b)]"
  shows "attempt_steps ctx view allowed (Attempt_counter cookie) r (r\<lparr>ar_state := t, ar_held := []\<rparr>)"
proof -
  obtain y v where "createVerificationValue ctx clk (counter_row (Attempt_counter cookie) (n + of_bool b) e)
      (ar_state r) = (y, v)" by force
  moreover from this run have "v = t"
    by (cases y) (auto simp: rearm_def catchA_def bindA_def)
  ultimately show ?thesis using rearm_steps[OF _ refl held] by simp
qed

lemma open_attempt_steps:
  assumes ctx: "cached_ctx ctx S view life"
    and life: "attempt_life view DEFAULT_TWO_FACTOR_ALLOWED_ATTEMPTS (Attempt_counter cookie) r"
    and run: "open_attempt ctx opts clk missing usable (SignIn cookie e u d) (ar_state r) = (x, t)"
  obtains (stop) err where "x = Inl err"
      "attempt_steps ctx view DEFAULT_TWO_FACTOR_ALLOWED_ATTEMPTS (Attempt_counter cookie) r (r\<lparr>ar_state := t\<rparr>)"
  | (opened) acc n where "x = Inr (acc, n)" "ar_held r = []"
      "attempt_steps ctx view DEFAULT_TWO_FACTOR_ALLOWED_ATTEMPTS (Attempt_counter cookie) r
         (r\<lparr>ar_state := t, ar_held := [(n, False)]\<rparr>)"
proof -
  let ?c = "SignIn cookie e u d" and ?N = DEFAULT_TWO_FACTOR_ALLOWED_ATTEMPTS and ?k = "Attempt_counter cookie"
  let ?steps = "attempt_steps ctx view ?N ?k"
  have sign: "isSignIn ?c" by (simp add: isSignIn_def)
  obtain y v where find: "find_two_factor ctx u (ar_state r) = (y, v)" by force
  have one: "?steps r (r\<lparr>ar_state := v\<rparr>)" using keeps_state'[OF find_two_factor_same_sec find] .
  have life1: "attempt_life view ?N ?k (r\<lparr>ar_state := v\<rparr>)" using life_elsewhere[OF life find_two_factor_same_sec find] .
  note defs = open_attempt_def bindA_def sign
  consider (gone) "isl x" "t = v" | (acc) acc where "y = Inr (Some acc)" "usable acc"
    using run find by (auto simp: defs split: sum.splits option.splits if_splits)
  then show thesis
  proof cases
    case gone
    with one stop show thesis by (cases x) auto
  next
    case (acc acc)
    obtain z w where lock: "assertTwoFactorNotLocked ctx opts clk acc v = (z, w)" by force
    have two: "?steps (r\<lparr>ar_state := v\<rparr>) (r\<lparr>ar_state := w\<rparr>)" using keeps_state[OF not_locked_same_sec lock] .
    have life2: "attempt_life view ?N ?k (r\<lparr>ar_state := w\<rparr>)"
      using life_elsewhere[OF life1, of "assertTwoFactorNotLocked ctx opts clk acc" z w, OF not_locked_same_sec] lock by simp
    obtain p q where begin_: "beginAttempt ctx (\<lambda>i. clk (i + 2)) ?c ?N (ar_state (r\<lparr>ar_state := w\<rparr>)) = (p, q)" by force
    have upto: "?steps r (r\<lparr>ar_state := w\<rparr>)" using one two by (rule rtranclp_trans)
    show thesis
    proof (cases z)
      case (Inl err)
      with run find acc lock have "x = Inl err" "t = w" by (simp_all add: defs)
      with upto stop show thesis by simp
    next
      case (Inr un)
      from ctx life2 begin_ show thesis
      proof (cases rule: begin_steps)
        case (no err)
        with Inr run find acc lock begin_ have "x = Inl err" "t = q" by (simp_all add: defs)
        moreover have "?steps r (r\<lparr>ar_state := q\<rparr>)" using upto no(2) by simp
        ultimately show thesis using stop by simp
      next
        case (begun n)
        with Inr run find acc lock begin_ have "x = Inr (acc, n)" "t = q" by (simp_all add: defs)
        moreover have "?steps r (r\<lparr>ar_state := q, ar_held := [(n, False)]\<rparr>)" using upto begun(3) by simp
        ultimately show thesis using opened[of acc n] begun(2) by simp
      qed
    qed
  qed
qed

lemma failed_attempt_steps:
  assumes run: "failed_attempt ctx opts clk (SignIn cookie e u d) acc n err (ar_state r) = (x, t)"
    and held: "ar_held r = [(n, True)]"
  shows "isl x \<and> attempt_steps ctx view allowed (Attempt_counter cookie) r (r\<lparr>ar_state := t, ar_held := []\<rparr>)"
proof -
  let ?c = "SignIn cookie e u d" and ?steps = "attempt_steps ctx view allowed (Attempt_counter cookie)"
  obtain y v where re: "rearm ctx clk ?c (n + of_bool True) (ar_state r) = (y, v)" by force
  then have y: "y = Inr ()" by (cases y) (auto simp: rearm_def catchA_def bindA_def split: prod.splits sum.splits)
  let ?m = "recordTwoFactorFailure ctx opts (\<lambda>i. clk (i + 3)) acc"
  obtain z w where rec: "?m v = (z, w)" by force
  from re have "rearm ctx clk ?c (n + 1) (ar_state r) = (Inr (), v)" using y by simp
  with run rec have t: "t = w" "isl x"
    by (cases z; auto simp: failed_attempt_def bindA_def isSignIn_def)+
  have "?steps r (r\<lparr>ar_state := v, ar_held := []\<rparr>)" by (rule rearm_challenge_steps[OF re held])
  moreover have "?steps (r\<lparr>ar_state := v, ar_held := []\<rparr>) (r\<lparr>ar_state := w, ar_held := []\<rparr>)"
    using keeps_state'[of "r\<lparr>ar_state := v, ar_held := []\<rparr>", OF failure_same_sec, of ctx opts "\<lambda>i. clk (i + 3)" acc z w] rec
    by (simp add: held_then_state)
  ultimately show ?thesis using t by auto
qed

text \<open>A wrong code, or a server error, on the sign-in path of the two endpoints.\<close>

lemma attempt_turn_steps:
  assumes ctx: "cached_ctx ctx S view life"
    and life: "attempt_life view DEFAULT_TWO_FACTOR_ALLOWED_ATTEMPTS (Attempt_counter cookie) r"
    and wrong: "\<And>acc y. check acc = Inr y \<Longrightarrow> bad y"
    and run: "bindA (open_attempt ctx opts clk missing usable (SignIn cookie e u d)) (\<lambda>(acc, n).
       bindA (check_or_restore ctx clk1 (SignIn cookie e u d) n (check acc)) (\<lambda>y.
         if bad y then failed_attempt ctx opts clk2 (SignIn cookie e u d) acc n err else good acc n y))
       (ar_state r) = (x, t)"
  shows "isl x \<and> attempt_steps ctx view DEFAULT_TWO_FACTOR_ALLOWED_ATTEMPTS (Attempt_counter cookie) r
      (r\<lparr>ar_state := t, ar_guesses := ar_guesses r +
        compared_in (bindA (open_attempt ctx opts clk missing usable (SignIn cookie e u d)) (\<lambda>(acc, n).
          check_or_restore ctx clk1 (SignIn cookie e u d) n (check acc))) (ar_state r)\<rparr>)"
proof -
  let ?c = "SignIn cookie e u d" and ?k = "Attempt_counter cookie" and ?N = DEFAULT_TWO_FACTOR_ALLOWED_ATTEMPTS
  let ?steps = "attempt_steps ctx view ?N ?k"
  obtain y v where o: "open_attempt ctx opts clk missing usable ?c (ar_state r) = (y, v)" by force
  from ctx life o show ?thesis
  proof (cases rule: open_attempt_steps)
    case (stop err)
    with run o have "isl x" "t = v" by (auto simp: bindA_def)
    with stop o show ?thesis by (simp add: compared_in_err)
  next
    case (opened acc n)
    let ?r = "r\<lparr>ar_state := v, ar_held := [(n, False)]\<rparr>"
    show ?thesis
    proof (cases "check acc")
      case (Inl err')
      obtain z w where re: "rearm ctx clk1 ?c (n + of_bool False) (ar_state ?r) = (z, w)" by force
      then have "z = Inr ()" by (cases z) (auto simp: rearm_def catchA_def bindA_def split: prod.splits sum.splits)
      with run o opened(1) Inl re have "isl x" "t = w" by (auto simp: bindA_def check_or_restore_def)
      moreover have "?steps ?r (?r\<lparr>ar_state := w, ar_held := []\<rparr>)" by (rule rearm_challenge_steps[OF re]) simp
      with opened(3) have "?steps r (?r\<lparr>ar_state := w, ar_held := []\<rparr>)" by (rule rtranclp_trans)
      moreover have "?r\<lparr>ar_state := w, ar_held := []\<rparr> = r\<lparr>ar_state := w, ar_guesses := ar_guesses r\<rparr>"
        using opened(2) by simp
      moreover have "compared_in (check_or_restore ctx clk1 ?c n (check acc)) v = 0"
        using Inl re by (auto simp: compared_in_def check_or_restore_def bindA_def split: prod.splits sum.splits)
      ultimately show ?thesis using o opened(1) by (simp add: compared_in_bind)
    next
      case (Inr b)
      let ?r1 = "r\<lparr>ar_state := v, ar_held := [(n, True)], ar_guesses := ar_guesses r + 1\<rparr>"
      have "attempt_step ctx view ?N ?k ?r ?r1"
        using attempt_step.compared[of ?r "[]" n "[]"] by simp
      with opened(3) have "?steps r ?r1" by simp
      moreover have "failed_attempt ctx opts clk2 ?c acc n err (ar_state ?r1) = (x, t)"
        using run o opened(1) Inr wrong[OF Inr] by (simp add: bindA_def check_or_restore_def)
      from failed_attempt_steps[OF this, of view ?N] have "isl x" "?steps ?r1 (?r1\<lparr>ar_state := t, ar_held := []\<rparr>)"
        by simp_all
      moreover have "?r1\<lparr>ar_state := t, ar_held := []\<rparr> = r\<lparr>ar_state := t, ar_guesses := ar_guesses r + 1\<rparr>"
        using opened(2) by simp
      moreover have "compared_in (check_or_restore ctx clk1 ?c n (check acc)) v = 1"
        using Inr by (simp add: compared_in_def check_or_restore_def)
      ultimately show ?thesis using o opened(1) by (simp add: compared_in_bind)
    qed
  qed
qed

end
