(* ===== verification/TwoFactorLockout.thy ===== *)
theory TwoFactorLockout
  imports TwoFactorRoutes StoreRuns
begin

text \<open>
  The lockout of an account under concurrent requests: the interleaving of the writes on the
  table of two-factor accounts, what every interleaving keeps of an account's counter and
  lock, and that the lockout functions of a request are sequences of these writes.
\<close>

section \<open>The writes of concurrent requests\<close>

text \<open>
  \<open>lr_failures\<close> and \<open>lr_pending\<close> are ghosts of the account with id \<open>i\<close>: its failures since
  the last reset, and the requests that spent the budget and have still to write the lock.
\<close>

record 's lockout_run =
  lr_store :: 's
  lr_failures :: int
  lr_pending :: nat

definition is_hit :: "string \<Rightarrow> val \<Rightarrow> row option res \<Rightarrow> bool" where
  "is_hit i k x \<longleftrightarrow> k = Str i \<and> (\<exists>q. x = Inr (Some q))"

definition secret_fields :: "string list" where
  "secret_fields = [''secret'', ''backupCodes'', ''verified'']"

text \<open>What a row is created with: no failures, no lock.\<close>

definition fresh_account :: "row \<Rightarrow> bool" where
  "fresh_account q \<longleftrightarrow> get_field q ''failedVerificationCount'' \<in> {Undef, Null, Num 0} \<and>
     nullish (get_field q ''lockedUntil'')"

inductive lockout_step ::
  "'s adapter \<Rightarrow> ('s \<Rightarrow> string \<Rightarrow> row list) \<Rightarrow> ('s \<Rightarrow> bool) \<Rightarrow> host \<Rightarrow> int \<Rightarrow> string \<Rightarrow>
     's lockout_run \<Rightarrow> 's lockout_run \<Rightarrow> bool"
  for A rows ok h N i
where
  failed: "fail_op A k (lr_store r) = (x, t) \<Longrightarrow>
     lockout_step A rows ok h N i r (r\<lparr>lr_store := t,
       lr_failures := lr_failures r + (if is_hit i k x then 1 else 0),
       lr_pending := lr_pending r +
         (if k = Str i \<and> (\<exists>u. x = Inr u \<and> budget_spent h N u) then 1 else 0)\<rparr>)"
| locked: "lock_op A k N (DateV j e) (lr_store r) = (x, t) \<Longrightarrow> k = Str i \<Longrightarrow> 0 < lr_pending r \<Longrightarrow> \<not> isl x \<Longrightarrow>
     lockout_step A rows ok h N i r (r\<lparr>lr_store := t, lr_pending := lr_pending r - 1\<rparr>)"
| locked_other: "lock_op A k N (DateV j e) (lr_store r) = (x, t) \<Longrightarrow> k \<noteq> Str i \<or> isl x \<Longrightarrow>
     lockout_step A rows ok h N i r (r\<lparr>lr_store := t\<rparr>)"
| cleared: "clear_op A k now (lr_store r) = (x, t) \<Longrightarrow>
     lockout_step A rows ok h N i r (r\<lparr>lr_store := t, lr_failures := (if is_hit i k x then 0 else lr_failures r)\<rparr>)"
| reset: "reset_op A k (lr_store r) = (x, t) \<Longrightarrow>
     lockout_step A rows ok h N i r (r\<lparr>lr_store := t, lr_failures := (if is_hit i k x then 0 else lr_failures r)\<rparr>)"
| burned: "burn_op A q codes (lr_store r) = (x, t) \<Longrightarrow> get_field q ''backupCodes'' = Str b \<Longrightarrow>
     lockout_step A rows ok h N i r (r\<lparr>lr_store := t\<rparr>)"
| rewritten: "a_update A twoFactor_model [wh_eq ''id'' k] up (lr_store r) = (x, t) \<Longrightarrow>
     set (map fst up) \<subseteq> set secret_fields \<Longrightarrow>
     lockout_step A rows ok h N i r (r\<lparr>lr_store := t\<rparr>)"
| created: "a_create A twoFactor_model d (lr_store r) = (Inr q, t) \<Longrightarrow>
     get_field q ''id'' \<noteq> Str i \<Longrightarrow> fresh_account q \<Longrightarrow>
     lockout_step A rows ok h N i r (r\<lparr>lr_store := t\<rparr>)"
| disabled: "a_delete A twoFactor_model [wh_eq ''userId'' u] (lr_store r) = (y, t) \<Longrightarrow>
     lockout_step A rows ok h N i r (r\<lparr>lr_store := t\<rparr>)"
| elsewhere: "ok t \<Longrightarrow> rows t twoFactor_model = rows (lr_store r) twoFactor_model \<Longrightarrow>
     lockout_step A rows ok h N i r (r\<lparr>lr_store := t\<rparr>)"

abbreviation lockout_steps ::
  "'s adapter \<Rightarrow> ('s \<Rightarrow> string \<Rightarrow> row list) \<Rightarrow> ('s \<Rightarrow> bool) \<Rightarrow> host \<Rightarrow> int \<Rightarrow> string \<Rightarrow>
     's lockout_run \<Rightarrow> 's lockout_run \<Rightarrow> bool"
where
  "lockout_steps A rows ok h N i \<equiv> (lockout_step A rows ok h N i)\<^sup>*\<^sup>*"

section \<open>The columns of the lockout\<close>

definition typed_count :: "val \<Rightarrow> bool" where
  "typed_count v \<longleftrightarrow> v = Undef \<or> v = Null \<or> (\<exists>n. v = Num n \<and> 0 \<le> n)"

definition typed_lock :: "val \<Rightarrow> bool" where
  "typed_lock v \<longleftrightarrow> v = Undef \<or> v = Null \<or> (\<exists>j e. v = DateV j e)"

definition typed_account :: "row \<Rightarrow> bool" where
  "typed_account q \<longleftrightarrow> typed_count (get_field q ''failedVerificationCount'') \<and>
     typed_lock (get_field q ''lockedUntil'')"

lemma typed_count_spent: "typed_count v \<Longrightarrow> 0 < N \<Longrightarrow> js_less_eq h (Num N) v \<longleftrightarrow> N \<le> counter_value v"
  by (auto simp: typed_count_def counter_value_def js_less_eq_def)

lemma typed_count_nonneg: "typed_count v \<Longrightarrow> 0 \<le> counter_value v"
  by (auto simp: typed_count_def counter_value_def)

lemma fresh_typed: "fresh_account q \<Longrightarrow> typed_account q"
  by (auto simp: fresh_account_def typed_account_def typed_count_def typed_lock_def)

text \<open>The account of a run: its counter is the failures, and it is locked once they spend the budget.\<close>

definition lock_ok :: "int \<Rightarrow> row list \<Rightarrow> int \<Rightarrow> nat \<Rightarrow> bool" where
  "lock_ok N here failures pending \<longleftrightarrow> here = [] \<or>
     (\<exists>q. here = [q] \<and> typed_account q \<and> counter_value (get_field q ''failedVerificationCount'') = failures \<and>
        (\<not> nullish (get_field q ''lockedUntil'') \<longrightarrow> N \<le> failures) \<and>
        (N \<le> failures \<and> nullish (get_field q ''lockedUntil'') \<longrightarrow> 0 < pending))"

lemma lock_ok_few:
  assumes "lock_ok N here failures pending"
  obtains q where "here = [] \<or> here = [q]"
  using assms by (auto simp: lock_ok_def)

lemma lock_ok_failed:
  assumes "lock_ok N [q] n p" and "p' = p + (if N \<le> n + 1 then 1 else 0)"
  shows "lock_ok N [set_field q ''failedVerificationCount'' (Num (counter_value (get_field q ''failedVerificationCount'') + 1))]
    (n + 1) p'"
proof -
  from assms(1) have q: "typed_account q" "counter_value (get_field q ''failedVerificationCount'') = n"
    "\<not> nullish (get_field q ''lockedUntil'') \<longrightarrow> N \<le> n"
    "N \<le> n \<and> nullish (get_field q ''lockedUntil'') \<longrightarrow> 0 < p"
    by (simp_all add: lock_ok_def)
  then have "typed_count (Num (n + 1))"
    using typed_count_nonneg[of "get_field q ''failedVerificationCount''"]
    by (simp add: typed_account_def typed_count_def[of "Num (n + 1)"])
  with q assms(2) show ?thesis
    by (auto simp: lock_ok_def typed_account_def row_simps)
qed

lemma lock_ok_locked:
  assumes "lock_ok N [q] n p" and "N \<le> n"
  shows "lock_ok N [object_assign q [(''lockedUntil'', DateV j e)]] n p'"
  using assms by (auto simp: lock_ok_def typed_account_def typed_lock_def row_simps)

lemma lock_ok_reset: "0 < N \<Longrightarrow> lock_ok N [object_assign q lockout_reset] 0 p"
  by (simp add: lock_ok_def lockout_reset_def typed_account_def typed_count_def typed_lock_def row_simps)

lemma lock_ok_same:
  assumes "lock_ok N [q] n p"
    and "get_field q' ''failedVerificationCount'' = get_field q ''failedVerificationCount''"
    and "get_field q' ''lockedUntil'' = get_field q ''lockedUntil''"
  shows "lock_ok N [q'] n p"
  using assms by (simp add: lock_ok_def typed_account_def)

definition lockout_life ::
  "('s \<Rightarrow> string \<Rightarrow> row list) \<Rightarrow> ('s \<Rightarrow> bool) \<Rightarrow> int \<Rightarrow> string \<Rightarrow> 's lockout_run \<Rightarrow> bool"
where
  "lockout_life rows ok N i r \<longleftrightarrow> ok (lr_store r) \<and>
     lock_ok N (rows_with_id i (rows (lr_store r) twoFactor_model)) (lr_failures r) (lr_pending r)"

lemma secret_update_keeps:
  assumes "set (map fst up) \<subseteq> set secret_fields" and "f \<notin> set secret_fields"
  shows "get_field (object_assign q up) f = get_field q f"
  using assms
proof (induction up arbitrary: q)
  case (Cons u up)
  then show ?case by (cases u) (auto simp: object_assign_def row_simps)
qed (simp add: object_assign_def)

context delete_store
begin

lemma filter_here:
  assumes "lock_ok N (rows_with_id i rs) n p"
  shows "lock_ok N (rows_with_id i (filter P rs)) n p"
proof -
  obtain q where "rows_with_id i rs = [] \<or> rows_with_id i rs = [q]" using lock_ok_few[OF assms] .
  with assms show ?thesis unfolding rows_with_id_filter by (elim disjE) (simp_all add: lock_ok_def)
qed

lemma fail_life:
  assumes ok: "ok s" and run: "fail_op A k s = (x, t)" and N: "0 < N"
    and life: "lock_ok N (rows_with_id i (rows s twoFactor_model)) n p"
  shows "lock_ok N (rows_with_id i (rows t twoFactor_model)) (n + (if is_hit i k x then 1 else 0))
    (p + (if k = Str i \<and> (\<exists>u. x = Inr u \<and> budget_spent h N u) then 1 else 0))"
proof -
  obtain q where few: "rows_with_id i (rows s twoFactor_model) = [] \<or> rows_with_id i (rows s twoFactor_model) = [q]"
    using lock_ok_few[OF life] .
  show ?thesis
  proof (rule guarded_rows_write[OF ok run[unfolded fail_op_def] _ _ few], goal_cases)
    case 3
    have "\<not> budget_spent h N None" using N by (simp add: budget_spent_def js_less_eq_def)
    with 3 have "\<not> (k = Str i \<and> (\<exists>u. x = Inr u \<and> budget_spent h N u))" by (metis not_None_eq)
    moreover have "\<not> is_hit i k x" using 3 by (auto simp: is_hit_def)
    moreover note 3(1) life
    ultimately show ?case by (simp only: if_False add_0_right)
  next
    case 4
    have c: "counter_value (get_field q ''failedVerificationCount'') = n" using 4 life by (simp add: lock_ok_def)
    have "is_hit i k x" using 4 by (simp add: is_hit_def)
    moreover have "budget_spent h N (Some (apply_set None (apply_increment [(''failedVerificationCount'', 1)] q))) \<longleftrightarrow>
        N \<le> n + 1"
      by (simp add: budget_spent_def js_less_eq_def coalesce_def row_simps c)
    ultimately show ?case using 4 life lock_ok_failed[of N q n p] by (simp add: c)
  qed (simp_all add: row_simps)
qed

lemma lock_life:
  assumes ok: "ok s" and run: "lock_op A (Str i) N (DateV j e) s = (x, t)" and x: "\<not> isl x" and N: "0 < N"
    and life: "lock_ok N (rows_with_id i (rows s twoFactor_model)) n p"
  shows "lock_ok N (rows_with_id i (rows t twoFactor_model)) n (p - 1)"
proof (cases "rows_with_id i (rows s twoFactor_model)")
  case Nil
  have "rows_with_id i (rows t twoFactor_model) = []"
    by (rule guarded_rows_write[OF ok run[unfolded lock_op_def], of i undefined]) (simp_all add: Nil row_simps)
  then show ?thesis by (simp add: lock_ok_def)
next
  case (Cons q qs)
  with life have here: "rows_with_id i (rows s twoFactor_model) = [q]" by (simp add: lock_ok_def)
  with life have q: "typed_account q" "counter_value (get_field q ''failedVerificationCount'') = n"
    by (simp_all add: lock_ok_def)
  have spent: "js_less_eq h (Num N) (get_field q ''failedVerificationCount'') \<longleftrightarrow> N \<le> n"
    using typed_count_spent[OF _ N] q by (simp add: typed_account_def)
  show ?thesis
  proof (rule guarded_rows_write[OF ok run[unfolded lock_op_def], of i q], goal_cases)
    case 4
    with x have "x = Inr None" by (cases x) auto
    with increment_none[OF ok] run have "\<forall>r \<in> set (rows s twoFactor_model).
        sat [wh_eq ''id'' (Str i), wh ''failedVerificationCount'' Op_gte (Num N)] r = Inr False"
      unfolding lock_op_def by blast
    moreover have "q \<in> set (rows s twoFactor_model)" "get_field q ''id'' = Str i"
      using here by (auto simp: rows_with_id_def filter_eq_Cons_iff)
    ultimately have "\<not> N \<le> n" using spent by (auto simp: sat_simple)
    with 4 life here show ?case by (auto simp: lock_ok_def)
  next
    case 5
    then have "N \<le> n" using spent by simp
    with 5 lock_ok_locked[of N q n p j e] life here show ?case by simp
  qed (simp_all add: here row_simps)
qed

lemma clear_life:
  assumes ok: "ok s" and run: "clear_op A k now s = (x, t)" and N: "0 < N"
    and life: "lock_ok N (rows_with_id i (rows s twoFactor_model)) n p"
  shows "lock_ok N (rows_with_id i (rows t twoFactor_model)) (if is_hit i k x then 0 else n) p"
proof -
  obtain q where few: "rows_with_id i (rows s twoFactor_model) = [] \<or> rows_with_id i (rows s twoFactor_model) = [q]"
    using lock_ok_few[OF life] .
  show ?thesis
  proof (rule guarded_rows_write[OF ok run[unfolded clear_op_def] _ _ few], goal_cases)
    case 3
    then have "\<not> is_hit i k x" by (auto simp: is_hit_def)
    with 3 life show ?case by simp
  next
    case 4
    then have "is_hit i k x" by (simp add: is_hit_def)
    with 4 N lock_ok_reset show ?case by simp
  qed (simp_all add: lockout_reset_def row_simps)
qed

lemma reset_life:
  assumes ok: "ok s" and run: "reset_op A k s = (x, t)" and N: "0 < N"
    and life: "lock_ok N (rows_with_id i (rows s twoFactor_model)) n p"
  shows "lock_ok N (rows_with_id i (rows t twoFactor_model)) (if is_hit i k x then 0 else n) p"
proof -
  obtain q where few: "rows_with_id i (rows s twoFactor_model) = [] \<or> rows_with_id i (rows s twoFactor_model) = [q]"
    using lock_ok_few[OF life] .
  have "rows_with_id i (rows t twoFactor_model) =
      map (\<lambda>q. if is_hit i k x then object_assign q lockout_reset else q) (rows_with_id i (rows s twoFactor_model))"
    using update_by_id_rows[OF ok run[unfolded reset_op_def], of i] by (simp add: is_hit_def lockout_reset_def row_simps)
  with few life lock_ok_reset[OF N] show ?thesis by (auto simp: lock_ok_def)
qed

lemma burn_life:
  assumes ok: "ok s" and run: "burn_op A q0 codes s = (x, t)" and codes: "\<exists>b. get_field q0 ''backupCodes'' = Str b"
    and life: "lock_ok N (rows_with_id i (rows s twoFactor_model)) n p"
  shows "lock_ok N (rows_with_id i (rows t twoFactor_model)) n p"
proof -
  obtain q where few: "rows_with_id i (rows s twoFactor_model) = [] \<or> rows_with_id i (rows s twoFactor_model) = [q]"
    using lock_ok_few[OF life] .
  show ?thesis
    by (rule guarded_rows_write[OF ok run[unfolded burn_op_def] _ _ few])
       (use life codes lock_ok_same[of N q n p] in \<open>auto simp: row_simps\<close>)
qed

lemma rewrite_life:
  assumes ok: "ok s" and run: "a_update A twoFactor_model [wh_eq ''id'' k] up s = (x, t)"
    and up: "set (map fst up) \<subseteq> set secret_fields"
    and life: "lock_ok N (rows_with_id i (rows s twoFactor_model)) n p"
  shows "lock_ok N (rows_with_id i (rows t twoFactor_model)) n p"
proof -
  obtain q where few: "rows_with_id i (rows s twoFactor_model) = [] \<or> rows_with_id i (rows s twoFactor_model) = [q]"
    using lock_ok_few[OF life] .
  note keeps = secret_update_keeps[OF up]
  have "rows_with_id i (rows t twoFactor_model) =
      map (\<lambda>q. if k = Str i \<and> (\<exists>r. x = Inr (Some r)) then object_assign q up else q) (rows_with_id i (rows s twoFactor_model))"
    using update_by_id_rows[OF ok run, of i] keeps[of "''id''"] by (simp add: secret_fields_def)
  moreover have "lock_ok N [object_assign q up] n p" if "lock_ok N [q] n p"
    using lock_ok_same[OF that] keeps[of _ q] by (simp add: secret_fields_def)
  ultimately show ?thesis using few life by auto
qed

lemma lockout_step_life:
  assumes N: "0 < N" and step: "lockout_step A rows ok h N i r v" and life: "lockout_life rows ok N i r"
  shows "lockout_life rows ok N i v"
proof -
  have ok: "ok (lr_store r)"
    and lr: "lock_ok N (rows_with_id i (rows (lr_store r) twoFactor_model)) (lr_failures r) (lr_pending r)"
    using life by (simp_all add: lockout_life_def)
  obtain q where few: "rows_with_id i (rows (lr_store r) twoFactor_model) = [] \<or>
      rows_with_id i (rows (lr_store r) twoFactor_model) = [q]"
    using lock_ok_few[OF lr] .
  from step show ?thesis
  proof cases
    case (failed k x t)
    with ok lr N increment_frame[OF ok failed(2)[unfolded fail_op_def]] fail_life[OF ok failed(2) N lr] show ?thesis
      by (simp add: lockout_life_def)
  next
    case (locked k j e x t)
    with increment_frame[OF ok locked(2)[unfolded lock_op_def]] lock_life[OF ok locked(2)[unfolded locked(3)] locked(5) N lr]
    show ?thesis by (simp add: lockout_life_def)
  next
    case (locked_other k j e x t)
    have "rows_with_id i (rows t twoFactor_model) = rows_with_id i (rows (lr_store r) twoFactor_model)"
      by (rule guarded_rows_write[OF ok locked_other(2)[unfolded lock_op_def] _ _ few])
         (use locked_other(3) in \<open>auto simp: row_simps\<close>)
    with locked_other(1) increment_frame[OF ok locked_other(2)[unfolded lock_op_def]] lr show ?thesis
      by (simp add: lockout_life_def)
  next
    case (cleared k now x t)
    with increment_frame[OF ok cleared(2)[unfolded clear_op_def]] clear_life[OF ok cleared(2) N lr]
    show ?thesis by (simp add: lockout_life_def)
  next
    case (reset k x t)
    with update_frame[OF ok reset(2)[unfolded reset_op_def]] reset_life[OF ok reset(2) N lr]
    show ?thesis by (simp add: lockout_life_def)
  next
    case (burned q codes x t b)
    with increment_frame[OF ok burned(2)[unfolded burn_op_def]] burn_life[OF ok burned(2) _ lr]
    show ?thesis by (simp add: lockout_life_def)
  next
    case (rewritten k up x t)
    with update_frame[OF ok rewritten(2)] rewrite_life[OF ok rewritten(2,3) lr] show ?thesis
      by (simp add: lockout_life_def)
  next
    case (created d q t)
    with create_frame[OF ok created(2)] create_row[OF ok created(2)] lr show ?thesis
      by (simp add: lockout_life_def rows_with_id_append rows_with_id_def)
  next
    case (disabled u y t)
    have "lock_ok N (rows_with_id i (rows t twoFactor_model)) (lr_failures r) (lr_pending r)"
    proof (cases y)
      case (Inl e)
      with delete_error[OF ok disabled(2)[unfolded Inl]] lr show ?thesis by simp
    next
      case (Inr z)
      with delete_rows[OF ok disabled(2)[unfolded Inr]] filter_here[OF lr] show ?thesis by simp
    qed
    with disabled(1) delete_frame[OF ok disabled(2)] show ?thesis by (simp add: lockout_life_def)
  next
    case (elsewhere t)
    with lr show ?thesis by (simp add: lockout_life_def)
  qed
qed

lemma lockout_steps_life:
  assumes "lockout_steps A rows ok h N i r v" and "0 < N" and "lockout_life rows ok N i r"
  shows "lockout_life rows ok N i v"
  using assms by (induction rule: rtranclp_induct) (blast intro: lockout_step_life)+

end

section \<open>The lockout of a request as a sequence of writes\<close>

lemma failure_steps:
  fixes r :: "memdb lockout_run"
  assumes ctx: "memory_ctx ctx cfg" and w: "watched (rq_db s) twoFactor_model i pre q post"
    and account: "get_field a ''id'' = Str i" and st: "lr_store r = rq_db s"
    and on: "lc_enabled (resolveAccountLockoutConfig opts)"
    and N: "lc_maxFailedAttempts (resolveAccountLockoutConfig opts) = N"
  shows "\<exists>v t. recordTwoFactorFailure ctx opts clk a s = (Inr (), t) \<and>
    lockout_steps (mem_adapter cfg) mem_rows wf_db (hostEnv cfg) N i r v \<and> lr_store v = rq_db t \<and>
    lr_failures v = lr_failures r + 1 \<and> lr_pending v = lr_pending r"
proof -
  let ?A = "mem_adapter cfg" and ?h = "hostEnv cfg"
  let ?steps = "lockout_steps ?A mem_rows wf_db ?h N i"
  have A: "ic_adapter ctx = ?A" and h: "ic_host ctx = ?h" using ctx by (simp_all add: memory_ctx_def)
  let ?q = "apply_set None (apply_increment [(''failedVerificationCount'', 1)] q)"
  have keep: "get_field ?q ''id'' = Str i" using watchedD(4)[OF w] by (simp add: row_simps)
  obtain d where f: "fail_op ?A (Str i) (rq_db s) = (Inr (Some ?q), d)" and wd: "watched d twoFactor_model i pre ?q post"
    unfolding fail_op_def by (rule watched_increment[OF w _ _ keep, where g = "[]" and cfg = cfg]) auto
  let ?p = "lr_pending r + (if budget_spent ?h N (Some ?q) then 1 else 0)"
  let ?r = "r\<lparr>lr_store := d, lr_failures := lr_failures r + 1, lr_pending := ?p\<rparr>"
  have one: "?steps r ?r"
    using lockout_step.failed[of ?A "Str i" r "Inr (Some ?q)" d mem_rows wf_db ?h N i] f st
    by (intro r_into_rtranclp) (simp add: is_hit_def)
  have dbf: "db (fail_op (ic_adapter ctx) (Str i)) s = (Inr (Some ?q), with_db d s)"
    using db_run[of "fail_op ?A (Str i)" s] f A by simp
  show ?thesis
  proof (cases "budget_spent ?h N (Some ?q)")
    case False
    then have "recordTwoFactorFailure ctx opts clk a s = (Inr (), with_db d s)"
      using dbf on N h account by (simp add: recordTwoFactorFailure_def Let_def bindA_def)
    with one False show ?thesis by (intro exI[of _ ?r]) simp
  next
    case True
    let ?e = "DateV (fst (clk 0)) (snd (clk 0) + lc_durationMs (resolveAccountLockoutConfig opts))"
    have spent: "list_all (clause_holds ?h ?q) [wh ''failedVerificationCount'' Op_gte (Num N)]"
      using True by (simp add: budget_spent_def coalesce_def row_simps)
    obtain y d' where l: "lock_op ?A (Str i) N ?e d = (Inr (Some y), d')"
      unfolding lock_op_def
      by (rule watched_increment[OF wd _ spent, where inc = "[]" and u = "Some [(''lockedUntil'', ?e)]"])
         (use watchedD(4)[OF wd] in \<open>simp_all add: row_simps\<close>)
    have "?steps ?r (?r\<lparr>lr_store := d', lr_pending := ?p - 1\<rparr>)"
      using lockout_step.locked[of ?A "Str i" N _ _ ?r "Inr (Some y)" d' i mem_rows wf_db ?h] l True
      by (intro r_into_rtranclp) simp
    with one have "?steps r (?r\<lparr>lr_store := d', lr_pending := ?p - 1\<rparr>)" by (rule rtranclp_trans)
    moreover have "db (lock_op (ic_adapter ctx) (Str i) N ?e) (with_db d s) = (Inr (Some y), with_db d' (with_db d s))"
      using db_run[of "lock_op ?A (Str i) N ?e" "with_db d s"] l A by simp
    then have "recordTwoFactorFailure ctx opts clk a s = (Inr (), with_db d' (with_db d s))"
      using dbf on N h account True by (simp add: recordTwoFactorFailure_def Let_def bindA_def)
    ultimately show ?thesis using True by (intro exI[of _ "?r\<lparr>lr_store := d', lr_pending := ?p - 1\<rparr>"]) simp
  qed
qed

lemma reset_steps:
  fixes r :: "memdb lockout_run"
  assumes ctx: "memory_ctx ctx cfg" and w: "watched (rq_db s) twoFactor_model i pre q post"
    and account: "get_field a ''id'' = Str i" and st: "lr_store r = rq_db s"
    and on: "lc_enabled (resolveAccountLockoutConfig opts)"
  shows "\<exists>v t. resetTwoFactorFailures ctx opts a s = (Inr (), t) \<and>
    lockout_steps (mem_adapter cfg) mem_rows wf_db (hostEnv cfg) N i r v \<and> lr_store v = rq_db t \<and>
    lr_failures v = 0 \<and> lr_pending v = lr_pending r"
proof -
  let ?A = "mem_adapter cfg"
  have A: "ic_adapter ctx = ?A" using ctx by (simp add: memory_ctx_def)
  have keep: "get_field (object_assign q lockout_reset) ''id'' = Str i"
    using watchedD(4)[OF w] by (simp add: lockout_reset_def row_simps)
  obtain d where u: "reset_op ?A (Str i) (rq_db s) = (Inr (Some (object_assign q lockout_reset)), d)"
    unfolding reset_op_def by (rule watched_update[OF w keep, where cfg = cfg])
  have "resetTwoFactorFailures ctx opts a s = (Inr (), with_db d s)"
    using db_run[of "reset_op ?A (Str i)" s] u A on account by (simp add: resetTwoFactorFailures_def bindA_def)
  moreover have "lockout_steps ?A mem_rows wf_db (hostEnv cfg) N i r (r\<lparr>lr_store := d, lr_failures := 0\<rparr>)"
    using lockout_step.reset[of ?A "Str i" r _ d mem_rows wf_db "hostEnv cfg" N i] u st
    by (intro r_into_rtranclp) (simp add: is_hit_def)
  ultimately show ?thesis by (intro exI[of _ "r\<lparr>lr_store := d, lr_failures := 0\<rparr>"]) simp
qed

lemma assert_steps:
  fixes r :: "memdb lockout_run"
  assumes ctx: "memory_ctx ctx cfg" and st: "lr_store r = rq_db s"
    and run: "assertTwoFactorNotLocked ctx opts clk a s = (x, t)"
  shows "\<exists>v. lockout_steps (mem_adapter cfg) mem_rows wf_db (hostEnv cfg) N i r v \<and> lr_store v = rq_db t \<and>
    lr_pending v = lr_pending r"
proof -
  let ?A = "mem_adapter cfg"
  have A: "ic_adapter ctx = ?A" using ctx by (simp add: memory_ctx_def)
  consider "t = s" | y where "db (clear_op ?A (get_field a ''id'') (date_at clk 1)) s = (y, t)"
    using run unfolding assertTwoFactorNotLocked_def A by (auto elim!: bindA_cases split: if_splits)
  then show ?thesis
  proof cases
    case 1
    with st show ?thesis by (intro exI[of _ r]) simp
  next
    case (2 y)
    obtain z d where c: "clear_op ?A (get_field a ''id'') (date_at clk 1) (rq_db s) = (z, d)" by force
    with 2 db_run[of "clear_op ?A (get_field a ''id'') (date_at clk 1)" s z d] have "rq_db t = d" by auto
    with lockout_step.cleared[of ?A "get_field a ''id''" "date_at clk 1" r z d mem_rows wf_db "hostEnv cfg" N i] c st
    show ?thesis by (intro exI[of _ "r\<lparr>lr_store := d, lr_failures := (if is_hit i (get_field a ''id'') z then 0 else lr_failures r)\<rparr>"])
      (auto intro: r_into_rtranclp)
  qed
qed

section \<open>Typed columns\<close>

context delete_store
begin

lemma lockout_step_typed:
  assumes step: "lockout_step A rows ok h N i r v" and ok: "ok (lr_store r)"
    and typed: "\<And>q. q \<in> set (rows (lr_store r) twoFactor_model) \<Longrightarrow> typed_account q"
  shows "ok (lr_store v) \<and> (\<forall>q \<in> set (rows (lr_store v) twoFactor_model). typed_account q)"
proof -
  have inc: "ok t \<and> (\<forall>q \<in> set (rows t twoFactor_model). typed_account q)"
    if "a_incrementOne A twoFactor_model ws inc u (lr_store r) = (x, t)"
      "\<And>q. typed_account q \<Longrightarrow> typed_account (apply_set u (apply_increment inc q))" for ws inc u x t
    using increment_frame[OF ok that(1)] increment_rows_all[OF ok that(1), of typed_account] typed that(2) by blast
  have upd: "ok t \<and> (\<forall>q \<in> set (rows t twoFactor_model). typed_account q)"
    if "a_update A twoFactor_model ws up (lr_store r) = (x, t)"
      "\<And>q. typed_account q \<Longrightarrow> typed_account (object_assign q up)" for ws up x t
  proof (cases "\<exists>q. x = Inr (Some q)")
    case True
    with update_some[OF ok] update_frame[OF ok] that typed show ?thesis by fastforce
  next
    case False
    with update_missed[OF ok that(1)] ok typed show ?thesis by simp
  qed
  have lock: "typed_account q \<Longrightarrow> typed_account (object_assign q [(''lockedUntil'', DateV j e)])" for q j e
    by (auto simp: typed_account_def typed_lock_def row_simps)
  have clear: "typed_account q \<Longrightarrow> typed_account (object_assign q lockout_reset)" for q
    by (auto simp: typed_account_def lockout_reset_def typed_count_def typed_lock_def row_simps)
  from step show ?thesis
  proof cases
    case (failed k x t)
    have "typed_account (set_field q ''failedVerificationCount'' (Num (counter_value (get_field q ''failedVerificationCount'') + 1)))"
      if "typed_account q" for q
      using that typed_count_nonneg[of "get_field q ''failedVerificationCount''"]
      by (simp add: typed_account_def typed_count_def[of "Num _"] row_simps)
    with inc[OF failed(2)[unfolded fail_op_def]] failed(1) show ?thesis by simp
  next
    case (locked k j e x t)
    with inc[OF locked(2)[unfolded lock_op_def]] lock show ?thesis by simp
  next
    case (locked_other k j e x t)
    with inc[OF locked_other(2)[unfolded lock_op_def]] lock show ?thesis by simp
  next
    case (cleared k now x t)
    with inc[OF cleared(2)[unfolded clear_op_def]] clear show ?thesis by simp
  next
    case (reset k x t)
    with upd[OF reset(2)[unfolded reset_op_def]] clear show ?thesis by simp
  next
    case (burned q codes x t b)
    with inc[OF burned(2)[unfolded burn_op_def]] show ?thesis by (simp add: typed_account_def row_simps)
  next
    case (rewritten k up x t)
    with upd[OF rewritten(2)] show ?thesis
      by (simp add: typed_account_def secret_update_keeps secret_fields_def)
  next
    case (created d q t)
    with create_frame[OF ok created(2)] create_row[OF ok created(2)] typed fresh_typed show ?thesis by auto
  next
    case (disabled u y t)
    with delete_frame[OF ok disabled(2)] delete_rows[OF ok, of twoFactor_model _ _ t] delete_error[OF ok] typed show ?thesis
      by (cases y) fastforce+
  next
    case (elsewhere t)
    with typed show ?thesis by simp
  qed
qed

lemma lockout_steps_typed:
  assumes "lockout_steps A rows ok h N i r v" and "ok (lr_store r)"
    and "\<And>q. q \<in> set (rows (lr_store r) twoFactor_model) \<Longrightarrow> typed_account q"
  shows "ok (lr_store v) \<and> (\<forall>q \<in> set (rows (lr_store v) twoFactor_model). typed_account q)"
  using assms by (induction rule: rtranclp_induct) (blast dest: lockout_step_typed)+

end

end
