(* ===== verification/TwoFactorClaims.thy ===== *)
theory TwoFactorClaims
  imports TwoFactorAttempts TwoFactorLockout
begin

text \<open>
  What two-factor authentication guarantees: a one-time code and a challenge can be guessed
  a bounded number of times, however the requests interleave, and every request with a wrong
  code is counted; an account is locked exactly when its failures spend the budget, and a
  locked account refuses every factor; a code that was sent, and a backup code, work once.
\<close>

section \<open>The endpoints\<close>

text \<open>The part of an endpoint that ends when a code has been compared.\<close>

definition otp_comparison ::
  "('s, 'q) ictx \<Rightarrow> ('s, 'q) two_factor_opts \<Rightarrow> two_factor_crypto \<Rightarrow> clock \<Rightarrow> ('s, 'q) two_factor_request \<Rightarrow>
     ('s, 'q, otp_guess) iact"
where
  "otp_comparison ctx opts cr clk rq =
     bindA (verifyTwoFactor ctx clk rq) (\<lambda>c.
     bindA (otp_account ctx opts (\<lambda>i. clk (i + 2)) c) (\<lambda>_.
       guess_otp ctx opts cr (\<lambda>i. clk (i + 4)) (ch_key (ic_host ctx) c) (tq_code rq)))"

definition totp_comparison ::
  "('s, 'q) ictx \<Rightarrow> ('s, 'q) two_factor_opts \<Rightarrow> two_factor_crypto \<Rightarrow> clock \<Rightarrow> ('s, 'q) two_factor_request \<Rightarrow>
     ('s, 'q, bool) iact"
where
  "totp_comparison ctx opts cr clk rq =
     (if to_totpDisabled opts then throwA (bad_code ''TOTP_NOT_CONFIGURED'')
      else
        bindA (verifyTwoFactor ctx clk rq) (\<lambda>c.
        bindA (open_attempt ctx opts (\<lambda>i. clk (i + 2)) ''TOTP_NOT_ENABLED''
                 (\<lambda>r. get_field r ''verified'' \<noteq> BoolV False) c) (\<lambda>(r, attempts).
          check_or_restore ctx (\<lambda>i. clk (i + 8)) c attempts (check_totp cr r (tq_code rq)))))"

definition backup_comparison ::
  "('s, 'q) ictx \<Rightarrow> ('s, 'q) two_factor_opts \<Rightarrow> two_factor_crypto \<Rightarrow> clock \<Rightarrow> ('s, 'q) two_factor_request \<Rightarrow>
     ('s, 'q, bool \<times> string list option) iact"
where
  "backup_comparison ctx opts cr clk rq =
     bindA (verifyTwoFactor ctx clk rq) (\<lambda>c.
     bindA (open_attempt ctx opts (\<lambda>i. clk (i + 2)) ''BACKUP_CODES_NOT_ENABLED'' (\<lambda>_. True) c) (\<lambda>(r, attempts).
       check_or_restore ctx (\<lambda>i. clk (i + 8)) c attempts
         (verifyBackupCode (to_storeBackupCodes opts) cr (text_of (get_field r ''backupCodes'')) (tq_code rq))))"

lemma verify_otp_steps:
  assumes ctx: "cached_ctx ctx S view life" and k: "CHR '':'' \<notin> set otp"
    and key: "request_key (ic_host ctx) rq = key"
    and life: "attempt_life view (otp_allowed opts) (Otp_counter key otp) r"
    and wrong: "\<And>a b. decryptOrHashForComparison (to_storeOTP opts) cr otp (tq_code rq) = Inr (a, b) \<Longrightarrow>
      \<not> constantTimeEqual a b"
    and run: "verifyOTP ctx opts cr clk rq (ar_state r) = (x, t)"
  shows "isl x \<and> attempt_steps ctx view (otp_allowed opts) (Otp_counter key otp) r
      (r\<lparr>ar_state := t, ar_guesses := ar_guesses r + compared_in (otp_comparison ctx opts cr clk rq) (ar_state r)\<rparr>)"
proof -
  let ?steps = "attempt_steps ctx view (otp_allowed opts) (Otp_counter key otp)"
  let ?cmp = "compared_in (otp_comparison ctx opts cr clk rq) (ar_state r)"
  let ?life = "attempt_life view (otp_allowed opts) (Otp_counter key otp)"
  note same = verifyTwoFactor_same_sec[OF ctx]
  have here: "?thesis" if "isl x" "?steps r (r\<lparr>ar_state := t\<rparr>)" "?cmp = 0"
    using that by simp
  obtain y u where v: "verifyTwoFactor ctx clk rq (ar_state r) = (y, u)" by force
  have one: "?steps r (r\<lparr>ar_state := u\<rparr>)" using keeps_state'[OF same v] .
  have life1: "?life (r\<lparr>ar_state := u\<rparr>)" using life_elsewhere[OF life same v] .
  show ?thesis
  proof (cases y)
    case (Inl e)
    with run v one show ?thesis by (intro here) (auto simp: verifyOTP_def otp_comparison_def bindA_def compared_in_def)
  next
    case (Inr c)
    have c: "ch_key (ic_host ctx) c = key" using verified_request_key[OF v[unfolded Inr], of "ic_host ctx"] key by simp
    obtain z w where acc: "otp_account ctx opts (\<lambda>i. clk (i + 2)) c u = (z, w)" by force
    have two: "?steps (r\<lparr>ar_state := u\<rparr>) (r\<lparr>ar_state := w\<rparr>)" using keeps_state[OF otp_account_same_sec acc] .
    have life2: "?life (r\<lparr>ar_state := w\<rparr>)"
      using life_elsewhere[OF life1, of "otp_account ctx opts (\<lambda>i. clk (i + 2)) c" z w, OF otp_account_same_sec] acc
      by simp
    have upto: "?steps r (r\<lparr>ar_state := w\<rparr>)" using one two by (rule rtranclp_trans)
    show ?thesis
    proof (cases z)
      case (Inl e)
      with run v \<open>y = Inr c\<close> acc upto show ?thesis by (intro here) (auto simp: verifyOTP_def otp_comparison_def bindA_def compared_in_def)
    next
      case (Inr account)
      let ?r = "r\<lparr>ar_state := w\<rparr>"
      let ?key = "ch_key (ic_host ctx) c"
      have go: "bindA (guess_otp ctx opts cr (\<lambda>i. clk (i + 4)) key (tq_code rq)) (\<lambda>g.
          if og_right g then right_otp ctx opts cr (\<lambda>i. clk (i + 6)) rq c account
          else wrong_otp ctx opts (\<lambda>i. clk (i + 6)) key account g) (ar_state ?r) = (x, t)"
        using run v \<open>y = Inr c\<close> acc Inr unfolding c [symmetric] by (simp add: verifyOTP_def bindA_def)
      have cmp: "?cmp = compared_in (guess_otp ctx opts cr (\<lambda>i. clk (i + 4)) key (tq_code rq)) w"
        using v \<open>y = Inr c\<close> acc Inr c by (simp add: otp_comparison_def bindA_def compared_in_def)
      from guess_turn_steps[OF ctx k life2 wrong go] cmp
      have "isl x" "?steps ?r (?r\<lparr>ar_state := t, ar_guesses := ar_guesses r + ?cmp\<rparr>)" by simp_all
      with upto show ?thesis by simp
    qed
  qed
qed

text \<open>The two endpoints with the shared budget, from the challenge on.\<close>

definition code_is_wrong ::
  "('s, 'q) two_factor_opts \<Rightarrow> two_factor_crypto \<Rightarrow> string \<Rightarrow> bool"
where
  "code_is_wrong opts cr code \<longleftrightarrow>
     (\<forall>r. check_totp cr r code \<noteq> Inr True) \<and>
     (\<forall>stored. case verifyBackupCode (to_storeBackupCodes opts) cr stored code of
        Inr (status, _) \<Rightarrow> \<not> status | Inl _ \<Rightarrow> True)"

lemma challenge_endpoint_steps:
  assumes ctx: "cached_ctx ctx S view life"
    and rq: "tq_session rq = None" "tq_cookie rq = Some cookie"
    and life: "attempt_life view DEFAULT_TWO_FACTOR_ALLOWED_ATTEMPTS (Attempt_counter cookie) r"
    and wrong: "\<And>acc y. check acc = Inr y \<Longrightarrow> bad y"
    and run: "bindA (verifyTwoFactor ctx clk rq) (\<lambda>c.
       bindA (open_attempt ctx opts clk0 missing usable c) (\<lambda>(acc, n).
       bindA (check_or_restore ctx clk1 c n (check acc)) (\<lambda>y.
         if bad y then failed_attempt ctx opts clk2 c acc n err else good c acc n y))) (ar_state r) = (x, t)"
  shows "isl x \<and> attempt_steps ctx view DEFAULT_TWO_FACTOR_ALLOWED_ATTEMPTS (Attempt_counter cookie) r
      (r\<lparr>ar_state := t, ar_guesses := ar_guesses r +
        compared_in (bindA (verifyTwoFactor ctx clk rq) (\<lambda>c.
          bindA (open_attempt ctx opts clk0 missing usable c) (\<lambda>(acc, n).
            check_or_restore ctx clk1 c n (check acc)))) (ar_state r)\<rparr>)"
proof -
  let ?k = "Attempt_counter cookie" and ?N = DEFAULT_TWO_FACTOR_ALLOWED_ATTEMPTS
  let ?steps = "attempt_steps ctx view ?N ?k"
  note same = verifyTwoFactor_same_sec[OF ctx]
  obtain y u where v: "verifyTwoFactor ctx clk rq (ar_state r) = (y, u)" by force
  have one: "?steps r (r\<lparr>ar_state := u\<rparr>)" using keeps_state'[OF same v] .
  have life1: "attempt_life view ?N ?k (r\<lparr>ar_state := u\<rparr>)" using life_elsewhere[OF life same v] .
  show ?thesis
  proof (cases y)
    case (Inl e)
    with run v one show ?thesis by (auto simp: bindA_def compared_in_def)
  next
    case (Inr c)
    from verified_key[OF v[unfolded Inr]] rq obtain e a d where c: "c = SignIn cookie e a d" by auto
    let ?r = "r\<lparr>ar_state := u\<rparr>"
    have "bindA (open_attempt ctx opts clk0 missing usable (SignIn cookie e a d)) (\<lambda>(acc, n).
       bindA (check_or_restore ctx clk1 (SignIn cookie e a d) n (check acc)) (\<lambda>y.
         if bad y then failed_attempt ctx opts clk2 (SignIn cookie e a d) acc n err
         else good (SignIn cookie e a d) acc n y)) (ar_state ?r) = (x, t)"
      using run v Inr c by (simp add: bindA_def)
    note attempt_turn_steps[where check = check and bad = bad, OF ctx life1 _ this]
    with wrong have "isl x" and two: "?steps ?r (?r\<lparr>ar_state := t, ar_guesses := ar_guesses ?r +
        compared_in (bindA (open_attempt ctx opts clk0 missing usable (SignIn cookie e a d)) (\<lambda>(acc, n).
          check_or_restore ctx clk1 (SignIn cookie e a d) n (check acc))) (ar_state ?r)\<rparr>)" by blast+
    with rtranclp_trans[OF one two] v Inr c show ?thesis by (simp add: compared_in_bind)
  qed
qed

lemma verify_totp_steps:
  assumes "cached_ctx ctx S view life" "tq_session rq = None" "tq_cookie rq = Some cookie"
    and "attempt_life view DEFAULT_TWO_FACTOR_ALLOWED_ATTEMPTS (Attempt_counter cookie) r"
    and wrong: "code_is_wrong opts cr (tq_code rq)" and run: "verifyTOTP ctx opts cr clk rq (ar_state r) = (x, t)"
  shows "isl x \<and> attempt_steps ctx view DEFAULT_TWO_FACTOR_ALLOWED_ATTEMPTS (Attempt_counter cookie) r
      (r\<lparr>ar_state := t, ar_guesses := ar_guesses r + compared_in (totp_comparison ctx opts cr clk rq) (ar_state r)\<rparr>)"
proof (cases "to_totpDisabled opts")
  case True
  with run show ?thesis by (auto simp: verifyTOTP_def totp_comparison_def compared_in_def)
next
  case False
  let ?good = "\<lambda>c acc n y. bindA (passed_attempt ctx opts c acc) (\<lambda>_.
     bindA (if get_field acc ''verified'' \<noteq> BoolV True
            then totp_enroll ctx (\<lambda>i. clk (i + 8)) (tq_env rq) c acc else returnA ()) (\<lambda>_.
       valid ctx opts cr (\<lambda>i. clk (i + 16)) rq c))"
  have go: "bindA (verifyTwoFactor ctx clk rq) (\<lambda>c.
     bindA (open_attempt ctx opts (\<lambda>i. clk (i + 2)) ''TOTP_NOT_ENABLED''
              (\<lambda>r. get_field r ''verified'' \<noteq> BoolV False) c) (\<lambda>(acc, n).
     bindA (check_or_restore ctx (\<lambda>i. clk (i + 8)) c n (check_totp cr acc (tq_code rq))) (\<lambda>y.
       if \<not> y then failed_attempt ctx opts (\<lambda>i. clk (i + 8)) c acc n (unauthorized ''INVALID_CODE'')
       else ?good c acc n y))) (ar_state r) = (x, t)"
    using run False by (simp add: verifyTOTP_def)
  have bad: "\<not> y" if "check_totp cr acc (tq_code rq) = Inr y" for acc y
    using wrong that by (auto simp: code_is_wrong_def)
  have "totp_comparison ctx opts cr clk rq = bindA (verifyTwoFactor ctx clk rq) (\<lambda>c.
     bindA (open_attempt ctx opts (\<lambda>i. clk (i + 2)) ''TOTP_NOT_ENABLED''
              (\<lambda>r. get_field r ''verified'' \<noteq> BoolV False) c) (\<lambda>(acc, n).
       check_or_restore ctx (\<lambda>i. clk (i + 8)) c n (check_totp cr acc (tq_code rq))))"
    using False by (simp add: totp_comparison_def)
  then show ?thesis
    using challenge_endpoint_steps[where check = "\<lambda>acc. check_totp cr acc (tq_code rq)" and bad = Not
        and good = ?good, OF assms(1-4) bad go] by simp
qed

lemma verify_backup_steps:
  assumes "cached_ctx ctx S view life" "tq_session rq = None" "tq_cookie rq = Some cookie"
    and "attempt_life view DEFAULT_TWO_FACTOR_ALLOWED_ATTEMPTS (Attempt_counter cookie) r"
    and wrong: "code_is_wrong opts cr (tq_code rq)"
    and run: "verifyBackupCodeEndpoint ctx opts cr clk rq (ar_state r) = (x, t)"
  shows "isl x \<and> attempt_steps ctx view DEFAULT_TWO_FACTOR_ALLOWED_ATTEMPTS (Attempt_counter cookie) r
      (r\<lparr>ar_state := t, ar_guesses := ar_guesses r + compared_in (backup_comparison ctx opts cr clk rq) (ar_state r)\<rparr>)"
proof -
  let ?good = "\<lambda>c acc n y. bindA (use_backup_code ctx opts cr acc (case snd y of Some cs \<Rightarrow> cs | None \<Rightarrow> [])) (\<lambda>_.
     bindA (passed_attempt ctx opts c acc) (\<lambda>_. backup_answer ctx opts cr (\<lambda>i. clk (i + 8)) rq c))"
  let ?check = "\<lambda>acc. verifyBackupCode (to_storeBackupCodes opts) cr (text_of (get_field acc ''backupCodes'')) (tq_code rq)"
  have "bindA (verifyTwoFactor ctx clk rq) (\<lambda>c.
     bindA (open_attempt ctx opts (\<lambda>i. clk (i + 2)) ''BACKUP_CODES_NOT_ENABLED'' (\<lambda>_. True) c) (\<lambda>p.
     bindA (check_or_restore ctx (\<lambda>i. clk (i + 8)) c (snd p) (?check (fst p))) (\<lambda>y.
       if \<not> fst y \<or> snd y = None
       then failed_attempt ctx opts (\<lambda>i. clk (i + 8)) c (fst p) (snd p) (unauthorized ''INVALID_BACKUP_CODE'')
       else ?good c (fst p) (snd p) y))) (ar_state r) = (x, t)"
    using run unfolding verifyBackupCodeEndpoint_def case_prod_unfold .
  moreover have "\<not> fst y \<or> snd y = None" if "?check acc = Inr y" for acc y
    using wrong that by (cases y) (auto simp: code_is_wrong_def split: sum.splits prod.splits)
  ultimately show ?thesis
    unfolding backup_comparison_def case_prod_unfold
    using challenge_endpoint_steps[unfolded case_prod_unfold, where check = ?check and good = ?good and
        bad = "\<lambda>y. \<not> fst y \<or> snd y = None", OF assms(1-4)] by blast
qed

section \<open>Sending a code\<close>

lemma put_live:
  assumes ctx: "cached_ctx ctx S view life" and i: "get_field data ''identifier'' = Str i"
    and e: "get_field (verification_row clk i data) ''expiresAt'' = DateV er e" and lives: "now_ms clk 2 + 1000 \<le> e"
  obtains q y where "createVerificationValue ctx clk data s = (Inr y, with_sec q s)"
    "view q = (view (rq_sec s))(cache_key i \<mapsto> CVerification (stringify (verification_row clk i data)))"
proof -
  note c = cached_ctxD[OF ctx]
  obtain q where "mirror_verification ctx S (now_ms clk 2) i (verification_row clk i data) s =
      (Inr (Some (verification_row clk i data)), with_sec q s)"
    "view q = (view (rq_sec s))(cache_key i \<mapsto> CVerification (stringify (verification_row clk i data)))"
  proof -
    obtain q where "ss_set S (cache_key i) (CVerification (stringify (verification_row clk i data)))
        (Some (getTTLSeconds e (now_ms clk 2))) (rq_sec s) = (Inr (), q)"
      "view q = (view (rq_sec s))(cache_key i \<mapsto> CVerification (stringify (verification_row clk i data)))"
      by (rule secondary_storage.set_run[OF c(2)])
    with lives show thesis
      by (intro that[of q]) (simp_all add: mirror_verification_def e getTTLSeconds_pos Let_def bindA_def sec_run)
  qed
  with c i show thesis
    by (intro that) (simp_all add: createVerificationValue_def create_no_hooks identifier_of_def)
qed

lemma otp_row_fields:
  "get_field (verification_row clk (otp_key key) (otp_data key otp n e)) ''value'' = Str (otp_value otp n)"
  "get_field (verification_row clk (otp_key key) (otp_data key otp n e)) ''expiresAt'' = e"
  "distinct (map fst (verification_row clk (otp_key key) (otp_data key otp n e)))"
proof -
  have d: "distinct (map fst (otp_data key otp n e))" "''createdAt'' \<notin> fst ` set (otp_data key otp n e)"
    by (simp_all add: otp_data_def)
  note f = verification_row_fields[OF d]
  show "get_field (verification_row clk (otp_key key) (otp_data key otp n e)) ''value'' = Str (otp_value otp n)"
    "get_field (verification_row clk (otp_key key) (otp_data key otp n e)) ''expiresAt'' = e"
    "distinct (map fst (verification_row clk (otp_key key) (otp_data key otp n e)))"
    by (simp_all add: f) (simp_all add: otp_data_def)
qed

lemma otp_row_taken:
  assumes "0 \<le> n" and "now_ms clk' 1 \<le> e"
  obtains r where "taken ctx clk' (Some (CVerification (stringify
      (verification_row clk (otp_key key) (otp_data key otp n (DateV i e)))))) = Some r"
    "get_field r ''value'' = Str (otp_value otp n)"
proof -
  let ?row = "stringify (verification_row clk (otp_key key) (otp_data key otp n (DateV i e)))"
  note f = otp_row_fields[of clk key otp n "DateV i e"]
  have "\<not> iso8601 (otp_value otp n)" using counter_not_iso[OF assms(1), of "Otp_counter key otp"] by simp
  then have "get_field (revive_row (ic_parseDate ctx) (fst (clk' 0)) ?row) ''value'' = Str (otp_value otp n)"
    "get_field (revive_row (ic_parseDate ctx) (fst (clk' 0)) ?row) ''expiresAt'' = DateV (fst (clk' 0)) e"
    by (simp_all add: get_revive_row get_stringify f)
  with assms(2) show thesis
    by (intro that[of "set_field (revive_row (ic_parseDate ctx) (fst (clk' 0)) ?row) ''expiresAt'' (DateV (fst (clk' 0)) e)"])
       (simp_all add: taken_def hydrateCachedVerification_def expiry_gate_def date_at_def now_ms_def)
qed

lemma right_guess:
  assumes ctx: "cached_ctx ctx S view life" and c: "CHR '':'' \<notin> set stored"
    and here: "stored_counter view (Otp_counter key stored) s = Some (CVerification (stringify
      (verification_row clk (otp_key key) (otp_data key stored 0 (DateV i e)))))"
    and lives: "now_ms clk' 1 \<le> e" and allowed: "0 < otp_allowed opts"
    and same: "decryptOrHashForComparison (to_storeOTP opts) cr stored code = Inr (a, a)"
  obtains g u where "guess_otp ctx opts cr clk' key code s = (Inr g, u)" "og_right g" "og_attempts g = 0"
    "fst (guess_otp ctx opts cr clk'' key code' u) = Inl (bad_code ''OTP_HAS_EXPIRED'')"
proof -
  let ?k = "Otp_counter key stored"
  obtain y u where take: "consumeVerificationValue ctx clk' (otp_key key) s = (y, u)" by force
  note take' = take_counter_run[OF ctx, of clk' ?k s y u, unfolded counter_id.simps, OF take]
  obtain r where r: "taken ctx clk' (stored_counter view ?k s) = Some r" "get_field r ''value'' = Str (otp_value stored 0)"
    unfolding here by (rule otp_row_taken[of 0 clk' e]) (use lives in auto)
  have parts: "otp_parts r = (stored, 0)" using r(2) c by (rule otp_parts_value) simp
  obtain z w where again: "consumeVerificationValue ctx clk'' (otp_key key) u = (z, w)" by force
  have "z = Inr None"
    using take_counter_run(1)[OF ctx, of clk'' ?k u z w, unfolded counter_id.simps, OF again] take'(2)
    by (simp add: taken_def hydrateCachedVerification_def expiry_gate_def)
  with again have "fst (guess_otp ctx opts cr clk'' key code' u) = Inl (bad_code ''OTP_HAS_EXPIRED'')"
    by (simp add: guess_otp_def bindA_def)
  moreover have "constantTimeEqual a a" unfolding constantTimeEqual_def foldl_or_zero by simp
  ultimately show thesis
    using take take'(1) r(1) parts allowed same
    by (intro that[of "\<lparr>og_otp = stored, og_attempts = 0, og_expiresAt = get_field r ''expiresAt'', og_right = True\<rparr>" u])
       (simp_all add: guess_otp_def bindA_def)
qed

definition otp_period :: "('s, 'q) two_factor_opts \<Rightarrow> int" where
  "otp_period opts = (if to_period opts = 0 then 3 else to_period opts) * 60 * 1000"

lemma send_run:
  assumes ctx: "cached_ctx ctx S view life" and send: "to_sendOTP opts = Some f" "\<And>u c q. keeps (same_sec q) (f u c)"
    and key: "request_key (ic_host ctx) rq = key"
    and store: "storeOTP (to_storeOTP opts) cr (tq_random rq) = Inr stored"
    and lives: "now_ms clk 5 + 1000 \<le> now_ms clk 2 + otp_period opts"
    and run: "send2FaOTP ctx opts cr clk rq s = (Inr (), t)"
  shows "stored_counter view (Otp_counter key stored) t = Some (CVerification (stringify
    (verification_row (\<lambda>i. clk (i + 3)) (otp_key key)
      (otp_data key stored 0 (DateV (fst (clk 2)) (now_ms clk 2 + otp_period opts))))))"
proof -
  let ?e = "DateV (fst (clk 2)) (now_ms clk 2 + otp_period opts)"
  from run send(1) obtain c u where v: "verifyTwoFactor ctx clk rq s = (Inr c, u)"
    by (auto simp: send2FaOTP_def bindA_Inr_iff)
  have c: "ch_key (ic_host ctx) c = key" using verified_request_key[OF v, of "ic_host ctx"] key by simp
  let ?data = "otp_data key stored 0 ?e" and ?clk = "\<lambda>i. clk (i + 3)"
  have i: "get_field ?data ''identifier'' = Str (otp_key key)" by (simp add: otp_data_def)
  obtain q y where put: "createVerificationValue ctx ?clk ?data u = (Inr y, with_sec q u)"
    "view q = (view (rq_sec u))(cache_key (otp_key key) \<mapsto>
       CVerification (stringify (verification_row ?clk (otp_key key) ?data)))"
    by (rule put_live[where clk = ?clk and data = ?data and s = u, OF ctx i otp_row_fields(2)])
       (use lives in \<open>simp add: now_ms_def\<close>)
  obtain z w where cb: "f (ch_user c) (tq_random rq) (with_sec q u) = (z, w)" by force
  have "rq_sec w = q" using keepsD[OF send(2) _ cb, of q] by simp
  moreover have "t = w"
    using run v store send(1) put(1) cb c
    by (cases z) (auto simp: send2FaOTP_def bindA_def Let_def catchA_def now_ms_def otp_period_def)
  ultimately show ?thesis using put(2) by (simp add: stored_counter_def)
qed

section \<open>Properties\<close>

text \<open>A sign-in with its challenge, its counter and a code that was sent.\<close>

definition tf_value :: "string \<Rightarrow> cached" where
  "tf_value v = CVerification [(''value'', Str v), (''expiresAt'', DateV 0 90000)]"

definition tf_entries :: "cached entries" where
  "tf_entries = [(''verification:c1'', tf_value ''u1'', None), (''verification:2fa-attempts-c1'', tf_value ''0'', None),
     (''verification:2fa-otp-c1'', tf_value ''123456:0'', None)]"

definition tf_user :: row where
  "tf_user = [(''id'', Str ''u1''), (''email'', Str ''a@b''), (''twoFactorEnabled'', BoolV True)]"

definition tf_account :: row where
  "tf_account = [(''id'', Str ''t1''), (''userId'', Str ''u1''), (''secret'', Str ''secret''),
     (''backupCodes'', Str ''[]''), (''verified'', BoolV True), (''failedVerificationCount'', Num 0),
     (''lockedUntil'', Null)]"

definition tf_state :: "(memdb, cached entries) stores req" where
  "tf_state = \<lparr>rq_store = \<lparr>st_db = \<lparr>tables = [''user'' \<mapsto> [(0, tf_user)], twoFactor_model \<mapsto> [(1, tf_account)]],
     next_ref = 2\<rparr>, st_sec = tf_entries\<rparr>, rq_als = True, rq_tx = False, rq_pending = []\<rparr>"

abbreviation tf_ctx :: "(memdb, cached entries) ictx" where
  "tf_ctx \<equiv> demo_ictx (Some map_storage) False"

definition tf_opts :: "(memdb, cached entries) two_factor_opts" where
  "tf_opts = \<lparr>to_lockoutEnabled = None, to_maxFailedAttempts = None, to_durationSeconds = None,
     to_allowedAttempts = 1, to_period = 0, to_storeOTP = Otp_plain, to_sendOTP = Some (\<lambda>_ _. returnA ()),
     to_storeBackupCodes = Backup_plain, to_totpDisabled = False, to_skipVerification = False,
     to_trustDeviceMaxAge = None, to_cookieMaxAge = None, to_allowPasswordless = False, to_requireFresh = False\<rparr>"

definition tf_crypto :: two_factor_crypto where
  "tf_crypto = \<lparr>tc_encrypt = (\<lambda>s. Inr (rev s)), tc_decrypt = (\<lambda>s. Inr (rev s)), tc_keyHasher = rev, tc_hmac = rev,
     tc_totp = (\<lambda>secret code. Inr (code = ''777777'')), tc_passwordMatches = (\<lambda>a b. Inr (a = b)),
     tc_parseCodes = (\<lambda>_. Some []), tc_uri = (\<lambda>s. s)\<rparr>"

definition tf_request :: "string \<Rightarrow> (memdb, cached entries) two_factor_request" where
  "tf_request code = \<lparr>tq_session = None, tq_freshSession = throwA TypeError, tq_cookie = Some ''c1'',
     tq_trustCookie = None, tq_dontRemember = False, tq_trustDevice = False, tq_disableSession = False,
     tq_code = code, tq_password = None, tq_random = ''246810'',
     tq_env = \<lparr>se_headers = None, se_id = ''s1'', se_token = ''tok''\<rparr>\<rparr>"

lemma tf_ctx_cached: "cached_ctx tf_ctx map_storage map_view map_life"
  using map_store.secondary_storage_axioms by (simp add: cached_ctx_def demo_ictx_def)

definition tf_run :: "(memdb, cached entries) attempt_run" where
  "tf_run = \<lparr>ar_state = tf_state, ar_held = [], ar_guesses = 0\<rparr>"

lemma tf_counters:
  "holds_counter (Otp_counter ''c1'' ''123456'') 0 (stored_counter map_view (Otp_counter ''c1'' ''123456'') tf_state)"
  "holds_counter (Attempt_counter ''c1'') 0 (stored_counter map_view (Attempt_counter ''c1'') tf_state)"
proof -
  have "map_of tf_entries (cache_key (otp_key ''c1'')) = Some (tf_value (otp_value ''123456'' 0), None)"
    "map_of tf_entries (cache_key (attempts_key ''c1'')) = Some (tf_value (int_to_str 0), None)"
    by code_simp+
  then show
    "holds_counter (Otp_counter ''c1'' ''123456'') 0 (stored_counter map_view (Otp_counter ''c1'' ''123456'') tf_state)"
    "holds_counter (Attempt_counter ''c1'') 0 (stored_counter map_view (Attempt_counter ''c1'') tf_state)"
    by (simp_all add: holds_counter_def stored_counter_def map_view_def tf_state_def tf_value_def)
qed

lemma tf_life:
  "0 \<le> n \<Longrightarrow> attempt_life map_view n (Otp_counter ''c1'' ''123456'') tf_run"
  "0 \<le> n \<Longrightarrow> attempt_life map_view n (Attempt_counter ''c1'') tf_run"
  using tf_counters by (simp_all add: attempt_life_def counter_life_def tf_run_def)


lemma tf_wrong_guess:
  "\<exists>r. attempt_steps tf_ctx map_view 1 (Otp_counter ''c1'' ''123456'') tf_run r \<and> ar_guesses r = 1"
proof -
  let ?k = "Otp_counter ''c1'' ''123456''" and ?clk = "\<lambda>_. (7, 100)"
  obtain y t where take: "consumeVerificationValue tf_ctx ?clk (counter_id ?k) tf_state = (y, t)" by force
  have "\<exists>c. fst (consumeVerificationValue tf_ctx ?clk (counter_id ?k) tf_state) = Inr (Some c)"
    by (rule exI[of _ "[(''value'', Str ''123456:0''), (''expiresAt'', DateV 7 90000)]"]) code_simp
  with take obtain c where c: "y = Inr (Some c)" by auto
  have "counter_read h 1 ?k c = 0" for h
    using take_counter_run(1)[OF tf_ctx_cached take] c tf_life(1)[of 1]
      counter_life_read(3)[of ?k 1 "stored_counter map_view ?k tf_state" "[]" 0 tf_ctx ?clk c h]
    by (simp add: attempt_life_def tf_run_def)
  then have "attempt_step tf_ctx map_view 1 ?k tf_run (tf_run\<lparr>ar_state := t, ar_held := (0, False) # ar_held tf_run\<rparr>)"
    by (intro attempt_step.took[where clk = ?clk and c = c]) (use take c in \<open>simp_all add: tf_run_def\<close>)
  moreover have "attempt_step tf_ctx map_view 1 ?k (tf_run\<lparr>ar_state := t, ar_held := (0, False) # ar_held tf_run\<rparr>)
      (tf_run\<lparr>ar_state := t, ar_held := [(0, True)], ar_guesses := 1\<rparr>)"
    using attempt_step.compared[where r = "tf_run\<lparr>ar_state := t, ar_held := [(0, False)]\<rparr>" and xs = "[]" and ys = "[]"
        and n = 0] by (simp add: tf_run_def)
  ultimately have "attempt_steps tf_ctx map_view 1 ?k tf_run (tf_run\<lparr>ar_state := t, ar_held := [(0, True)], ar_guesses := 1\<rparr>)"
    by (rule attempt_steps_two)
  then show ?thesis by (intro exI[of _ "tf_run\<lparr>ar_state := t, ar_held := [(0, True)], ar_guesses := 1\<rparr>"]) simp
qed








section \<open>Lockout and backup codes\<close>

text \<open>Finding the challenge only reads.\<close>

lemma verifyTwoFactor_same_db:
  assumes "cached_ctx ctx S view life" and "memory_ctx ctx cfg"
  shows "keeps (\<lambda>s. rq_db s = d) (verifyTwoFactor ctx clk rq)"
proof -
  note c = cached_ctxD[OF assms(1)]
  have sec: "keeps (\<lambda>s. rq_db s = d) (sec (ss_get S key))" for key
    by (rule keepsI) (simp add: sec_def onStore_app on_sec_app)
  have db: "keeps (\<lambda>s. rq_db s = d) (db (a_findOne (mem_adapter cfg) m ws))" for m ws
    by (rule keepsI) (simp add: db_def onStore_app on_db_app mem_findOne_app del: mem_adapter_sel)
  have "keeps (\<lambda>s. rq_db s = d) (cached_verification ctx S ref key)" for ref key
    unfolding cached_verification_def by (intro keeps_intros sec)
  then have "keeps (\<lambda>s. rq_db s = d) (findVerificationValue ctx clk i)" for i
    unfolding findVerificationValue_def c(1) option.case using c(3) by (intro keeps_intros) simp_all
  moreover have "keeps (\<lambda>s. rq_db s = d) (findUserById ctx i)" for i
    using assms(2) unfolding findUserById_def memory_ctx_def by (elim conjE, simp only:) (intro keeps_intros db)
  ultimately show ?thesis unfolding verifyTwoFactor_def by (intro keeps_intros)
qed

lemma tf_watched: "watched (rq_db tf_state) twoFactor_model ''t1'' [] tf_account []"
  by (simp add: watched_def tf_state_def mem_rows_def table_of_def wf_db_def tf_account_def tf_user_def)

lemma tf_memory: "memory_ctx tf_ctx demo_cfg"
  by (simp add: memory_ctx_def demo_ictx_def demo_cfg_def)

text \<open>An account that one failure locks.\<close>

definition strict_opts :: "(memdb, cached entries) two_factor_opts" where
  "strict_opts = tf_opts\<lparr>to_maxFailedAttempts := Some 1\<rparr>"

lemma strict_config:
  "lc_enabled (resolveAccountLockoutConfig strict_opts)" "lc_maxFailedAttempts (resolveAccountLockoutConfig strict_opts) = 1"
  "lc_enabled (resolveAccountLockoutConfig tf_opts)"
  by (simp_all add: resolveAccountLockoutConfig_def strict_opts_def tf_opts_def)

definition lr_start :: "memdb lockout_run" where
  "lr_start = \<lparr>lr_store = rq_db tf_state, lr_failures = 0, lr_pending = 0\<rparr>"

abbreviation tf_lockout_steps :: "memdb lockout_run \<Rightarrow> memdb lockout_run \<Rightarrow> bool" where
  "tf_lockout_steps \<equiv> lockout_steps (mem_adapter demo_cfg) mem_rows wf_db (hostEnv demo_cfg) 1 ''t1''"

definition locked_account :: row where
  "locked_account = [(''id'', Str ''t1''), (''userId'', Str ''u1''), (''secret'', Str ''secret''),
     (''backupCodes'', Str ''[]''), (''verified'', BoolV True), (''failedVerificationCount'', Num 1),
     (''lockedUntil'', DateV 7 900100)]"

lemma tf_locks:
  obtains v where "tf_lockout_steps lr_start v" "lr_failures v = 1" "lr_pending v = 0"
    "mem_rows (lr_store v) twoFactor_model = [locked_account]"
proof -
  have start: "lr_store lr_start = rq_db tf_state" "lr_failures lr_start = 0" "lr_pending lr_start = 0"
    by (simp_all add: lr_start_def)
  have id: "get_field tf_account ''id'' = Str ''t1''" by (simp add: tf_account_def)
  from failure_steps[OF tf_memory tf_watched id start(1) strict_config(1,2), of "\<lambda>_. (7, 100)"]
  obtain v t where v: "recordTwoFactorFailure tf_ctx strict_opts (\<lambda>_. (7, 100)) tf_account tf_state = (Inr (), t)"
    "tf_lockout_steps lr_start v" "lr_store v = rq_db t" "lr_failures v = 1" "lr_pending v = 0"
    by (auto simp: start)
  have "mem_rows (rq_db (snd (recordTwoFactorFailure tf_ctx strict_opts (\<lambda>_. (7, 100)) tf_account tf_state))) twoFactor_model =
      [locked_account]"
    by code_simp
  with v show thesis by (intro that[of v]) simp_all
qed



text \<open>
  C21. The lockout's columns keep their types on every account: through any interleaving of
  these writes, the counter is absent, null or a number that is not negative, and the end of
  the lock is absent, null or a date, whichever account a request names.
\<close>

theorem lockout_columns_stay_typed:
  assumes "lockout_steps (mem_adapter cfg) mem_rows wf_db (hostEnv cfg) N i r v" and "wf_db (lr_store r)"
    and "\<And>q. q \<in> set (mem_rows (lr_store r) twoFactor_model) \<Longrightarrow> typed_account q"
    and "q \<in> set (mem_rows (lr_store v) twoFactor_model)"
  shows "typed_account q"
  using memd.lockout_steps_typed[OF assms(1-3)] assms(4) by blast

theorem lockout_columns_stay_typed_witness:
  "\<exists>v. tf_lockout_steps lr_start v \<and> mem_rows (lr_store v) twoFactor_model = [locked_account] \<and> typed_account locked_account"
proof -
  obtain v where v: "tf_lockout_steps lr_start v" "mem_rows (lr_store v) twoFactor_model = [locked_account]"
    using tf_locks by metis
  have "mem_rows (lr_store lr_start) twoFactor_model = [tf_account]" "wf_db (lr_store lr_start)"
    using tf_watched by (simp_all add: watched_def lr_start_def)
  with lockout_columns_stay_typed[OF v(1), of locked_account] v(2) have "typed_account locked_account"
    by (simp add: typed_account_def typed_count_def typed_lock_def tf_account_def)
  with v show ?thesis by blast
qed

text \<open>
  C18. A request counts and resets exactly. \<open>recordTwoFactorFailure\<close> returns, and is a sequence
  of these writes with one failure more and no lock left to write; \<open>resetTwoFactorFailures\<close>
  returns, and is such a sequence that ends with no failures; the check for a lock is such a
  sequence too, whether it refuses, passes, or clears an expired lock.
\<close>

theorem lockout_requests_are_writes:
  assumes "memory_ctx ctx cfg" and "watched (rq_db s) twoFactor_model i pre q post"
    and "get_field a ''id'' = Str i" and "lr_store r = rq_db s"
    and "lc_enabled (resolveAccountLockoutConfig opts)" "lc_maxFailedAttempts (resolveAccountLockoutConfig opts) = N"
  shows "(\<exists>v t. recordTwoFactorFailure ctx opts clk a s = (Inr (), t) \<and>
      lockout_steps (mem_adapter cfg) mem_rows wf_db (hostEnv cfg) N i r v \<and> lr_store v = rq_db t \<and>
      lr_failures v = lr_failures r + 1 \<and> lr_pending v = lr_pending r) \<and>
    (\<exists>v t. resetTwoFactorFailures ctx opts a s = (Inr (), t) \<and>
      lockout_steps (mem_adapter cfg) mem_rows wf_db (hostEnv cfg) N i r v \<and> lr_store v = rq_db t \<and>
      lr_failures v = 0 \<and> lr_pending v = lr_pending r) \<and>
    (\<exists>v x t. assertTwoFactorNotLocked ctx opts clk a s = (x, t) \<and>
      lockout_steps (mem_adapter cfg) mem_rows wf_db (hostEnv cfg) N i r v \<and> lr_store v = rq_db t \<and>
      lr_pending v = lr_pending r)"
proof -
  obtain x t where run: "assertTwoFactorNotLocked ctx opts clk a s = (x, t)" by force
  show ?thesis
    using failure_steps[OF assms, of clk] reset_steps[OF assms(1-5), of N] assert_steps[OF assms(1,4) run, of N i] run
    by blast
qed

theorem lockout_requests_are_writes_witness:
  "\<exists>v t. recordTwoFactorFailure tf_ctx strict_opts (\<lambda>_. (7, 100)) tf_account tf_state = (Inr (), t) \<and>
     tf_lockout_steps lr_start v \<and> lr_store v = rq_db t \<and> lr_failures v = 1 \<and> lr_pending v = 0"
  using conjunct1[OF lockout_requests_are_writes[OF tf_memory tf_watched, of tf_account lr_start strict_opts 1 "\<lambda>_. (7, 100)"]]
    strict_config by (simp add: lr_start_def tf_account_def)

text \<open>
  C19. A locked account refuses every factor. While the lock of the account lies in the future,
  a sign-in's one-time code, authenticator code and backup code are each answered with
  \<open>ACCOUNT_TEMPORARILY_LOCKED\<close>, whatever the code, and nothing is written: no attempt is
  spent and no code compared.
\<close>

theorem locked_account_is_refused:
  assumes "memory_ctx ctx cfg" and "verifyTwoFactor ctx clk rq s = (Inr c, t)" "isSignIn c"
    and "watched (rq_db t) twoFactor_model i pre a post" "get_field (ch_user c) ''id'' = Str u"
    and "get_field a ''userId'' = Str u" "\<And>r. r \<in> set pre \<union> set post \<Longrightarrow> get_field r ''userId'' \<noteq> Str u"
    and "lc_enabled (resolveAccountLockoutConfig opts)"
    and "get_field a ''lockedUntil'' = DateV j e" "now_ms clk 2 < e"
    and "\<not> to_totpDisabled opts" "get_field a ''verified'' \<noteq> BoolV False"
  shows "verifyOTP ctx opts cr clk rq s = (Inl (APIError ''TOO_MANY_REQUESTS'' ''ACCOUNT_TEMPORARILY_LOCKED''), t) \<and>
    verifyTOTP ctx opts cr clk rq s = (Inl (APIError ''TOO_MANY_REQUESTS'' ''ACCOUNT_TEMPORARILY_LOCKED''), t) \<and>
    verifyBackupCodeEndpoint ctx opts cr clk rq s = (Inl (APIError ''TOO_MANY_REQUESTS'' ''ACCOUNT_TEMPORARILY_LOCKED''), t)"
proof -
  let ?e = "APIError ''TOO_MANY_REQUESTS'' ''ACCOUNT_TEMPORARILY_LOCKED''"
  have "a_findOne (mem_adapter cfg) twoFactor_model [wh_eq ''userId'' (Str u)] (rq_db t) = (Inr (Some a), rq_db t)"
    by (rule watched_find[OF assms(4)]) (use assms(6,7) in auto)
  then have found: "find_two_factor ctx (ch_user c) t = (Inr (Some a), t)"
    using assms(1,5) db_run[of "a_findOne (mem_adapter cfg) twoFactor_model [wh_eq ''userId'' (Str u)]" t]
    by (simp add: find_two_factor_def memory_ctx_def)
  have locked: "assertTwoFactorNotLocked ctx opts (\<lambda>i. clk (i + 2)) a t = (Inl ?e, t)"
    using assms(8-10) by (simp add: assertTwoFactorNotLocked_def new_date_def now_ms_def numeral_2_eq_2)
  have attempt: "open_attempt ctx opts (\<lambda>i. clk (i + 2)) missing usable c t = (Inl ?e, t)" if "usable a" for missing usable
    using found locked assms(3) that by (simp add: open_attempt_def bindA_def)
  have "otp_account ctx opts (\<lambda>i. clk (i + 2)) c t = (Inl ?e, t)"
    using found locked assms(3) by (simp add: otp_account_def bindA_def)
  with assms(2) have "verifyOTP ctx opts cr clk rq s = (Inl ?e, t)" by (simp add: verifyOTP_def bindA_def)
  moreover have "verifyTOTP ctx opts cr clk rq s = (Inl ?e, t)"
    using attempt assms(2,11,12) by (simp add: verifyTOTP_def bindA_def)
  moreover have "verifyBackupCodeEndpoint ctx opts cr clk rq s = (Inl ?e, t)"
    using attempt assms(2) by (simp add: verifyBackupCodeEndpoint_def bindA_def)
  ultimately show ?thesis by blast
qed

definition tf_locked_state :: "(memdb, cached entries) stores req" where
  "tf_locked_state = \<lparr>rq_store = \<lparr>st_db = \<lparr>tables = [''user'' \<mapsto> [(0, tf_user)], twoFactor_model \<mapsto> [(1, locked_account)]],
     next_ref = 2\<rparr>, st_sec = tf_entries\<rparr>, rq_als = True, rq_tx = False, rq_pending = []\<rparr>"

lemma tf_locked_watched: "watched (rq_db tf_locked_state) twoFactor_model ''t1'' [] locked_account []"
  by (simp add: watched_def tf_locked_state_def mem_rows_def table_of_def wf_db_def locked_account_def tf_user_def)

theorem locked_account_is_refused_witness:
  "fst (verifyTOTP tf_ctx tf_opts tf_crypto (\<lambda>_. (7, 100)) (tf_request ''777777'') tf_locked_state) =
     Inl (APIError ''TOO_MANY_REQUESTS'' ''ACCOUNT_TEMPORARILY_LOCKED'')"
proof -
  let ?rq = "tf_request ''777777''" and ?clk = "\<lambda>_. (7, 100)"
  obtain x t where run: "verifyTwoFactor tf_ctx ?clk ?rq tf_locked_state = (x, t)" by force
  have "fst (verifyTwoFactor tf_ctx ?clk ?rq tf_locked_state) = Inr (SignIn ''c1'' (DateV 7 90000) tf_user False)"
    by code_simp
  with run have x: "x = Inr (SignIn ''c1'' (DateV 7 90000) tf_user False)" by simp
  have t: "rq_db t = rq_db tf_locked_state" using keepsD[OF verifyTwoFactor_same_db[OF tf_ctx_cached tf_memory] _ run] by simp
  from locked_account_is_refused[OF tf_memory run[unfolded x] _ tf_locked_watched[folded t], of "''u1''" tf_opts 7 900100 tf_crypto]
  show ?thesis
    by (simp add: isSignIn_def strict_config locked_account_def tf_user_def now_ms_def) (simp add: tf_opts_def)
qed

text \<open>
  C20. A backup code works once. If two requests read the same account and one of them uses up
  its code, the other one's write finds that the codes have changed and is answered
  \<open>CONFLICT\<close>, with nothing written, whichever code it came with; and a request that reads the
  account from then on is told that the used code is wrong. The text that is written must read
  back as the remaining codes, and the other request's encoding must not fail.
\<close>

theorem backup_code_works_once:
  assumes "memory_ctx ctx cfg" and "watched (rq_db s) twoFactor_model i pre q post"
    and "get_field a ''id'' = Str i" "get_field a ''backupCodes'' = Str old"
    and "encodeBackupCodes (to_storeBackupCodes opts) cr remaining = Inr new"
    and "getBackupCodes (to_storeBackupCodes opts) cr new = Inr (Some remaining)"
    and "verifyBackupCode (to_storeBackupCodes opts) cr old code = Inr (True, Some remaining)"
    and "use_backup_code ctx opts cr a remaining s = (Inr (), t)"
    and "encodeBackupCodes (to_storeBackupCodes opts) cr others = Inr e"
  shows "use_backup_code ctx opts cr a others t = (Inl CONFLICT, t) \<and>
    (\<exists>q'. watched (rq_db t) twoFactor_model i pre q' post \<and> get_field q' ''backupCodes'' = Str new \<and>
       verifyBackupCode (to_storeBackupCodes opts) cr new code = Inr (False, Some remaining))"
proof -
  let ?A = "mem_adapter cfg" and ?g = "[wh_eq ''backupCodes'' (Str old)]"
  have A: "ic_adapter ctx = ?A" using assms(1) by (simp add: memory_ctx_def)
  obtain codes where codes: "getBackupCodes (to_storeBackupCodes opts) cr old = Inr (Some codes)"
    "code \<in> set codes" "remaining = filter (\<lambda>c. c \<noteq> code) codes"
    using assms(7) by (cases "getBackupCodes (to_storeBackupCodes opts) cr old")
      (auto simp: verifyBackupCode_def split: option.splits)
  note new = assms(5) and reads = assms(6) and run = assms(8)
  have "code \<notin> set remaining" by (simp add: codes(3))
  with codes(1,2) reads have changed: "new \<noteq> old" by auto
  let ?set = "Some [(''backupCodes'', Str new)]"
  let ?q = "apply_set ?set (apply_increment [] q)"
  have burn: "burn_op ?A a x d = a_incrementOne ?A twoFactor_model (wh_eq ''id'' (Str i) # ?g) []
      (Some [(''backupCodes'', Str x)]) d" for x d
    using assms(3,4) by (simp add: burn_op_def)
  have guard: "list_all (clause_holds (hostEnv cfg) q) ?g"
  proof (rule ccontr)
    assume "\<not> ?thesis"
    with watched_increment_none[OF assms(2), of ?g cfg "[]" ?set] have "burn_op ?A a new (rq_db s) = (Inr None, rq_db s)"
      by (simp add: burn)
    with db_run[of "burn_op ?A a new" s] run new A show False by (simp add: use_backup_code_def bindA_def)
  qed
  have keep: "get_field ?q ''id'' = Str i" using watchedD(4)[OF assms(2)] by (simp add: row_simps)
  obtain d where d: "burn_op ?A a new (rq_db s) = (Inr (Some ?q), d)" "watched d twoFactor_model i pre ?q post"
    unfolding burn by (rule watched_increment[OF assms(2) _ guard keep]) auto
  have t: "rq_db t = d" using db_run[of "burn_op ?A a new" s] d(1) run new A by (auto simp: use_backup_code_def bindA_def)
  have "\<not> list_all (clause_holds (hostEnv cfg) ?q) ?g" using changed by (simp add: row_simps)
  then have "burn_op ?A a e d = (Inr None, d)"
    using watched_increment_none[OF d(2), of ?g] by (simp add: burn)
  then have "use_backup_code ctx opts cr a others t = (Inl CONFLICT, t)"
    using db_run[of "burn_op ?A a e" t] t assms(9) A by (simp add: use_backup_code_def bindA_def)
  moreover have "verifyBackupCode (to_storeBackupCodes opts) cr new code = Inr (False, Some remaining)"
    using reads codes(3) by (simp add: verifyBackupCode_def)
  moreover have "get_field ?q ''backupCodes'' = Str new" by (simp add: row_simps)
  ultimately show ?thesis using d(2) t by blast
qed

text \<open>An account with two backup codes, stored as plain JSON.\<close>

definition two_codes :: string where
  "two_codes = json_codes [''aaaaa-11111'', ''bbbbb-22222'']"

definition one_code :: string where
  "one_code = json_codes [''bbbbb-22222'']"

definition coded_account :: row where
  "coded_account = [(''id'', Str ''t1''), (''userId'', Str ''u1''), (''backupCodes'', Str two_codes)]"

definition coded_state :: "(memdb, cached entries) stores req" where
  "coded_state = \<lparr>rq_store = \<lparr>st_db = \<lparr>tables = [twoFactor_model \<mapsto> [(1, coded_account)]], next_ref = 2\<rparr>,
     st_sec = []\<rparr>, rq_als = True, rq_tx = False, rq_pending = []\<rparr>"

definition coded_crypto :: two_factor_crypto where
  "coded_crypto = tf_crypto\<lparr>tc_parseCodes := (\<lambda>t. if t = two_codes then Some [''aaaaa-11111'', ''bbbbb-22222'']
     else if t = one_code then Some [''bbbbb-22222''] else None)\<rparr>"

lemma coded_watched: "watched (rq_db coded_state) twoFactor_model ''t1'' [] coded_account []"
  by (simp add: watched_def coded_state_def mem_rows_def table_of_def wf_db_def coded_account_def)

theorem backup_code_works_once_witness:
  "\<exists>t. use_backup_code tf_ctx tf_opts coded_crypto coded_account [''bbbbb-22222''] coded_state = (Inr (), t) \<and>
     use_backup_code tf_ctx tf_opts coded_crypto coded_account [''aaaaa-11111''] t = (Inl CONFLICT, t)"
proof -
  have "fst (use_backup_code tf_ctx tf_opts coded_crypto coded_account [''bbbbb-22222''] coded_state) = Inr ()" by code_simp
  then obtain t where run: "use_backup_code tf_ctx tf_opts coded_crypto coded_account [''bbbbb-22222''] coded_state = (Inr (), t)"
    by (metis prod.collapse)
  have plain: "to_storeBackupCodes tf_opts = Backup_plain" by (simp add: tf_opts_def)
  have codes: "one_code \<noteq> two_codes" by code_simp
  from backup_code_works_once[OF tf_memory coded_watched _ _ _ _ _ run, of two_codes one_code "''aaaaa-11111''"
      "[''aaaaa-11111'']" "json_codes [''aaaaa-11111'']"] codes
  have "use_backup_code tf_ctx tf_opts coded_crypto coded_account [''aaaaa-11111''] t = (Inl CONFLICT, t)"
    by (simp add: plain encodeBackupCodes_def getBackupCodes_def verifyBackupCode_def coded_account_def coded_crypto_def
        one_code_def[symmetric])
  with run show ?thesis by blast
qed

end
