(* ===== verification/OAuthClients.thy ===== *)
theory OAuthClients
  imports TwoFactor
begin

text \<open>
  The clients of the OAuth provider, \<open>packages/oauth-provider/src\<close>: how a client is found
  and authenticated, what it may ask for (\<open>utils/index.ts\<close>), and the policy of the resources
  a token is for (\<open>resources.ts\<close>).

  Hashing, encryption, the PKCE challenge, JSON, JWTs and the proof of a DPoP key are the
  functions of \<open>oauth_crypto\<close> and \<open>oauth_request\<close>. Credentials come extracted from the request
  (a secret, an assertion that was verified, or a public client's id). The process-wide
  caches are read as the request sees them; filling them is left out.
\<close>

section \<open>Options and requests\<close>

datatype token_storage =
    Tokens_hashed
  | Tokens_hash "string \<Rightarrow> string \<Rightarrow> string res"   \<comment> \<open>the token and its type\<close>
  | Tokens_unsupported

datatype secret_storage =
    Secrets_hashed
  | Secrets_hash "string \<Rightarrow> string res" "(string \<Rightarrow> string \<Rightarrow> bool res) option"
  | Secrets_encrypted
  | Secrets_decrypt "string \<Rightarrow> string res"
  | Secrets_unsupported

record ('s, 'q) client_discovery =
  cd_id :: string
  cd_matches :: "string \<Rightarrow> bool"
  cd_resolve :: "string \<Rightarrow> row option \<Rightarrow> ('s, 'q, row option) iact"

text \<open>The empty text for a prefix that is not set.\<close>

record ('s, 'q) oauth_opts =
  oo_storeTokens :: token_storage
  oo_storeClientSecret :: "secret_storage option"
  oo_disableJwtPlugin :: bool
  oo_refreshPrefix :: string
  oo_accessPrefix :: string
  oo_secretPrefix :: string
  oo_encryptRefresh :: "(string \<Rightarrow> val \<Rightarrow> string) option"  \<comment> \<open>the token and the session's id\<close>
  oo_decryptRefresh :: "(string \<Rightarrow> string res) option"
  oo_accessTokenExpiresIn :: "int option"
  oo_m2mAccessTokenExpiresIn :: "int option"
  oo_refreshTokenExpiresIn :: "int option"
  oo_scopeExpirations :: "(string \<Rightarrow> int \<Rightarrow> int option) option" \<comment> \<open>expiry of a scope, issued at\<close>
  oo_refreshTokenReuseInterval :: "int option"
  oo_grantTypes :: "string list option"
  oo_authorizeClient :: "(row \<Rightarrow> string \<Rightarrow> ('s, 'q, bool) iact) option"
  oo_enforcePerClientResources :: "bool option"
  oo_discoveries :: "('s, 'q) client_discovery list"
  oo_trustedClient :: "string \<Rightarrow> row option"             \<comment> \<open>the cache of trusted clients\<close>
  oo_cachedResource :: "string \<Rightarrow> row option"
  oo_isExtensionAuthMethod :: "val \<Rightarrow> bool"
  oo_customTokenResponseFields :: "string \<Rightarrow> string list \<Rightarrow> unit res"
  oo_userInfoResource :: string

record oauth_crypto =
  oy_hash :: "string \<Rightarrow> string"                \<comment> \<open>SHA-256, base64url without padding\<close>
  oy_encrypt :: "string \<Rightarrow> string res"
  oy_decrypt :: "string \<Rightarrow> string res"
  oy_codeChallenge :: "string \<Rightarrow> string"       \<comment> \<open>\<open>generateCodeChallenge\<close>, the S256 method\<close>

datatype credentials =
    Client_secret string string string      \<comment> \<open>the method, the id and the secret\<close>
  | Pre_verified string string              \<comment> \<open>the method and the id\<close>
  | Public_client string

section \<open>Clients\<close>

definition oauth_error :: "string \<Rightarrow> err" where
  "oauth_error code = APIError ''BAD_REQUEST'' code"

abbreviation oauthClient_model :: string where "oauthClient_model \<equiv> ''oauthClient''"

fun resolve_discovered ::
  "('s, 'q) client_discovery list \<Rightarrow> string \<Rightarrow> ('s, 'q, row option) iact"
where
  "resolve_discovered [] clientId = returnA None"
| "resolve_discovered (d # ds) clientId =
     (if \<not> cd_matches d clientId then resolve_discovered ds clientId
      else bindA (cd_resolve d clientId None) (\<lambda>resolved.
        case resolved of
          Some c \<Rightarrow> returnA (Some c)
        | None \<Rightarrow> resolve_discovered ds clientId))"

definition found_client ::
  "('s, 'q) oauth_opts \<Rightarrow> string \<Rightarrow> row option \<Rightarrow> ('s, 'q, row option) iact"
where
  "found_client opts clientId dbClient =
     (case dbClient of
        None \<Rightarrow> resolve_discovered (oo_discoveries opts) clientId
      | Some c \<Rightarrow>
          if truthy (get_field c ''clientDiscoveryId'') then
            (case find (\<lambda>d. strict_eq (Str (cd_id d)) (get_field c ''clientDiscoveryId'')) (oo_discoveries opts) of
               None \<Rightarrow> returnA None
             | Some d \<Rightarrow> if cd_matches d clientId then cd_resolve d clientId (Some c) else returnA None)
          else returnA (Some c))"

definition getClient ::
  "('s, 'q) ictx \<Rightarrow> ('s, 'q) oauth_opts \<Rightarrow> string \<Rightarrow> ('s, 'q, row option) iact"
where
  "getClient ctx opts clientId =
     (case oo_trustedClient opts clientId of
        Some c \<Rightarrow>
          if \<not> truthy (get_field c ''clientDiscoveryId'') then returnA (Some c)
          else
            bindA (db (a_findOne (ic_adapter ctx) oauthClient_model [wh_eq ''clientId'' (Str clientId)]))
              (found_client opts clientId)
      | None \<Rightarrow>
          bindA (db (a_findOne (ic_adapter ctx) oauthClient_model [wh_eq ''clientId'' (Str clientId)]))
            (found_client opts clientId))"

text \<open>A list column as the texts it holds; anything else is not a list.\<close>

definition list_of :: "val \<Rightarrow> string list option" where
  "list_of v = (case v of Arr vs \<Rightarrow> Some (map text_of vs) | _ \<Rightarrow> None)"

definition clientAllowsGrant :: "row \<Rightarrow> string \<Rightarrow> bool" where
  "clientAllowsGrant client grantType =
     (let allowedGrants = (case list_of (get_field client ''grantTypes'') of
          Some (g # gs) \<Rightarrow> g # gs | _ \<Rightarrow> [''authorization_code'']) in
      if grantType = ''refresh_token'' \<and> ''authorization_code'' \<in> set allowedGrants then True
      else grantType \<in> set allowedGrants)"

definition authorizeOAuthClient ::
  "('s, 'q) oauth_opts \<Rightarrow> row \<Rightarrow> string \<Rightarrow> ('s, 'q, unit) iact"
where
  "authorizeOAuthClient opts client grantType =
     (case oo_authorizeClient opts of
        None \<Rightarrow> returnA ()
      | Some f \<Rightarrow> bindA (f client grantType) (\<lambda>allowed.
          if allowed then returnA () else throwA (APIError ''FORBIDDEN'' ''access_denied'')))"

definition validateClientScopes :: "row \<Rightarrow> string list option \<Rightarrow> unit res" where
  "validateClientScopes client scopes =
     (case (scopes, list_of (get_field client ''scopes'')) of
        (Some ss, Some known) \<Rightarrow>
          if list_all (\<lambda>s. s \<in> set known) ss then Inr () else Inl (oauth_error ''invalid_scope'')
      | _ \<Rightarrow> Inr ())"

definition invalid_client :: "string option \<Rightarrow> err" where
  "invalid_client authMethod =
     (if authMethod = Some ''client_secret_basic'' then APIError ''UNAUTHORIZED'' ''invalid_client''
      else oauth_error ''invalid_client'')"

section \<open>Secrets\<close>

text \<open>The secret without the configured prefix, which it must have.\<close>

definition bare_secret :: "('s, 'q) oauth_opts \<Rightarrow> string \<Rightarrow> string res" where
  "bare_secret opts secret =
     (if secret \<noteq> [] \<and> oo_secretPrefix opts \<noteq> [] then
        if startsWith secret (oo_secretPrefix opts) then Inr (drop (length (oo_secretPrefix opts)) secret)
        else Inl (APIError ''UNAUTHORIZED'' ''invalid_client'')
      else Inr secret)"

definition secret_method :: "('s, 'q) oauth_opts \<Rightarrow> secret_storage" where
  "secret_method opts =
     (case oo_storeClientSecret opts of
        Some m \<Rightarrow> m | None \<Rightarrow> if oo_disableJwtPlugin opts then Secrets_encrypted else Secrets_hashed)"

definition verifyStoredClientSecret ::
  "('s, 'q) oauth_opts \<Rightarrow> oauth_crypto \<Rightarrow> string \<Rightarrow> string \<Rightarrow> bool res"
where
  "verifyStoredClientSecret opts cr stored clientSecret =
     bindR (bare_secret opts clientSecret) (\<lambda>secret.
       case secret_method opts of
         Secrets_hashed \<Rightarrow>
           Inr (secret \<noteq> [] \<and> oy_hash cr secret \<noteq> [] \<and> constantTimeEqual (oy_hash cr secret) stored)
       | Secrets_hash hash verify \<Rightarrow>
           if secret = [] then Inr False
           else (case verify of
               Some f \<Rightarrow> f secret stored
             | None \<Rightarrow> bindR (hash secret) (\<lambda>h. Inr (h \<noteq> [] \<and> constantTimeEqual h stored)))
       | Secrets_encrypted \<Rightarrow>
           (case oy_decrypt cr stored of
              Inl _ \<Rightarrow> Inr False
            | Inr d \<Rightarrow> Inr (secret \<noteq> [] \<and> constantTimeEqual d secret))
       | Secrets_decrypt decrypt \<Rightarrow>
           bindR (decrypt stored) (\<lambda>d. Inr (secret \<noteq> [] \<and> constantTimeEqual d secret))
       | Secrets_unsupported \<Rightarrow> Inl (Throw ''Unsupported verify storageMethod type''))"

text \<open>What a grant needs of the credentials: the id, the secret, whether an assertion proved the client, the method.\<close>

fun destructureCredentials ::
  "credentials option \<Rightarrow> string \<times> string option \<times> bool \<times> string option"
where
  "destructureCredentials None = ([], None, False, None)"
| "destructureCredentials (Some (Client_secret m i s)) = (i, Some s, False, Some m)"
| "destructureCredentials (Some (Pre_verified m i)) = (i, None, True, Some m)"
| "destructureCredentials (Some (Public_client i)) = (i, None, False, Some ''none'')"

text \<open>The checks of a client that an assertion has not proved.\<close>

definition check_secret ::
  "('s, 'q) oauth_opts \<Rightarrow> oauth_crypto \<Rightarrow> row \<Rightarrow> string option \<Rightarrow> string option \<Rightarrow> unit res"
where
  "check_secret opts cr client clientSecret authMethod =
     (let given = (clientSecret \<noteq> None \<and> clientSecret \<noteq> Some []) in
      if get_field client ''tokenEndpointAuthMethod'' \<noteq> Str ''none'' \<and> \<not> given then Inl (invalid_client authMethod)
      else if given \<and> \<not> truthy (get_field client ''clientSecret'') then Inl (invalid_client authMethod)
      else if given then
        bindR (verifyStoredClientSecret opts cr (text_of (get_field client ''clientSecret'')) (the clientSecret)) (\<lambda>ok.
          if ok then Inr () else Inl (invalid_client authMethod))
      else Inr ())"

definition check_client ::
  "('s, 'q) oauth_opts \<Rightarrow> oauth_crypto \<Rightarrow> string option \<Rightarrow> string list option \<Rightarrow> bool \<Rightarrow> string option \<Rightarrow>
     string option \<Rightarrow> row \<Rightarrow> row res"
where
  "check_client opts cr clientSecret scopes preVerified grantType authMethod client =
     (let registered = get_field client ''tokenEndpointAuthMethod'' in
      if truthy (get_field client ''disabled'') then Inl (invalid_client authMethod)
      else if (case authMethod of
                 Some m \<Rightarrow> m \<noteq> [] \<and> \<not> strict_eq (coalesce registered (Str ''client_secret_basic'')) (Str m)
               | None \<Rightarrow> False)
      then Inl (invalid_client authMethod)
      else if (registered = Str ''private_key_jwt'' \<or> oo_isExtensionAuthMethod opts registered) \<and> \<not> preVerified
      then Inl (oauth_error ''invalid_client'')
      else
        bindR (if preVerified then Inr () else check_secret opts cr client clientSecret authMethod) (\<lambda>_.
        bindR (validateClientScopes client scopes) (\<lambda>_.
          case grantType of
            Some g \<Rightarrow> if clientAllowsGrant client g then Inr client else Inl (oauth_error ''unauthorized_client'')
          | None \<Rightarrow> Inr client)))"

definition validateClientCredentials ::
  "('s, 'q) ictx \<Rightarrow> ('s, 'q) oauth_opts \<Rightarrow> oauth_crypto \<Rightarrow> string \<Rightarrow> string option \<Rightarrow> string list option \<Rightarrow> bool \<Rightarrow>
     string option \<Rightarrow> string option \<Rightarrow> ('s, 'q, row) iact"
where
  "validateClientCredentials ctx opts cr clientId clientSecret scopes preVerified grantType authMethod =
     bindA (getClient ctx opts clientId) (\<lambda>client.
       case client of
         None \<Rightarrow> throwA (invalid_client authMethod)
       | Some c \<Rightarrow> liftR (check_client opts cr clientSecret scopes preVerified grantType authMethod c))"

text \<open>Whether a code exchange of the client must use PKCE.\<close>

definition isPKCERequired :: "row \<Rightarrow> string list \<Rightarrow> string \<Rightarrow> bool" where
  "isPKCERequired client scopes nonce \<longleftrightarrow>
     get_field client ''tokenEndpointAuthMethod'' = Str ''none'' \<or>
     ''offline_access'' \<in> set scopes \<and> \<not> (''openid'' \<in> set scopes \<and> nonce \<noteq> []) \<or>
     truthy (coalesce (get_field client ''requirePKCE'') (BoolV True))"

section \<open>Stored tokens\<close>

definition storeToken :: "token_storage \<Rightarrow> oauth_crypto \<Rightarrow> string \<Rightarrow> string \<Rightarrow> string res" where
  "storeToken st cr token kind =
     (case st of
        Tokens_hashed \<Rightarrow> Inr (oy_hash cr token)
      | Tokens_hash f \<Rightarrow> f token kind
      | Tokens_unsupported \<Rightarrow> Inl (Throw ''storeToken: unsupported storageMethod type''))"

definition getStoredToken :: "token_storage \<Rightarrow> oauth_crypto \<Rightarrow> string \<Rightarrow> string \<Rightarrow> string res" where
  "getStoredToken st cr token kind =
     (case st of
        Tokens_hashed \<Rightarrow> Inr (oy_hash cr token)
      | Tokens_hash f \<Rightarrow> f token kind
      | Tokens_unsupported \<Rightarrow> Inl (Throw ''getStoredToken: unsupported storageMethod type''))"

text \<open>A refresh token as the client holds it.\<close>

definition encodeRefreshToken :: "('s, 'q) oauth_opts \<Rightarrow> string \<Rightarrow> val \<Rightarrow> string" where
  "encodeRefreshToken opts token sessionId =
     oo_refreshPrefix opts @ (case oo_encryptRefresh opts of Some f \<Rightarrow> f token sessionId | None \<Rightarrow> token)"

definition decodeRefreshToken :: "('s, 'q) oauth_opts \<Rightarrow> string \<Rightarrow> string res" where
  "decodeRefreshToken opts token =
     (if oo_refreshPrefix opts \<noteq> [] \<and> \<not> startsWith token (oo_refreshPrefix opts)
      then Inl (oauth_error ''invalid_token'')
      else
        let bare = drop (length (oo_refreshPrefix opts)) token in
        (case oo_decryptRefresh opts of Some f \<Rightarrow> f bare | None \<Rightarrow> Inr bare))"

section \<open>Resources\<close>

definition toResourceList :: "val \<Rightarrow> string list option" where
  "toResourceList v =
     (case v of Str t \<Rightarrow> Some [t] | Arr (r # rs) \<Rightarrow> Some (map text_of (r # rs)) | _ \<Rightarrow> None)"

text \<open>A list of texts from the callers here: the empty ones are dropped.\<close>

definition normalizeResourceParam :: "string list option \<Rightarrow> string list option" where
  "normalizeResourceParam resource =
     (case resource of
        None \<Rightarrow> None
      | Some rs \<Rightarrow> (case filter (\<lambda>r. r \<noteq> []) rs of [] \<Rightarrow> None | r # rs' \<Rightarrow> Some (r # rs')))"

text \<open>\<open>[...new Set(xs)]\<close> keeps the first of equal elements.\<close>

definition unique :: "'a list \<Rightarrow> 'a list" where
  "unique xs = rev (remdups (rev xs))"

lemma set_unique [simp]: "set (unique xs) = set xs"
  by (simp add: unique_def)

lemma distinct_unique [simp]: "distinct (unique xs)"
  by (simp add: unique_def)

record resource_policy =
  rp_audience :: "string list option"
  rp_accessTokenTtl :: "int option"
  rp_refreshTokenTtl :: "int option"
  rp_signingAlgorithm :: "val option"
  rp_signingKeyId :: "val option"
  rp_dpopRequired :: bool
  rp_effectiveScopes :: "string list"

abbreviation oauthResource_model :: string where "oauthResource_model \<equiv> ''oauthResource''"
abbreviation oauthClientResource_model :: string where "oauthClientResource_model \<equiv> ''oauthClientResource''"

definition getResource :: "('s, 'q) ictx \<Rightarrow> ('s, 'q) oauth_opts \<Rightarrow> string \<Rightarrow> ('s, 'q, row option) iact" where
  "getResource ctx opts identifier =
     (case oo_cachedResource opts identifier of
        Some r \<Rightarrow> returnA (Some r)
      | None \<Rightarrow> db (a_findOne (ic_adapter ctx) oauthResource_model [wh_eq ''identifier'' (Str identifier)]))"

text \<open>The rows of the requested resources; the userinfo endpoint has none.\<close>

fun resolve_resources ::
  "('s, 'q) ictx \<Rightarrow> ('s, 'q) oauth_opts \<Rightarrow> string list \<Rightarrow> ('s, 'q, row list) iact"
where
  "resolve_resources ctx opts [] = returnA []"
| "resolve_resources ctx opts (i # is) =
     (if i = oo_userInfoResource opts then resolve_resources ctx opts is
      else
        bindA (getResource ctx opts i) (\<lambda>found.
          case found of
            None \<Rightarrow> throwA (oauth_error ''invalid_target'')
          | Some r \<Rightarrow>
              if truthy (get_field r ''disabled'') then throwA (oauth_error ''invalid_target'')
              else bindA (resolve_resources ctx opts is) (\<lambda>rs. returnA (r # rs))))"

definition assertClientLinkedToResources ::
  "('s, 'q) ictx \<Rightarrow> string \<Rightarrow> row list \<Rightarrow> ('s, 'q, unit) iact"
where
  "assertClientLinkedToResources ctx clientId resources =
     (if resources = [] then returnA ()
      else
        bindA (db (a_findMany (ic_adapter ctx) oauthClientResource_model [wh_eq ''clientId'' (Str clientId)] None None None))
          (\<lambda>links.
            if list_all (\<lambda>r. list_ex (\<lambda>l. get_field l ''resourceId'' = get_field r ''identifier'') links) resources
            then returnA () else throwA (oauth_error ''invalid_target'')))"

text \<open>Each resource with an allow list narrows the scopes, and must leave one.\<close>

fun narrow_scopes :: "row list \<Rightarrow> string list \<Rightarrow> string list res" where
  "narrow_scopes [] scopes = Inr scopes"
| "narrow_scopes (r # rs) scopes =
     (case list_of (get_field r ''allowedScopes'') of
        None \<Rightarrow> narrow_scopes rs scopes
      | Some allowed \<Rightarrow>
          (case filter (\<lambda>s. s \<in> set allowed) scopes of
             [] \<Rightarrow> Inl (oauth_error ''invalid_scope'')
           | s # ss \<Rightarrow> narrow_scopes rs (s # ss)))"

text \<open>The least number a column declares, and the values a column pins.\<close>

definition min_column :: "string \<Rightarrow> row list \<Rightarrow> int option" where
  "min_column f rs =
     foldl (\<lambda>m r. case get_field r f of
         Num n \<Rightarrow> Some (case m of None \<Rightarrow> n | Some k \<Rightarrow> min k n)
       | _ \<Rightarrow> m) None rs"

definition pins :: "string \<Rightarrow> row list \<Rightarrow> val list" where
  "pins f rs = unique (filter truthy (map (\<lambda>r. get_field r f) rs))"

definition first_pin :: "val list \<Rightarrow> val option" where
  "first_pin vs = (case vs of [] \<Rightarrow> None | v # _ \<Rightarrow> Some v)"

definition policy_of :: "('s, 'q) oauth_opts \<Rightarrow> string list \<Rightarrow> string list \<Rightarrow> row list \<Rightarrow> resource_policy res" where
  "policy_of opts requestedResources requestedScopes resolved =
     bindR (narrow_scopes resolved requestedScopes) (\<lambda>effectiveScopes.
       let algs = pins ''signingAlgorithm'' resolved; kids = pins ''signingKeyId'' resolved in
       if length algs > 1 \<or> length kids > 1 then Inl (oauth_error ''invalid_request'')
       else Inr
         \<lparr>rp_audience = Some (unique (requestedResources @
            (if ''openid'' \<in> set requestedScopes then [oo_userInfoResource opts] else []))),
          rp_accessTokenTtl = min_column ''accessTokenTtl'' resolved,
          rp_refreshTokenTtl = min_column ''refreshTokenTtl'' resolved,
          rp_signingAlgorithm = first_pin algs, rp_signingKeyId = first_pin kids,
          rp_dpopRequired = list_ex (\<lambda>r. get_field r ''dpopBoundAccessTokensRequired'' = BoolV True) resolved,
          rp_effectiveScopes = effectiveScopes\<rparr>)"

definition resolveResourcePolicy ::
  "('s, 'q) ictx \<Rightarrow> ('s, 'q) oauth_opts \<Rightarrow> string list option \<Rightarrow> string \<Rightarrow> string list \<Rightarrow> ('s, 'q, resource_policy) iact"
where
  "resolveResourcePolicy ctx opts resource clientId requestedScopes =
     (case normalizeResourceParam resource of
        None \<Rightarrow> returnA
          \<lparr>rp_audience = None, rp_accessTokenTtl = None, rp_refreshTokenTtl = None, rp_signingAlgorithm = None,
           rp_signingKeyId = None, rp_dpopRequired = False, rp_effectiveScopes = requestedScopes\<rparr>
      | Some rs \<Rightarrow>
          bindA (resolve_resources ctx opts (unique rs)) (\<lambda>resolved.
          bindA (if (case oo_enforcePerClientResources opts of Some b \<Rightarrow> b | None \<Rightarrow> True)
                 then assertClientLinkedToResources ctx clientId resolved else returnA ()) (\<lambda>_.
            liftR (policy_of opts (unique rs) requestedScopes resolved))))"

text \<open>A resource's policy never adds a scope.\<close>

lemma narrow_scopes_subset: "narrow_scopes rs scopes = Inr es \<Longrightarrow> set es \<subseteq> set scopes"
proof (induction rs scopes rule: narrow_scopes.induct)
  case (2 r rs scopes)
  show ?case
  proof (cases "list_of (get_field r ''allowedScopes'')")
    case None
    with 2 show ?thesis by simp
  next
    case (Some allowed)
    with "2.prems" obtain s ss where f: "filter (\<lambda>s. s \<in> set allowed) scopes = s # ss"
      and "narrow_scopes rs (s # ss) = Inr es" by (auto split: list.splits)
    with "2.IH"(2)[OF Some f] have "set es \<subseteq> set (s # ss)" by simp
    also have "\<dots> = set (filter (\<lambda>s. s \<in> set allowed) scopes)" by (simp add: f)
    finally show ?thesis by auto
  qed
qed simp

lemma policy_scopes_subset:
  assumes "resolveResourcePolicy ctx opts resource clientId scopes s = (Inr p, t)"
  shows "set (rp_effectiveScopes p) \<subseteq> set scopes"
  using assms narrow_scopes_subset
  by (fastforce simp: resolveResourcePolicy_def policy_of_def bindA_Inr_iff bindR_Inr_iff Let_def
      split: option.splits if_splits)

end
