(* ===== verification/OAuthTokens.thy ===== *)
theory OAuthTokens
  imports OAuthClients
begin

text \<open>
  The tokens of the OAuth provider, \<open>packages/oauth-provider/src/token.ts\<close>: access and refresh
  tokens in the database, the rotation of a refresh token with the response that may be
  replayed for a while, the removal of a family of tokens, and what a grant issues.
\<close>

section \<open>What a request brings\<close>

text \<open>The key a token is bound to: a DPoP key's thumbprint, or a client certificate's.\<close>

datatype confirmation = Jkt string | X5t string

definition conf_val :: "confirmation option \<Rightarrow> val" where
  "conf_val c = (case c of
     None \<Rightarrow> Undef | Some (Jkt t) \<Rightarrow> Arr [Str ''jkt'', Str t] | Some (X5t t) \<Rightarrow> Arr [Str ''x5t#S256'', Str t])"

definition conf_of :: "val \<Rightarrow> confirmation option" where
  "conf_of v = (case v of
     Arr [Str k, Str t] \<Rightarrow> if k = ''jkt'' then Some (Jkt t) else if k = ''x5t#S256'' then Some (X5t t) else None
   | _ \<Rightarrow> None)"

definition getConfirmationJkt :: "confirmation option \<Rightarrow> string option" where
  "getConfirmationJkt c = (case c of Some (Jkt t) \<Rightarrow> if t = [] then None else Some t | _ \<Rightarrow> None)"

definition confirmationTokenType :: "confirmation option \<Rightarrow> string" where
  "confirmationTokenType c = (if getConfirmationJkt c \<noteq> None then ''DPoP'' else ''Bearer'')"

text \<open>What an authorization code stands for, as its JSON says; empty texts for what is missing.\<close>

record verification_value =
  vv_client_id :: string
  vv_redirect_uri :: string
  vv_scope :: "string option"
  vv_code_challenge :: string
  vv_code_challenge_method :: string
  vv_nonce :: string
  vv_dpop_jkt :: "string option"
  vv_userId :: string
  vv_sessionId :: string
  vv_referenceId :: val
  vv_authTime :: val
  vv_resource :: val
  vv_query_resource :: val
  vv_claims :: "string list"     \<comment> \<open>\<open>getRequestedUserInfoClaims\<close> of its query\<close>

record token_response =
  tr_access_token :: string
  tr_expires_in :: int
  tr_expires_at :: int
  tr_token_type :: string
  tr_refresh_token :: "string option"
  tr_scope :: "string list"
  tr_id_token :: "string option"

text \<open>The request that a rotation answered, kept beside its response.\<close>

record replay_request =
  rr_effectiveScopes :: "string list"
  rr_requestedResources :: "string list option"
  rr_confirmation :: "confirmation option"

record ('s, 'q) oauth_request =
  or_grant_type :: string
  or_credentials :: "credentials option"          \<comment> \<open>\<open>extractClientCredentials\<close>\<close>
  or_code :: string
  or_code_verifier :: string
  or_redirect_uri :: string
  or_resource :: val
  or_scope :: "string option"
  or_refresh_token :: string
  or_dpopProof :: bool
  or_verifyDpop :: "string option \<Rightarrow> ('s, 'q, string) iact" \<comment> \<open>the expected key to the proof's\<close>
  or_metadataDpop :: "row \<Rightarrow> bool"               \<comment> \<open>a client whose metadata ask for DPoP\<close>
  or_newAccess :: string                          \<comment> \<open>the tokens it draws at random\<close>
  or_newRefresh :: string
  or_parseVerification :: "string \<Rightarrow> verification_value option" \<comment> \<open>JSON and schema of a code's value\<close>
  or_writeReplay :: "replay_request \<Rightarrow> token_response \<Rightarrow> string res" \<comment> \<open>JSON, then \<open>symmetricEncrypt\<close>\<close>
  or_readReplay :: "string \<Rightarrow> (replay_request \<times> token_response) option res"
  or_signAccess :: "row \<Rightarrow> row option \<Rightarrow> string list \<Rightarrow> string list \<Rightarrow> int \<Rightarrow> confirmation option \<Rightarrow> string res"
    \<comment> \<open>client, user, audience, scopes, expiry, key\<close>
  or_signId :: "row \<Rightarrow> row \<Rightarrow> string list \<Rightarrow> string \<Rightarrow> string res"   \<comment> \<open>client, user, scopes, access token\<close>
  or_extensionGrant :: "(string \<times> ('s, 'q, token_response) iact) list"

abbreviation oauthAccessToken_model :: string where "oauthAccessToken_model \<equiv> ''oauthAccessToken''"
abbreviation oauthRefreshToken_model :: string where "oauthRefreshToken_model \<equiv> ''oauthRefreshToken''"

definition secs :: "clock \<Rightarrow> nat \<Rightarrow> int" where
  "secs clk i = now_ms clk i div 1000"

text \<open>A date column in whole seconds, or a list column; \<open>Undef\<close> for a field that is not given.\<close>

definition list_val :: "string list option \<Rightarrow> val" where
  "list_val xs = (case xs of Some ys \<Rightarrow> Arr (map Str ys) | None \<Rightarrow> Undef)"

definition claims_val :: "string list \<Rightarrow> val" where
  "claims_val cs = (if cs = [] then Undef else Arr (map Str cs))"

lemma text_of_Str [simp]: "text_of (Str t) = t"
  by (simp add: text_of_def)

lemma list_of_list_val [simp]: "list_of (list_val xs) = xs"
  by (simp add: list_of_def list_val_def comp_def split: option.split)

section \<open>Replaying a rotation\<close>

text \<open>\<open>[...new Set(values)].sort()\<close>, by code units.\<close>

fun sorted_insert :: "string \<Rightarrow> string list \<Rightarrow> string list" where
  "sorted_insert x [] = [x]"
| "sorted_insert x (y # ys) = (if str_less y x then y # sorted_insert x ys else x # y # ys)"

definition sort_texts :: "string list \<Rightarrow> string list" where
  "sort_texts xs = foldr sorted_insert xs []"

definition normalizeReplayValues :: "string list option \<Rightarrow> string list option" where
  "normalizeReplayValues values = map_option (\<lambda>xs. sort_texts (unique xs)) values"

definition sameReplayValues :: "string list option \<Rightarrow> string list option \<Rightarrow> bool" where
  "sameReplayValues left right \<longleftrightarrow>
     (case (normalizeReplayValues left, normalizeReplayValues right) of
        (Some l, Some r) \<Rightarrow> length l = length r \<and> list_all2 (=) l r
      | (None, None) \<Rightarrow> True
      | _ \<Rightarrow> False)"

definition sameConfirmation :: "confirmation option \<Rightarrow> confirmation option \<Rightarrow> bool" where
  "sameConfirmation left right \<longleftrightarrow>
     (case (left, right) of
        (None, None) \<Rightarrow> True
      | (Some (Jkt a), Some (Jkt b)) \<Rightarrow> a = b
      | (Some (X5t a), Some (X5t b)) \<Rightarrow> a = b
      | _ \<Rightarrow> False)"

definition buildReplayRequest :: "string list \<Rightarrow> string list option \<Rightarrow> confirmation option \<Rightarrow> replay_request" where
  "buildReplayRequest effectiveScopes requestedResources c =
     \<lparr>rr_effectiveScopes = sort_texts (unique effectiveScopes),
      rr_requestedResources = normalizeReplayValues requestedResources, rr_confirmation = c\<rparr>"

definition sameReplayRequest :: "replay_request \<Rightarrow> replay_request \<Rightarrow> bool" where
  "sameReplayRequest left right \<longleftrightarrow>
     sameReplayValues (Some (rr_effectiveScopes left)) (Some (rr_effectiveScopes right)) \<and>
     sameReplayValues (rr_requestedResources left) (rr_requestedResources right) \<and>
     sameConfirmation (rr_confirmation left) (rr_confirmation right)"

definition isWithinReuseInterval :: "host \<Rightarrow> val \<Rightarrow> row \<Rightarrow> bool" where
  "isWithinReuseInterval h now r \<longleftrightarrow>
     truthy (get_field r ''rotatedAt'') \<and> truthy (get_field r ''rotationReplayExpiresAt'') \<and>
     js_less_eq h now (get_field r ''rotationReplayExpiresAt'')"

definition storeRotationReplay ::
  "('s, 'q) ictx \<Rightarrow> ('s, 'q) oauth_opts \<Rightarrow> ('s, 'q) oauth_request \<Rightarrow> row \<Rightarrow> replay_request \<Rightarrow> token_response \<Rightarrow>
     ('s, 'q, unit) iact"
where
  "storeRotationReplay ctx opts rq refreshToken request response =
     (if (case oo_refreshTokenReuseInterval opts of Some n \<Rightarrow> n | None \<Rightarrow> 0) \<le> 0 then returnA ()
      else
        bindA (liftR (or_writeReplay rq request response)) (\<lambda>text.
        bindA (db (a_update (ic_adapter ctx) oauthRefreshToken_model [wh_eq ''id'' (get_field refreshToken ''id'')]
                [(''rotationReplayResponse'', Str text)])) (\<lambda>_. returnA ())))"

definition getRotationReplay ::
  "host \<Rightarrow> val \<Rightarrow> ('s, 'q) oauth_request \<Rightarrow> row \<Rightarrow> replay_request \<Rightarrow> token_response option"
where
  "getRotationReplay h now rq r request =
     (if \<not> isWithinReuseInterval h now r \<or> \<not> truthy (get_field r ''rotationReplayResponse'') then None
      else (case or_readReplay rq (text_of (get_field r ''rotationReplayResponse'')) of
          Inr (Some (request', response)) \<Rightarrow> if sameReplayRequest request' request then Some response else None
        | _ \<Rightarrow> None))"

definition replayRotationResponse :: "int \<Rightarrow> token_response \<Rightarrow> token_response" where
  "replayRotationResponse now response =
     response\<lparr>tr_expires_in := max 0 (tr_expires_at response - now)\<rparr>"

section \<open>Families of tokens\<close>

text \<open>The writes on the tables of tokens, each one atomic step of the database.\<close>

definition rotate_op :: "'s adapter \<Rightarrow> val \<Rightarrow> row \<Rightarrow> ('s, row option) act" where
  "rotate_op A i update =
     a_incrementOne A oauthRefreshToken_model [wh_eq ''id'' i, wh_eq ''revoked'' Null] [] (Some update)"

definition family :: "string \<Rightarrow> val \<Rightarrow> CleanedWhere list" where
  "family clientId userId = [wh_eq ''clientId'' (Str clientId), wh_eq ''userId'' userId]"

definition invalidateRefreshFamily ::
  "('s, 'q) ictx \<Rightarrow> string \<Rightarrow> val \<Rightarrow> ('s, 'q, unit) iact"
where
  "invalidateRefreshFamily ctx clientId userId =
     (let A = ic_adapter ctx in
      bindA (db (a_findMany A oauthRefreshToken_model (family clientId userId) None None None)) (\<lambda>refreshTokens.
      bindA (if refreshTokens = [] then returnA 0
             else db (a_deleteMany A oauthAccessToken_model
                    [wh ''refreshId'' Op_in (Arr (map (\<lambda>r. get_field r ''id'') refreshTokens))])) (\<lambda>_.
      bindA (db (a_deleteMany A oauthRefreshToken_model (family clientId userId))) (\<lambda>_. returnA ()))))"

text \<open>The adapter of the factory, whose \<open>findMany\<close> stops at a number of rows unless it is given another one.\<close>

definition default_limit :: "int \<Rightarrow> 's adapter \<Rightarrow> 's adapter" where
  "default_limit n A = A\<lparr>a_findMany := \<lambda>m ws sb lim off.
     a_findMany A m ws sb (Some (case lim of Some k \<Rightarrow> k | None \<Rightarrow> n)) off\<rparr>"

text \<open>A code that is used again: its tokens go, each failure logged only.\<close>

definition revokeTokensIssuedForAuthorizationCode ::
  "('s, 'q) ictx \<Rightarrow> string \<Rightarrow> ('s, 'q, unit) iact"
where
  "revokeTokensIssuedForAuthorizationCode ctx codeId =
     (let drop = (\<lambda>model. catchA
        (bindA (db (a_deleteMany (ic_adapter ctx) model [wh_eq ''authorizationCodeId'' (Str codeId)])) (\<lambda>_. returnA ()))
        (\<lambda>_. returnA ())) in
      bindA (drop oauthAccessToken_model) (\<lambda>_. drop oauthRefreshToken_model))"

section \<open>Creating tokens\<close>

definition date_s :: "clock \<Rightarrow> nat \<Rightarrow> int \<Rightarrow> val" where
  "date_s clk i n = DateV (fst (clk i)) (n * 1000)"

text \<open>What every token of a grant shares.\<close>

record token_issue =
  ti_client :: row
  ti_user :: "row option"
  ti_scopes :: "string list"
  ti_grantType :: string
  ti_referenceId :: val
  ti_sessionId :: val
  ti_refreshToken :: "row option"            \<comment> \<open>the token that is rotated\<close>
  ti_authTime :: val
  ti_verification :: "verification_value option"
  ti_authorizationCodeId :: val
  ti_userInfoClaims :: "string list option"
  ti_resources :: "string list option"
  ti_originalResources :: "string list option"

record grant_issuance =
  gi_audience :: "string list option"
  gi_effectiveScopes :: "string list"
  gi_accessExpires :: int
  gi_refreshExpires :: int
  gi_refreshResources :: "string list option"
  gi_dpopRequired :: bool

definition resolveResourceGrantIssuance ::
  "('s, 'q) ictx \<Rightarrow> ('s, 'q) oauth_opts \<Rightarrow> token_issue \<Rightarrow> int \<Rightarrow> int \<Rightarrow> ('s, 'q, grant_issuance) iact"
where
  "resolveResourceGrantIssuance ctx opts p iat scopeExpires =
     bindA (resolveResourcePolicy ctx opts (ti_resources p) (text_of (get_field (ti_client p) ''clientId'')) (ti_scopes p))
       (\<lambda>policy.
         let refreshDefault = (case oo_refreshTokenExpiresIn opts of Some n \<Rightarrow> n | None \<Rightarrow> 2592000) in
         returnA
           \<lparr>gi_audience = rp_audience policy, gi_effectiveScopes = rp_effectiveScopes policy,
            gi_accessExpires = min scopeExpires
              (case rp_accessTokenTtl policy of Some n \<Rightarrow> iat + n | None \<Rightarrow> scopeExpires),
            gi_refreshExpires = iat +
              (case rp_refreshTokenTtl policy of Some n \<Rightarrow> min n refreshDefault | None \<Rightarrow> refreshDefault),
            gi_refreshResources =
              (case Option.bind (ti_refreshToken p) (\<lambda>r. list_of (get_field r ''resources'')) of
                 Some rs \<Rightarrow> Some rs
               | None \<Rightarrow> (case ti_originalResources p of Some rs \<Rightarrow> Some rs | None \<Rightarrow> ti_resources p)),
            gi_dpopRequired = rp_dpopRequired policy\<rparr>)"

definition resolveDpopTokenBinding ::
  "('s, 'q) oauth_request \<Rightarrow> token_issue \<Rightarrow> grant_issuance \<Rightarrow> ('s, 'q, confirmation option) iact"
where
  "resolveDpopTokenBinding rq p g =
     (let codeJkt = Option.bind (ti_verification p) vv_dpop_jkt;
          refreshJkt = Option.bind (ti_refreshToken p) (\<lambda>r. getConfirmationJkt (conf_of (get_field r ''confirmation'')));
          given = (\<lambda>j. j \<noteq> None \<and> j \<noteq> Some []);
          required = (get_field (ti_client p) ''dpopBoundAccessTokens'' = BoolV True \<or> or_metadataDpop rq (ti_client p) \<or>
            gi_dpopRequired g \<or> given codeJkt \<or> given refreshJkt)
      in if \<not> or_dpopProof rq then (if required then throwA (oauth_error ''invalid_dpop_proof'') else returnA None)
         else
           bindA (or_verifyDpop rq (case refreshJkt of Some j \<Rightarrow> Some j | None \<Rightarrow> codeJkt)) (\<lambda>jkt.
             returnA (Some (Jkt jkt))))"

definition refresh_row ::
  "token_issue \<Rightarrow> grant_issuance \<Rightarrow> confirmation option \<Rightarrow> string list \<Rightarrow> string \<Rightarrow> val \<Rightarrow> val \<Rightarrow> row"
where
  "refresh_row p g c claims storedToken createdAt expiresAt =
     [(''token'', Str storedToken), (''clientId'', get_field (ti_client p) ''clientId''),
      (''sessionId'', ti_sessionId p), (''userId'', get_field (the (ti_user p)) ''id''),
      (''referenceId'', ti_referenceId p), (''authorizationCodeId'', ti_authorizationCodeId p),
      (''authTime'', ti_authTime p), (''confirmation'', conf_val c), (''requestedUserInfoClaims'', claims_val claims),
      (''scopes'', Arr (map Str (gi_effectiveScopes g))), (''resources'', list_val (gi_refreshResources g)),
      (''createdAt'', createdAt), (''expiresAt'', expiresAt)]"

definition rotation_update :: "('s, 'q) oauth_opts \<Rightarrow> clock \<Rightarrow> int \<Rightarrow> row" where
  "rotation_update opts clk iat =
     (let reuse = (case oo_refreshTokenReuseInterval opts of Some n \<Rightarrow> n | None \<Rightarrow> 0) in
      [(''revoked'', date_s clk 2 iat), (''rotatedAt'', date_s clk 2 iat)] @
      (if reuse > 0 then [(''rotationReplayExpiresAt'', date_s clk 3 (iat + reuse))] else []))"

text \<open>The first token of a family is inserted; a rotation first wins the old token's row.\<close>

definition createRefreshToken ::
  "('s, 'q) ictx \<Rightarrow> ('s, 'q) oauth_opts \<Rightarrow> oauth_crypto \<Rightarrow> clock \<Rightarrow> ('s, 'q) oauth_request \<Rightarrow> token_issue \<Rightarrow>
     grant_issuance \<Rightarrow> int \<Rightarrow> confirmation option \<Rightarrow> string list \<Rightarrow> ('s, 'q, val \<times> string) iact"
where
  "createRefreshToken ctx opts cr clk rq p g iat c claims =
     (let A = ic_adapter ctx; token = or_newRefresh rq in
      bindA (liftR (storeToken (oo_storeTokens opts) cr token ''refresh_token'')) (\<lambda>storedToken.
      bindA (case ti_refreshToken p of
          None \<Rightarrow> returnA ()
        | Some original \<Rightarrow>
            if \<not> truthy (get_field original ''id'') then returnA ()
            else
              bindA (db (rotate_op A (get_field original ''id'') (rotation_update opts clk iat))) (\<lambda>won.
                if won = None then throwA (oauth_error ''invalid_grant'') else returnA ())) (\<lambda>_.
      bindA (db (a_create A oauthRefreshToken_model
              (refresh_row p g c claims storedToken (date_s clk 4 iat) (date_s clk 5 (gi_refreshExpires g))))) (\<lambda>r.
        returnA (get_field r ''id'', encodeRefreshToken opts token (ti_sessionId p))))))"

definition createOpaqueAccessToken ::
  "('s, 'q) ictx \<Rightarrow> ('s, 'q) oauth_opts \<Rightarrow> oauth_crypto \<Rightarrow> clock \<Rightarrow> ('s, 'q) oauth_request \<Rightarrow> token_issue \<Rightarrow>
     grant_issuance \<Rightarrow> int \<Rightarrow> confirmation option \<Rightarrow> string list \<Rightarrow> val \<Rightarrow> ('s, 'q, string) iact"
where
  "createOpaqueAccessToken ctx opts cr clk rq p g iat c claims refreshId =
     bindA (liftR (storeToken (oo_storeTokens opts) cr (or_newAccess rq) ''access_token'')) (\<lambda>storedToken.
     bindA (db (a_create (ic_adapter ctx) oauthAccessToken_model
             [(''token'', Str storedToken), (''clientId'', get_field (ti_client p) ''clientId''),
              (''sessionId'', ti_sessionId p),
              (''userId'', case ti_user p of Some u \<Rightarrow> get_field u ''id'' | None \<Rightarrow> Undef),
              (''referenceId'', ti_referenceId p), (''authorizationCodeId'', ti_authorizationCodeId p),
              (''resources'', list_val (ti_resources p)), (''refreshId'', refreshId), (''confirmation'', conf_val c),
              (''requestedUserInfoClaims'', claims_val claims),
              (''scopes'', Arr (map Str (gi_effectiveScopes g))),
              (''createdAt'', date_s clk 6 iat), (''expiresAt'', date_s clk 7 (gi_accessExpires g))])) (\<lambda>_.
       returnA (oo_accessPrefix opts @ or_newAccess rq)))"

text \<open>\<open>Promise.all\<close> of a computation without effects and an action.\<close>

definition beside :: "'a res \<Rightarrow> ('s, 'b) act \<Rightarrow> ('s, 'a \<times> 'b) act" where
  "beside x m s = (case m s of (y, t) \<Rightarrow> (bindR x (\<lambda>a. bindR y (\<lambda>b. Inr (a, b))), t))"

lemma beside_cases:
  assumes "beside x m s = (z, t)"
  obtains y where "m s = (y, t)" "z = bindR x (\<lambda>a. bindR y (\<lambda>b. Inr (a, b)))"
  using assms by (auto simp: beside_def split: prod.splits)

section \<open>Issuing tokens\<close>

text \<open>The earliest expiry of the scopes, or the default one.\<close>

definition scope_expiry :: "('s, 'q) oauth_opts \<Rightarrow> string list \<Rightarrow> int \<Rightarrow> int \<Rightarrow> int" where
  "scope_expiry opts scopes iat defaultExp =
     (case oo_scopeExpirations opts of
        None \<Rightarrow> defaultExp
      | Some f \<Rightarrow> foldl min defaultExp (map (\<lambda>sc. case f sc iat of Some e \<Rightarrow> e | None \<Rightarrow> defaultExp) scopes))"

definition may_refresh :: "token_issue \<Rightarrow> bool" where
  "may_refresh p \<longleftrightarrow> ti_user p \<noteq> None \<and> clientAllowsGrant (ti_client p) ''refresh_token'' \<and>
     ((case Option.bind (ti_refreshToken p) (\<lambda>r. list_of (get_field r ''scopes'')) of
         Some ss \<Rightarrow> ''offline_access'' \<in> set ss | None \<Rightarrow> False) \<or>
      ''offline_access'' \<in> set (ti_scopes p))"

definition issue_claims :: "token_issue \<Rightarrow> string list" where
  "issue_claims p =
     (case ti_userInfoClaims p of
        Some cs \<Rightarrow> cs
      | None \<Rightarrow> (case Option.bind (ti_refreshToken p) (\<lambda>r. list_of (get_field r ''requestedUserInfoClaims'')) of
          Some cs \<Rightarrow> cs | None \<Rightarrow> []))"

definition issue_tokens ::
  "('s, 'q) ictx \<Rightarrow> ('s, 'q) oauth_opts \<Rightarrow> oauth_crypto \<Rightarrow> clock \<Rightarrow> ('s, 'q) oauth_request \<Rightarrow> token_issue \<Rightarrow>
     grant_issuance \<Rightarrow> int \<Rightarrow> confirmation option \<Rightarrow> ('s, 'q, string \<times> (val \<times> string) option) iact"
where
  "issue_tokens ctx opts cr clk rq p g iat c =
     (let claims = issue_claims p;
          refresh = (if may_refresh p
            then bindA (createRefreshToken ctx opts cr clk rq p g iat c claims) (\<lambda>r. returnA (Some r))
            else returnA None)
      in case gi_audience g of
          Some aud \<Rightarrow>
            if \<not> oo_disableJwtPlugin opts then
              beside (or_signAccess rq (ti_client p) (ti_user p) aud (gi_effectiveScopes g) (gi_accessExpires g) c) refresh
            else
              bindA refresh (\<lambda>r.
              bindA (createOpaqueAccessToken ctx opts cr clk rq p g iat c claims
                       (case r of Some (i, _) \<Rightarrow> i | None \<Rightarrow> Undef)) (\<lambda>a. returnA (a, r)))
        | None \<Rightarrow>
            bindA refresh (\<lambda>r.
            bindA (createOpaqueAccessToken ctx opts cr clk rq p g iat c claims
                     (case r of Some (i, _) \<Rightarrow> i | None \<Rightarrow> Undef)) (\<lambda>a. returnA (a, r))))"

definition id_token ::
  "('s, 'q) oauth_request \<Rightarrow> token_issue \<Rightarrow> grant_issuance \<Rightarrow> string \<Rightarrow> string option res"
where
  "id_token rq p g accessToken =
     (case ti_user p of
        Some u \<Rightarrow>
          if ''openid'' \<in> set (gi_effectiveScopes g)
          then bindR (or_signId rq (ti_client p) u (gi_effectiveScopes g) accessToken) (\<lambda>t. Inr (Some t))
          else Inr None
      | None \<Rightarrow> Inr None)"

definition token_answer ::
  "token_issue \<Rightarrow> grant_issuance \<Rightarrow> int \<Rightarrow> confirmation option \<Rightarrow> string \<Rightarrow> string option \<Rightarrow> string option \<Rightarrow> token_response"
where
  "token_answer p g iat c accessToken refreshToken idToken =
     \<lparr>tr_access_token = accessToken, tr_expires_in = gi_accessExpires g - iat, tr_expires_at = gi_accessExpires g,
      tr_token_type = confirmationTokenType c, tr_refresh_token = refreshToken, tr_scope = gi_effectiveScopes g,
      tr_id_token = idToken\<rparr>"

text \<open>A rotation keeps its answer beside the token that it rotated; a failure is logged only.\<close>

definition remember_rotation ::
  "('s, 'q) ictx \<Rightarrow> ('s, 'q) oauth_opts \<Rightarrow> ('s, 'q) oauth_request \<Rightarrow> token_issue \<Rightarrow> grant_issuance \<Rightarrow>
     confirmation option \<Rightarrow> (val \<times> string) option \<Rightarrow> token_response \<Rightarrow> ('s, 'q, unit) iact"
where
  "remember_rotation ctx opts rq p g c refreshed response =
     (case (ti_refreshToken p, refreshed) of
        (Some original, Some (i, _)) \<Rightarrow>
          if truthy (get_field original ''id'') \<and> truthy i
          then catchA (storeRotationReplay ctx opts rq original
                 (buildReplayRequest (gi_effectiveScopes g) (ti_resources p) c) response) (\<lambda>_. returnA ())
          else returnA ()
      | _ \<Rightarrow> returnA ())"

definition createUserTokens ::
  "('s, 'q) ictx \<Rightarrow> ('s, 'q) oauth_opts \<Rightarrow> oauth_crypto \<Rightarrow> clock \<Rightarrow> ('s, 'q) oauth_request \<Rightarrow> token_issue \<Rightarrow>
     ('s, 'q, token_response) iact"
where
  "createUserTokens ctx opts cr clk rq p =
     (let iat = secs clk 0;
          baseExpiry = (case (if ti_user p \<noteq> None then oo_accessTokenExpiresIn opts else oo_m2mAccessTokenExpiresIn opts) of
             Some n \<Rightarrow> n | None \<Rightarrow> 3600)
      in
      bindA (resolveResourceGrantIssuance ctx opts p iat (scope_expiry opts (ti_scopes p) iat (iat + baseExpiry))) (\<lambda>g.
      bindA (liftR (oo_customTokenResponseFields opts (ti_grantType p) (gi_effectiveScopes g))) (\<lambda>_.
      bindA (resolveDpopTokenBinding rq p g) (\<lambda>c.
      bindA (issue_tokens ctx opts cr clk rq p g iat c) (\<lambda>tokens.
      bindA (liftR (id_token rq p g (fst tokens))) (\<lambda>idToken.
        let response = token_answer p g iat c (fst tokens) (map_option snd (snd tokens)) idToken in
        bindA (remember_rotation ctx opts rq p g c (snd tokens) response) (\<lambda>_. returnA response)))))))"

end
