(* ===== verification/OAuthGrants.thy ===== *)
theory OAuthGrants
  imports OAuthTokens
begin

text \<open>
  The grants of the token endpoint, \<open>packages/oauth-provider/src/token.ts\<close>: an authorization
  code, client credentials, and a refresh token with the detection of its reuse; and the
  revocation of a token (\<open>revoke.ts\<close>).
\<close>

section \<open>Authorization codes\<close>

text \<open>A code is bound to its client, its redirect URI and the resources it was given for.\<close>

definition check_binding ::
  "('s, 'q) oauth_request \<Rightarrow> string \<Rightarrow> verification_value \<Rightarrow>
     (string list option \<times> string list option) res"
where
  "check_binding rq client_id v =
     (let resource = toResourceList (or_resource rq);
          stored = (case toResourceList (vv_resource v) of
              Some rs \<Rightarrow> Some rs | None \<Rightarrow> toResourceList (vv_query_resource v))
      in
      if vv_client_id v \<noteq> client_id then Inl (oauth_error ''invalid_grant'')
      else if vv_redirect_uri v \<noteq> [] \<and> or_redirect_uri rq = [] then Inl (oauth_error ''invalid_request'')
      else if vv_redirect_uri v \<noteq> or_redirect_uri rq then Inl (oauth_error ''invalid_grant'')
      else if (case (resource, stored) of (Some rs, Some ss) \<Rightarrow> \<not> list_all (\<lambda>r. r \<in> set ss) rs | _ \<Rightarrow> False)
      then Inl (oauth_error ''invalid_target'')
      else Inr (case resource of Some rs \<Rightarrow> Some rs | None \<Rightarrow> stored, stored))"

definition checkVerificationValue ::
  "('s, 'q) ictx \<Rightarrow> ('s, 'q) oauth_opts \<Rightarrow> oauth_crypto \<Rightarrow> clock \<Rightarrow> ('s, 'q) oauth_request \<Rightarrow> string \<Rightarrow>
     ('s, 'q, verification_value \<times> string list option \<times> string list option \<times> string) iact"
where
  "checkVerificationValue ctx opts cr clk rq client_id =
     bindA (liftR (storeToken (oo_storeTokens opts) cr (or_code rq) ''authorization_code'')) (\<lambda>codeId.
     bindA (consumeVerificationValue ctx clk codeId) (\<lambda>verification.
       case verification of
         None \<Rightarrow>
           bindA (revokeTokensIssuedForAuthorizationCode ctx codeId) (\<lambda>_. throwA (oauth_error ''invalid_grant''))
       | Some r \<Rightarrow>
           (case or_parseVerification rq (text_of (get_field r ''value'')) of
              None \<Rightarrow> throwA (oauth_error ''invalid_grant'')
            | Some v \<Rightarrow>
                bindA (liftR (check_binding rq client_id v)) (\<lambda>(effective, authorized).
                  returnA (v, effective, authorized, codeId)))))"

text \<open>PKCE: used in both requests or in neither, with the S256 method.\<close>

definition check_pkce :: "oauth_crypto \<Rightarrow> verification_value \<Rightarrow> string \<Rightarrow> unit res" where
  "check_pkce cr v code_verifier =
     (let inAuth = vv_code_challenge v \<noteq> []; inToken = code_verifier \<noteq> [] in
      if \<not> inAuth \<and> \<not> inToken then Inr ()
      else if inAuth \<noteq> inToken then Inl (APIError ''UNAUTHORIZED'' ''invalid_request'')
      else if vv_code_challenge_method v = ''S256'' \<and> oy_codeChallenge cr code_verifier = vv_code_challenge v
      then Inr ()
      else Inl (APIError ''UNAUTHORIZED'' ''invalid_request''))"

definition require_pkce ::
  "row \<Rightarrow> verification_value \<Rightarrow> bool \<Rightarrow> bool \<Rightarrow> bool \<Rightarrow> string list \<Rightarrow> unit res"
where
  "require_pkce client v withPkce withSecret preVerified scopes =
     (if isPKCERequired client scopes (vv_nonce v)
      then (if withPkce then Inr () else Inl (oauth_error ''invalid_request''))
      else (if withPkce \<or> withSecret \<or> preVerified then Inr () else Inl (oauth_error ''invalid_request'')))"

text \<open>\<open>session.expiresAt < new Date()\<close>, on the session of the authorization.\<close>

definition live_session ::
  "('s, 'q) ictx \<Rightarrow> clock \<Rightarrow> string \<Rightarrow> ('s, 'q, row) iact"
where
  "live_session ctx clk sessionId =
     bindA (db (a_findOne (ic_adapter ctx) ''session'' [wh_eq ''id'' (Str sessionId)])) (\<lambda>found.
       case found of
         None \<Rightarrow> throwA (oauth_error ''invalid_request'')
       | Some s \<Rightarrow>
           if js_less (ic_host ctx) (get_field s ''expiresAt'') (date_at clk 0)
           then throwA (oauth_error ''invalid_request'') else returnA s)"

text \<open>A timestamp as adapters return it: a date, milliseconds, or a text of either.\<close>

definition normalizeTimestampValue :: "('s, 'q) ictx \<Rightarrow> nat \<Rightarrow> val \<Rightarrow> val" where
  "normalizeTimestampValue ctx ref v =
     (case v of
        DateV r t \<Rightarrow> DateV r t
      | Num n \<Rightarrow> DateV ref n
      | Str s \<Rightarrow>
          if trim s = [] then Undef
          else (case str_to_number (trim s) of
              Some n \<Rightarrow> DateV ref n
            | None \<Rightarrow> (case ic_parseDate ctx (trim s) of Some n \<Rightarrow> DateV ref n | None \<Rightarrow> Undef))
      | _ \<Rightarrow> Undef)"

definition resolveSessionAuthTime :: "('s, 'q) ictx \<Rightarrow> nat \<Rightarrow> row \<Rightarrow> val" where
  "resolveSessionAuthTime ctx ref s =
     coalesce (normalizeTimestampValue ctx ref (get_field s ''createdAt''))
       (normalizeTimestampValue ctx ref (get_field s ''created_at''))"

definition find_token_user :: "('s, 'q) ictx \<Rightarrow> string \<Rightarrow> err \<Rightarrow> ('s, 'q, row) iact" where
  "find_token_user ctx userId missing =
     bindA (findUserById ctx userId) (\<lambda>user.
       case user of None \<Rightarrow> throwA missing | Some u \<Rightarrow> returnA u)"

text \<open>The client of a code and its PKCE verifier, in the order of the code.\<close>

definition check_code_client ::
  "('s, 'q) ictx \<Rightarrow> ('s, 'q) oauth_opts \<Rightarrow> oauth_crypto \<Rightarrow> string \<Rightarrow> verification_value \<Rightarrow> string list \<Rightarrow>
     string \<times> string option \<times> bool \<times> string option \<Rightarrow> ('s, 'q, row) iact"
where
  "check_code_client ctx opts cr code_verifier v scopes cred =
     (let (client_id, client_secret, preVerified, authMethod) = cred;
          withSecret = (client_secret \<noteq> None \<and> client_secret \<noteq> Some []) in
      bindA (validateClientCredentials ctx opts cr client_id client_secret (Some scopes) preVerified
               (Some ''authorization_code'') authMethod) (\<lambda>client.
      bindA (authorizeOAuthClient opts client ''authorization_code'') (\<lambda>_.
      bindA (liftR (require_pkce client v (code_verifier \<noteq> []) withSecret preVerified scopes)) (\<lambda>_.
      bindA (liftR (check_pkce cr v code_verifier)) (\<lambda>_. returnA client)))))"

definition code_session ::
  "('s, 'q) ictx \<Rightarrow> clock \<Rightarrow> verification_value \<Rightarrow> ('s, 'q, row \<times> row) iact"
where
  "code_session ctx clk v =
     (if vv_userId v = [] then throwA (oauth_error ''invalid_user'')
      else
        bindA (find_token_user ctx (vv_userId v) (oauth_error ''invalid_user'')) (\<lambda>user.
        bindA (live_session ctx clk (vv_sessionId v)) (\<lambda>live. returnA (user, live))))"

definition code_issue ::
  "('s, 'q) ictx \<Rightarrow> row \<Rightarrow> verification_value \<Rightarrow> string list \<Rightarrow> row \<Rightarrow> row \<Rightarrow> string list option \<Rightarrow>
     string list option \<Rightarrow> string \<Rightarrow> token_issue"
where
  "code_issue ctx client v scopes user live effectiveResources authorizedResources codeId =
     \<lparr>ti_client = client, ti_user = Some user, ti_scopes = scopes, ti_grantType = ''authorization_code'',
      ti_referenceId = vv_referenceId v, ti_sessionId = get_field live ''id'', ti_refreshToken = None,
      ti_authTime = (if nullish (vv_authTime v) then resolveSessionAuthTime ctx 0 live
        else normalizeTimestampValue ctx 0 (vv_authTime v)),
      ti_verification = Some v, ti_authorizationCodeId = Str codeId,
      ti_userInfoClaims = Some (vv_claims v), ti_resources = effectiveResources,
      ti_originalResources = authorizedResources\<rparr>"

text \<open>The code is used up before the client is authenticated.\<close>

definition handleAuthorizationCodeGrant ::
  "('s, 'q) ictx \<Rightarrow> ('s, 'q) oauth_opts \<Rightarrow> oauth_crypto \<Rightarrow> clock \<Rightarrow> ('s, 'q) oauth_request \<Rightarrow>
     ('s, 'q, token_response) iact"
where
  "handleAuthorizationCodeGrant ctx opts cr clk rq =
     (let (client_id, client_secret, preVerified, authMethod) = destructureCredentials (or_credentials rq);
          withSecret = (client_secret \<noteq> None \<and> client_secret \<noteq> Some []);
          withPkce = (or_code_verifier rq \<noteq> [])
      in
      if client_id = [] \<or> or_code rq = [] then throwA (oauth_error ''invalid_request'')
      else if \<not> withSecret \<and> \<not> withPkce \<and> \<not> preVerified then throwA (oauth_error ''invalid_request'')
      else
        bindA (checkVerificationValue ctx opts cr clk rq client_id) (\<lambda>(v, effectiveResources, authorizedResources, codeId).
          case vv_scope v of
            None \<Rightarrow> throwA (APIError ''INTERNAL_SERVER_ERROR'' ''invalid_scope'')
          | Some scope \<Rightarrow>
              bindA (check_code_client ctx opts cr (or_code_verifier rq) v (split_on CHR '' '' scope)
                       (client_id, client_secret, preVerified, authMethod)) (\<lambda>client.
              bindA (code_session ctx (\<lambda>i. clk (i + 3)) v) (\<lambda>(user, live).
                createUserTokens ctx opts cr (\<lambda>i. clk (i + 4)) rq
                  (code_issue ctx client v (split_on CHR '' '' scope) user live
                     effectiveResources authorizedResources codeId)))))"

section \<open>Client credentials\<close>

definition isUserDelegatedScope :: "string \<Rightarrow> bool" where
  "isUserDelegatedScope scope \<longleftrightarrow> scope \<in> {''openid'', ''profile'', ''email'', ''offline_access''}"

definition machine_scopes :: "row \<Rightarrow> string option \<Rightarrow> string list res" where
  "machine_scopes client scope =
     (case list_of (get_field client ''clientCredentialsScopes'') of
        None \<Rightarrow> Inl (oauth_error ''unauthorized_client'')
      | Some [] \<Rightarrow> Inl (oauth_error ''unauthorized_client'')
      | Some (s # ss) \<Rightarrow>
          (case scope of
             None \<Rightarrow> Inr (s # ss)
           | Some text \<Rightarrow>
               if list_ex (\<lambda>x. x \<notin> set (s # ss) \<or> isUserDelegatedScope x) (split_on CHR '' '' text)
               then Inl (oauth_error ''invalid_scope'') else Inr (split_on CHR '' '' text)))"

definition handleClientCredentialsGrant ::
  "('s, 'q) ictx \<Rightarrow> ('s, 'q) oauth_opts \<Rightarrow> oauth_crypto \<Rightarrow> clock \<Rightarrow> ('s, 'q) oauth_request \<Rightarrow>
     ('s, 'q, token_response) iact"
where
  "handleClientCredentialsGrant ctx opts cr clk rq =
     (let (client_id, client_secret, preVerified, authMethod) = destructureCredentials (or_credentials rq) in
      if client_id = [] then throwA (oauth_error ''invalid_request'')
      else
        bindA (validateClientCredentials ctx opts cr client_id client_secret None preVerified
                 (Some ''client_credentials'') authMethod) (\<lambda>client.
        bindA (authorizeOAuthClient opts client ''client_credentials'') (\<lambda>_.
          if get_field client ''tokenEndpointAuthMethod'' = Str ''none'' then throwA (oauth_error ''unauthorized_client'')
          else
            bindA (liftR (machine_scopes client (or_scope rq))) (\<lambda>scopes.
              createUserTokens ctx opts cr clk rq
                \<lparr>ti_client = client, ti_user = None, ti_scopes = scopes, ti_grantType = ''client_credentials'',
                 ti_referenceId = Undef, ti_sessionId = Undef, ti_refreshToken = None, ti_authTime = Undef,
                 ti_verification = None, ti_authorizationCodeId = Undef, ti_userInfoClaims = None,
                 ti_resources = toResourceList (or_resource rq), ti_originalResources = None\<rparr>))))"

section \<open>Refresh tokens\<close>

text \<open>The checks of the stored token before its client is authenticated.\<close>

definition check_refresh ::
  "host \<Rightarrow> val \<Rightarrow> ('s, 'q) oauth_request \<Rightarrow> string \<Rightarrow> row \<Rightarrow> unit res"
where
  "check_refresh h now rq client_id r =
     (let resources = toResourceList (or_resource rq);
          scopes = (case list_of (get_field r ''scopes'') of Some ss \<Rightarrow> ss | None \<Rightarrow> []) in
      if \<not> strict_eq (get_field r ''clientId'') (Str client_id) then Inl (oauth_error ''invalid_grant'')
      else if js_less h (get_field r ''expiresAt'') now then Inl (oauth_error ''invalid_grant'')
      else if (case (resources, list_of (get_field r ''resources'')) of
                 (Some rs, Some ss) \<Rightarrow> \<not> list_all (\<lambda>v. v \<in> set ss) rs | _ \<Rightarrow> False)
      then Inl (oauth_error ''invalid_target'')
      else if (case or_scope rq of
                 Some text \<Rightarrow> \<not> list_all (\<lambda>s. s \<in> set scopes) (split_on CHR '' '' text) | None \<Rightarrow> False)
      then Inl (oauth_error ''invalid_scope'')
      else Inr ())"

definition refresh_scopes :: "('s, 'q) oauth_request \<Rightarrow> row \<Rightarrow> string list" where
  "refresh_scopes rq r =
     (case or_scope rq of
        Some text \<Rightarrow> split_on CHR '' '' text
      | None \<Rightarrow> (case list_of (get_field r ''scopes'') of Some ss \<Rightarrow> ss | None \<Rightarrow> []))"

definition refresh_resources :: "('s, 'q) oauth_request \<Rightarrow> row \<Rightarrow> string list option" where
  "refresh_resources rq r =
     (case toResourceList (or_resource rq) of
        Some rs \<Rightarrow> Some rs | None \<Rightarrow> list_of (get_field r ''resources''))"

definition refresh_issue ::
  "('s, 'q) ictx \<Rightarrow> ('s, 'q) oauth_request \<Rightarrow> row \<Rightarrow> row option \<Rightarrow> row \<Rightarrow> token_issue"
where
  "refresh_issue ctx rq client user r =
     \<lparr>ti_client = client, ti_user = user, ti_scopes = refresh_scopes rq r, ti_grantType = ''refresh_token'',
      ti_referenceId = get_field r ''referenceId'', ti_sessionId = get_field r ''sessionId'',
      ti_refreshToken = Some r,
      ti_authTime = (if nullish (get_field r ''authTime'') then Undef
        else normalizeTimestampValue ctx 0 (get_field r ''authTime'')),
      ti_verification = None, ti_authorizationCodeId = get_field r ''authorizationCodeId'',
      ti_userInfoClaims = list_of (get_field r ''requestedUserInfoClaims''),
      ti_resources = refresh_resources rq r, ti_originalResources = None\<rparr>"

text \<open>A token that was rotated or revoked: its rotation is replayed for a while, then its family goes.\<close>

definition reused_token ::
  "('s, 'q) ictx \<Rightarrow> ('s, 'q) oauth_opts \<Rightarrow> clock \<Rightarrow> ('s, 'q) oauth_request \<Rightarrow> string \<Rightarrow> row \<Rightarrow> row \<Rightarrow>
     ('s, 'q, token_response) iact"
where
  "reused_token ctx opts clk rq client_id client r =
     (if isWithinReuseInterval (ic_host ctx) (date_at clk 0) r then
        let p = refresh_issue ctx rq client None r; iat = secs clk 1;
            exp = iat + (case oo_accessTokenExpiresIn opts of Some n \<Rightarrow> n | None \<Rightarrow> 3600) in
        bindA (resolveResourceGrantIssuance ctx opts p iat exp) (\<lambda>g.
        bindA (resolveDpopTokenBinding rq p g) (\<lambda>c.
          case getRotationReplay (ic_host ctx) (date_at clk 2) rq r
                 (buildReplayRequest (gi_effectiveScopes g) (ti_resources p) c) of
            Some response \<Rightarrow> returnA (replayRotationResponse (secs clk 3) response)
          | None \<Rightarrow> throwA (oauth_error ''invalid_grant'')))
      else
        bindA (invalidateRefreshFamily ctx client_id (get_field r ''userId'')) (\<lambda>_.
          throwA (oauth_error ''invalid_grant'')))"

text \<open>The stored token, its checks and its client, in the order of the code.\<close>

definition find_refresh ::
  "('s, 'q) ictx \<Rightarrow> ('s, 'q) oauth_opts \<Rightarrow> oauth_crypto \<Rightarrow> string \<Rightarrow> ('s, 'q, row) iact"
where
  "find_refresh ctx opts cr refresh_token =
     bindA (liftR (decodeRefreshToken opts refresh_token)) (\<lambda>token.
     bindA (liftR (getStoredToken (oo_storeTokens opts) cr token ''refresh_token'')) (\<lambda>stored.
     bindA (db (a_findOne (ic_adapter ctx) oauthRefreshToken_model [wh_eq ''token'' (Str stored)])) (\<lambda>found.
       case found of None \<Rightarrow> throwA (oauth_error ''invalid_grant'') | Some r \<Rightarrow> returnA r)))"

definition refresh_client ::
  "('s, 'q) ictx \<Rightarrow> ('s, 'q) oauth_opts \<Rightarrow> oauth_crypto \<Rightarrow> val \<Rightarrow> ('s, 'q) oauth_request \<Rightarrow>
     string \<times> string option \<times> bool \<times> string option \<Rightarrow> row \<Rightarrow> ('s, 'q, row) iact"
where
  "refresh_client ctx opts cr now rq cred r =
     (let (client_id, client_secret, preVerified, authMethod) = cred in
      bindA (liftR (check_refresh (ic_host ctx) now rq client_id r)) (\<lambda>_.
      bindA (validateClientCredentials ctx opts cr client_id client_secret (Some (refresh_scopes rq r)) preVerified
               (Some ''refresh_token'') authMethod) (\<lambda>client.
      bindA (authorizeOAuthClient opts client ''refresh_token'') (\<lambda>_. returnA client))))"

definition handleRefreshTokenGrant ::
  "('s, 'q) ictx \<Rightarrow> ('s, 'q) oauth_opts \<Rightarrow> oauth_crypto \<Rightarrow> clock \<Rightarrow> ('s, 'q) oauth_request \<Rightarrow>
     ('s, 'q, token_response) iact"
where
  "handleRefreshTokenGrant ctx opts cr clk rq =
     (let cred = destructureCredentials (or_credentials rq); client_id = fst cred in
      if client_id = [] \<or> or_refresh_token rq = [] then throwA (oauth_error ''invalid_request'')
      else
        bindA (find_refresh ctx opts cr (or_refresh_token rq)) (\<lambda>r.
        bindA (refresh_client ctx opts cr (date_at clk 0) rq cred r) (\<lambda>client.
          if truthy (get_field r ''revoked'')
          then reused_token ctx opts (\<lambda>i. clk (i + 1)) rq client_id client r
          else
            bindA (find_token_user ctx (text_of (get_field r ''userId'')) (oauth_error ''invalid_request'')) (\<lambda>user.
              createUserTokens ctx opts cr (\<lambda>i. clk (i + 1)) rq (refresh_issue ctx rq client (Some user) r)))))"

section \<open>The endpoints\<close>

definition tokenEndpoint ::
  "('s, 'q) ictx \<Rightarrow> ('s, 'q) oauth_opts \<Rightarrow> oauth_crypto \<Rightarrow> clock \<Rightarrow> ('s, 'q) oauth_request \<Rightarrow>
     ('s, 'q, token_response) iact"
where
  "tokenEndpoint ctx opts cr clk rq =
     (let grant = or_grant_type rq;
          supported = (case oo_grantTypes opts of
              Some gs \<Rightarrow> gs | None \<Rightarrow> [''authorization_code'', ''client_credentials'', ''refresh_token'']) @
            map fst (or_extensionGrant rq)
      in
      if grant \<notin> set supported then throwA (oauth_error ''unsupported_grant_type'')
      else if grant = ''authorization_code'' then handleAuthorizationCodeGrant ctx opts cr clk rq
      else if grant = ''client_credentials'' then handleClientCredentialsGrant ctx opts cr clk rq
      else if grant = ''refresh_token'' then handleRefreshTokenGrant ctx opts cr clk rq
      else (case map_of (or_extensionGrant rq) grant of
          Some handler \<Rightarrow> handler
        | None \<Rightarrow> throwA (oauth_error ''unsupported_grant_type'')))"

definition revoke_op :: "'s adapter \<Rightarrow> val \<Rightarrow> val \<Rightarrow> ('s, row option) act" where
  "revoke_op A i at =
     a_incrementOne A oauthRefreshToken_model [wh_eq ''id'' i, wh_eq ''revoked'' Null] [] (Some [(''revoked'', at)])"

definition revokeRefreshToken ::
  "('s, 'q) ictx \<Rightarrow> ('s, 'q) oauth_opts \<Rightarrow> oauth_crypto \<Rightarrow> clock \<Rightarrow> string \<Rightarrow> string \<Rightarrow> ('s, 'q, unit) iact"
where
  "revokeRefreshToken ctx opts cr clk token clientId =
     (let A = ic_adapter ctx in
      bindA (liftR (getStoredToken (oo_storeTokens opts) cr token ''refresh_token'')) (\<lambda>stored.
      bindA (db (a_findOne A oauthRefreshToken_model [wh_eq ''token'' (Str stored)])) (\<lambda>found.
        case found of
          None \<Rightarrow> throwA (oauth_error ''invalid_request'')
        | Some r \<Rightarrow>
            if truthy (get_field r ''revoked'') then invalidateRefreshFamily ctx clientId (get_field r ''userId'')
            else if \<not> truthy (get_field r ''clientId'') \<or> \<not> strict_eq (get_field r ''clientId'') (Str clientId)
            then returnA ()
            else
              bindA (db (revoke_op A (get_field r ''id'') (date_s clk 1 (secs clk 0)))) (\<lambda>won.
                if won = None then invalidateRefreshFamily ctx clientId (get_field r ''userId'')
                else
                  bindA (db (a_deleteMany A oauthAccessToken_model [wh_eq ''refreshId'' (get_field r ''id'')]))
                    (\<lambda>_. returnA ())))))"

definition revokeOpaqueAccessToken ::
  "('s, 'q) ictx \<Rightarrow> ('s, 'q) oauth_opts \<Rightarrow> oauth_crypto \<Rightarrow> string \<Rightarrow> string \<Rightarrow> ('s, 'q, unit) iact"
where
  "revokeOpaqueAccessToken ctx opts cr token clientId =
     (let A = ic_adapter ctx; prefix = oo_accessPrefix opts in
      if prefix \<noteq> [] \<and> \<not> startsWith token prefix then throwA (oauth_error ''invalid_request'')
      else
        bindA (liftR (getStoredToken (oo_storeTokens opts) cr (drop (length prefix) token) ''access_token'')) (\<lambda>stored.
        bindA (db (a_findOne A oauthAccessToken_model [wh_eq ''token'' (Str stored)])) (\<lambda>found.
          case found of
            None \<Rightarrow> throwA (oauth_error ''invalid_request'')
          | Some r \<Rightarrow>
              if \<not> truthy (get_field r ''clientId'') \<or> \<not> strict_eq (get_field r ''clientId'') (Str clientId)
              then returnA ()
              else if truthy (get_field r ''id'')
              then db (a_delete A oauthAccessToken_model [wh_eq ''id'' (get_field r ''id'')])
              else db (a_delete A oauthAccessToken_model [wh_eq ''token'' (get_field r ''token'')]))))"

end
