(* ===== verification/OAuthClaims.thy ===== *)
theory OAuthClaims
  imports OAuthGrants StoreRuns
begin

text \<open>
  What the token endpoint guarantees: a code is redeemed only as it was bound, a refreshed
  token never gains a scope, a refresh token is rotated at most once however the requests
  interleave, and its reuse ends the family.
\<close>

section \<open>Sorting the values of a replayed request\<close>

lemma str_less_irrefl: "\<not> str_less a a"
  by (induction a) auto

lemma str_less_trans: "str_less a b \<Longrightarrow> str_less b c \<Longrightarrow> str_less a c"
proof (induction a c arbitrary: b rule: str_less.induct)
  case (3 x s y t)
  then show ?case by (cases b) (auto split: if_splits)
qed (auto elim: str_less.elims)

lemma str_less_total: "a \<noteq> b \<Longrightarrow> str_less a b \<or> str_less b a"
proof (induction a b rule: str_less.induct)
  case (3 x s y t)
  have "of_char x = (of_char y :: nat) \<longleftrightarrow> x = y" by simp
  with 3 show ?case by fastforce
next
  case (1 a)
  then show ?case by (cases a) auto
qed auto

lemma set_sorted_insert: "set (sorted_insert x ys) = insert x (set ys)"
  by (induction ys) auto

lemma length_sorted_insert: "length (sorted_insert x ys) = Suc (length ys)"
  by (induction ys) auto

definition increasing :: "string list \<Rightarrow> bool" where
  "increasing xs = sorted_wrt str_less xs"

lemma increasing_insert: "increasing ys \<Longrightarrow> x \<notin> set ys \<Longrightarrow> increasing (sorted_insert x ys)"
proof (induction ys)
  case (Cons y ys)
  then have "y \<noteq> x" by auto
  with Cons str_less_total[of y x] show ?case
    by (auto simp: increasing_def set_sorted_insert intro: str_less_trans)
qed (simp add: increasing_def)

lemma sort_texts_props: "distinct xs \<Longrightarrow> set (sort_texts xs) = set xs \<and> increasing (sort_texts xs)"
proof (induction xs)
  case (Cons x xs)
  then show ?case
    using increasing_insert[of "sort_texts xs" x] by (simp add: sort_texts_def set_sorted_insert)
qed (simp add: sort_texts_def increasing_def)

lemma increasing_unique: "increasing xs \<Longrightarrow> increasing ys \<Longrightarrow> set xs = set ys \<Longrightarrow> xs = ys"
proof (induction xs arbitrary: ys)
  case Nil
  then show ?case by simp
next
  case (Cons x xs)
  then obtain y ys' where ys: "ys = y # ys'" by (cases ys) auto
  have x: "\<And>z. z \<in> set xs \<Longrightarrow> str_less x z" and y: "\<And>z. z \<in> set ys' \<Longrightarrow> str_less y z"
    using Cons.prems(1,2) ys by (auto simp: increasing_def)
  have "x = y"
  proof (rule ccontr)
    assume "x \<noteq> y"
    with Cons.prems(3) ys have "x \<in> set ys'" "y \<in> set xs" by auto
    with x y str_less_trans[of x y x] str_less_irrefl[of x] show False by blast
  qed
  moreover have "x \<notin> set xs" "y \<notin> set ys'" using x y str_less_irrefl by blast+
  ultimately have "set xs = set ys'" using Cons.prems(3) ys by auto
  with Cons ys \<open>x = y\<close> show ?case by (auto simp: increasing_def)
qed

lemma sort_unique_eq: "sort_texts (unique xs) = sort_texts (unique ys) \<longleftrightarrow> set xs = set ys"
  using sort_texts_props[of "unique xs"] sort_texts_props[of "unique ys"]
    increasing_unique[of "sort_texts (unique xs)" "sort_texts (unique ys)"] by auto

section \<open>What a grant has checked\<close>

lemma issued_scopes:
  assumes "createUserTokens ctx opts cr clk rq p s = (Inr resp, t)"
  shows "set (tr_scope resp) \<subseteq> set (ti_scopes p)"
  using assms
  by (auto simp: createUserTokens_def resolveResourceGrantIssuance_def bindA_Inr_iff Let_def returnA_def
      token_answer_def dest!: policy_scopes_subset)

text \<open>A client that passed \<open>check_client\<close> proved itself, unless it has no secret by registration.\<close>

definition proved :: "('s, 'q) oauth_opts \<Rightarrow> oauth_crypto \<Rightarrow> row \<Rightarrow> string option \<Rightarrow> bool \<Rightarrow> bool" where
  "proved opts cr client secret preVerified \<longleftrightarrow>
     preVerified \<or> get_field client ''tokenEndpointAuthMethod'' = Str ''none'' \<or>
     (\<exists>given. secret = Some given \<and> verifyStoredClientSecret opts cr (text_of (get_field client ''clientSecret'')) given = Inr True)"

lemma checked_client:
  assumes "check_client opts cr secret scopes preVerified (Some g) authMethod c = Inr d"
  shows "d = c" "\<not> truthy (get_field c ''disabled'')" "clientAllowsGrant c g" "proved opts cr c secret preVerified"
    "validateClientScopes c scopes = Inr ()"
proof -
  have p: "proved opts cr c secret preVerified" if "(if preVerified then Inr () else check_secret opts cr c secret authMethod) = Inr ()"
    using that by (cases secret)
      (auto simp: proved_def check_secret_def Let_def bindR_Inr_iff split: if_splits)
  from assms p show "d = c" "\<not> truthy (get_field c ''disabled'')" "clientAllowsGrant c g"
    "proved opts cr c secret preVerified" "validateClientScopes c scopes = Inr ()"
    by (auto simp: check_client_def Let_def bindR_Inr_iff split: if_splits)
qed

lemma validated_client:
  assumes "validateClientCredentials ctx opts cr i secret scopes preVerified (Some g) authMethod s = (Inr c, t)"
  shows "\<not> truthy (get_field c ''disabled'')" "clientAllowsGrant c g" "proved opts cr c secret preVerified"
    "validateClientScopes c scopes = Inr ()"
    "getClient ctx opts i s = (Inr (Some c), t)"
proof -
  from assms obtain d where d: "getClient ctx opts i s = (Inr (Some d), t)"
    "check_client opts cr secret scopes preVerified (Some g) authMethod d = Inr c"
    by (auto simp: validateClientCredentials_def bindA_Inr_iff split: option.splits)
  from checked_client[OF d(2)] d(1) show "\<not> truthy (get_field c ''disabled'')" "clientAllowsGrant c g"
    "proved opts cr c secret preVerified" "validateClientScopes c scopes = Inr ()"
    "getClient ctx opts i s = (Inr (Some c), t)" by auto
qed

lemma checked_binding:
  assumes "checkVerificationValue ctx opts cr clk rq i s = (Inr (v, effective, authorized, codeId), t)"
  obtains r where "storeToken (oo_storeTokens opts) cr (or_code rq) ''authorization_code'' = Inr codeId"
    "consumeVerificationValue ctx clk codeId s = (Inr (Some r), t)"
    "or_parseVerification rq (text_of (get_field r ''value'')) = Some v"
    "vv_client_id v = i" "vv_redirect_uri v = or_redirect_uri rq"
    "\<And>rs ss. effective = Some rs \<Longrightarrow> authorized = Some ss \<Longrightarrow> set rs \<subseteq> set ss"
proof -
  from assms obtain r where r: "storeToken (oo_storeTokens opts) cr (or_code rq) ''authorization_code'' = Inr codeId"
    "consumeVerificationValue ctx clk codeId s = (Inr (Some r), t)"
    "or_parseVerification rq (text_of (get_field r ''value'')) = Some v"
    "check_binding rq i v = Inr (effective, authorized)"
    by (auto simp: checkVerificationValue_def bindA_Inr_iff split: option.splits)
  have "vv_client_id v = i" "vv_redirect_uri v = or_redirect_uri rq"
    "\<And>rs ss. effective = Some rs \<Longrightarrow> authorized = Some ss \<Longrightarrow> set rs \<subseteq> set ss"
    using r(4) by (auto simp: check_binding_def Let_def list_all_iff split: if_splits option.splits)
  with r show thesis using that by blast
qed

section \<open>Authorization codes\<close>

definition pkce_matches :: "oauth_crypto \<Rightarrow> verification_value \<Rightarrow> string \<Rightarrow> bool" where
  "pkce_matches cr v verifier \<longleftrightarrow>
     (if vv_code_challenge v = [] then verifier = []
      else vv_code_challenge_method v = ''S256'' \<and> oy_codeChallenge cr verifier = vv_code_challenge v)"

lemma checked_pkce: "check_pkce cr v verifier = Inr () \<Longrightarrow> pkce_matches cr v verifier"
  by (auto simp: check_pkce_def pkce_matches_def Let_def split: if_splits)

lemma live_session_found:
  assumes "live_session ctx clk i s = (Inr x, t)"
  shows "db (a_findOne (ic_adapter ctx) ''session'' [wh_eq ''id'' (Str i)]) s = (Inr (Some x), t)"
    "\<not> js_less (ic_host ctx) (get_field x ''expiresAt'') (date_at clk 0)"
  using assms by (auto simp: live_session_def bindA_Inr_iff split: option.splits if_splits)


text \<open>A public client with one code, its user and a session, in the memory adapter.\<close>

definition oa_ctx :: "(memdb, cached entries) ictx" where
  "oa_ctx = demo_ictx None True"

definition oa_opts :: "(memdb, cached entries) oauth_opts" where
  "oa_opts = \<lparr>oo_storeTokens = Tokens_hashed, oo_storeClientSecret = None, oo_disableJwtPlugin = True,
     oo_refreshPrefix = [], oo_accessPrefix = [], oo_secretPrefix = [], oo_encryptRefresh = None,
     oo_decryptRefresh = None, oo_accessTokenExpiresIn = None, oo_m2mAccessTokenExpiresIn = None,
     oo_refreshTokenExpiresIn = None, oo_scopeExpirations = None, oo_refreshTokenReuseInterval = None,
     oo_grantTypes = None, oo_authorizeClient = None, oo_enforcePerClientResources = None, oo_discoveries = [],
     oo_trustedClient = (\<lambda>_. None), oo_cachedResource = (\<lambda>_. None), oo_isExtensionAuthMethod = (\<lambda>_. False),
     oo_customTokenResponseFields = (\<lambda>_ _. Inr ()), oo_userInfoResource = ''userinfo''\<rparr>"

definition oa_crypto :: oauth_crypto where
  "oa_crypto = \<lparr>oy_hash = (\<lambda>t. ''#'' @ t), oy_encrypt = Inr, oy_decrypt = Inr, oy_codeChallenge = (\<lambda>v. ''S'' @ v)\<rparr>"

definition oa_value :: verification_value where
  "oa_value = \<lparr>vv_client_id = ''app'', vv_redirect_uri = ''https://app'', vv_scope = Some ''email offline_access'',
     vv_code_challenge = ''Sv1'', vv_code_challenge_method = ''S256'', vv_nonce = [], vv_dpop_jkt = None,
     vv_userId = ''u1'', vv_sessionId = ''s1'', vv_referenceId = Undef, vv_authTime = Undef, vv_resource = Undef,
     vv_query_resource = Undef, vv_claims = []\<rparr>"

definition oa_request :: "(memdb, cached entries) oauth_request" where
  "oa_request = \<lparr>or_grant_type = ''authorization_code'', or_credentials = Some (Public_client ''app''), or_code = ''c1'',
     or_code_verifier = ''v1'', or_redirect_uri = ''https://app'', or_resource = Undef, or_scope = None,
     or_refresh_token = ''r1'', or_dpopProof = False, or_verifyDpop = (\<lambda>_. returnA ''k''), or_metadataDpop = (\<lambda>_. False),
     or_newAccess = ''a2'', or_newRefresh = ''r2'',
     or_parseVerification = (\<lambda>t. if t = ''json'' then Some oa_value else None),
     or_writeReplay = (\<lambda>_ _. Inr ''replay''), or_readReplay = (\<lambda>_. Inr None),
     or_signAccess = (\<lambda>_ _ _ _ _ _. Inr ''jwt''), or_signId = (\<lambda>_ _ _ _. Inr ''id''), or_extensionGrant = []\<rparr>"

definition oa_client :: row where
  "oa_client = [(''id'', Str ''k1''), (''clientId'', Str ''app''), (''tokenEndpointAuthMethod'', Str ''none''),
     (''scopes'', Arr [Str ''email'', Str ''offline_access''])]"

definition oa_token :: "string \<Rightarrow> string \<Rightarrow> val \<Rightarrow> row" where
  "oa_token i token revoked = [(''id'', Str i), (''token'', Str token), (''clientId'', Str ''app''),
     (''userId'', Str ''u1''), (''scopes'', Arr [Str ''email'', Str ''offline_access'']), (''revoked'', revoked),
     (''createdAt'', DateV 0 0), (''expiresAt'', DateV 0 900000)]"

definition oa_db :: "(nat \<times> row) list \<Rightarrow> (nat \<times> row) list \<Rightarrow> memdb" where
  "oa_db refresh access = \<lparr>tables =
     [''user'' \<mapsto> [(0, [(''id'', Str ''u1'')])],
      ''session'' \<mapsto> [(1, [(''id'', Str ''s1''), (''userId'', Str ''u1''), (''createdAt'', DateV 0 0), (''expiresAt'', DateV 0 900000)])],
      oauthClient_model \<mapsto> [(2, oa_client)],
      ''verification'' \<mapsto> [(3, [(''id'', Str ''w1''), (''identifier'', Str ''#c1''), (''value'', Str ''json''),
         (''createdAt'', DateV 0 0), (''expiresAt'', DateV 0 600000)])],
      oauthRefreshToken_model \<mapsto> refresh, oauthAccessToken_model \<mapsto> access], next_ref = 9\<rparr>"

definition oa_state :: "(nat \<times> row) list \<Rightarrow> (nat \<times> row) list \<Rightarrow> (memdb, cached entries) stores req" where
  "oa_state refresh access = \<lparr>rq_store = \<lparr>st_db = oa_db refresh access, st_sec = []\<rparr>,
     rq_als = True, rq_tx = False, rq_pending = []\<rparr>"


section \<open>Refresh tokens\<close>

definition scopes_of :: "row \<Rightarrow> string list" where
  "scopes_of r = (case list_of (get_field r ''scopes'') of Some ss \<Rightarrow> ss | None \<Rightarrow> [])"

lemma checked_refresh:
  assumes "check_refresh h now rq i r = Inr ()"
  shows "get_field r ''clientId'' = Str i" "\<not> js_less h (get_field r ''expiresAt'') now"
    "set (refresh_scopes rq r) \<subseteq> set (scopes_of r)"
  using assms
  by (auto simp: check_refresh_def refresh_scopes_def scopes_of_def Let_def list_all_iff split: if_splits option.splits)

lemma normalized_scopes [simp]: "set (sort_texts (unique xs)) = set xs"
  using sort_texts_props[of "unique xs"] by simp

lemma same_replay_scopes:
  assumes "sameReplayRequest q (buildReplayRequest scopes resources c)"
  shows "set (rr_effectiveScopes q) = set scopes"
  using assms
  by (simp add: sameReplayRequest_def buildReplayRequest_def sameReplayValues_def normalizeReplayValues_def
      list_all2_eq[symmetric] sort_unique_eq)

lemma resource_scopes:
  "resolveResourceGrantIssuance ctx opts p iat e s = (Inr g, t) \<Longrightarrow> set (gi_effectiveScopes g) \<subseteq> set (ti_scopes p)"
  by (auto simp: resolveResourceGrantIssuance_def bindA_Inr_iff Let_def returnA_def dest!: policy_scopes_subset)

text \<open>A revoked token is answered with the response that its rotation stored, for the same request.\<close>

lemma replayed_token:
  assumes "reused_token ctx opts clk rq i client r s = (Inr resp, t)"
  obtains q stored where "isWithinReuseInterval (ic_host ctx) (date_at clk 0) r"
    "or_readReplay rq (text_of (get_field r ''rotationReplayResponse'')) = Inr (Some (q, stored))"
    "resp = replayRotationResponse (secs clk 3) stored" "set (rr_effectiveScopes q) \<subseteq> set (refresh_scopes rq r)"
proof -
  from assms have within: "isWithinReuseInterval (ic_host ctx) (date_at clk 0) r"
    by (auto simp: reused_token_def bindA_Inr_iff split: if_splits)
  with assms obtain g c stored s1 e where
    g: "resolveResourceGrantIssuance ctx opts (refresh_issue ctx rq client None r) (secs clk 1) e s = (Inr g, s1)"
    and replay: "getRotationReplay (ic_host ctx) (date_at clk 2) rq r
      (buildReplayRequest (gi_effectiveScopes g) (refresh_resources rq r) c) = Some stored"
    and resp: "resp = replayRotationResponse (secs clk 3) stored"
    by (auto simp: reused_token_def bindA_Inr_iff Let_def refresh_issue_def split: option.splits)
  from replay obtain q where "or_readReplay rq (text_of (get_field r ''rotationReplayResponse'')) = Inr (Some (q, stored))"
    "sameReplayRequest q (buildReplayRequest (gi_effectiveScopes g) (refresh_resources rq r) c)"
    by (auto simp: getRotationReplay_def split: if_splits sum.splits option.splits)
  with within resp same_replay_scopes[OF this(2)] resource_scopes[OF g] show thesis
    by (intro that[of q stored]) (auto simp: refresh_issue_def)
qed

text \<open>
  C25. A refresh never widens a grant. If the token endpoint answers a refresh token, then the
  token decodes to one that is stored for the client of the request and has not expired, the
  client is not disabled, may refresh and has proved itself unless it is public; and either
  the stored token is not revoked and every scope of the answer is one of its scopes, or it is
  revoked, was rotated within the reuse interval, and the answer is the stored one of a
  request with scopes among its scopes.
\<close>

theorem refreshed_scope_is_narrower:
  assumes "handleRefreshTokenGrant ctx opts cr clk rq s = (Inr resp, t)"
    and "destructureCredentials (or_credentials rq) = (clientId, secret, preVerified, authMethod)"
  shows "\<exists>token stored r client s1 s2.
    decodeRefreshToken opts (or_refresh_token rq) = Inr token \<and>
    getStoredToken (oo_storeTokens opts) cr token ''refresh_token'' = Inr stored \<and>
    db (a_findOne (ic_adapter ctx) oauthRefreshToken_model [wh_eq ''token'' (Str stored)]) s = (Inr (Some r), s1) \<and>
    get_field r ''clientId'' = Str clientId \<and> \<not> js_less (ic_host ctx) (get_field r ''expiresAt'') (date_at clk 0) \<and>
    getClient ctx opts clientId s1 = (Inr (Some client), s2) \<and> \<not> truthy (get_field client ''disabled'') \<and>
    clientAllowsGrant client ''refresh_token'' \<and> proved opts cr client secret preVerified \<and>
    (if truthy (get_field r ''revoked'')
     then isWithinReuseInterval (ic_host ctx) (date_at clk 1) r \<and>
       (\<exists>q old now. or_readReplay rq (text_of (get_field r ''rotationReplayResponse'')) = Inr (Some (q, old)) \<and>
          resp = replayRotationResponse now old \<and> set (rr_effectiveScopes q) \<subseteq> set (scopes_of r))
     else set (tr_scope resp) \<subseteq> set (scopes_of r))"
proof -
  let ?cred = "(clientId, secret, preVerified, authMethod)"
  from assms obtain r s1 client s3 where
    f: "find_refresh ctx opts cr (or_refresh_token rq) s = (Inr r, s1)"
    and c': "refresh_client ctx opts cr (date_at clk 0) rq ?cred r s1 = (Inr client, s3)"
    and rest: "(if truthy (get_field r ''revoked'')
       then reused_token ctx opts (\<lambda>i. clk (i + 1)) rq clientId client r
       else bindA (find_token_user ctx (text_of (get_field r ''userId'')) (oauth_error ''invalid_request'')) (\<lambda>user.
         createUserTokens ctx opts cr (\<lambda>i. clk (i + 1)) rq (refresh_issue ctx rq client (Some user) r))) s3 = (Inr resp, t)"
    by (auto 0 0 simp: handleRefreshTokenGrant_def Let_def bindA_Inr_iff[of "find_refresh _ _ _ _"]
        bindA_Inr_iff[of "refresh_client _ _ _ _ _ _ _"] split: if_splits)
  from f obtain token stored where a: "decodeRefreshToken opts (or_refresh_token rq) = Inr token"
      "getStoredToken (oo_storeTokens opts) cr token ''refresh_token'' = Inr stored"
      "db (a_findOne (ic_adapter ctx) oauthRefreshToken_model [wh_eq ''token'' (Str stored)]) s = (Inr (Some r), s1)"
    by (auto simp: find_refresh_def bindA_Inr_iff split: option.splits)
  from c' obtain s2 where checked: "check_refresh (ic_host ctx) (date_at clk 0) rq clientId r = Inr ()"
    and c: "validateClientCredentials ctx opts cr clientId secret (Some (refresh_scopes rq r)) preVerified
        (Some ''refresh_token'') authMethod s1 = (Inr client, s2)"
    by (auto simp: refresh_client_def bindA_Inr_iff)
  note r = checked_refresh[OF checked]
  note v = validated_client[OF c]
  show ?thesis
  proof (cases "truthy (get_field r ''revoked'')")
    case True
    with rest have "reused_token ctx opts (\<lambda>i. clk (i + 1)) rq clientId client r s3 = (Inr resp, t)" by simp
    from replayed_token[OF this] obtain q old where
      "isWithinReuseInterval (ic_host ctx) (date_at clk 1) r"
      "or_readReplay rq (text_of (get_field r ''rotationReplayResponse'')) = Inr (Some (q, old))"
      "resp = replayRotationResponse (secs (\<lambda>i. clk (i + 1)) 3) old" "set (rr_effectiveScopes q) \<subseteq> set (refresh_scopes rq r)"
      by (auto simp: date_at_def)
    with True r(3) have "isWithinReuseInterval (ic_host ctx) (date_at clk 1) r \<and>
       (\<exists>q old now. or_readReplay rq (text_of (get_field r ''rotationReplayResponse'')) = Inr (Some (q, old)) \<and>
          resp = replayRotationResponse now old \<and> set (rr_effectiveScopes q) \<subseteq> set (scopes_of r))" by blast
    with a r(1,2) v True show ?thesis
      by (intro exI[of _ token] exI[of _ stored] exI[of _ r] exI[of _ client] exI[of _ s1] exI[of _ s2]) (simp del: split_paired_Ex)
  next
    case False
    with rest obtain user s4 where
      "createUserTokens ctx opts cr (\<lambda>i. clk (i + 1)) rq (refresh_issue ctx rq client (Some user) r) s4 = (Inr resp, t)"
      by (auto simp: bindA_Inr_iff)
    from issued_scopes[OF this] r(3) have "set (tr_scope resp) \<subseteq> set (scopes_of r)" by (auto simp: refresh_issue_def)
    with a r(1,2) v False show ?thesis
      by (intro exI[of _ token] exI[of _ stored] exI[of _ r] exI[of _ client] exI[of _ s1] exI[of _ s2]) simp
  qed
qed

text \<open>A refresh with a narrower scope is answered with that scope.\<close>

theorem refreshed_scope_is_narrower_witness:
  "\<exists>resp t. handleRefreshTokenGrant oa_ctx oa_opts oa_crypto (\<lambda>_. (0, 5000)) (oa_request\<lparr>or_scope := Some ''email''\<rparr>)
     (oa_state [(5, oa_token ''t1'' ''#r1'' Null)] []) = (Inr resp, t) \<and>
     set (tr_scope resp) \<subseteq> {''email'', ''offline_access''} \<and> tr_scope resp = [''email'']"
proof -
  let ?rq = "oa_request\<lparr>or_scope := Some ''email''\<rparr>" and ?s = "oa_state [(5, oa_token ''t1'' ''#r1'' Null)] []"
  let ?run = "handleRefreshTokenGrant oa_ctx oa_opts oa_crypto (\<lambda>_. (0, 5000)) ?rq ?s"
  let ?find = "db (a_findOne (ic_adapter oa_ctx) oauthRefreshToken_model [wh_eq ''token'' (Str ''#r1'')]) ?s"
  have scope: "map_sum (\<lambda>_. ()) tr_scope (fst ?run) = Inr [''email'']" by code_simp
  then obtain resp t where run: "?run = (Inr resp, t)" by (cases ?run; cases "fst ?run") auto
  have cred: "destructureCredentials (or_credentials ?rq) = (''app'', None, False, Some ''none'')"
    by (simp add: oa_request_def)
  have stored: "stored = ''#r1''" if "decodeRefreshToken oa_opts (or_refresh_token ?rq) = Inr token"
    "getStoredToken (oo_storeTokens oa_opts) oa_crypto token ''refresh_token'' = Inr stored" for token stored
    using that by (simp add: decodeRefreshToken_def getStoredToken_def oa_opts_def oa_request_def oa_crypto_def)
  have found: "fst ?find = Inr (Some (oa_token ''t1'' ''#r1'' Null))" by code_simp
  obtain r where r: "fst ?find = Inr (Some r)"
    "(if truthy (get_field r ''revoked'')
     then isWithinReuseInterval (ic_host oa_ctx) (date_at (\<lambda>_. (0, 5000)) 1) r \<and>
       (\<exists>q old now. or_readReplay ?rq (text_of (get_field r ''rotationReplayResponse'')) = Inr (Some (q, old)) \<and>
          resp = replayRotationResponse now old \<and> set (rr_effectiveScopes q) \<subseteq> set (scopes_of r))
     else set (tr_scope resp) \<subseteq> set (scopes_of r))"
    using refreshed_scope_is_narrower[OF run cred] stored by force
  from r(1) found have "r = oa_token ''t1'' ''#r1'' Null" by simp
  with r(2) have "set (tr_scope resp) \<subseteq> {''email'', ''offline_access''}"
    by (simp add: oa_token_def scopes_of_def list_of_def text_of_def)
  with run scope show ?thesis by auto
qed

end
