(* ===== verification/OAuthRuns.thy ===== *)
theory OAuthRuns
  imports OAuthGrants StoreRuns
begin

text \<open>
  Refresh tokens under concurrent requests: the interleaving of the writes on their table,
  what every interleaving keeps of a token that was rotated or revoked, and that the requests
  of the provider are sequences of these writes.
\<close>

section \<open>The writes of concurrent requests\<close>

text \<open>The columns of a rotation or a revocation, beside \<open>revoked\<close> itself.\<close>

definition rotation_fields :: "string list" where
  "rotation_fields = [''rotatedAt'', ''rotationReplayExpiresAt'']"

inductive token_step ::
  "'s adapter \<Rightarrow> ('s \<Rightarrow> string \<Rightarrow> row list) \<Rightarrow> ('s \<Rightarrow> bool) \<Rightarrow> string \<Rightarrow> 's \<Rightarrow> 's \<Rightarrow> bool"
  for A rows ok i
where
  rotated: "rotate_op A k ((''revoked'', DateV j e) # up) s = (x, t) \<Longrightarrow> set (map fst up) \<subseteq> set rotation_fields \<Longrightarrow>
     token_step A rows ok i s t"
| replayed: "a_update A oauthRefreshToken_model [wh_eq ''id'' k] [(''rotationReplayResponse'', v)] s = (x, t) \<Longrightarrow>
     token_step A rows ok i s t"
| created: "a_create A oauthRefreshToken_model d s = (Inr q, t) \<Longrightarrow> get_field q ''id'' \<noteq> Str i \<Longrightarrow>
     token_step A rows ok i s t"
| removed: "a_deleteMany A oauthRefreshToken_model ws s = (n, t) \<Longrightarrow> token_step A rows ok i s t"
| elsewhere: "ok t \<Longrightarrow> rows t oauthRefreshToken_model = rows s oauthRefreshToken_model \<Longrightarrow> token_step A rows ok i s t"

abbreviation token_steps ::
  "'s adapter \<Rightarrow> ('s \<Rightarrow> string \<Rightarrow> row list) \<Rightarrow> ('s \<Rightarrow> bool) \<Rightarrow> string \<Rightarrow> 's \<Rightarrow> 's \<Rightarrow> bool"
where
  "token_steps A rows ok i \<equiv> (token_step A rows ok i)\<^sup>*\<^sup>*"

section \<open>What every interleaving keeps\<close>

text \<open>At most one row has the id, and it is spent once it is revoked.\<close>

definition spent :: "bool \<Rightarrow> row list \<Rightarrow> bool" where
  "spent b here \<longleftrightarrow> here = [] \<or> (\<exists>q. here = [q] \<and> (b \<longrightarrow> \<not> nullish (get_field q ''revoked'')))"

definition token_life :: "('s \<Rightarrow> string \<Rightarrow> row list) \<Rightarrow> ('s \<Rightarrow> bool) \<Rightarrow> string \<Rightarrow> bool \<Rightarrow> 's \<Rightarrow> bool" where
  "token_life rows ok i b s \<longleftrightarrow> ok s \<and> spent b (rows_with_id i (rows s oauthRefreshToken_model))"

lemma spent_few:
  assumes "spent b here"
  obtains q where "here = [] \<or> here = [q]"
  using assms by (auto simp: spent_def)

lemma spent_filter: "spent b here \<Longrightarrow> spent b (filter P here)"
  by (auto simp: spent_def)

lemma spent_map: "spent b here \<Longrightarrow> (\<And>q. get_field (f q) ''revoked'' = get_field q ''revoked'') \<Longrightarrow> spent b (map f here)"
  by (auto simp: spent_def)

lemma rotation_field:
  assumes "set (map fst up) \<subseteq> set rotation_fields" and "f \<notin> set rotation_fields"
  shows "get_field (object_assign q up) f = get_field q f"
  using assms
proof (induction up arbitrary: q)
  case (Cons u up)
  then show ?case by (cases u) (auto simp: object_assign_def row_simps)
qed (simp add: object_assign_def)

lemma rotation_revokes:
  assumes "set (map fst up) \<subseteq> set rotation_fields"
  shows "get_field (object_assign q ((''revoked'', v) # up)) ''revoked'' = v"
    "get_field (object_assign q ((''revoked'', v) # up)) ''id'' = get_field q ''id''"
  using rotation_field[OF assms, of _ "set_field q ''revoked'' v"]
  by (simp_all add: object_assign_def rotation_fields_def row_simps)

context where_store
begin

text \<open>A rotation of the token \<open>i\<close> is won only on a row that was not revoked, and revokes it.\<close>

lemma rotate_rows:
  assumes ok: "ok s" and run: "rotate_op A k ((''revoked'', DateV j e) # up) s = (x, t)"
    and up: "set (map fst up) \<subseteq> set rotation_fields"
    and few: "spent b (rows_with_id i (rows s oauthRefreshToken_model))"
  shows "spent b (rows_with_id i (rows t oauthRefreshToken_model))"
    and "k = Str i \<Longrightarrow> x = Inr (Some r) \<Longrightarrow> \<not> b \<and> spent True (rows_with_id i (rows t oauthRefreshToken_model))"
proof -
  let ?u = "(''revoked'', DateV j e) # up"
  obtain q where q: "rows_with_id i (rows s oauthRefreshToken_model) = [] \<or> rows_with_id i (rows s oauthRefreshToken_model) = [q]"
    using spent_few[OF few] .
  have keep: "get_field (apply_set (Some ?u) (apply_increment [] p)) ''id'' = get_field p ''id''" for p
    using rotation_revokes(2)[OF up] by simp
  from guarded_rows_write[OF ok run[unfolded rotate_op_def] _ keep q] show
    "spent b (rows_with_id i (rows t oauthRefreshToken_model))"
    by (cases; use few rotation_revokes(1)[OF up, of q "DateV j e"] in \<open>simp add: spent_def\<close>)
  show "\<not> b \<and> spent True (rows_with_id i (rows t oauthRefreshToken_model))" if "k = Str i" "x = Inr (Some r)"
    using guarded_rows_write[OF ok run[unfolded rotate_op_def] _ keep q]
    by (cases; use that few rotation_revokes(1)[OF up, of q "DateV j e"] in \<open>auto simp: spent_def\<close>)
qed

lemma token_step_life:
  assumes step: "token_step A rows ok i s t" and life: "token_life rows ok i b s"
  shows "token_life rows ok i b t"
proof -
  have ok: "ok s" and few: "spent b (rows_with_id i (rows s oauthRefreshToken_model))"
    using life by (simp_all add: token_life_def)
  from step show ?thesis
  proof cases
    case (rotated k j e up x)
    with increment_frame[OF ok rotated(1)[unfolded rotate_op_def]] rotate_rows(1)[OF ok rotated few] show ?thesis
      by (simp add: token_life_def)
  next
    case (replayed k v x)
    have "rows_with_id i (rows t oauthRefreshToken_model) =
        map (\<lambda>q. if k = Str i \<and> (\<exists>r. x = Inr (Some r)) then object_assign q [(''rotationReplayResponse'', v)] else q)
          (rows_with_id i (rows s oauthRefreshToken_model))"
      by (rule update_by_id_rows[OF ok replayed]) (simp add: row_simps)
    with update_frame[OF ok replayed] spent_map[OF few] show ?thesis by (simp add: token_life_def row_simps)
  next
    case (created d q)
    with create_row[OF ok created(1)] create_frame[OF ok created(1)] few show ?thesis
      by (simp add: token_life_def rows_with_id_append) (simp add: rows_with_id_def)
  next
    case (removed ws n)
    with deleteMany_frame[OF ok removed] deleteMany_error[OF ok] deleteMany_rows[OF ok, of oauthRefreshToken_model ws _ t]
      spent_filter[OF few] life show ?thesis
      by (cases n) (auto simp: token_life_def rows_with_id_filter)
  next
    case elsewhere
    with few show ?thesis by (simp add: token_life_def)
  qed
qed

lemma token_steps_life:
  "token_steps A rows ok i s t \<Longrightarrow> token_life rows ok i b s \<Longrightarrow> token_life rows ok i b t"
  by (induction rule: rtranclp_induct) (blast intro: token_step_life)+

end

section \<open>The requests as sequences of writes\<close>

text \<open>A request that has reached its database from \<open>d\<close> by writes of the machine.\<close>

definition token_path ::
  "'s adapter \<Rightarrow> ('s \<Rightarrow> string \<Rightarrow> row list) \<Rightarrow> ('s \<Rightarrow> bool) \<Rightarrow> string \<Rightarrow> 's \<Rightarrow> ('s, 'q) stores req \<Rightarrow> bool"
where
  "token_path A rows ok i d s \<longleftrightarrow> ok (rq_db s) \<and> token_steps A rows ok i d (rq_db s)"

text \<open>A new row gets an id of its own.\<close>

definition new_ids :: "'s adapter \<Rightarrow> ('s \<Rightarrow> bool) \<Rightarrow> string \<Rightarrow> bool" where
  "new_ids A ok i \<longleftrightarrow> (\<forall>r s q t. ok s \<and> get_field r ''id'' = Undef \<and>
     a_create A oauthRefreshToken_model r s = (Inr q, t) \<longrightarrow> get_field q ''id'' \<noteq> Str i)"

lemma rotation_update_shape:
  "\<exists>j e up. rotation_update opts clk iat = (''revoked'', DateV j e) # up \<and> set (map fst up) \<subseteq> set rotation_fields"
  by (auto simp: rotation_update_def date_s_def Let_def rotation_fields_def)

lemma revoke_rotate: "revoke_op A k v = rotate_op A k [(''revoked'', v)]"
  by (simp add: revoke_op_def rotate_op_def)

lemma keeps_sum: "(\<And>x. c = Inl x \<Longrightarrow> keeps P (f x)) \<Longrightarrow> (\<And>y. c = Inr y \<Longrightarrow> keeps P (g y)) \<Longrightarrow>
  keeps P (case c of Inl x \<Rightarrow> f x | Inr y \<Rightarrow> g y)"
  by (cases c) simp_all

lemma keeps_beside: "keeps P m \<Longrightarrow> keeps P (beside x m)"
  by (auto simp: keeps_def beside_def split: prod.split)

context where_store
begin

lemma db_path:
  assumes "\<And>s x t. ok s \<Longrightarrow> m s = (x, t) \<Longrightarrow> ok t \<and> (t = s \<or> token_step A rows ok i s t)"
  shows "keeps (token_path A rows ok i d) (db m)"
proof
  fix s :: "('s, 'q) stores req"
  assume p: "token_path A rows ok i d s"
  obtain x t where m: "m (rq_db s) = (x, t)" by force
  with p assms[of "rq_db s" x t] have "ok t" "token_steps A rows ok i d t"
    by (auto simp: token_path_def intro: rtranclp.rtrancl_into_rtrancl)
  with db_run[of m s x t] m show "token_path A rows ok i d (snd (db m s))" by (simp add: token_path_def)
qed

lemma find_path: "keeps (token_path A rows ok i d) (db (a_findOne A m ws))"
  by (rule db_path) (auto dest: findOne_pure)

lemma findMany_path: "keeps (token_path A rows ok i d) (db (a_findMany A m ws sb lim off))"
  by (rule db_path) (auto dest: findMany_pure)

lemma rotate_path: "set (map fst up) \<subseteq> set rotation_fields \<Longrightarrow>
  keeps (token_path A rows ok i d) (db (rotate_op A k ((''revoked'', DateV j e) # up)))"
  by (rule db_path) (auto simp: rotate_op_def dest: increment_frame intro!: token_step.rotated)

lemma replay_path: "keeps (token_path A rows ok i d)
  (db (a_update A oauthRefreshToken_model [wh_eq ''id'' k] [(''rotationReplayResponse'', v)]))"
  by (rule db_path) (auto dest: update_frame intro!: token_step.replayed)

lemma create_path:
  assumes "new_ids A ok i" and "get_field r ''id'' = Undef"
  shows "keeps (token_path A rows ok i d) (db (a_create A oauthRefreshToken_model r))"
proof (rule db_path)
  fix s x t assume ok: "ok s" and run: "a_create A oauthRefreshToken_model r s = (x, t)"
  show "ok t \<and> (t = s \<or> token_step A rows ok i s t)"
  proof (cases x)
    case (Inl e)
    with create_error[OF ok] run ok show ?thesis by blast
  next
    case (Inr q)
    with assms ok run have "get_field q ''id'' \<noteq> Str i" by (auto simp: new_ids_def)
    with create_frame[OF ok run] run Inr token_step.created[of A r s q t i] show ?thesis by simp
  qed
qed

lemma create_elsewhere_path: "m \<noteq> oauthRefreshToken_model \<Longrightarrow> keeps (token_path A rows ok i d) (db (a_create A m r))"
  by (rule db_path) (auto dest: create_frame intro!: token_step.elsewhere)

lemma delete_path: "keeps (token_path A rows ok i d) (db (a_deleteMany A m ws))"
proof (rule db_path)
  fix s x t assume ok: "ok s" and run: "a_deleteMany A m ws s = (x, t)"
  from deleteMany_frame[OF ok run] token_step.elsewhere[of ok t rows s A i] token_step.removed[of A ws s x t rows ok i] run
  show "ok t \<and> (t = s \<or> token_step A rows ok i s t)"
    by (cases "m = oauthRefreshToken_model") auto
qed

lemmas path_rules = find_path findMany_path replay_path create_elsewhere_path delete_path keeps_intros keeps_sum keeps_beside

lemma policy_path:
  assumes A: "ic_adapter ctx = A"
  shows "keeps (token_path A rows ok i d) (resolveResourcePolicy ctx opts resource clientId scopes)"
proof -
  have "keeps (token_path A rows ok i d) (resolve_resources ctx opts is)" for "is"
  proof (induction "is")
    case Nil
    show ?case by (simp only: resolve_resources.simps keeps_return)
  next
    case (Cons i "is")
    show ?case unfolding resolve_resources.simps getResource_def A by (intro path_rules Cons)
  qed
  then show ?thesis
    unfolding resolveResourcePolicy_def assertClientLinkedToResources_def A by (intro path_rules)
qed

lemma issuance_path:
  assumes A: "ic_adapter ctx = A"
  shows "keeps (token_path A rows ok i d) (resolveResourceGrantIssuance ctx opts p iat e)"
  unfolding resolveResourceGrantIssuance_def Let_def by (intro path_rules policy_path[OF A])

lemma refresh_path:
  assumes A: "ic_adapter ctx = A" and new: "new_ids A ok i"
  shows "keeps (token_path A rows ok i d) (createRefreshToken ctx opts cr clk rq p g iat c claims)"
proof -
  obtain j e up where up: "rotation_update opts clk iat = (''revoked'', DateV j e) # up"
    "set (map fst up) \<subseteq> set rotation_fields" using rotation_update_shape by blast
  have "get_field (refresh_row p g c claims st ca ea) ''id'' = Undef" for st ca ea
    by (simp add: refresh_row_def get_field_def)
  then show ?thesis
    unfolding createRefreshToken_def Let_def A up(1) by (intro path_rules rotate_path up(2) create_path new)
qed

lemma access_path:
  assumes A: "ic_adapter ctx = A"
  shows "keeps (token_path A rows ok i d) (createOpaqueAccessToken ctx opts cr clk rq p g iat c claims refreshId)"
  unfolding createOpaqueAccessToken_def A by (intro path_rules) simp

lemma store_replay_path:
  assumes A: "ic_adapter ctx = A"
  shows "keeps (token_path A rows ok i d) (storeRotationReplay ctx opts rq r request response)"
  unfolding storeRotationReplay_def A by (intro path_rules)

lemma binding_path:
  assumes "\<And>j. keeps (token_path A rows ok i d) (or_verifyDpop rq j)"
  shows "keeps (token_path A rows ok i d) (resolveDpopTokenBinding rq p g)"
  unfolding resolveDpopTokenBinding_def Let_def by (intro path_rules assms)

lemma issue_path:
  assumes "ic_adapter ctx = A" and "new_ids A ok i"
  shows "keeps (token_path A rows ok i d) (issue_tokens ctx opts cr clk rq p g iat c)"
  unfolding issue_tokens_def Let_def by (intro path_rules refresh_path[OF assms] access_path[OF assms(1)])

lemma remember_path:
  assumes "ic_adapter ctx = A"
  shows "keeps (token_path A rows ok i d) (remember_rotation ctx opts rq p g c refreshed response)"
  unfolding remember_rotation_def prod.case by (intro path_rules store_replay_path[OF assms])

text \<open>Issuing tokens, revoking a token and ending a family are writes of the machine.\<close>

lemma create_tokens_path:
  assumes "ic_adapter ctx = A" and "new_ids A ok i" and "\<And>j. keeps (token_path A rows ok i d) (or_verifyDpop rq j)"
  shows "keeps (token_path A rows ok i d) (createUserTokens ctx opts cr clk rq p)"
  unfolding createUserTokens_def Let_def
  by (intro path_rules issuance_path[OF assms(1)] binding_path[OF assms(3)] issue_path[OF assms(1,2)]
      remember_path[OF assms(1)])

lemma family_path:
  assumes A: "ic_adapter ctx = A"
  shows "keeps (token_path A rows ok i d) (invalidateRefreshFamily ctx clientId userId)"
  unfolding invalidateRefreshFamily_def Let_def A by (intro path_rules)

lemma revoke_path:
  assumes A: "ic_adapter ctx = A"
  shows "keeps (token_path A rows ok i d) (revokeRefreshToken ctx opts cr clk token clientId)"
  unfolding revokeRefreshToken_def Let_def A revoke_rotate date_s_def
  by (intro path_rules family_path[OF A] rotate_path) simp

text \<open>Issuing a refresh token in place of token \<open>i\<close> succeeds only while it is not spent, and spends it.\<close>

lemma kept_life:
  assumes "keeps (token_path A rows ok i (rq_db s)) m" and "m s = (x, t)" and life: "token_life rows ok i b (rq_db s)"
  shows "token_life rows ok i b (rq_db t)"
proof -
  have "token_path A rows ok i (rq_db s) s" using life by (simp add: token_path_def token_life_def)
  from keepsD[OF assms(1) this assms(2)] token_steps_life[OF _ life] show ?thesis by (simp add: token_path_def)
qed

lemma refresh_wins:
  assumes A: "ic_adapter ctx = A" and new: "new_ids A ok i" and life: "token_life rows ok i b (rq_db s)"
    and r: "ti_refreshToken p = Some r" "get_field r ''id'' = Str i" "i \<noteq> []"
    and run: "createRefreshToken ctx opts cr clk rq p g iat c claims s = (Inr y, t)"
  shows "\<not> b \<and> token_life rows ok i True (rq_db t)"
proof -
  let ?new = "\<lambda>st. refresh_row p g c claims st (date_s clk 4 iat) (date_s clk 5 (gi_refreshExpires g))"
  from run r obtain st won s1 q where
    won: "db (rotate_op A (Str i) (rotation_update opts clk iat)) s = (Inr (Some won), s1)"
    and created: "db (a_create A oauthRefreshToken_model (?new st)) s1 = (Inr q, t)"
    by (auto simp: createRefreshToken_def Let_def A bindA_Inr_iff split: if_splits option.splits)
  obtain j e up where up: "rotation_update opts clk iat = (''revoked'', DateV j e) # up"
    "set (map fst up) \<subseteq> set rotation_fields" using rotation_update_shape by blast
  obtain x d where m: "rotate_op A (Str i) (rotation_update opts clk iat) (rq_db s) = (x, d)" by force
  with won db_run[of "rotate_op A (Str i) (rotation_update opts clk iat)" s x d]
  have x: "x = Inr (Some won)" and s1: "rq_db s1 = d" by auto
  have ok: "ok (rq_db s)" and few: "spent b (rows_with_id i (rows (rq_db s) oauthRefreshToken_model))"
    using life by (simp_all add: token_life_def)
  from rotate_rows(2)[OF ok m[unfolded up(1)] up(2) few refl x] increment_frame[OF ok m[unfolded rotate_op_def]]
  have "\<not> b" and one: "token_life rows ok i True (rq_db s1)" by (simp_all add: token_life_def s1)
  have "get_field (?new st) ''id'' = Undef" by (simp add: refresh_row_def get_field_def)
  from kept_life[OF create_path[OF new this] created one] \<open>\<not> b\<close> show ?thesis by blast
qed

lemma issue_wins:
  assumes A: "ic_adapter ctx = A" and new: "new_ids A ok i" and life: "token_life rows ok i b (rq_db s)"
    and r: "ti_refreshToken p = Some r" "get_field r ''id'' = Str i" "i \<noteq> []" and may: "may_refresh p"
    and run: "issue_tokens ctx opts cr clk rq p g iat c s = (Inr y, t)"
  shows "\<not> b \<and> token_life rows ok i True (rq_db t)"
proof -
  let ?refresh = "createRefreshToken ctx opts cr clk rq p g iat c (issue_claims p)"
  note wins = refresh_wins[OF A new life r]
  have opaque: ?thesis
    if "bindA ?refresh (\<lambda>r. createOpaqueAccessToken ctx opts cr clk rq p g iat c (issue_claims p) (fst r)) s = (Inr z, t)" for z
  proof -
    from that obtain r' s1 where a: "?refresh s = (Inr r', s1)"
      "createOpaqueAccessToken ctx opts cr clk rq p g iat c (issue_claims p) (fst r') s1 = (Inr z, t)"
      by (auto simp: bindA_Inr_iff)
    from wins[OF a(1)] kept_life[OF access_path[OF A] a(2)] show ?thesis by blast
  qed
  show ?thesis
  proof (cases "\<exists>aud. gi_audience g = Some aud \<and> \<not> oo_disableJwtPlugin opts")
    case True
    with run may obtain r' where "?refresh s = (Inr r', t)"
      by (auto simp: issue_tokens_def Let_def bindA_Inr_iff beside_def bindR_Inr_iff split: prod.splits)
    with wins show ?thesis by blast
  next
    case False
    with run may obtain z where
      "bindA ?refresh (\<lambda>r. createOpaqueAccessToken ctx opts cr clk rq p g iat c (issue_claims p) (fst r)) s = (Inr z, t)"
      by (auto simp: issue_tokens_def Let_def bindA_Inr_iff split: option.splits)
    then show ?thesis by (rule opaque)
  qed
qed

lemma create_tokens_win:
  assumes A: "ic_adapter ctx = A" and new: "new_ids A ok i" and life: "token_life rows ok i b (rq_db s)"
    and dpop: "\<And>d j. keeps (token_path A rows ok i d) (or_verifyDpop rq j)"
    and r: "ti_refreshToken p = Some r" "get_field r ''id'' = Str i" "i \<noteq> []" and may: "may_refresh p"
    and run: "createUserTokens ctx opts cr clk rq p s = (Inr y, t)"
  shows "\<not> b \<and> token_life rows ok i True (rq_db t)"
proof -
  from run obtain e g s1 c s2 tokens s3 s4 f where
    g: "resolveResourceGrantIssuance ctx opts p (secs clk 0) e s = (Inr g, s1)"
    and c: "resolveDpopTokenBinding rq p g s1 = (Inr c, s2)"
    and issued: "issue_tokens ctx opts cr clk rq p g (secs clk 0) c s2 = (Inr tokens, s3)"
    and rest: "remember_rotation ctx opts rq p g c (snd tokens) f s3 = (Inr s4, t)"
    by (auto simp: createUserTokens_def Let_def bindA_Inr_iff returnA_def)
  have "token_life rows ok i b (rq_db s2)"
    using kept_life[OF binding_path[OF dpop] c kept_life[OF issuance_path[OF A] g life]] .
  from issue_wins[OF A new this r may issued] have "\<not> b" and won: "token_life rows ok i True (rq_db s3)" by blast+
  have "token_life rows ok i True (rq_db t)"
    by (rule kept_life[OF remember_path[OF A] rest won])
  with \<open>\<not> b\<close> show ?thesis ..
qed

end

end
