(* ===== verification/OAuthReuse.thy ===== *)
theory OAuthReuse
  imports OAuthClaims OAuthRuns
begin

text \<open>
  What becomes of a refresh token that is used again: a rotation is won once, however the
  requests interleave; a retry is answered with the stored response only for the same
  request; and any other reuse ends the family of the token.
\<close>

section \<open>Rotation\<close>

text \<open>The rows the provider inserts carry no id: the memory adapter leaves them so or numbers them.\<close>

lemma mem_new_ids: "new_ids (mem_adapter cfg) wf_db i"
  unfolding new_ids_def
proof (intro allI impI, elim conjE)
  fix r s q t
  assume "wf_db s" and none: "get_field r ''id'' = Undef"
    and "a_create (mem_adapter cfg) oauthRefreshToken_model r s = (Inr q, t)"
  then have "mem_create cfg oauthRefreshToken_model r s = (Inr q, t)" by simp
  from mem_create_cases[OF \<open>wf_db s\<close> this] none show "get_field q ''id'' \<noteq> Str i"
    by cases (auto simp: row_simps)
qed

text \<open>The proof of a key writes its replay record, and leaves the refresh tokens alone.\<close>

definition dpop_apart :: "mem_config \<Rightarrow> string \<Rightarrow> (memdb, 'q) oauth_request \<Rightarrow> bool" where
  "dpop_apart cfg i rq \<longleftrightarrow> (\<forall>d j. keeps (token_path (mem_adapter cfg) mem_rows wf_db i d) (or_verifyDpop rq j))"

text \<open>
  C23. A refresh token is rotated once. If one request has been answered with the successor of
  a refresh token, then after any interleaving of the writes of other requests a second
  request that read the same token before it was revoked is answered with an error: it gets
  no successor. What the second request writes is again a sequence of writes of the machine,
  and no row of the token is left unrevoked.
\<close>

theorem refresh_token_rotates_once:
  fixes s t u w :: "(memdb, 'q) stores req"
  assumes "memory_ctx ctx cfg" and "memory_ctx ctx' cfg" and "wf_db (rq_db s)"
    and "rows_with_id i (mem_rows (rq_db s) oauthRefreshToken_model) = [q]" and "i \<noteq> []"
    and "ti_refreshToken p = Some r" and "get_field r ''id'' = Str i" and "may_refresh p"
    and "ti_refreshToken p' = Some r'" and "get_field r' ''id'' = Str i" and "may_refresh p'"
    and "dpop_apart cfg i rq" and "dpop_apart cfg i rq'"
    and "createUserTokens ctx opts cr clk rq p s = (Inr y, t)"
    and "token_steps (mem_adapter cfg) mem_rows wf_db i (rq_db t) (rq_db u)"
    and "createUserTokens ctx' opts' cr' clk' rq' p' u = (x, w)"
  shows "isl x \<and> token_steps (mem_adapter cfg) mem_rows wf_db i (rq_db u) (rq_db w) \<and>
    list_all (\<lambda>q. \<not> nullish (get_field q ''revoked'')) (rows_with_id i (mem_rows (rq_db w) oauthRefreshToken_model))"
proof -
  let ?A = "mem_adapter cfg"
  note A = assms(1,2)[unfolded memory_ctx_def, THEN conjunct1]
  have dpop: "keeps (token_path ?A mem_rows wf_db i d) (or_verifyDpop rq j)"
    "keeps (token_path ?A mem_rows wf_db i d) (or_verifyDpop rq' j)" for d j
    using assms(12,13) by (simp_all add: dpop_apart_def)
  have "token_life mem_rows wf_db i False (rq_db s)"
    using assms(3,4) by (simp add: token_life_def spent_def)
  with memw.create_tokens_win[OF A(1) mem_new_ids _ dpop(1) assms(6,7,5,8,14)]
  have "token_life mem_rows wf_db i True (rq_db t)" by blast
  then have life: "token_life mem_rows wf_db i True (rq_db u)"
    by (rule memw.token_steps_life[OF assms(15)])
  have "isl x"
  proof (rule ccontr)
    assume "\<not> isl x"
    with assms(16) obtain z where "createUserTokens ctx' opts' cr' clk' rq' p' u = (Inr z, w)" by (cases x) auto
    with memw.create_tokens_win[OF A(2) mem_new_ids life dpop(2) assms(9,10,5,11)] show False by blast
  qed
  have "token_path ?A mem_rows wf_db i (rq_db u) u" using life by (simp add: token_path_def token_life_def)
  from keepsD[OF memw.create_tokens_path[OF A(2) mem_new_ids dpop(2)] this assms(16)]
  have "token_path ?A mem_rows wf_db i (rq_db u) w" .
  then have steps: "token_steps ?A mem_rows wf_db i (rq_db u) (rq_db w)" by (simp add: token_path_def)
  with memw.token_steps_life[OF steps life] \<open>isl x\<close> show ?thesis by (auto simp: token_life_def spent_def)
qed

text \<open>Two requests that both read the token before either one rotated it.\<close>

definition oa_issue :: token_issue where
  "oa_issue = refresh_issue oa_ctx oa_request oa_client (Some [(''id'', Str ''u1'')]) (oa_token ''t1'' ''#r1'' Null)"

lemma oa_memory: "memory_ctx oa_ctx demo_cfg"
  by (simp add: oa_ctx_def memory_ctx_def demo_ictx_def demo_cfg_def)

lemma oa_dpop: "dpop_apart demo_cfg i oa_request"
  by (simp add: dpop_apart_def oa_request_def keeps_return)

theorem refresh_token_rotates_once_witness:
  "\<exists>y t e w. createUserTokens oa_ctx oa_opts oa_crypto (\<lambda>_. (0, 5000)) oa_request oa_issue
       (oa_state [(5, oa_token ''t1'' ''#r1'' Null)] []) = (Inr y, t) \<and>
     createUserTokens oa_ctx oa_opts oa_crypto (\<lambda>_. (0, 6000)) oa_request oa_issue t = (Inl e, w)"
proof -
  let ?s = "oa_state [(5, oa_token ''t1'' ''#r1'' Null)] []"
  let ?run = "createUserTokens oa_ctx oa_opts oa_crypto (\<lambda>_. (0, 5000)) oa_request oa_issue ?s"
  have "\<not> isl (fst ?run)" by code_simp
  then obtain y t where run: "?run = (Inr y, t)" by (cases ?run; cases "fst ?run") auto
  obtain x w where again: "createUserTokens oa_ctx oa_opts oa_crypto (\<lambda>_. (0, 6000)) oa_request oa_issue t = (x, w)" by force
  have wf: "wf_db (rq_db ?s)" by (simp add: oa_state_def oa_db_def wf_db_def table_of_def)
  have rows: "rows_with_id ''t1'' (mem_rows (rq_db ?s) oauthRefreshToken_model) = [oa_token ''t1'' ''#r1'' Null]" by code_simp
  have may: "may_refresh oa_issue" by code_simp
  have token: "ti_refreshToken oa_issue = Some (oa_token ''t1'' ''#r1'' Null)"
    "get_field (oa_token ''t1'' ''#r1'' Null) ''id'' = Str ''t1''"
    by (simp_all add: oa_issue_def refresh_issue_def oa_token_def)
  from refresh_token_rotates_once[OF oa_memory oa_memory wf rows _ token may token may oa_dpop oa_dpop run rtranclp.rtrancl_refl again]
  have "isl x" by simp
  with run again show ?thesis by (cases x) auto
qed

section \<open>Retries\<close>

lemma same_normalized: "sameReplayValues left right \<longleftrightarrow> normalizeReplayValues left = normalizeReplayValues right"
  by (auto simp: sameReplayValues_def list_all2_eq[symmetric] split: option.split)

lemma normalized_eq: "normalizeReplayValues left = normalizeReplayValues right \<longleftrightarrow> map_option set left = map_option set right"
  by (cases left; cases right) (simp_all add: normalizeReplayValues_def sort_unique_eq)

text \<open>
  C26. A retry is recognised by the sets it asks for. Two lists of scopes or of resources are
  the same request exactly when they hold the same values, whatever their order and their
  repetitions; a request without a list differs from every request with one, the empty one
  included.
\<close>

theorem same_replay_values:
  "sameReplayValues left right \<longleftrightarrow> map_option set left = map_option set right"
  by (simp add: same_normalized normalized_eq)

section \<open>The end of a family\<close>

definition in_family :: "string \<Rightarrow> string \<Rightarrow> row \<Rightarrow> bool" where
  "in_family clientId userId r \<longleftrightarrow> get_field r ''clientId'' = Str clientId \<and> get_field r ''userId'' = Str userId"

lemma mem_sat_in:
  "mem_sat cfg [wh f Op_in (Arr vs)] r = Inr (list_ex (strict_eq (get_field r f)) vs)"
  by (simp add: mem_sat_def matches_where_def evalClause_def)

lemma mem_deleteMany_total:
  assumes wf: "wf_db d" and tab: "tables d m \<noteq> None" and sat: "\<And>r. mem_sat cfg ws r = Inr (P r)"
  obtains n t where "mem_deleteMany cfg m ws d = (Inr n, t)" "wf_db t"
    "\<And>m'. mem_rows t m' = (if m' = m then filter (\<lambda>r. \<not> P r) (mem_rows d m) else mem_rows d m')"
    "\<And>m'. tables d m' \<noteq> None \<Longrightarrow> tables t m' \<noteq> None"
proof -
  from tab obtain os where os: "tables d m = Some os" by auto
  have "matching_objs cfg d m ws = Inr (filter (\<lambda>ob. P (obj_row ob)) os)"
    using sat unfolding matching_objs_def os option.case by (intro filterR_total) (simp add: mem_sat_def)
  then obtain n t where run: "mem_deleteMany cfg m ws d = (Inr n, t)"
    and t: "\<exists>os'. t = set_table d m os'" by (auto simp: mem_deleteMany_def)
  from mem_deleteMany_cases[OF wf run] that[OF run] sat t show thesis
    by cases auto
qed

lemma find_family:
  assumes "tables (rq_db s) oauthRefreshToken_model \<noteq> None" and "0 \<le> n"
  shows "db (a_findMany (default_limit n (mem_adapter cfg)) oauthRefreshToken_model (family i (Str u)) None None None) s =
    (Inr (take (nat n) (filter (in_family i u) (mem_rows (rq_db s) oauthRefreshToken_model))), s)"
proof -
  from assms(1) obtain os where os: "tables (rq_db s) oauthRefreshToken_model = Some os" by auto
  have "matching_objs cfg (rq_db s) oauthRefreshToken_model (family i (Str u)) =
      Inr (filter (\<lambda>ob. in_family i u (obj_row ob)) os)"
    using matching_objs_simple[OF os, of "family i (Str u)" cfg] by (simp add: family_def in_family_def)
  then have "a_findMany (default_limit n (mem_adapter cfg)) oauthRefreshToken_model (family i (Str u)) None None None (rq_db s) =
      (Inr (take (nat n) (filter (in_family i u) (mem_rows (rq_db s) oauthRefreshToken_model))), rq_db s)"
    using assms(2) by (simp add: default_limit_def mem_findMany_app sort_nested_def paginate_def slice_upto_def Let_def
        mem_rows_def table_of_def os filter_map comp_def take_map)
  with db_run[of "a_findMany (default_limit n (mem_adapter cfg)) oauthRefreshToken_model (family i (Str u)) None None None" s]
  show ?thesis by simp
qed

text \<open>The family goes, with the access tokens of the refresh tokens that \<open>findMany\<close> returned.\<close>

lemma family_ends:
  assumes A: "ic_adapter ctx = default_limit n (mem_adapter cfg)" and n: "0 \<le> n" and wf: "wf_db (rq_db s)"
    and tab: "tables (rq_db s) oauthRefreshToken_model \<noteq> None" "tables (rq_db s) oauthAccessToken_model \<noteq> None"
  obtains t where "invalidateRefreshFamily ctx i (Str u) s = (Inr (), t)"
    "mem_rows (rq_db t) oauthRefreshToken_model =
       filter (\<lambda>q. \<not> in_family i u q) (mem_rows (rq_db s) oauthRefreshToken_model)"
    "mem_rows (rq_db t) oauthAccessToken_model =
       filter (\<lambda>a. \<not> list_ex (\<lambda>q. strict_eq (get_field a ''refreshId'') (get_field q ''id''))
           (take (nat n) (filter (in_family i u) (mem_rows (rq_db s) oauthRefreshToken_model))))
         (mem_rows (rq_db s) oauthAccessToken_model)"
proof -
  let ?B = "mem_adapter cfg" and ?found = "take (nat n) (filter (in_family i u) (mem_rows (rq_db s) oauthRefreshToken_model))"
  have del: "a_deleteMany (ic_adapter ctx) = mem_deleteMany cfg" by (simp add: A default_limit_def)
  have find: "db (a_findMany (ic_adapter ctx) oauthRefreshToken_model (family i (Str u)) None None None) s = (Inr ?found, s)"
    unfolding A by (rule find_family[OF tab(1) n])
  let ?ids = "[wh ''refreshId'' Op_in (Arr (map (\<lambda>r. get_field r ''id'') ?found))]"
  let ?hit = "\<lambda>a. list_ex (\<lambda>q. strict_eq (get_field a ''refreshId'') (get_field q ''id'')) ?found"
  have "\<exists>k s1. (if ?found = [] then returnA 0 else db (a_deleteMany (ic_adapter ctx) oauthAccessToken_model ?ids)) s = (Inr k, s1) \<and>
      wf_db (rq_db s1) \<and> tables (rq_db s1) oauthRefreshToken_model \<noteq> None \<and>
      mem_rows (rq_db s1) oauthAccessToken_model = filter (\<lambda>a. \<not> ?hit a) (mem_rows (rq_db s) oauthAccessToken_model) \<and>
      mem_rows (rq_db s1) oauthRefreshToken_model = mem_rows (rq_db s) oauthRefreshToken_model"
  proof (cases "?found = []")
    case True
    with wf tab(1) show ?thesis by (intro exI[of _ 0] exI[of _ s]) (simp del: take_eq_Nil)
  next
    case False
    have sat: "mem_sat cfg ?ids a = Inr (?hit a)" for a by (simp add: mem_sat_in list_ex_iff)
    obtain k d where "mem_deleteMany cfg oauthAccessToken_model ?ids (rq_db s) = (Inr k, d)" "wf_db d"
      "\<And>m'. mem_rows d m' = (if m' = oauthAccessToken_model
         then filter (\<lambda>a. \<not> ?hit a) (mem_rows (rq_db s) oauthAccessToken_model) else mem_rows (rq_db s) m')"
      "\<And>m'. tables (rq_db s) m' \<noteq> None \<Longrightarrow> tables d m' \<noteq> None"
      by (rule mem_deleteMany_total[OF wf tab(2) sat]) blast
    with False tab(1) db_run[of "mem_deleteMany cfg oauthAccessToken_model ?ids" s "Inr k" d] show ?thesis
      by (intro exI[of _ k] exI[of _ "with_db d s"]) (simp add: del del: take_eq_Nil)
  qed
  then obtain k s1 where one: "(if ?found = [] then returnA 0
        else db (a_deleteMany (ic_adapter ctx) oauthAccessToken_model ?ids)) s = (Inr k, s1)"
    and s1: "wf_db (rq_db s1)" "tables (rq_db s1) oauthRefreshToken_model \<noteq> None"
      "mem_rows (rq_db s1) oauthAccessToken_model = filter (\<lambda>a. \<not> ?hit a) (mem_rows (rq_db s) oauthAccessToken_model)"
      "mem_rows (rq_db s1) oauthRefreshToken_model = mem_rows (rq_db s) oauthRefreshToken_model" by blast
  have fam: "mem_sat cfg (family i (Str u)) r = Inr (in_family i u r)" for r
    by (simp add: family_def in_family_def mem_sat_simple)
  obtain m d where two: "mem_deleteMany cfg oauthRefreshToken_model (family i (Str u)) (rq_db s1) = (Inr m, d)"
    and d: "\<And>m'. mem_rows d m' = (if m' = oauthRefreshToken_model
       then filter (\<lambda>r. \<not> in_family i u r) (mem_rows (rq_db s1) oauthRefreshToken_model) else mem_rows (rq_db s1) m')"
    by (rule mem_deleteMany_total[OF s1(1,2) fam]) blast
  have "invalidateRefreshFamily ctx i (Str u) s = (Inr (), with_db d s1)"
    using find one two db_run[of "mem_deleteMany cfg oauthRefreshToken_model (family i (Str u))" s1 "Inr m" d]
    by (simp add: invalidateRefreshFamily_def Let_def bindA_def del del: take_eq_Nil)
  then show thesis by (rule that) (simp_all add: d s1)
qed

text \<open>
  C24. Reuse ends the family. A refresh token of the request's client that was revoked, and
  that is presented outside the reuse interval, is answered with \<open>invalid_grant\<close> once its client
  is authenticated; exactly the refresh tokens of that client and user are deleted; and of the
  access tokens, exactly those that came with one of the refresh tokens that \<open>findMany\<close> returned,
  the first \<open>n\<close> of the family: the ones of a larger family stay.
\<close>

theorem reuse_ends_the_family:
  assumes "ic_adapter ctx = default_limit n (mem_adapter cfg)" and "0 \<le> n" and "wf_db (rq_db s2)"
    and "tables (rq_db s2) oauthRefreshToken_model \<noteq> None" and "tables (rq_db s2) oauthAccessToken_model \<noteq> None"
    and "fst (destructureCredentials (or_credentials rq)) = clientId" and "clientId \<noteq> []" and "or_refresh_token rq \<noteq> []"
    and "find_refresh ctx opts cr (or_refresh_token rq) s = (Inr r, s1)"
    and "refresh_client ctx opts cr (date_at clk 0) rq (destructureCredentials (or_credentials rq)) r s1 = (Inr client, s2)"
    and "truthy (get_field r ''revoked'')" and "get_field r ''userId'' = Str userId"
    and "\<not> isWithinReuseInterval (ic_host ctx) (date_at clk 1) r"
  shows "\<exists>t. handleRefreshTokenGrant ctx opts cr clk rq s = (Inl (oauth_error ''invalid_grant''), t) \<and>
    mem_rows (rq_db t) oauthRefreshToken_model =
      filter (\<lambda>q. \<not> in_family clientId userId q) (mem_rows (rq_db s2) oauthRefreshToken_model) \<and>
    mem_rows (rq_db t) oauthAccessToken_model =
      filter (\<lambda>a. \<not> list_ex (\<lambda>q. strict_eq (get_field a ''refreshId'') (get_field q ''id''))
          (take (nat n) (filter (in_family clientId userId) (mem_rows (rq_db s2) oauthRefreshToken_model))))
        (mem_rows (rq_db s2) oauthAccessToken_model)"
proof -
  obtain t where t: "invalidateRefreshFamily ctx clientId (Str userId) s2 = (Inr (), t)"
    "mem_rows (rq_db t) oauthRefreshToken_model =
       filter (\<lambda>q. \<not> in_family clientId userId q) (mem_rows (rq_db s2) oauthRefreshToken_model)"
    "mem_rows (rq_db t) oauthAccessToken_model =
      filter (\<lambda>a. \<not> list_ex (\<lambda>q. strict_eq (get_field a ''refreshId'') (get_field q ''id''))
          (take (nat n) (filter (in_family clientId userId) (mem_rows (rq_db s2) oauthRefreshToken_model))))
        (mem_rows (rq_db s2) oauthAccessToken_model)"
    by (rule family_ends[OF assms(1-5)])
  have "date_at (\<lambda>i. clk (i + 1)) 0 = date_at clk 1" by (simp add: date_at_def)
  with t(1) assms(12,13) have "reused_token ctx opts (\<lambda>i. clk (i + 1)) rq clientId client r s2 =
      (Inl (oauth_error ''invalid_grant''), t)"
    by (simp add: reused_token_def bindA_def)
  with assms(6-11) have "handleRefreshTokenGrant ctx opts cr clk rq s = (Inl (oauth_error ''invalid_grant''), t)"
    by (simp add: handleRefreshTokenGrant_def Let_def bindA_def)
  with t show ?thesis by blast
qed

text \<open>A family of two with a limit of one: the access token of the second stays.\<close>

definition limited_ctx :: "(memdb, cached entries) ictx" where
  "limited_ctx = oa_ctx\<lparr>ic_adapter := default_limit 1 (mem_adapter demo_cfg)\<rparr>"

definition reused_state :: "(memdb, cached entries) stores req" where
  "reused_state = oa_state [(5, oa_token ''t1'' ''#r1'' (DateV 0 1000)), (6, oa_token ''t2'' ''#r2'' Null)]
     [(7, [(''id'', Str ''a1''), (''refreshId'', Str ''t1'')]), (8, [(''id'', Str ''a2''), (''refreshId'', Str ''t2'')])]"

lemma oa_wf:
  assumes "distinct (map obj_ref refresh)" "\<forall>ob \<in> set refresh. obj_ref ob < 9"
    and "distinct (map obj_ref access)" "\<forall>ob \<in> set access. obj_ref ob < 9"
  shows "wf_db (rq_db (oa_state refresh access))"
proof -
  have small: "\<forall>a. (\<exists>b. (a, b) \<in> set refresh) \<longrightarrow> a < 9" "\<forall>a. (\<exists>b. (a, b) \<in> set access) \<longrightarrow> a < 9"
    using assms(2,4) by (metis fst_conv)+
  show ?thesis
    by (simp add: oa_state_def oa_db_def wf_db_def table_of_def assms(1,3) small)
qed

lemma limited_find: "keeps (\<lambda>s. s = (s0 :: (memdb, cached entries) stores req)) (db (a_findOne (ic_adapter limited_ctx) m ws))"
proof
  fix s :: "(memdb, cached entries) stores req"
  assume "s = s0"
  obtain x d where run: "a_findOne (mem_adapter demo_cfg) m ws (rq_db s) = (x, d)" by force
  with mem_findOne_cases(1)[OF run] db_run[of "a_findOne (mem_adapter demo_cfg) m ws" s x d] \<open>s = s0\<close>
  show "snd (db (a_findOne (ic_adapter limited_ctx) m ws) s) = s0"
    by (simp add: limited_ctx_def default_limit_def)
qed

lemma limited_reads:
  "keeps (\<lambda>s. s = s0) (find_refresh limited_ctx oa_opts oa_crypto token)"
  "keeps (\<lambda>s. s = s0) (refresh_client limited_ctx oa_opts oa_crypto now rq cred r)"
proof -
  show "keeps (\<lambda>s. s = s0) (find_refresh limited_ctx oa_opts oa_crypto token)"
    unfolding find_refresh_def by (intro keeps_intros limited_find)
  have found: "keeps (\<lambda>s. s = s0) (found_client oa_opts i c)" for i c
    by (cases c) (simp_all add: found_client_def oa_opts_def)
  have "keeps (\<lambda>s. s = s0) (getClient limited_ctx oa_opts i)" for i
    unfolding getClient_def by (intro keeps_intros limited_find found)
  moreover have "keeps (\<lambda>s. s = s0) (authorizeOAuthClient oa_opts c g)" for c g
    unfolding authorizeOAuthClient_def by (simp add: oa_opts_def keeps_return)
  ultimately show "keeps (\<lambda>s. s = s0) (refresh_client limited_ctx oa_opts oa_crypto now rq cred r)"
    unfolding refresh_client_def validateClientCredentials_def Let_def by (intro keeps_intros)
qed

theorem reuse_ends_the_family_witness:
  "\<exists>t. handleRefreshTokenGrant limited_ctx oa_opts oa_crypto (\<lambda>_. (0, 5000)) oa_request reused_state =
       (Inl (oauth_error ''invalid_grant''), t) \<and>
     mem_rows (rq_db t) oauthRefreshToken_model = [] \<and>
     mem_rows (rq_db t) oauthAccessToken_model = [[(''id'', Str ''a2''), (''refreshId'', Str ''t2'')]]"
proof -
  let ?s = reused_state and ?clk = "\<lambda>_. (0, 5000)" and ?cred = "destructureCredentials (or_credentials oa_request)"
  let ?r = "oa_token ''t1'' ''#r1'' (DateV 0 1000)"
  obtain x s1 where find: "find_refresh limited_ctx oa_opts oa_crypto (or_refresh_token oa_request) ?s = (x, s1)" by force
  have "fst (find_refresh limited_ctx oa_opts oa_crypto (or_refresh_token oa_request) ?s) = Inr ?r" by code_simp
  with find keepsD[OF limited_reads(1) refl find] have x: "x = Inr ?r" "s1 = ?s" by simp_all
  obtain y s2 where client: "refresh_client limited_ctx oa_opts oa_crypto (date_at ?clk 0) oa_request ?cred ?r ?s = (y, s2)" by force
  have "\<not> isl (fst (refresh_client limited_ctx oa_opts oa_crypto (date_at ?clk 0) oa_request ?cred ?r ?s))" by code_simp
  with client keepsD[OF limited_reads(2) refl client] obtain c where y: "y = Inr c" "s2 = ?s" by (cases y) simp_all
  have adapter: "ic_adapter limited_ctx = default_limit 1 (mem_adapter demo_cfg)" by (simp add: limited_ctx_def)
  have wf: "wf_db (rq_db ?s)" unfolding reused_state_def by (rule oa_wf) simp_all
  have rows: "mem_rows (rq_db ?s) oauthRefreshToken_model = [?r, oa_token ''t2'' ''#r2'' Null]"
    "mem_rows (rq_db ?s) oauthAccessToken_model = [[(''id'', Str ''a1''), (''refreshId'', Str ''t1'')],
       [(''id'', Str ''a2''), (''refreshId'', Str ''t2'')]]"
    by (simp_all add: reused_state_def oa_state_def oa_db_def mem_rows_def table_of_def)
  have fields: "fst ?cred = ''app''" "or_refresh_token oa_request \<noteq> []" "truthy (get_field ?r ''revoked'')"
    "get_field ?r ''userId'' = Str ''u1''" "\<not> isWithinReuseInterval (ic_host limited_ctx) (date_at ?clk 1) ?r"
    "tables (rq_db ?s) oauthRefreshToken_model \<noteq> None" "tables (rq_db ?s) oauthAccessToken_model \<noteq> None"
    by (simp_all add: oa_request_def oa_token_def isWithinReuseInterval_def reused_state_def oa_state_def oa_db_def)
  from reuse_ends_the_family[OF adapter _ wf fields(6,7,1) _ fields(2) find[unfolded x] client[unfolded y] fields(3,4,5)]
  obtain t where "handleRefreshTokenGrant limited_ctx oa_opts oa_crypto ?clk oa_request ?s = (Inl (oauth_error ''invalid_grant''), t)"
    "mem_rows (rq_db t) oauthRefreshToken_model =
      filter (\<lambda>q. \<not> in_family ''app'' ''u1'' q) [?r, oa_token ''t2'' ''#r2'' Null]"
    "mem_rows (rq_db t) oauthAccessToken_model =
      filter (\<lambda>a. \<not> list_ex (\<lambda>q. strict_eq (get_field a ''refreshId'') (get_field q ''id''))
          (take (nat 1) (filter (in_family ''app'' ''u1'') [?r, oa_token ''t2'' ''#r2'' Null])))
        [[(''id'', Str ''a1''), (''refreshId'', Str ''t1'')], [(''id'', Str ''a2''), (''refreshId'', Str ''t2'')]]"
    by (auto simp: rows)
  then show ?thesis by (simp add: in_family_def oa_token_def)
qed

section \<open>A token that is never rotated\<close>

text \<open>
  A refresh token whose scopes lack \<open>offline_access\<close>, as a refresh with a narrower scope issues
  it: each use is answered with an access token, without a successor and without a mark on
  the token, so that a second use is not noticed.
\<close>

definition narrowed_state :: "(memdb, cached entries) stores req" where
  "narrowed_state = oa_state [(5, set_field (oa_token ''t1'' ''#r1'' Null) ''scopes'' (Arr [Str ''email'']))] []"

theorem narrowed_token_works_twice:
  "let run = handleRefreshTokenGrant oa_ctx oa_opts oa_crypto (\<lambda>_. (0, 5000)) oa_request;
       (x, t) = run narrowed_state; (y, u) = run t
   in map_sum (\<lambda>_. ()) tr_refresh_token x = Inr None \<and> map_sum (\<lambda>_. ()) tr_refresh_token y = Inr None \<and>
      mem_rows (rq_db u) oauthRefreshToken_model = mem_rows (rq_db narrowed_state) oauthRefreshToken_model"
  by code_simp

end
