(* ===== verification/Spec2Isabelle.thy ===== *)
theory Spec2Isabelle
  imports Access ApiKeyRouteClaims ApiKeyStoreClaims ApiKeyClaims MemoryTransaction Host RateWindow RateDatabase
    Schema RedisStorage VerificationClaims SessionClaims UserStore DeviceClaims TwoFactorClaims
    OAuthReuse
begin

text \<open>
  CinaAuth is an authentication library in TypeScript: a core of sessions, rate limiting and
  access control, a database behind an adapter interface, and plugins. This development
  models the parts whose correctness rests on state and arithmetic rather than on a
  protocol partner, each group of definitions translated from the file it names, and proves
  what they promise.

  \<^bold>\<open>How the parts fit.\<close> A request is first limited by address and path (\<open>api/rate-limiter\<close>), the
  address coming from a forwarded header behind trusted proxies (\<open>core/src/utils/ip.ts\<close>). An
  API key is looked up (\<open>api-key/src/adapter.ts\<close>), validated and metered
  (\<open>routes/verify-api-key.ts\<close>), its permissions read as a role (\<open>plugins/access/access.ts\<close>).
  Users, accounts, sessions and verification values go through the internal adapter
  (\<open>db/internal-adapter.ts\<close>), which runs the database hooks (\<open>db/with-hooks.ts\<close>) around every
  write and keeps sessions and verification values in a key-value secondary storage when one
  is configured (\<open>redis-storage\<close> is the repository's own). The plugins stand on it: the
  device authorization grant (\<open>plugins/device-authorization\<close>) keeps one row per device code,
  and two-factor authentication (\<open>plugins/two-factor\<close>) keeps the challenge of a sign-in, its
  attempt counter and its one-time codes as verification values, and the secrets and the
  lockout of an account in a row of its own. The OAuth provider (\<open>packages/oauth-provider\<close>) keeps
  an authorization code as a verification value and its access and refresh tokens as rows.
  All of them store their rows through the database adapter, whose guarded \<open>incrementOne\<close> and
  \<open>consumeOne\<close> are what makes counters exact under concurrency; the memory adapter
  (\<open>packages/memory-adapter\<close>) implements it over arrays of objects, with transactions by
  cloning and merging.

  \<^bold>\<open>Theories.\<close>
  \<^item> \<^theory_text>\<open>Prelude\<close>: errors, results (\<open>err + 'a\<close>), state actions and their lemma collections.
  \<^item> \<^theory_text>\<open>JsBase\<close>, \<^theory_text>\<open>JsDate\<close>: JavaScript values, strings, comparisons, rows as property lists, JSON
    and dates. Numbers are unbounded integers: the code counts milliseconds and requests,
    far below 2^53. Strings are lists of 8-bit characters.
  \<^item> \<^theory_text>\<open>Access\<close>: \<open>role(...).authorize\<close>, with its exact set of granted requests.
  \<^item> \<^theory_text>\<open>Adapter\<close>: the adapter interface as a record of actions, and the locales \<open>store\<close>,
    \<open>where_store\<close> and \<open>delete_store\<close> with the laws its clients rely on.
  \<^item> \<^theory_text>\<open>MemoryQuery\<close>, \<^theory_text>\<open>MemoryAdapter\<close>, \<^theory_text>\<open>MemoryTransaction\<close>: the memory adapter. Objects have
    addresses, because the code compares and mutates them by identity. The interpretations
    \<open>mem\<close>, \<open>memw\<close> and \<open>memd\<close> discharge the adapter laws for it. \<^theory_text>\<open>RowRuns\<close> states, once, what
    each of its operations does to the row a client watches.
  \<^item> \<^theory_text>\<open>Schema\<close>: the fields of a model, the parsing of a request body and of a row on its way in
    and out (\<open>db/schema.ts\<close>).
  \<^item> \<^theory_text>\<open>SecondaryStorage\<close>, \<^theory_text>\<open>RedisStorage\<close>: the key-value interface as the locale
    \<open>secondary_storage\<close>, an in-memory storage with expiry, and the Redis storage over a client
    (the locale \<open>redis_client\<close>), each interpreted, \<open>clear\<close> and \<open>listKeys\<close> included.
  \<^item> \<^theory_text>\<open>RequestContext\<close>, \<^theory_text>\<open>WithHooks\<close>, \<^theory_text>\<open>InternalContext\<close>: the asynchronous context of a request
    (its transaction and the actions queued until after it), the database hooks, and the
    configuration of the internal adapter. \<^theory_text>\<open>StoreRuns\<close> runs both on the memory adapter.
  \<^item> \<^theory_text>\<open>VerificationStore\<close>, \<^theory_text>\<open>SessionStore\<close>, \<^theory_text>\<open>UserStore\<close>: the internal adapter's operations on
    verification values, sessions, and users and accounts. \<^theory_text>\<open>SessionCache\<close> abstracts the
    secondary storage to what sessions use of it (locales \<open>session_cache\<close>, \<open>session_only\<close>);
    \<^theory_text>\<open>SessionTracking\<close> proves that every live session is listed for its user; the properties
    are in \<^theory_text>\<open>VerificationClaims\<close> and \<^theory_text>\<open>SessionClaims\<close>.
  \<^item> \<^theory_text>\<open>DeviceAuth\<close>: the endpoints of the device grant; \<^theory_text>\<open>DeviceRuns\<close> follows one device code
    through any interleaving of requests (\<open>device_step\<close>), \<^theory_text>\<open>DeviceClaims\<close> concludes.
  \<^item> \<^theory_text>\<open>TwoFactor\<close>, \<^theory_text>\<open>TwoFactorRoutes\<close>: two-factor authentication, the challenge with its budget, the
    lockout and one-time codes, then authenticator and backup codes, the switches and the
    sign-in hook. \<^theory_text>\<open>TwoFactorAttempts\<close> is the abstract machine of guessing (\<open>attempt_step\<close>) with
    its invariant, and shows that a request is a run of it; \<^theory_text>\<open>TwoFactorLockout\<close> does the same for
    the lockout's writes on the accounts (\<open>lockout_step\<close>); \<^theory_text>\<open>TwoFactorClaims\<close> concludes for the
    endpoints. The counters are followed in a secondary storage; the database mode has the
    same operations, but the model of the memory adapter generates no identifiers.
  \<^item> \<^theory_text>\<open>OAuthClients\<close>, \<^theory_text>\<open>OAuthTokens\<close>, \<^theory_text>\<open>OAuthGrants\<close>: the clients of the OAuth provider and the policy
    of resources, the tokens and their rotation, then the three grants of the token endpoint
    and revocation. \<^theory_text>\<open>OAuthClaims\<close> shows what a grant has checked; \<^theory_text>\<open>OAuthRuns\<close> follows one refresh
    token through any interleaving of writes (\<open>token_step\<close>) and shows that requests are runs of
    it; \<^theory_text>\<open>OAuthReuse\<close> concludes for a refresh token that is used again.
  \<^item> \<^theory_text>\<open>ApiKeyStore\<close>, \<^theory_text>\<open>ApiKeyVerify\<close>, \<^theory_text>\<open>ApiKeyRoutes\<close>: storage, validation and metering, and the
    endpoints of API keys. \<^theory_text>\<open>ApiKeyUsage\<close> is the abstract machine of metering: the guarded
    writes as steps, and the accounting invariant; \<^theory_text>\<open>ApiKeyClaims\<close>, \<^theory_text>\<open>ApiKeyStoreClaims\<close> and
    \<^theory_text>\<open>ApiKeyRouteClaims\<close> hold the properties.
  \<^item> \<^theory_text>\<open>Ip\<close>, \<^theory_text>\<open>Host\<close>: client addresses, CIDR networks, and the classification of hosts, with the
    special-purpose tables stated again on numbers and shown equal to the code.
  \<^item> \<^theory_text>\<open>RateLimiter\<close>: the limiter's decision, its three stores and the rules of a request;
    \<^theory_text>\<open>RateWindow\<close> proves what the memory store guarantees over a run of requests,
    \<^theory_text>\<open>RateDatabase\<close> that the database store decides the same.

  \<^bold>\<open>State and concurrency.\<close> An operation is a function from a state to a result and a state. Each
  adapter call is one atomic step; a handler that awaits between two calls is modelled for
  one request by sequencing them, and the interleaving of requests by step relations
  (\<open>verify_step\<close> for API keys, \<open>device_step\<close> for device codes, \<open>attempt_step\<close> for guesses,
  \<open>lockout_step\<close> for failures, \<open>token_step\<close> for refresh tokens), whose steps are the requests'
  reads and guarded writes and whose invariants hold after any sequence of them. Reading the
  clock is a function of the reading's index, so that two readings may differ. A stored
  entry of the secondary storage is dead from its expiry on; the list of a user's sessions
  is kept to the second, so it may expire up to one second before its last session does.

  \<^bold>\<open>Fuel.\<close> The retry loops of \<open>consumeRateLimit\<close> and of the database limiter take fuel and end in
  \<open>OutOfFuel\<close>. Two rounds are enough for the first without interference (except at the exact
  boundary of a window, where no fuel is), one for the second. The \<open>SCAN\<close> loop of the Redis
  storage takes fuel too; it ends when the client's cursor returns to zero, which the locale
  bounds by the number of batches.

  \<^bold>\<open>Parameters.\<close> The address schemas of zod, the glob matcher of custom rate rules, URL parsing,
  hashing, encryption, the TOTP algorithm, JSON parsing, the random generators, the Redis
  client, the signed cookies a request carries,
  the credentials, JWTs and key proofs of an OAuth request, and user-supplied callbacks
  and hooks are arguments of the definitions that use them.

  \<^bold>\<open>Not modelled.\<close> Request schemas and OpenAPI metadata, logging, setting cookies, a custom key storage,
  the adapter factory that wraps adapters (but for the limit of its \<open>findMany\<close>), the SQL and
  document-store adapters, the authorization, consent, registration, introspection and logout
  endpoints of the OAuth provider, the SCIM, SSO and payment packages, the other plugins, clients, workers, demos and
  documentation: glue over protocols and services whose code is not here, or left to a later
  extension.
\<close>

end
